(* ===== verification/Prelude.thy ===== *)
theory Prelude
  imports Complex_Main
begin

text \<open>
  What the components of the Pernix development share: Python's string operations on
  lists of characters, durations with the value \<open>inf\<close> that the scheduler uses, and the
  locales that carry an invariant from one step to whole runs.

  A Python string is modelled as a \<^typ>\<open>string\<close> whose characters are the code points
  0 to 255, so \<open>str.isspace\<close> and \<open>str.lower\<close> are written out on that range
  (\<open>py_space\<close>, \<open>py_lower\<close>).  Times and durations, floats in the program, are exact
  rationals extended by \<open>inf\<close> (type \<open>span\<close>); rounding is not modelled.
\<close>

named_theorems py_str \<open>equations and facts about Python's string operations\<close>

section \<open>Python strings\<close>

abbreviation nl :: char where "nl \<equiv> CHR 0x0A"
abbreviation cr :: char where "cr \<equiv> CHR 0x0D"

text \<open>\<open>str.isspace\<close> on one character.\<close>

definition py_space :: "char \<Rightarrow> bool" where
  "py_space c \<longleftrightarrow> (let n = (of_char c :: nat) in
     (9 \<le> n \<and> n \<le> 13) \<or> (28 \<le> n \<and> n \<le> 32) \<or> n = 133 \<or> n = 160)"

definition py_lstrip :: "string \<Rightarrow> string" where
  "py_lstrip s = dropWhile py_space s"

definition py_rstrip :: "string \<Rightarrow> string" where
  "py_rstrip s = rev (dropWhile py_space (rev s))"

definition py_strip :: "string \<Rightarrow> string" where
  "py_strip s = py_rstrip (py_lstrip s)"

text \<open>\<open>str.lower\<close>: the ASCII and the accented capitals of the Latin-1 block.\<close>

definition py_lower_char :: "char \<Rightarrow> char" where
  "py_lower_char c = (let n = (of_char c :: nat) in
     if (65 \<le> n \<and> n \<le> 90) \<or> (192 \<le> n \<and> n \<le> 222 \<and> n \<noteq> 215) then char_of (n + 32) else c)"

definition py_lower :: "string \<Rightarrow> string" where
  "py_lower s = map py_lower_char s"

definition starts_with :: "'a list \<Rightarrow> 'a list \<Rightarrow> bool" where
  "starts_with p s \<longleftrightarrow> take (length p) s = p"

definition ends_with :: "'a list \<Rightarrow> 'a list \<Rightarrow> bool" where
  "ends_with p s \<longleftrightarrow> starts_with (rev p) (rev s)"

text \<open>\<open>s.find(p)\<close>, with \<^const>\<open>None\<close> for -1, and \<open>p in s\<close>.\<close>

fun find_sub :: "'a list \<Rightarrow> 'a list \<Rightarrow> nat option" where
  "find_sub p [] = (if p = [] then Some 0 else None)"
| "find_sub p (c # s) =
     (if starts_with p (c # s) then Some 0 else map_option Suc (find_sub p s))"

definition has_sub :: "'a list \<Rightarrow> 'a list \<Rightarrow> bool" where
  "has_sub p s \<longleftrightarrow> find_sub p s \<noteq> None"

text \<open>
  \<open>s.replace(p, r)\<close> and \<open>s.count(p)\<close>: the leftmost occurrences that do not overlap; an
  empty pattern matches at every position.
\<close>

function replace_ne :: "'a list \<Rightarrow> 'a list \<Rightarrow> 'a list \<Rightarrow> 'a list" where
  "replace_ne p r s =
     (case s of [] \<Rightarrow> []
      | c # cs \<Rightarrow> if p \<noteq> [] \<and> starts_with p s then r @ replace_ne p r (drop (length p) s)
                 else c # replace_ne p r cs)"
  by pat_completeness auto
termination
  by (relation "measure (\<lambda>(p, r, s). length s)") auto

function count_ne :: "'a list \<Rightarrow> 'a list \<Rightarrow> nat" where
  "count_ne p s =
     (case s of [] \<Rightarrow> 0
      | c # cs \<Rightarrow> if p \<noteq> [] \<and> starts_with p s then Suc (count_ne p (drop (length p) s))
                 else count_ne p cs)"
  by pat_completeness auto
termination
  by (relation "measure (\<lambda>(p, s). length s)") auto

declare replace_ne.simps [simp del] count_ne.simps [simp del]

definition py_replace :: "'a list \<Rightarrow> 'a list \<Rightarrow> 'a list \<Rightarrow> 'a list" where
  "py_replace p r s =
     (if p = [] then r @ concat (map (\<lambda>c. c # r) s) else replace_ne p r s)"

definition py_count :: "'a list \<Rightarrow> 'a list \<Rightarrow> nat" where
  "py_count p s = (if p = [] then Suc (length s) else count_ne p s)"

text \<open>\<open>s.split(d)\<close> for a one-character separator, and \<open>sep.join(parts)\<close>.\<close>

fun split_on :: "'a \<Rightarrow> 'a list \<Rightarrow> 'a list list" where
  "split_on d [] = [[]]"
| "split_on d (c # cs) =
     (if c = d then [] # split_on d cs
      else (case split_on d cs of [] \<Rightarrow> [[c]] | l # ls \<Rightarrow> (c # l) # ls))"

fun join_with :: "'a list \<Rightarrow> 'a list list \<Rightarrow> 'a list" where
  "join_with sep [] = []"
| "join_with sep [l] = l"
| "join_with sep (l # l' # ls) = l @ sep @ join_with sep (l' # ls)"

text \<open>\<open>s.splitlines()\<close>: \<open>\r\n\<close> counts once, a trailing terminator starts no line.\<close>

definition line_break :: "char \<Rightarrow> bool" where
  "line_break c \<longleftrightarrow> (let n = (of_char c :: nat) in
     (10 \<le> n \<and> n \<le> 13) \<or> (28 \<le> n \<and> n \<le> 30) \<or> n = 133)"

fun splitlines_from :: "string \<Rightarrow> string \<Rightarrow> string list" where
  "splitlines_from acc [] = (if acc = [] then [] else [rev acc])"
| "splitlines_from acc [c] = (if line_break c then [rev acc] else [rev (c # acc)])"
| "splitlines_from acc (c # d # s) =
     (if c = cr \<and> d = nl then rev acc # splitlines_from [] s
      else if line_break c then rev acc # splitlines_from [] (d # s)
      else splitlines_from (c # acc) (d # s))"

definition py_splitlines :: "string \<Rightarrow> string list" where
  "py_splitlines s = splitlines_from [] s"

text \<open>\<open>s.split()\<close>: the maximal runs of characters that are not white space.\<close>

fun words_from :: "string \<Rightarrow> string \<Rightarrow> string list" where
  "words_from acc [] = (if acc = [] then [] else [rev acc])"
| "words_from acc (c # s) =
     (if py_space c then (if acc = [] then words_from [] s else rev acc # words_from [] s)
      else words_from (c # acc) s)"

definition py_words :: "string \<Rightarrow> string list" where
  "py_words s = words_from [] s"

text \<open>\<open>s[-n:]\<close> for a positive \<open>n\<close>.\<close>

definition last_chars :: "nat \<Rightarrow> 'a list \<Rightarrow> 'a list" where
  "last_chars n s = drop (length s - n) s"

subsection \<open>Facts\<close>

lemma length_last_chars [simp]: "length (last_chars n s) = min n (length s)"
  by (simp add: last_chars_def)

lemma split_on_not_Nil [simp]: "split_on d s \<noteq> []"
  by (induction s) (auto split: list.splits)

lemma join_split [simp]: "join_with [d] (split_on d s) = s"
proof (induction s)
  case (Cons c s)
  then show ?case
    by (cases "split_on d s"; cases "tl (split_on d s)") auto
qed simp

lemma split_on_no_sep: "l \<in> set (split_on d s) \<Longrightarrow> d \<notin> set l"
proof (induction s arbitrary: l)
  case (Cons c s)
  then show ?case by (cases "split_on d s") (auto split: if_splits)
qed simp

lemma split_on_free: "d \<notin> set l \<Longrightarrow> split_on d l = [l]"
  by (induction l) auto

lemma split_on_append_sep:
  "d \<notin> set l \<Longrightarrow> split_on d (l @ d # s) = l # split_on d s"
  by (induction l) auto

lemma split_on_append: "split_on d (s @ d # t) = split_on d s @ split_on d t"
  by (induction s) (auto split: list.splits)

lemma split_join:
  "ls \<noteq> [] \<Longrightarrow> \<forall>l \<in> set ls. d \<notin> set l \<Longrightarrow> split_on d (join_with [d] ls) = ls"
  by (induction "[d]" ls rule: join_with.induct) (auto simp: split_on_free split_on_append_sep)

lemma length_split_on: "length (split_on d s) = Suc (count_list s d)"
  by (induction s) (auto split: list.splits)

lemma starts_with_iff: "starts_with p s \<longleftrightarrow> (\<exists>t. s = p @ t)"
  by (auto simp: starts_with_def) (metis append_take_drop_id)

lemma starts_with_append [simp]: "starts_with p (p @ t)"
  by (simp add: starts_with_def)

lemma starts_with_Nil [simp]: "starts_with [] s"
  by (simp add: starts_with_def)

lemma find_sub_Some:
  "find_sub p s = Some i \<Longrightarrow> \<exists>t. s = take i s @ p @ t"
proof (induction p s arbitrary: i rule: find_sub.induct)
  case (2 p c s)
  show ?case
  proof (cases "starts_with p (c # s)")
    case True
    with "2.prems" have "i = 0" by simp
    with True show ?thesis by (simp add: starts_with_iff)
  next
    case False
    with "2.prems" obtain j where "i = Suc j" "find_sub p s = Some j" by auto
    with "2.IH" [OF False] show ?thesis by auto
  qed
qed (auto split: if_splits)

lemma find_sub_Some_le: "find_sub p s = Some i \<Longrightarrow> i + length p \<le> length s"
proof (induction p s arbitrary: i rule: find_sub.induct)
  case (2 p c s)
  then show ?case
    by (auto simp: starts_with_def split: if_splits)
      (metis length_Cons length_take min.absorb_iff2 min.commute)
qed (auto split: if_splits)

lemma find_sub_first: "find_sub p s = Some i \<Longrightarrow> j < i \<Longrightarrow> \<not> starts_with p (drop j s)"
proof (induction p s arbitrary: i j rule: find_sub.induct)
  case (2 p c s)
  then show ?case by (cases j) (auto split: if_splits)
qed (auto split: if_splits)

lemma find_sub_None: "find_sub p s = None \<Longrightarrow> \<not> starts_with p (drop j s)"
proof (induction p s arbitrary: j rule: find_sub.induct)
  case (2 p c s)
  then show ?case by (cases j) (auto split: if_splits)
qed (auto simp: starts_with_def split: if_splits)

lemma has_sub_append [simp]: "has_sub p (s @ p @ t)"
proof (rule ccontr)
  assume "\<not> has_sub p (s @ p @ t)"
  then have "\<not> starts_with p (drop (length s) (s @ p @ t))"
    by (intro find_sub_None) (simp add: has_sub_def)
  then show False by simp
qed

lemma has_sub_iff: "has_sub p s \<longleftrightarrow> (\<exists>u t. s = u @ p @ t)"
proof
  assume "has_sub p s"
  then obtain i where "find_sub p s = Some i" by (auto simp: has_sub_def)
  then show "\<exists>u t. s = u @ p @ t" by (blast dest: find_sub_Some)
next
  assume "\<exists>u t. s = u @ p @ t"
  then show "has_sub p s" by auto
qed

lemma starts_with_length: "starts_with p s \<Longrightarrow> length p \<le> length s"
  by (auto simp: starts_with_iff)

text \<open>The recursion equations of the two loops, in a form that does not unfold by itself.\<close>

lemma replace_ne_Nil [simp]: "replace_ne p r [] = []"
  by (simp add: replace_ne.simps)

lemma replace_ne_Cons:
  "replace_ne p r (c # cs) =
     (if p \<noteq> [] \<and> starts_with p (c # cs) then r @ replace_ne p r (drop (length p) (c # cs))
      else c # replace_ne p r cs)"
  by (simp add: replace_ne.simps [of p r "c # cs"])

lemma count_ne_Nil [simp]: "count_ne p [] = 0"
  by (simp add: count_ne.simps)

lemma count_ne_Cons:
  "count_ne p (c # cs) =
     (if p \<noteq> [] \<and> starts_with p (c # cs) then Suc (count_ne p (drop (length p) (c # cs)))
      else count_ne p cs)"
  by (simp add: count_ne.simps [of p "c # cs"])

lemmas replace_steps = replace_ne_Cons count_ne_Cons

text \<open>What a replacement does to the length, and that replacing by itself changes nothing.\<close>

lemma replace_ne_starts: "p \<noteq> [] \<Longrightarrow> replace_ne p r (p @ t) = r @ replace_ne p r t"
  using starts_with_append [of p t] by (cases p) (simp_all add: replace_ne_Cons)

lemma count_ne_starts: "p \<noteq> [] \<Longrightarrow> count_ne p (p @ t) = Suc (count_ne p t)"
  using starts_with_append [of p t] by (cases p) (simp_all add: count_ne_Cons)

lemma replace_cases:
  assumes "p \<noteq> []"
  obtains (Nil) "s = []"
    | (Match) t where "s = p @ t" "length t < length s"
    | (Skip) c cs where "s = c # cs" "\<not> starts_with p (c # cs)"
proof (cases s)
  case (Cons c cs)
  show thesis
  proof (cases "starts_with p s")
    case True
    then obtain t where "s = p @ t" by (auto simp: starts_with_iff)
    with assms show thesis by (intro Match) auto
  qed (use Cons Skip in auto)
qed (use Nil in auto)

lemma replace_ne_length:
  "p \<noteq> [] \<Longrightarrow>
   length (replace_ne p r s) + count_ne p s * length p = length s + count_ne p s * length r"
proof (induction s rule: length_induct)
  case (1 s)
  show ?case
  proof (cases rule: replace_cases [OF 1(2), of s])
    case (2 t)
    with 1 have "length (replace_ne p r t) + count_ne p t * length p
        = length t + count_ne p t * length r" by simp
    with 2 1(2) show ?thesis by (simp add: replace_ne_starts count_ne_starts)
  next
    case (3 c cs)
    with 1 have "length (replace_ne p r cs) + count_ne p cs * length p
        = length cs + count_ne p cs * length r" by simp
    with 3 show ?thesis by (simp add: replace_steps)
  qed simp
qed

lemma replace_ne_self: "p \<noteq> [] \<Longrightarrow> replace_ne p p s = s"
proof (induction s rule: length_induct)
  case (1 s)
  show ?case
  proof (cases rule: replace_cases [OF 1(2), of s])
    case (2 t)
    with 1 show ?thesis by (simp add: replace_ne_starts)
  next
    case (3 c cs)
    with 1 show ?thesis by (simp add: replace_steps)
  qed simp
qed

lemma has_sub_Cons: "has_sub p (c # cs) \<longleftrightarrow> starts_with p (c # cs) \<or> has_sub p cs"
  by (simp add: has_sub_def)

lemma replace_ne_absent: "\<not> has_sub p s \<Longrightarrow> replace_ne p r s = s"
  by (induction s) (simp_all add: replace_ne_Cons has_sub_Cons)

lemma count_ne_pos: "p \<noteq> [] \<Longrightarrow> has_sub p s \<Longrightarrow> 0 < count_ne p s"
  by (induction s) (auto simp: count_ne_Cons has_sub_Cons, simp add: has_sub_def)

section \<open>Decimal numerals\<close>

text \<open>\<open>str(n)\<close> for a natural number.\<close>

fun dec :: "nat \<Rightarrow> string" where
  "dec n = (if n < 10 then [char_of (48 + n)] else dec (n div 10) @ [char_of (48 + n mod 10)])"

declare dec.simps [simp del]

definition undec :: "string \<Rightarrow> nat" where
  "undec s = foldl (\<lambda>a c. 10 * a + (of_char c - 48)) 0 s"

lemma of_char_digit [simp]: "k < 10 \<Longrightarrow> (of_char (char_of (48 + k) :: char) :: nat) = 48 + k"
  by (simp add: of_char_of)

lemma undec_dec [simp]: "undec (dec n) = n"
proof (induction n rule: dec.induct)
  case (1 n)
  show ?case
  proof (cases "n < 10")
    case True
    then show ?thesis by (simp add: dec.simps [of n] undec_def)
  next
    case False
    with 1 have "undec (dec (n div 10)) = n div 10" by simp
    with False show ?thesis by (simp add: dec.simps [of n] undec_def)
  qed
qed

lemma dec_inject [simp]: "dec m = dec n \<longleftrightarrow> m = n"
  by (metis undec_dec)

lemma dec_digits: "c \<in> set (dec n) \<Longrightarrow> 48 \<le> (of_char c :: nat) \<and> (of_char c :: nat) < 58"
proof (induction n rule: dec.induct)
  case (1 n)
  then show ?case by (cases "n < 10") (auto simp: dec.simps [of n])
qed

lemma find_SomeD: "find P xs = Some x \<Longrightarrow> x \<in> set xs \<and> P x"
  by (auto simp: find_Some_iff)

section \<open>Dictionaries in insertion order\<close>

text \<open>
  A Python dictionary whose order is observable, as an association list: storing under a
  present key keeps its place, \<open>pop\<close> of an absent key changes nothing.
\<close>

fun dict_set :: "'k \<Rightarrow> 'v \<Rightarrow> ('k \<times> 'v) list \<Rightarrow> ('k \<times> 'v) list" where
  "dict_set k v [] = [(k, v)]"
| "dict_set k v ((a, b) # d) = (if a = k then (a, v) # d else (a, b) # dict_set k v d)"

definition dict_pop :: "'k \<Rightarrow> ('k \<times> 'v) list \<Rightarrow> ('k \<times> 'v) list" where
  "dict_pop k d = filter (\<lambda>(a, _). a \<noteq> k) d"

lemma map_of_dict_set [simp]: "map_of (dict_set k v d) = (map_of d)(k \<mapsto> v)"
  by (induction d) auto

lemma map_of_dict_pop [simp]: "map_of (dict_pop k d) = (map_of d)(k := None)"
  by (induction d) (auto simp: dict_pop_def)

lemma dict_set_new: "k \<notin> fst ` set d \<Longrightarrow> dict_set k v d = d @ [(k, v)]"
  by (induction d) auto

lemma dict_pop_absent: "k \<notin> fst ` set d \<Longrightarrow> dict_pop k d = d"
  by (induction d) (auto simp: dict_pop_def)

lemma dict_pop_append [simp]: "dict_pop k (d @ e) = dict_pop k d @ dict_pop k e"
  by (simp add: dict_pop_def)

lemma keys_dict_set: "fst ` set (dict_set k v d) = insert k (fst ` set d)"
  using map_of_dict_set [of k v d] by (metis dom_fun_upd dom_map_of_conv_image_fst option.distinct(1))

lemma keys_dict_pop: "fst ` set (dict_pop k d) = fst ` set d - {k}"
  by (auto simp: dict_pop_def)

lemma distinct_dict_set: "distinct (map fst d) \<Longrightarrow> distinct (map fst (dict_set k v d))"
proof (induction d)
  case (Cons x d)
  have "set (map fst (dict_set k v d)) = insert k (set (map fst d))"
    using keys_dict_set [of k v d] by simp
  with Cons show ?case by (cases x) auto
qed simp

lemma distinct_dict_pop: "distinct (map fst d) \<Longrightarrow> distinct (map fst (dict_pop k d))"
  by (auto simp: dict_pop_def distinct_map inj_on_def)

section \<open>Durations with infinity\<close>

text \<open>
  The program's floats that hold a number of seconds or \<open>float("inf")\<close>.  The order and the
  sum are the floats' own on these values, so \<^const>\<open>max\<close> and \<^const>\<open>min\<close> read as Python's.
\<close>

datatype span = Fin rat | Inf

instantiation span :: linorder
begin

fun less_eq_span :: "span \<Rightarrow> span \<Rightarrow> bool" where
  "less_eq_span _ Inf = True"
| "less_eq_span Inf (Fin _) = False"
| "less_eq_span (Fin a) (Fin b) = (a \<le> b)"

definition less_span :: "span \<Rightarrow> span \<Rightarrow> bool" where
  "less_span x y \<longleftrightarrow> x \<le> y \<and> \<not> y \<le> (x :: span)"

instance
proof
  fix x y z :: span
  show "x < y \<longleftrightarrow> x \<le> y \<and> \<not> y \<le> x" by (simp add: less_span_def)
  show "x \<le> x" by (cases x) auto
  show "x \<le> y \<Longrightarrow> y \<le> z \<Longrightarrow> x \<le> z" by (cases x; cases y; cases z) auto
  show "x \<le> y \<Longrightarrow> y \<le> x \<Longrightarrow> x = y" by (cases x; cases y) auto
  show "x \<le> y \<or> y \<le> x" by (cases x; cases y) auto
qed

end

instantiation span :: comm_monoid_add
begin

definition zero_span :: span where "zero_span = Fin 0"

fun plus_span :: "span \<Rightarrow> span \<Rightarrow> span" where
  "plus_span (Fin a) (Fin b) = Fin (a + b)"
| "plus_span _ _ = Inf"

instance
proof
  fix a b c :: span
  show "a + b + c = a + (b + c)" by (cases a; cases b; cases c) auto
  show "a + b = b + a" by (cases a; cases b) auto
  show "0 + a = a" by (cases a) (auto simp: zero_span_def)
qed

end

text \<open>\<open>x - e\<close> for a finite \<open>e\<close>, as in \<open>remaining = cap - elapsed\<close>.\<close>

fun span_minus :: "span \<Rightarrow> rat \<Rightarrow> span" where
  "span_minus (Fin a) e = Fin (a - e)"
| "span_minus Inf e = Inf"

lemma span_le_simps [simp]:
  "Fin a \<le> Fin b \<longleftrightarrow> a \<le> b" "x \<le> Inf" "Inf \<le> x \<longleftrightarrow> x = Inf"
  by (simp_all, cases x, auto)

lemma span_less_simps [simp]:
  "Fin a < Fin b \<longleftrightarrow> a < b" "\<not> Inf < x" "x < Inf \<longleftrightarrow> x \<noteq> Inf"
  by (auto simp: less_span_def)

lemma span_minus_mono: "x \<le> y \<Longrightarrow> span_minus x e \<le> span_minus y e"
  by (cases x; cases y) auto

lemma span_minus_add: "span_minus (Fin e + x) e = x"
  by (cases x) auto

lemma span_le_minus: "Fin e + x \<le> y \<Longrightarrow> x \<le> span_minus y e"
  using span_minus_mono [of "Fin e + x" y e] by (simp add: span_minus_add)

section \<open>Runs of deterministic machines\<close>

text \<open>
  A component whose operations are steps on a state promises that each step keeps its
  invariant; its clients get the same of every run.  \<open>monotone_machine\<close> adds a quantity
  that no step decreases.
\<close>

locale invariant_machine =
  fixes step :: "'s \<Rightarrow> 'e \<Rightarrow> 's"
    and inv :: "'s \<Rightarrow> bool"
  assumes step_inv: "inv s \<Longrightarrow> inv (step s e)"
begin

lemma run_inv: "inv s \<Longrightarrow> inv (foldl step s es)"
  by (induction es arbitrary: s) (auto intro: step_inv)

end

locale monotone_machine = invariant_machine step inv
  for step :: "'s \<Rightarrow> 'e \<Rightarrow> 's" and inv :: "'s \<Rightarrow> bool" +
  fixes level :: "'s \<Rightarrow> 'm :: order"
  assumes step_level: "inv s \<Longrightarrow> level s \<le> level (step s e)"
begin

lemma run_level: "inv s \<Longrightarrow> level s \<le> level (foldl step s es)"
proof (induction es arbitrary: s)
  case (Cons e es)
  have "level s \<le> level (step s e)" using Cons.prems by (rule step_level)
  also have "\<dots> \<le> level (foldl step (step s e) es)"
    using Cons.prems by (intro Cons.IH step_inv)
  finally show ?case by simp
qed simp

end

end
