(* ===== verification/Gates.thy ===== *)
theory Gates
  imports Prelude
begin

text \<open>
  \<open>core/gates.py\<close>: deterministic gates.  A gate is a shell command whose exit code is the
  verdict on a turn.  The theory models the result record and its three states, the
  classifier that tells a gate that never started from a check that failed, the working
  directory rule, one gate run, the pass over all gates of a session with its reuse of a
  failure whose watched files did not change, and the per-turn history.

  The world outside is passed in: what the shell policy answers on a command
  (\<open>policy\<close>), how the operating system resolves a path (\<open>resolve\<close>), what one subprocess
  did (\<open>proc_outcome\<close>), and the fingerprint of a watch set.
\<close>

section \<open>Results\<close>

record gate_result =
  g_name :: string
  g_command :: string
  g_passed :: bool
  g_exit_code :: "int option"
  g_output_tail :: string
  g_reused :: bool
  g_error :: string
  g_fingerprint :: string
  g_scope :: string
  g_broken :: bool
  g_cwd :: string

text \<open>The dataclass's defaults, for the two fields every result is built with.\<close>

definition gate_result_of :: "string \<Rightarrow> string \<Rightarrow> bool \<Rightarrow> gate_result" where
  "gate_result_of name command passed =
     \<lparr>g_name = name, g_command = command, g_passed = passed, g_exit_code = None,
      g_output_tail = '''', g_reused = False, g_error = '''', g_fingerprint = '''',
      g_scope = ''session'', g_broken = False, g_cwd = ''''\<rparr>"

datatype gate_state = Passed | Failed | Unavailable

definition gate_state :: "gate_result \<Rightarrow> gate_state" where
  "gate_state r = (if g_passed r then Passed else if g_broken r then Unavailable else Failed)"

definition failing :: "gate_result list \<Rightarrow> gate_result list" where
  "failing results = filter (\<lambda>r. \<not> g_passed r \<and> \<not> g_broken r) results"

definition broken :: "gate_result list \<Rightarrow> gate_result list" where
  "broken results = filter g_broken results"

section \<open>Launch diagnostics\<close>

text \<open>
  The three regular expressions, as searches on one stripped line.  A diagnostic names a
  word at the start of the line or after a colon and a white-space character; the word runs
  to the next colon, which white space and the message follow.
\<close>

definition word_char :: "char \<Rightarrow> bool" where
  "word_char c \<longleftrightarrow> \<not> py_space c \<and> c \<noteq> CHR '':''"

fun after_colon_space :: "string \<Rightarrow> string list" where
  "after_colon_space (c # d # s) =
     (if c = CHR '':'' \<and> py_space d then s # after_colon_space (d # s)
      else after_colon_space (d # s))"
| "after_colon_space _ = []"

definition diagnostic_at :: "(string \<Rightarrow> bool) \<Rightarrow> string \<Rightarrow> string option" where
  "diagnostic_at message s =
     (let w = takeWhile word_char s; rest = dropWhile word_char s in
      case rest of
        c # t \<Rightarrow> if w \<noteq> [] \<and> c = CHR '':'' \<and> message (py_lower (dropWhile py_space t)) then Some w else None
      | [] \<Rightarrow> None)"

fun first_some :: "('a \<Rightarrow> 'b option) \<Rightarrow> 'a list \<Rightarrow> 'b option" where
  "first_some f [] = None"
| "first_some f (x # xs) = (case f x of None \<Rightarrow> first_some f xs | Some y \<Rightarrow> Some y)"

definition not_found_message :: "string \<Rightarrow> bool" where
  "not_found_message t \<longleftrightarrow>
     t \<in> {''command not found'', ''command not found.'', ''not found'', ''not found.''}"

definition not_executable_message :: "string \<Rightarrow> bool" where
  "not_executable_message t \<longleftrightarrow>
     starts_with ''permission denied'' t \<or> starts_with ''is a directory'' t
     \<or> starts_with ''cannot execute'' t"

definition not_found_word :: "string \<Rightarrow> string option" where
  "not_found_word line =
     first_some (diagnostic_at not_found_message) (line # after_colon_space line)"

definition not_executable_word :: "string \<Rightarrow> string option" where
  "not_executable_word line =
     first_some (diagnostic_at not_executable_message) (line # after_colon_space line)"

text \<open>The shell's \<open>cd:\<close> or \<open>chdir:\<close> at a word boundary, with one of the messages after it.\<close>

fun at_boundaries :: "string \<Rightarrow> string list" where
  "at_boundaries [] = []"
| "at_boundaries (c # s) =
     (if c = CHR '':'' \<or> py_space c then s # at_boundaries s else at_boundaries s)"

definition cd_messages :: "string list" where
  "cd_messages = [''can'' @ [CHR 0x27] @ ''t cd to'', ''cant cd to'', ''cannot cd to'',
     ''no such file or directory'', ''not a directory'', ''permission denied'']"

definition cd_error_at :: "string \<Rightarrow> bool" where
  "cd_error_at s \<longleftrightarrow>
     (\<exists>p \<in> set [''cd:'', ''chdir:''].
        starts_with p s \<and>
        (case drop (length p) s of
           c # t \<Rightarrow> py_space c \<and> list_ex (\<lambda>m. has_sub m t) cd_messages
         | [] \<Rightarrow> False))"

definition cd_error :: "string \<Rightarrow> bool" where
  "cd_error line \<longleftrightarrow> (let l = py_lower line in list_ex cd_error_at (l # at_boundaries l))"

section \<open>The command's own words\<close>

fun split_segments :: "string \<Rightarrow> string \<Rightarrow> string list" where
  "split_segments acc [] = [rev acc]"
| "split_segments acc [c] =
     (if c = CHR '';'' \<or> c = CHR ''|'' \<or> c = nl then [rev acc, []] else [rev (c # acc)])"
| "split_segments acc (c # d # s) =
     (if (c = CHR ''|'' \<and> d = CHR ''|'') \<or> (c = CHR ''&'' \<and> d = CHR ''&'')
      then rev acc # split_segments [] s
      else if c = CHR '';'' \<or> c = CHR ''|'' \<or> c = nl then rev acc # split_segments [] (d # s)
      else split_segments (c # acc) (d # s))"

text \<open>\<open>os.path.basename\<close>: what follows the last slash.\<close>

definition basename :: "string \<Rightarrow> string" where
  "basename p = last (split_on (CHR ''/'') p)"

fun first_launched :: "string list \<Rightarrow> string option" where
  "first_launched [] = None"
| "first_launched (w # ws) =
     (if CHR ''='' \<in> set w \<and> \<not> (starts_with ''-'' w \<or> starts_with ''/'' w \<or> starts_with ''.'' w)
      then first_launched ws else Some w)"

definition command_words :: "string \<Rightarrow> string set" where
  "command_words command =
     set (filter (\<lambda>w. w \<noteq> [])
       (concat (map (\<lambda>seg. case first_launched (py_words seg) of
                             None \<Rightarrow> [] | Some w \<Rightarrow> [w, basename w])
                    (split_segments [] command))))"

definition names_the_command :: "string option \<Rightarrow> string set \<Rightarrow> bool" where
  "names_the_command m words \<longleftrightarrow>
     (case m of
        None \<Rightarrow> False
      | Some w \<Rightarrow> words = {} \<or> w \<in> words \<or> basename w \<in> words)"

definition line_unrunnable :: "int \<Rightarrow> string set \<Rightarrow> string \<Rightarrow> bool" where
  "line_unrunnable code words line \<longleftrightarrow>
     cd_error line
     \<or> (code = 127 \<and> names_the_command (not_found_word line) words)
     \<or> (code = 126 \<and> names_the_command (not_executable_word line) words)"

definition looks_unrunnable :: "int option \<Rightarrow> string \<Rightarrow> string \<Rightarrow> bool" where
  "looks_unrunnable exit_code output_tail command =
     (case exit_code of
        None \<Rightarrow> False
      | Some code \<Rightarrow>
          if code = 0 then False
          else let tail = py_strip output_tail in
            if tail = '''' then False
            else let lines = filter (\<lambda>l. l \<noteq> []) (map py_strip (py_splitlines tail));
                     words = command_words command in
              (case lines of
                 [] \<Rightarrow> False
               | l # _ \<Rightarrow> line_unrunnable code words l \<or> line_unrunnable code words (last lines)))"

section \<open>The working directory\<close>

text \<open>
  An absolute path is the list of its components; \<open>resolve\<close> stands for
  \<open>Path.resolve\<close>, which collapses \<open>..\<close> and follows symbolic links.
\<close>

type_synonym abs_path = "string list"

definition path_parts :: "string \<Rightarrow> string list" where
  "path_parts s = filter (\<lambda>p. p \<noteq> '''' \<and> p \<noteq> ''.'') (split_on (CHR ''/'') s)"

definition is_absolute :: "string \<Rightarrow> bool" where
  "is_absolute s \<longleftrightarrow> starts_with ''/'' s"

text \<open>\<open>p.is_relative_to(r)\<close>.\<close>

definition under :: "abs_path \<Rightarrow> abs_path \<Rightarrow> bool" where
  "under p r \<longleftrightarrow> starts_with r p"

definition resolve_gate_cwd ::
    "(abs_path \<Rightarrow> abs_path) \<Rightarrow> string \<Rightarrow> abs_path \<Rightarrow> abs_path option \<Rightarrow> abs_path option" where
  "resolve_gate_cwd resolve cwd base0 containment =
     (let base = resolve base0;
          root = (case containment of Some c \<Rightarrow> resolve c | None \<Rightarrow> base) in
      if cwd = '''' then Some base
      else let resolved = resolve (if is_absolute cwd then path_parts cwd else base @ path_parts cwd) in
        if under resolved root \<or> under resolved base then Some resolved else None)"

section \<open>Running the gates\<close>

record gate_row =
  row_name :: string
  row_command :: string
  row_cwd :: string
  row_watch_paths :: "string list"
  row_scope :: string

datatype proc_outcome =
    Exited int string string      \<comment> \<open>return code, standard output, standard error\<close>
  | Timed_Out
  | Spawn_Error string            \<comment> \<open>an \<open>OSError\<close>, rendered\<close>
  | Other_Error string            \<comment> \<open>any other exception, rendered\<close>

definition GATE_OUTPUT_TAIL :: nat where "GATE_OUTPUT_TAIL = 4096"

definition timed_out_error :: string where "timed_out_error = ''timed out after 120s''"

text \<open>The path as \<open>str(path)\<close> prints it.\<close>

definition path_string :: "abs_path \<Rightarrow> string" where
  "path_string p = CHR ''/'' # join_with ''/'' p"

definition refused :: "gate_row \<Rightarrow> string \<Rightarrow> string \<Rightarrow> gate_result" where
  "refused row fp reason =
     (gate_result_of (row_name row) (row_command row) False)
       \<lparr>g_error := reason, g_fingerprint := fp, g_scope := row_scope row, g_broken := True\<rparr>"

record gate_world =
  gw_policy :: "string \<Rightarrow> string option"               \<comment> \<open>\<open>check_gate_command\<close>\<close>
  gw_resolve :: "abs_path \<Rightarrow> abs_path"
  gw_escape_message :: "string \<Rightarrow> string"              \<comment> \<open>the text of the \<open>ValueError\<close>\<close>
  gw_proc :: "gate_row \<Rightarrow> abs_path \<Rightarrow> proc_outcome"
  gw_fingerprint :: "string list \<Rightarrow> string"

definition finished_result :: "gate_row \<Rightarrow> string \<Rightarrow> abs_path \<Rightarrow> proc_outcome \<Rightarrow> gate_result" where
  "finished_result row fp cwd out =
     (let r = (gate_result_of (row_name row) (row_command row) False)
                \<lparr>g_fingerprint := fp, g_scope := row_scope row\<rparr> in
      case out of
        Exited code stdout stderr \<Rightarrow>
          let tail = last_chars GATE_OUTPUT_TAIL
                       (stdout @ (if stderr = '''' then '''' else nl # stderr)) in
          r\<lparr>g_passed := code = 0, g_exit_code := Some code, g_output_tail := py_strip tail,
            g_broken := looks_unrunnable (Some code) tail (row_command row),
            g_cwd := path_string cwd\<rparr>
      | Timed_Out \<Rightarrow> r\<lparr>g_error := timed_out_error, g_cwd := path_string cwd\<rparr>
      | Spawn_Error e \<Rightarrow> r\<lparr>g_error := e, g_broken := True\<rparr>
      | Other_Error e \<Rightarrow> r\<lparr>g_error := e, g_cwd := path_string cwd\<rparr>)"

definition run_one :: "gate_world \<Rightarrow> gate_row \<Rightarrow> abs_path \<Rightarrow> abs_path \<Rightarrow> string \<Rightarrow> gate_result" where
  "run_one w row workspace base fp =
     (case gw_policy w (row_command row) of
        Some reason \<Rightarrow> refused row fp reason
      | None \<Rightarrow>
          (case resolve_gate_cwd (gw_resolve w) (row_cwd row) base (Some workspace) of
             None \<Rightarrow> refused row fp (gw_escape_message w (row_cwd row))
           | Some cwd \<Rightarrow> finished_result row fp cwd (gw_proc w row cwd)))"

type_synonym gate_prior = "string \<rightharpoonup> string \<times> gate_result"

text \<open>The reuse guard: from the third attempt on, for a known failure whose files did not change.\<close>

definition reusable :: "gate_prior \<Rightarrow> int \<Rightarrow> string \<Rightarrow> string \<Rightarrow> gate_result option" where
  "reusable prior attempt name fp =
     (if attempt > 2 \<and> fp \<noteq> '''' then
        (case prior name of
           Some (fp0, prev) \<Rightarrow> if fp0 = fp \<and> \<not> g_passed prev then Some prev else None
         | None \<Rightarrow> None)
      else None)"

definition reuse_result :: "gate_row \<Rightarrow> string \<Rightarrow> gate_result \<Rightarrow> gate_result" where
  "reuse_result row fp prev =
     (gate_result_of (row_name row) (row_command row) False)
       \<lparr>g_exit_code := g_exit_code prev, g_output_tail := g_output_tail prev, g_reused := True,
        g_error := g_error prev, g_fingerprint := fp, g_scope := row_scope row,
        g_broken := g_broken prev, g_cwd := g_cwd prev\<rparr>"

definition run_gates ::
    "gate_world \<Rightarrow> gate_row list \<Rightarrow> abs_path \<Rightarrow> abs_path \<Rightarrow> gate_prior \<Rightarrow> int \<Rightarrow> gate_result list" where
  "run_gates w rows ws base prior attempt =
     map (\<lambda>row. let fp = (if row_watch_paths row = [] then '''' else gw_fingerprint w (row_watch_paths row)) in
            case reusable prior attempt (row_name row) fp of
              Some prev \<Rightarrow> reuse_result row fp prev
            | None \<Rightarrow> run_one w row ws base fp) rows"

section \<open>The turn's history\<close>

record gate_history =
  gh_turn_id :: "int option"
  gh_prior :: gate_prior

definition new_gate_history :: gate_history where
  "new_gate_history = \<lparr>gh_turn_id = None, gh_prior = Map.empty\<rparr>"

definition reset_if_new_turn :: "int option \<Rightarrow> gate_history \<Rightarrow> gate_history" where
  "reset_if_new_turn turn_id h =
     (if turn_id \<noteq> gh_turn_id h then \<lparr>gh_turn_id = turn_id, gh_prior = Map.empty\<rparr> else h)"

definition record_results :: "gate_result list \<Rightarrow> gate_history \<Rightarrow> gate_history" where
  "record_results results h =
     foldl (\<lambda>h r. if g_fingerprint r = '''' then h
                  else h\<lparr>gh_prior := (gh_prior h)(g_name r \<mapsto> (g_fingerprint r, r))\<rparr>) h results"

definition gates_for_turn ::
    "bool \<Rightarrow> gate_world \<Rightarrow> gate_row list \<Rightarrow> abs_path \<Rightarrow> abs_path \<Rightarrow> int option \<Rightarrow>
     gate_history option \<Rightarrow> int \<Rightarrow> gate_result list \<times> gate_history option" where
  "gates_for_turn enabled w rows ws base turn_id hist attempt =
     (if \<not> enabled then ([], hist)
      else let h = reset_if_new_turn turn_id (case hist of Some h \<Rightarrow> h | None \<Rightarrow> new_gate_history);
               results = run_gates w rows ws base (gh_prior h) attempt in
        (results, Some (record_results results h)))"

section \<open>What the gates guarantee\<close>

lemma looks_unrunnable_line:
  assumes "looks_unrunnable (Some code) tail command"
  obtains line where "line_unrunnable code (command_words command) line" "code \<noteq> 0"
  using assms
  by (auto simp: looks_unrunnable_def Let_def split: if_splits list.splits)

lemma looks_unrunnable_zero [simp]: "\<not> looks_unrunnable (Some 0) tail command"
  by (simp add: looks_unrunnable_def)

definition sane_result :: "gate_result \<Rightarrow> bool" where
  "sane_result r \<longleftrightarrow> (g_broken r \<longrightarrow> \<not> g_passed r) \<and> (g_reused r \<longrightarrow> \<not> g_passed r)"

lemma sane_finished: "sane_result (finished_result row fp cwd out)"
  by (cases out) (auto simp: sane_result_def finished_result_def gate_result_of_def Let_def)

lemma sane_refused: "sane_result (refused row fp reason)"
  by (simp add: sane_result_def refused_def gate_result_of_def)

lemma sane_run_one: "sane_result (run_one w row ws base fp)"
  by (auto simp: run_one_def sane_refused sane_finished split: option.splits)

lemma sane_reuse: "sane_result (reuse_result row fp prev)"
  by (simp add: sane_result_def reuse_result_def gate_result_of_def)

lemma sane_run_gates: "r \<in> set (run_gates w rows ws base prior attempt) \<Longrightarrow> sane_result r"
  by (auto simp: run_gates_def Let_def sane_run_one sane_reuse split: option.splits)

lemma run_one_not_reused: "\<not> g_reused (run_one w row ws base fp)"
  by (auto simp: run_one_def refused_def finished_result_def gate_result_of_def Let_def
      split: option.splits proc_outcome.splits)

lemma run_one_name: "g_name (run_one w row ws base fp) = row_name row"
  by (auto simp: run_one_def refused_def finished_result_def gate_result_of_def Let_def
      split: option.splits proc_outcome.splits)

text \<open>One pass over the gates yields exactly one result per registered gate, in order,
  and its results split three ways without overlap: those that passed, those that ran and
  failed, and those that never ran.  A gate that never ran is neither a pass nor a failing
  check.\<close>

theorem gates_three_way_split:
  fixes w rows ws base prior attempt
  defines "rs \<equiv> run_gates w rows ws base prior attempt"
  shows "map g_name rs = map row_name rows
    \<and> length (filter g_passed rs) + length (failing rs) + length (broken rs) = length rs
    \<and> set (failing rs) = {r \<in> set rs. gate_state r = Failed}
    \<and> set (broken rs) = {r \<in> set rs. gate_state r = Unavailable}"
proof -
  have names: "map g_name rs = map row_name rows"
    by (auto simp: rs_def run_gates_def run_one_name gate_result_of_def reuse_result_def Let_def
        split: option.splits)
  have sane: "\<forall>r \<in> set rs. g_broken r \<longrightarrow> \<not> g_passed r"
    using sane_run_gates by (fastforce simp: rs_def sane_result_def)
  then have "length (filter g_passed rs) + length (failing rs) + length (broken rs) = length rs"
    by (induction rs) (auto simp: failing_def broken_def)
  with sane names show ?thesis
    by (auto simp: failing_def broken_def gate_state_def)
qed

text \<open>The classifier calls a non-zero exit a gate that never started only on the
  launcher's own evidence: a line with the shell's \<open>cd:\<close> diagnostic, or exit 127 (126) with a
  not-found (not-executable) message whose word is one this very command launches.  No other
  exit code and no application output saying "not found" gets there.\<close>

theorem broken_needs_launch_evidence:
  assumes "looks_unrunnable (Some code) tail command" and "command_words command \<noteq> {}"
  shows "\<exists>line. cd_error line
     \<or> (code = 127 \<and> (\<exists>word. not_found_word line = Some word \<and>
           (word \<in> command_words command \<or> basename word \<in> command_words command)))
     \<or> (code = 126 \<and> (\<exists>word. not_executable_word line = Some word \<and>
           (word \<in> command_words command \<or> basename word \<in> command_words command)))"
proof -
  obtain line where "line_unrunnable code (command_words command) line"
    using assms(1) by (rule looks_unrunnable_line)
  with assms(2) show ?thesis
    by (intro exI [of _ line]) (auto simp: line_unrunnable_def names_the_command_def split: option.splits)
qed

theorem broken_needs_launch_evidence_witness:
  "looks_unrunnable (Some 127) ''sh: 1: pytest: not found'' ''pytest -q''
   \<and> (\<exists>line. cd_error line
     \<or> ((127 :: int) = 127 \<and> (\<exists>word. not_found_word line = Some word \<and>
           (word \<in> command_words ''pytest -q'' \<or> basename word \<in> command_words ''pytest -q'')))
     \<or> ((127 :: int) = 126 \<and> (\<exists>word. not_executable_word line = Some word \<and>
           (word \<in> command_words ''pytest -q'' \<or> basename word \<in> command_words ''pytest -q''))))"
proof -
  have a: "looks_unrunnable (Some 127) ''sh: 1: pytest: not found'' ''pytest -q''" by code_simp
  have b: "command_words ''pytest -q'' \<noteq> {}" by code_simp
  show ?thesis using a broken_needs_launch_evidence [OF a b] by blast
qed

text \<open>A result is reused only from the third attempt of a turn on, only for a gate that
  did not pass before under the very same non-empty fingerprint, and it keeps that gate's
  classification: a broken gate stays unavailable and a failing one stays failing.\<close>

theorem gate_reuse_keeps_classification:
  assumes "row \<in> set rows"
    and "reusable prior attempt (row_name row) (gw_fingerprint w (row_watch_paths row)) = Some prev"
    and "row_watch_paths row \<noteq> []"
  shows "attempt > 2 \<and> gw_fingerprint w (row_watch_paths row) \<noteq> ''''
    \<and> prior (row_name row) = Some (gw_fingerprint w (row_watch_paths row), prev)
    \<and> \<not> g_passed prev
    \<and> (\<exists>r \<in> set (run_gates w rows ws base prior attempt).
          g_name r = row_name row \<and> g_reused r \<and> gate_state r = gate_state prev)"
proof -
  from assms(2) have facts: "attempt > 2" "gw_fingerprint w (row_watch_paths row) \<noteq> ''''"
      "prior (row_name row) = Some (gw_fingerprint w (row_watch_paths row), prev)"
      "\<not> g_passed prev"
    by (auto simp: reusable_def split: if_splits option.splits)
  let ?r = "reuse_result row (gw_fingerprint w (row_watch_paths row)) prev"
  have "?r \<in> set (run_gates w rows ws base prior attempt)"
    using assms by (force simp: run_gates_def Let_def intro!: image_eqI [where x = row])
  moreover have "g_name ?r = row_name row" "g_reused ?r" "gate_state ?r = gate_state prev"
    using facts(4) by (simp_all add: reuse_result_def gate_result_of_def gate_state_def)
  ultimately show ?thesis using facts by blast
qed

definition demo_row :: gate_row where
  "demo_row = \<lparr>row_name = ''tests'', row_command = ''pytest -q'', row_cwd = '''',
     row_watch_paths = [''src''], row_scope = ''session''\<rparr>"

definition demo_world :: gate_world where
  "demo_world = \<lparr>gw_policy = (\<lambda>_. None), gw_resolve = (\<lambda>p. p), gw_escape_message = (\<lambda>c. c),
     gw_proc = (\<lambda>_ _. Exited 0 '''' ''''), gw_fingerprint = (\<lambda>_. ''f1'')\<rparr>"

definition demo_failure :: gate_result where
  "demo_failure = (gate_result_of ''tests'' ''pytest -q'' False)\<lparr>g_broken := True\<rparr>"

theorem gate_reuse_keeps_classification_witness:
  "\<exists>r \<in> set (run_gates demo_world [demo_row] [''ws''] [''ws''] [''tests'' \<mapsto> (''f1'', demo_failure)] 3).
     g_name r = ''tests'' \<and> g_reused r \<and> gate_state r = Unavailable"
proof -
  have a: "demo_row \<in> set [demo_row]" by simp
  have b: "reusable [''tests'' \<mapsto> (''f1'', demo_failure)] 3 (row_name demo_row)
      (gw_fingerprint demo_world (row_watch_paths demo_row)) = Some demo_failure"
    by (simp add: reusable_def demo_row_def demo_world_def demo_failure_def gate_result_of_def)
  have c: "row_watch_paths demo_row \<noteq> []" by (simp add: demo_row_def)
  have "row_name demo_row = ''tests''" "gate_state demo_failure = Unavailable"
    by (simp_all add: demo_row_def demo_failure_def gate_state_def gate_result_of_def)
  then show ?thesis
    using gate_reuse_keeps_classification [OF a b c, of "[''ws'']" "[''ws'']"] by metis
qed

text \<open>A gate is executed only when the shell policy accepts its command and its
  directory resolves inside the workspace or the session's own base; otherwise the result is
  a refusal, which verified nothing and counts as broken.\<close>

theorem gate_runs_contained:
  "(\<exists>cwd. gw_policy w (row_command row) = None
      \<and> resolve_gate_cwd (gw_resolve w) (row_cwd row) base (Some ws) = Some cwd
      \<and> (under cwd (gw_resolve w ws) \<or> under cwd (gw_resolve w base))
      \<and> run_one w row ws base fp = finished_result row fp cwd (gw_proc w row cwd))
   \<or> (gate_state (run_one w row ws base fp) = Unavailable
      \<and> g_exit_code (run_one w row ws base fp) = None)"
proof (cases "gw_policy w (row_command row)")
  case (Some reason)
  then show ?thesis by (simp add: run_one_def refused_def gate_state_def gate_result_of_def)
next
  case policy: None
  show ?thesis
  proof (cases "resolve_gate_cwd (gw_resolve w) (row_cwd row) base (Some ws)")
    case None
    with policy show ?thesis
      by (simp add: run_one_def refused_def gate_state_def gate_result_of_def)
  next
    case (Some cwd)
    then have "under cwd (gw_resolve w ws) \<or> under cwd (gw_resolve w base)"
      by (auto simp: resolve_gate_cwd_def Let_def under_def starts_with_def split: if_splits)
    with policy Some show ?thesis by (auto simp: run_one_def)
  qed
qed

text \<open>The first pass of a new turn runs every gate afresh.\<close>

lemma new_turn_runs_everything:
  assumes "turn_id \<noteq> gh_turn_id h"
    and "r \<in> set (fst (gates_for_turn True w rows ws base turn_id (Some h) attempt))"
  shows "\<not> g_reused r"
  using assms
  by (auto simp: gates_for_turn_def reset_if_new_turn_def Let_def run_gates_def reusable_def
      run_one_not_reused split: if_splits option.splits)

end
