(* ===== verification/Session_State.thy ===== *)
theory Session_State
  imports Gates
begin

text \<open>
  \<open>sessions/state.py\<close>: what a session carries.  \<open>turn_state\<close> is the state of one turn,
  \<open>agent_session\<close> everything that outlives it.  The operations are the event buffer with its
  subscriber queues, the background references and the registry of child processes.

  Queues are shared objects (the streaming endpoint holds them too), so a session keeps queue
  numbers and the queues live in a store; so do the process-wide counters.  Locks, the asyncio
  event behind \<open>pause_set\<close> and the asyncio task are reduced to what the code reads of them:
  whether the event is set, and whether a task exists and has finished.
\<close>

section \<open>One turn\<close>

record tool_entry =
  calls :: int
  failures :: int
  refusals :: int
  errors :: "string list"
  total_latency_ms :: int
  refusal_errors :: "string list"
  unavailable :: int
  misses :: int
  miss_errors :: "string list"
  command_failures :: int
  command_errors :: "string list"

record attempt_entry =
  a_calls :: int
  a_failures :: int
  a_refusals :: int
  a_unavailable :: int
  a_command_failures :: int

record turn_state =
  reflect_count :: int
  reflect_lessons :: string
  reflect_retry_requested :: bool
  retry_excluded_tools :: "string set"
  eval_count :: int
  eval_retry_requested :: bool
  eval_feedback :: string
  tool_summary :: "string \<rightharpoonup> tool_entry"
  tool_summary_attempts :: "(string \<rightharpoonup> attempt_entry) list"
  gate_history :: "gate_history option"
  user_row_version :: int

definition new_turn :: turn_state where
  "new_turn = \<lparr>reflect_count = 0, reflect_lessons = '''', reflect_retry_requested = False,
     retry_excluded_tools = {}, eval_count = 0, eval_retry_requested = False, eval_feedback = '''',
     tool_summary = Map.empty, tool_summary_attempts = [], gate_history = None,
     user_row_version = 0\<rparr>"

section \<open>Queued messages\<close>

record pending_message =
  message :: string
  system_prompt :: "string option"
  pre_saved :: bool
  queued_at :: rat
  msg_id :: "int option"
  is_goal_continuation :: bool
  continuation_id :: "int option"

section \<open>States and events\<close>

datatype sstate =
    IDLE_READY | SCOUTING | PROCESSING | COMPACTING | PAUSE_REQUESTED | PAUSED
  | CANCELLING | FINALIZING | AWAITING_USER | AWAITING_WORKERS

datatype term_reason =
    COMPLETE | ROUND_CEILING | STUCK_LOOP | COMPACTION_FAILED | CANCELLED | ERROR
  | SCOUT_ERROR | BUDGET_EXHAUSTED | INTERRUPTED

text \<open>The string values of the two enumerations.\<close>

fun state_value :: "sstate \<Rightarrow> string" where
  "state_value IDLE_READY = ''idle_ready''"
| "state_value SCOUTING = ''scouting''"
| "state_value PROCESSING = ''processing''"
| "state_value COMPACTING = ''compacting''"
| "state_value PAUSE_REQUESTED = ''pause_requested''"
| "state_value PAUSED = ''paused''"
| "state_value CANCELLING = ''cancelling''"
| "state_value FINALIZING = ''finalizing''"
| "state_value AWAITING_USER = ''awaiting_user''"
| "state_value AWAITING_WORKERS = ''awaiting_workers''"

fun term_value :: "term_reason \<Rightarrow> string" where
  "term_value COMPLETE = ''complete''"
| "term_value ROUND_CEILING = ''round_ceiling''"
| "term_value STUCK_LOOP = ''stuck_loop''"
| "term_value COMPACTION_FAILED = ''compaction_failed''"
| "term_value CANCELLED = ''cancelled''"
| "term_value ERROR = ''error''"
| "term_value SCOUT_ERROR = ''scout_error''"
| "term_value BUDGET_EXHAUSTED = ''budget_exhausted''"
| "term_value INTERRUPTED = ''interrupted''"

record capabilities =
  cap_pause :: bool
  cap_resume :: bool
  cap_steer :: bool
  cap_cancel :: bool

record state_changed =
  sc_from :: sstate
  sc_to :: sstate
  sc_reason :: string
  sc_turn_id :: int
  sc_retry_index :: int
  sc_compaction_count :: int
  sc_termination_reason :: "term_reason option"
  sc_parent_turn_id :: "int option"
  sc_capabilities :: capabilities

datatype event_payload =
    State_Changed state_changed
  | Other_Event string "(string \<times> string) list"   \<comment> \<open>an event of another type and its fields\<close>

record event =
  ev_payload :: event_payload
  ev_seq :: int
  ev_session_id :: string
  ev_timestamp :: "rat option"

record queue_obj =
  q_items :: "event list"
  q_dropped :: bool

section \<open>The session object\<close>

datatype task_status = No_Task | Task_Running | Task_Done

record agent_session =
  session_id :: string
  task :: task_status
  events :: "event list"
  event_seq :: int
  subscribers :: "nat list"
  error :: "string option"
  termination_reason :: "string option"
  session_type :: string
  parent_session_id :: "string option"
  worker_ids :: "string list"
  workspace_override :: "string option"
  space_id :: "string option"
  workspace_home :: "string option"
  active_goal_id :: "int option"
  cancel_requested :: bool
  pending_messages :: "pending_message list"
  last_user_msg_id :: "int option"
  last_user_msg_at :: rat
  swept_orphan_ids :: "int set"
  current_turn_user_msg_id :: "int option"
  pause_set :: bool
  model_override :: "string option"
  tool_allowlist :: "string set option"
  context_budget_override :: "int option"
  model_before_agent_switch :: "string option"
  budget_before_agent_switch :: "int option"
  turn :: turn_state
  goal_continuation_active :: bool
  watched_worker_ids :: "string set"
  active_processes :: "(string \<times> (string \<times> nat)) list"
  await_stalled_logged_at :: rat
  deferred_reflect_seq :: int
  last_activity_time :: rat
  background_refs :: int
  approved_dangerous_tools :: "string \<rightharpoonup> string \<times> bool"
  seen_memory_keys :: "string set"
  state_v2 :: "sstate option"
  turn_id :: int
  retry_index :: int
  compaction_count :: int
  state_entered_ms :: "int option"
  synthetic_turn_ids :: "int set"

definition new_session :: "string \<Rightarrow> rat \<Rightarrow> agent_session" where
  "new_session sid now = \<lparr>session_id = sid, task = No_Task, events = [], event_seq = 0,
     subscribers = [], error = None, termination_reason = None, session_type = ''normal'',
     parent_session_id = None, worker_ids = [], workspace_override = None, space_id = None,
     workspace_home = None, active_goal_id = None, cancel_requested = False,
     pending_messages = [], last_user_msg_id = None, last_user_msg_at = 0,
     swept_orphan_ids = {}, current_turn_user_msg_id = None, pause_set = True,
     model_override = None, tool_allowlist = None, context_budget_override = None,
     model_before_agent_switch = None, budget_before_agent_switch = None, turn = new_turn,
     goal_continuation_active = False, watched_worker_ids = {}, active_processes = [],
     await_stalled_logged_at = 0, deferred_reflect_seq = 0, last_activity_time = now,
     background_refs = 0, approved_dangerous_tools = Map.empty, seen_memory_keys = {},
     state_v2 = None, turn_id = 0, retry_index = 0, compaction_count = 0,
     state_entered_ms = None, synthetic_turn_ids = {}\<rparr>"

section \<open>The world around a session\<close>

text \<open>
  \<open>log_row\<close> is a row of \<open>session_state_log\<close>; \<open>w_db_state\<close> the column \<open>sessions.state_v2\<close>;
  \<open>w_rejected\<close> the counter \<open>_REJECTED_EDGES\<close>; \<open>w_next_handle\<close> the process-handle counter;
  \<open>w_warnings\<close> what the invariant check wrote to the log.
\<close>

record log_row =
  l_session_id :: string
  l_turn_id :: int
  l_parent_turn_id :: "int option"
  l_retry_index :: int
  l_compaction_count :: int
  l_from :: string
  l_to :: string
  l_reason :: string
  l_termination_reason :: "string option"
  l_reflect_count :: int
  l_eval_count :: int
  l_timestamp_ms :: int
  l_elapsed_ms :: "int option"

datatype violation =
    Idle_Pause_Clear | Idle_Cancel_Requested | Processing_Pause_Clear | Processing_No_Task
  | Pause_Requested_Pause_Set | Paused_Pause_Set | Cancelling_Pause_Clear
  | Finalizing_No_Reason | Awaiting_No_Question | Awaiting_No_Watched

record world =
  w_queues :: "nat \<Rightarrow> queue_obj"
  w_next_queue :: nat
  w_next_handle :: nat
  w_state_log :: "log_row list"
  w_db_state :: "string \<rightharpoonup> sstate"
  w_rejected :: "(string \<times> nat) list"
  w_warnings :: "(sstate \<times> violation) list"

section \<open>Events and subscribers\<close>

definition EVENT_BUFFER :: nat where "EVENT_BUFFER = 2000"
definition QUEUE_MAX :: nat where "QUEUE_MAX = 500"

text \<open>\<open>_deliver_to_subscribers\<close>: a full queue is marked as dropped and detached.\<close>

definition queue_full :: "world \<Rightarrow> nat \<Rightarrow> bool" where
  "queue_full w q \<longleftrightarrow> QUEUE_MAX \<le> length (q_items (w_queues w q))"

fun put_all :: "event \<Rightarrow> nat list \<Rightarrow> world \<Rightarrow> nat list \<times> world" where
  "put_all e [] w = ([], w)"
| "put_all e (q # qs) w =
     (if queue_full w q then let (dead, w') = put_all e qs w in (q # dead, w')
      else put_all e qs
             (w\<lparr>w_queues := (w_queues w)(q := (w_queues w q)\<lparr>q_items := q_items (w_queues w q) @ [e]\<rparr>)\<rparr>))"

definition detach :: "nat \<Rightarrow> agent_session \<times> world \<Rightarrow> agent_session \<times> world" where
  "detach q = (\<lambda>(s, w).
     (s\<lparr>subscribers := remove1 q (subscribers s)\<rparr>,
      w\<lparr>w_queues := (w_queues w)(q := (w_queues w q)\<lparr>q_dropped := True\<rparr>)\<rparr>))"

definition deliver_to_subscribers :: "event \<Rightarrow> agent_session \<times> world \<Rightarrow> agent_session \<times> world" where
  "deliver_to_subscribers e = (\<lambda>(s, w).
     let (dead, w') = put_all e (subscribers s) w in fold detach dead (s, w'))"

text \<open>
  \<open>emit_event\<close> on the event loop, where delivery is inline.  \<open>now\<close> is \<open>time.time()\<close>; an event
  that brings a timestamp keeps it.
\<close>

definition emit_event ::
    "rat \<Rightarrow> event_payload \<Rightarrow> rat option \<Rightarrow> agent_session \<times> world \<Rightarrow> agent_session \<times> world" where
  "emit_event now payload stamp = (\<lambda>(s, w).
     let seq = event_seq s + 1;
         e = \<lparr>ev_payload = payload, ev_seq = seq, ev_session_id = session_id s,
              ev_timestamp = (case stamp of Some t \<Rightarrow> Some t | None \<Rightarrow> Some now)\<rparr>;
         s' = s\<lparr>event_seq := seq, events := last_chars EVENT_BUFFER (events s @ [e])\<rparr>
     in deliver_to_subscribers e (s', w))"

definition subscribe :: "agent_session \<times> world \<Rightarrow> nat \<times> agent_session \<times> world" where
  "subscribe = (\<lambda>(s, w). let q = w_next_queue w in
     (q, s\<lparr>subscribers := subscribers s @ [q]\<rparr>,
      w\<lparr>w_next_queue := Suc q, w_queues := (w_queues w)(q := \<lparr>q_items = [], q_dropped = False\<rparr>)\<rparr>))"

definition unsubscribe :: "nat \<Rightarrow> agent_session \<Rightarrow> agent_session" where
  "unsubscribe q s = s\<lparr>subscribers := remove1 q (subscribers s)\<rparr>"

text \<open>What an emitted event leaves alone: everything but the buffer, the sequence number, the
  list of subscribers and the queues.\<close>

lemma put_all_queues: "\<exists>q. snd (put_all e qs w) = w\<lparr>w_queues := q\<rparr>"
proof (induction qs arbitrary: w)
  case Nil
  have "snd (put_all e [] w) = w\<lparr>w_queues := w_queues w\<rparr>" by simp
  then show ?case by blast
next
  case (Cons a qs)
  obtain q where "snd (put_all e qs w) = w\<lparr>w_queues := q\<rparr>" using Cons by blast
  moreover obtain q' where
    "snd (put_all e qs (w\<lparr>w_queues := (w_queues w)(a := (w_queues w a)\<lparr>q_items := q_items (w_queues w a) @ [e]\<rparr>)\<rparr>))
       = w\<lparr>w_queues := q'\<rparr>"
    using Cons [of "w\<lparr>w_queues := (w_queues w)(a := (w_queues w a)\<lparr>q_items := q_items (w_queues w a) @ [e]\<rparr>)\<rparr>"]
    by auto
  ultimately show ?case by (auto split: prod.splits)
qed

lemma fold_detach: "\<exists>subs q. fold detach qs (s, w) = (s\<lparr>subscribers := subs\<rparr>, w\<lparr>w_queues := q\<rparr>)"
proof (induction qs arbitrary: s w)
  case Nil
  have "fold detach [] (s, w) = (s\<lparr>subscribers := subscribers s\<rparr>, w\<lparr>w_queues := w_queues w\<rparr>)" by simp
  then show ?case by blast
next
  case (Cons a qs)
  from Cons [of "fst (detach a (s, w))" "snd (detach a (s, w))"] show ?case
    by (auto simp: detach_def)
qed

lemma emit_event_frame:
  "\<exists>evs subs q. emit_event now p st (s, w)
     = (s\<lparr>event_seq := event_seq s + 1, events := evs, subscribers := subs\<rparr>, w\<lparr>w_queues := q\<rparr>)"
proof -
  define e where "e = \<lparr>ev_payload = p, ev_seq = event_seq s + 1, ev_session_id = session_id s,
      ev_timestamp = (case st of Some t \<Rightarrow> Some t | None \<Rightarrow> Some now)\<rparr>"
  define s1 where "s1 = s\<lparr>event_seq := event_seq s + 1, events := last_chars EVENT_BUFFER (events s @ [e])\<rparr>"
  obtain q where q: "snd (put_all e (subscribers s1) w) = w\<lparr>w_queues := q\<rparr>"
    using put_all_queues by blast
  obtain subs q' where
    "fold detach (fst (put_all e (subscribers s1) w)) (s1, w\<lparr>w_queues := q\<rparr>)
       = (s1\<lparr>subscribers := subs\<rparr>, w\<lparr>w_queues := q'\<rparr>)"
    using fold_detach [of "fst (put_all e (subscribers s1) w)" s1 "w\<lparr>w_queues := q\<rparr>"] by auto
  moreover have "emit_event now p st (s, w)
      = fold detach (fst (put_all e (subscribers s1) w)) (s1, snd (put_all e (subscribers s1) w))"
    by (simp add: emit_event_def deliver_to_subscribers_def Let_def e_def s1_def split_beta)
  ultimately have "emit_event now p st (s, w) = (s1\<lparr>subscribers := subs\<rparr>, w\<lparr>w_queues := q'\<rparr>)"
    by (simp add: q)
  then show ?thesis unfolding s1_def by (auto intro!: exI)
qed

section \<open>Activity and background references\<close>

definition touch :: "rat \<Rightarrow> agent_session \<Rightarrow> agent_session" where
  "touch now s = s\<lparr>last_activity_time := now\<rparr>"

definition add_background_ref :: "agent_session \<Rightarrow> agent_session" where
  "add_background_ref s = s\<lparr>background_refs := background_refs s + 1\<rparr>"

definition remove_background_ref :: "agent_session \<Rightarrow> agent_session" where
  "remove_background_ref s = s\<lparr>background_refs := max 0 (background_refs s - 1)\<rparr>"

definition has_background_tasks :: "agent_session \<Rightarrow> bool" where
  "has_background_tasks s \<longleftrightarrow> background_refs s > 0"

definition idle_seconds :: "rat \<Rightarrow> agent_session \<Rightarrow> rat" where
  "idle_seconds now s = now - last_activity_time s"

section \<open>Child processes\<close>

text \<open>A process is a number; its handle is the owner, \<open>#\<close> and the process-wide counter.\<close>

definition process_handle :: "string \<Rightarrow> nat \<Rightarrow> string" where
  "process_handle owner k = owner @ CHR ''#'' # dec k"

definition register_process ::
    "nat \<Rightarrow> string \<Rightarrow> agent_session \<times> world \<Rightarrow> string \<times> agent_session \<times> world" where
  "register_process proc owner = (\<lambda>(s, w).
     let handle = process_handle owner (w_next_handle w) in
     (handle, s\<lparr>active_processes := dict_set handle (owner, proc) (active_processes s)\<rparr>,
      w\<lparr>w_next_handle := Suc (w_next_handle w)\<rparr>))"

definition release_process :: "string \<Rightarrow> agent_session \<Rightarrow> agent_session" where
  "release_process handle s = s\<lparr>active_processes := dict_pop handle (active_processes s)\<rparr>"

definition processes_for :: "string \<Rightarrow> agent_session \<Rightarrow> nat list" where
  "processes_for owner s =
     map (\<lambda>(_, (_, p)). p) (filter (\<lambda>(_, (o', _)). o' = owner) (active_processes s))"

definition all_processes :: "agent_session \<Rightarrow> nat list" where
  "all_processes s = map (\<lambda>(_, (_, p)). p) (active_processes s)"

text \<open>Every live handle was drawn from the counter.\<close>

definition handles_ok :: "agent_session \<times> world \<Rightarrow> bool" where
  "handles_ok = (\<lambda>(s, w). distinct (map fst (active_processes s)) \<and>
     (\<forall>(h, (o', _)) \<in> set (active_processes s). \<exists>k < w_next_handle w. h = process_handle o' k))"

lemma process_handle_inject:
  assumes "process_handle a j = process_handle b k"
  shows "j = k"
proof -
  have hash: "CHR ''#'' \<notin> set (dec n)" for n
    using dec_digits [of "CHR ''#''" n] by auto
  have split: "last (split_on (CHR ''#'') (s @ CHR ''#'' # t)) = t" if "CHR ''#'' \<notin> set t" for s t :: string
    using that by (simp add: split_on_append split_on_free)
  from assms have "dec j = dec k"
    unfolding process_handle_def by (metis hash split)
  then show ?thesis by simp
qed

lemma new_handle_fresh:
  assumes "handles_ok (s, w)"
  shows "process_handle o' (w_next_handle w) \<notin> fst ` set (active_processes s)"
proof
  assume "process_handle o' (w_next_handle w) \<in> fst ` set (active_processes s)"
  then obtain oo p where "(process_handle o' (w_next_handle w), (oo, p)) \<in> set (active_processes s)"
    by force
  with assms obtain k where "k < w_next_handle w"
      "process_handle o' (w_next_handle w) = process_handle oo k"
    unfolding handles_ok_def by force
  then show False by (auto dest: process_handle_inject)
qed

text \<open>Concurrent tool calls never overwrite each other's child process: registering a
  process keeps every process already tracked, adds this one for its owner, and releasing the
  returned handle leaves exactly what was tracked before.\<close>

theorem register_keeps_others:
  assumes "handles_ok (s, w)" and "register_process proc owner (s, w) = (h, s', w')"
  shows "handles_ok (s', w')
    \<and> all_processes s' = all_processes s @ [proc]
    \<and> processes_for owner s' = processes_for owner s @ [proc]
    \<and> (\<forall>o'. o' \<noteq> owner \<longrightarrow> processes_for o' s' = processes_for o' s)
    \<and> active_processes (release_process h s') = active_processes s"
proof -
  let ?h = "process_handle owner (w_next_handle w)"
  from assms(2) have h: "h = ?h" and w': "w_next_handle w' = Suc (w_next_handle w)"
    and s': "active_processes s' = dict_set ?h (owner, proc) (active_processes s)"
    by (auto simp: register_process_def Let_def)
  have fresh: "?h \<notin> fst ` set (active_processes s)" by (rule new_handle_fresh [OF assms(1)])
  then have app: "active_processes s' = active_processes s @ [(?h, (owner, proc))]"
    by (simp add: s' dict_set_new)
  have "handles_ok (s', w')"
    using assms(1) fresh unfolding handles_ok_def by (auto simp: app w' less_Suc_eq)
  moreover have "active_processes (release_process h s') = active_processes s"
    using dict_pop_absent [OF fresh] by (simp add: release_process_def app h dict_pop_def)
  ultimately show ?thesis
    by (simp add: all_processes_def processes_for_def app)
qed

end
