(* ===== verification/State_Machine.thy ===== *)
theory State_Machine
  imports Session_State "HOL-Library.Product_Lexorder"
begin

text \<open>
  \<open>sessions/state_v2.py\<close>: the table of transitions, the function \<open>transition\<close> with its
  checks and its rollback, and the operations of \<open>sessions/manager.py\<close> and \<open>core/agent.py\<close>
  that drive it: pause and resume, the agent loop's pause checkpoint, compaction, cancellation,
  the end of a turn and the boot sweep.

  What a call reads from outside is one record \<open>env\<close>: the two clocks, whether the database
  accepts a row, and the open questions of the session (\<^const>\<open>None\<close> when that query raises).
  An operation of the agent loop that awaits is split at its \<open>await\<close>, so the control calls
  can come in between.
\<close>

section \<open>The transition table\<close>

definition TRANSITIONS :: "((sstate \<times> string) \<times> sstate) list" where
  "TRANSITIONS = [
     ((IDLE_READY, ''prompt-arrived''), SCOUTING),
     ((SCOUTING, ''scout-done''), PROCESSING),
     ((SCOUTING, ''scout-error''), FINALIZING),
     ((SCOUTING, ''cancel-requested''), CANCELLING),
     ((PROCESSING, ''compact-proactive''), COMPACTING),
     ((PROCESSING, ''compact-critical''), COMPACTING),
     ((PROCESSING, ''compact-overflow''), COMPACTING),
     ((COMPACTING, ''compact-done''), PROCESSING),
     ((COMPACTING, ''compact-done-paused''), PAUSE_REQUESTED),
     ((PAUSE_REQUESTED, ''compact-proactive''), COMPACTING),
     ((PAUSE_REQUESTED, ''compact-critical''), COMPACTING),
     ((PAUSE_REQUESTED, ''compact-overflow''), COMPACTING),
     ((COMPACTING, ''compaction-failed''), FINALIZING),
     ((PROCESSING, ''compaction-failed''), FINALIZING),
     ((PROCESSING, ''ask-user''), AWAITING_USER),
     ((PROCESSING, ''pause-requested''), PAUSE_REQUESTED),
     ((PROCESSING, ''cancel-requested''), CANCELLING),
     ((PROCESSING, ''loop-complete''), FINALIZING),
     ((PROCESSING, ''round-ceiling''), FINALIZING),
     ((PROCESSING, ''stuck-loop''), FINALIZING),
     ((PROCESSING, ''agent-error''), FINALIZING),
     ((PAUSE_REQUESTED, ''pause-observed''), PAUSED),
     ((PAUSE_REQUESTED, ''resume''), PROCESSING),
     ((PAUSE_REQUESTED, ''loop-complete''), FINALIZING),
     ((PAUSE_REQUESTED, ''round-ceiling''), FINALIZING),
     ((PAUSE_REQUESTED, ''stuck-loop''), FINALIZING),
     ((PAUSE_REQUESTED, ''agent-error''), FINALIZING),
     ((PAUSE_REQUESTED, ''ask-user''), AWAITING_USER),
     ((PAUSE_REQUESTED, ''workers-dispatched''), AWAITING_WORKERS),
     ((PAUSE_REQUESTED, ''cancel-during-pause''), CANCELLING),
     ((PAUSE_REQUESTED, ''compaction-failed''), FINALIZING),
     ((PAUSED, ''resume''), PROCESSING),
     ((PAUSED, ''cancel-during-pause''), CANCELLING),
     ((CANCELLING, ''cancel-complete''), IDLE_READY),
     ((CANCELLING, ''cancel-timeout''), IDLE_READY),
     ((FINALIZING, ''cancel-requested''), CANCELLING),
     ((FINALIZING, ''reflect-retry''), SCOUTING),
     ((FINALIZING, ''eval-retry''), SCOUTING),
     ((FINALIZING, ''turn-complete''), IDLE_READY),
     ((FINALIZING, ''finalize-error''), IDLE_READY),
     ((AWAITING_USER, ''answer-received''), SCOUTING),
     ((AWAITING_USER, ''cancel-requested''), CANCELLING),
     ((AWAITING_USER, ''question-dismissed''), IDLE_READY),
     ((PROCESSING, ''workers-dispatched''), AWAITING_WORKERS),
     ((AWAITING_WORKERS, ''workers-complete''), SCOUTING),
     ((AWAITING_WORKERS, ''worker-timeout''), IDLE_READY),
     ((AWAITING_WORKERS, ''cancel-requested''), CANCELLING),
     ((AWAITING_WORKERS, ''reaper-unstick''), IDLE_READY),
     ((COMPACTING, ''cancel-requested''), CANCELLING),
     ((COMPACTING, ''agent-error''), FINALIZING),
     ((PROCESSING, ''reaper-unstick''), IDLE_READY),
     ((SCOUTING, ''reaper-unstick''), IDLE_READY),
     ((PAUSE_REQUESTED, ''reaper-unstick''), IDLE_READY),
     ((PAUSED, ''reaper-unstick''), IDLE_READY),
     ((AWAITING_USER, ''reaper-unstick''), IDLE_READY),
     ((FINALIZING, ''reaper-unstick''), IDLE_READY),
     ((COMPACTING, ''reaper-unstick''), IDLE_READY),
     ((CANCELLING, ''reaper-unstick''), IDLE_READY),
     ((SCOUTING, ''cancel-timeout''), IDLE_READY),
     ((PROCESSING, ''cancel-timeout''), IDLE_READY),
     ((COMPACTING, ''cancel-timeout''), IDLE_READY),
     ((PAUSE_REQUESTED, ''cancel-timeout''), IDLE_READY),
     ((PAUSED, ''cancel-timeout''), IDLE_READY),
     ((AWAITING_USER, ''cancel-timeout''), IDLE_READY),
     ((AWAITING_WORKERS, ''cancel-timeout''), IDLE_READY),
     ((FINALIZING, ''cancel-timeout''), IDLE_READY)]"

definition edge :: "sstate \<Rightarrow> string \<Rightarrow> sstate option" where
  "edge a reason = map_of TRANSITIONS (a, reason)"

definition NEW_TURN_REASONS :: "string list" where
  "NEW_TURN_REASONS = [''prompt-arrived'', ''answer-received'', ''workers-complete'']"

definition RETRY_REASONS :: "string list" where
  "RETRY_REASONS = [''reflect-retry'', ''eval-retry'']"

definition COMPACT_ENTER_REASONS :: "string list" where
  "COMPACT_ENTER_REASONS = [''compact-proactive'', ''compact-critical'', ''compact-overflow'']"

text \<open>The count of rejected edges and its report.\<close>

definition rejected_key :: "sstate \<Rightarrow> string \<Rightarrow> sstate \<Rightarrow> string" where
  "rejected_key a reason b = state_value a @ ''--('' @ reason @ '')-->'' @ state_value b"

definition record_rejected_transition :: "sstate \<Rightarrow> string \<Rightarrow> sstate \<Rightarrow> world \<Rightarrow> world" where
  "record_rejected_transition a reason b w = (let k = rejected_key a reason b in
     w\<lparr>w_rejected := dict_set k (case map_of (w_rejected w) k of None \<Rightarrow> 1 | Some n \<Rightarrow> n + 1)
                        (w_rejected w)\<rparr>)"

definition rejected_transition_stats :: "world \<Rightarrow> nat \<times> (string \<times> nat) list" where
  "rejected_transition_stats w = (sum_list (map snd (w_rejected w)), w_rejected w)"

definition reset_rejected_transitions :: "world \<Rightarrow> world" where
  "reset_rejected_transitions w = w\<lparr>w_rejected := []\<rparr>"

section \<open>Reading the state\<close>

definition current_state :: "agent_session \<Rightarrow> sstate" where
  "current_state s = (case state_v2 s of Some v \<Rightarrow> v | None \<Rightarrow> IDLE_READY)"

definition post_hooks_complete :: "agent_session \<Rightarrow> bool" where
  "post_hooks_complete s \<longleftrightarrow> current_state s = IDLE_READY"

definition waiting_for_input :: "agent_session \<Rightarrow> bool" where
  "waiting_for_input s \<longleftrightarrow> current_state s = AWAITING_USER"

definition waiting_for_workers :: "agent_session \<Rightarrow> bool" where
  "waiting_for_workers s \<longleftrightarrow> current_state s = AWAITING_WORKERS"

definition ALL_STATES :: "sstate list" where
  "ALL_STATES = [IDLE_READY, SCOUTING, PROCESSING, COMPACTING, PAUSE_REQUESTED, PAUSED,
     CANCELLING, FINALIZING, AWAITING_USER, AWAITING_WORKERS]"

text \<open>\<open>SessionStateV2(v)\<close>, with \<^const>\<open>None\<close> for the \<open>ValueError\<close>.\<close>

definition state_of_value :: "string \<Rightarrow> sstate option" where
  "state_of_value v = find (\<lambda>s. state_value s = v) ALL_STATES"

fun COMPAT_STATUS :: "sstate \<Rightarrow> string" where
  "COMPAT_STATUS IDLE_READY = ''idle''"
| "COMPAT_STATUS SCOUTING = ''scouting''"
| "COMPAT_STATUS PROCESSING = ''processing''"
| "COMPAT_STATUS COMPACTING = ''processing''"
| "COMPAT_STATUS PAUSE_REQUESTED = ''processing''"
| "COMPAT_STATUS PAUSED = ''processing''"
| "COMPAT_STATUS CANCELLING = ''processing''"
| "COMPAT_STATUS FINALIZING = ''processing''"
| "COMPAT_STATUS AWAITING_USER = ''idle''"
| "COMPAT_STATUS AWAITING_WORKERS = ''idle''"

definition compat_status :: "string \<Rightarrow> string" where
  "compat_status v = (case state_of_value v of None \<Rightarrow> ''unknown'' | Some s \<Rightarrow> COMPAT_STATUS s)"

definition task_live :: "agent_session \<Rightarrow> bool" where
  "task_live s \<longleftrightarrow> task s = Task_Running"

definition capabilities_of :: "agent_session \<Rightarrow> capabilities" where
  "capabilities_of s = (let current = current_state s; live = task_live s in
     \<lparr>cap_pause = (live \<and> current = PROCESSING \<and> \<not> cancel_requested s),
      cap_resume = (live \<and> current \<in> {PAUSE_REQUESTED, PAUSED} \<and> \<not> cancel_requested s),
      cap_steer = (\<not> cancel_requested s \<and> (current = AWAITING_WORKERS
         \<or> (live \<and> current \<in> {SCOUTING, PROCESSING, COMPACTING, PAUSE_REQUESTED, PAUSED}))),
      cap_cancel = (live \<or> current \<in> {AWAITING_USER, AWAITING_WORKERS})\<rparr>)"

section \<open>Invariants checked on entry\<close>

record env =
  e_wall :: rat
  e_mono :: rat
  e_log_ok :: bool
  e_questions :: "nat option"

definition check_invariants :: "env \<Rightarrow> agent_session \<Rightarrow> sstate \<Rightarrow> violation list" where
  "check_invariants env s b = (case b of
     IDLE_READY \<Rightarrow> (if \<not> pause_set s then [Idle_Pause_Clear] else [])
        @ (if cancel_requested s then [Idle_Cancel_Requested] else [])
   | PROCESSING \<Rightarrow> (if \<not> pause_set s then [Processing_Pause_Clear] else [])
        @ (if task s \<noteq> Task_Running then [Processing_No_Task] else [])
   | PAUSE_REQUESTED \<Rightarrow> (if pause_set s then [Pause_Requested_Pause_Set] else [])
   | PAUSED \<Rightarrow> (if pause_set s then [Paused_Pause_Set] else [])
   | CANCELLING \<Rightarrow> (if \<not> pause_set s then [Cancelling_Pause_Clear] else [])
   | FINALIZING \<Rightarrow> (if termination_reason s = None then [Finalizing_No_Reason] else [])
   | AWAITING_USER \<Rightarrow> (if e_questions env = Some 0 then [Awaiting_No_Question] else [])
   | AWAITING_WORKERS \<Rightarrow> (if watched_worker_ids s = {} then [Awaiting_No_Watched] else [])
   | _ \<Rightarrow> [])"

section \<open>The transition\<close>

definition ms_of :: "rat \<Rightarrow> int" where
  "ms_of t = \<lfloor>t * 1000\<rfloor>"

text \<open>\<open>add_state_log\<close> of \<open>db/models.py\<close>: the row and, with \<open>persist_state\<close>, the column
  \<open>sessions.state_v2\<close>, in one transaction.\<close>

definition add_state_log :: "log_row \<Rightarrow> bool \<Rightarrow> sstate \<Rightarrow> world \<Rightarrow> world" where
  "add_state_log row persist b w = (let w' = w\<lparr>w_state_log := w_state_log w @ [row]\<rparr> in
     if persist then w'\<lparr>w_db_state := (w_db_state w')(l_session_id row \<mapsto> b)\<rparr> else w')"

text \<open>The counters \<open>(turn_id, parent, retry_index, compaction_count)\<close> after a reason.\<close>

definition account :: "string \<Rightarrow> int \<Rightarrow> int \<Rightarrow> int \<Rightarrow> int \<times> int option \<times> int \<times> int" where
  "account reason tid retry cc =
     (if reason \<in> set NEW_TURN_REASONS then
        (tid + 1, if reason = ''answer-received'' then Some tid else None, 0, 0)
      else if reason \<in> set RETRY_REASONS then (tid, None, retry + 1, 0)
      else if reason \<in> set COMPACT_ENTER_REASONS then (tid, None, retry, cc + 1)
      else (tid, None, retry, cc))"

datatype outcome = Raised | Returned bool

definition violation_row :: "env \<Rightarrow> sstate \<Rightarrow> string \<Rightarrow> agent_session \<Rightarrow> log_row" where
  "violation_row env current reason s =
     \<lparr>l_session_id = session_id s, l_turn_id = turn_id s, l_parent_turn_id = None,
      l_retry_index = 0, l_compaction_count = 0, l_from = state_value current,
      l_to = state_value current, l_reason = ''invariant-violation:'' @ reason,
      l_termination_reason = None, l_reflect_count = 0, l_eval_count = 0,
      l_timestamp_ms = ms_of (e_wall env), l_elapsed_ms = None\<rparr>"

definition reject_edge ::
    "env \<Rightarrow> sstate \<Rightarrow> string \<Rightarrow> agent_session \<times> world \<Rightarrow> outcome \<times> agent_session \<times> world" where
  "reject_edge env b reason = (\<lambda>(s, w).
     let current = current_state s; w' = record_rejected_transition current reason b w in
     (Returned False, s,
      if e_log_ok env then add_state_log (violation_row env current reason s) False current w' else w'))"

text \<open>The session as it is checked and logged: the event set, the reason written.\<close>

definition prepared :: "sstate \<Rightarrow> term_reason option \<Rightarrow> agent_session \<Rightarrow> agent_session" where
  "prepared b tr s = (let current = current_state s;
     s1 = (if b \<notin> {PAUSE_REQUESTED, PAUSED, COMPACTING} \<and> current \<in> {PAUSE_REQUESTED, PAUSED}
           then s\<lparr>pause_set := True\<rparr> else s) in
     case tr of None \<Rightarrow> s1 | Some r \<Rightarrow> s1\<lparr>termination_reason := Some (term_value r)\<rparr>)"

definition elapsed_ms :: "int \<Rightarrow> int option \<Rightarrow> int option" where
  "elapsed_ms now_ms prev = (case prev of None \<Rightarrow> None
     | Some p \<Rightarrow> if p = 0 then None else Some (now_ms - p))"

definition transition_row ::
    "env \<Rightarrow> sstate \<Rightarrow> string \<Rightarrow> term_reason option \<Rightarrow> agent_session \<Rightarrow> log_row" where
  "transition_row env b reason tr s =
     (let (tid, parent, retry, cc) = account reason (turn_id s) (retry_index s) (compaction_count s) in
      \<lparr>l_session_id = session_id s, l_turn_id = tid, l_parent_turn_id = parent,
       l_retry_index = retry, l_compaction_count = cc, l_from = state_value (current_state s),
       l_to = state_value b, l_reason = reason, l_termination_reason = map_option term_value tr,
       l_reflect_count = reflect_count (turn s), l_eval_count = eval_count (turn s),
       l_timestamp_ms = ms_of (e_wall env),
       l_elapsed_ms = elapsed_ms (ms_of (e_mono env)) (state_entered_ms s)\<rparr>)"

definition committed ::
    "env \<Rightarrow> sstate \<Rightarrow> string \<Rightarrow> term_reason option \<Rightarrow> agent_session \<Rightarrow> agent_session" where
  "committed env b reason tr s =
     (let (tid, parent, retry, cc) = account reason (turn_id s) (retry_index s) (compaction_count s);
          s1 = s\<lparr>state_entered_ms := Some (ms_of (e_mono env)), turn_id := tid, retry_index := retry,
                 compaction_count := cc, state_v2 := Some b\<rparr>;
          s2 = (case tr of None \<Rightarrow> s1 | Some r \<Rightarrow> s1\<lparr>termination_reason := Some (term_value r)\<rparr>)
      in touch (e_wall env) s2)"

definition changed_event ::
    "sstate \<Rightarrow> sstate \<Rightarrow> string \<Rightarrow> term_reason option \<Rightarrow> int option \<Rightarrow> agent_session \<Rightarrow> event_payload" where
  "changed_event a b reason tr parent s = State_Changed
     \<lparr>sc_from = a, sc_to = b, sc_reason = reason, sc_turn_id = turn_id s,
      sc_retry_index = retry_index s, sc_compaction_count = compaction_count s,
      sc_termination_reason = tr, sc_parent_turn_id = parent, sc_capabilities = capabilities_of s\<rparr>"

definition transition ::
    "env \<Rightarrow> sstate \<Rightarrow> string \<Rightarrow> term_reason option \<Rightarrow> agent_session \<times> world
     \<Rightarrow> outcome \<times> agent_session \<times> world" where
  "transition env b reason tr = (\<lambda>(s, w).
     let current = current_state s in
     if edge current reason \<noteq> Some b then reject_edge env b reason (s, w)
     else
       let s1 = prepared b tr s;
           w1 = w\<lparr>w_warnings := w_warnings w @ map (\<lambda>v. (b, v)) (check_invariants env s1 b)\<rparr>
       in if \<not> e_log_ok env then
            (Raised, s1\<lparr>termination_reason := termination_reason s, pause_set := pause_set s\<rparr>, w1)
          else
            let row = transition_row env b reason tr s1;
                s2 = committed env b reason tr s1;
                payload = changed_event current b reason tr (l_parent_turn_id row) s2
            in (Returned True, emit_event (e_wall env) payload None (s2, add_state_log row True b w1)))"

text \<open>\<open>_set_state\<close>; a database that refuses only logs.\<close>

definition set_state :: "bool \<Rightarrow> sstate \<Rightarrow> agent_session \<times> world \<Rightarrow> agent_session \<times> world" where
  "set_state db_ok b = (\<lambda>(s, w). (s\<lparr>state_v2 := Some b\<rparr>,
     if db_ok then w\<lparr>w_db_state := (w_db_state w)(session_id s \<mapsto> b)\<rparr> else w))"

section \<open>The callers\<close>

subsection \<open>Pause and resume\<close>

datatype control_result =
    Ctl_Rejected string
  | Ctl_Status string string sstate capabilities
  | Ctl_Raised

definition cap_of :: "string \<Rightarrow> capabilities \<Rightarrow> bool" where
  "cap_of action c = (if action = ''pause'' then cap_pause c else if action = ''resume'' then cap_resume c
     else if action = ''steer'' then cap_steer c else if action = ''cancel'' then cap_cancel c else False)"

text \<open>\<open>control_session\<close> of the manager, on a session that it finds.\<close>

definition control_session ::
    "env \<Rightarrow> string \<Rightarrow> agent_session \<times> world \<Rightarrow> control_result \<times> agent_session \<times> world" where
  "control_session env action = (\<lambda>(s, w).
     let current = current_state s in
     if \<not> cap_of action (capabilities_of s) then
       (Ctl_Rejected (''Cannot '' @ action @ '' session in '' @ state_value current), s, w)
     else if action = ''pause'' then
       (case transition env PAUSE_REQUESTED ''pause-requested'' None (s\<lparr>pause_set := False\<rparr>, w) of
          (Raised, s', w') \<Rightarrow> (Ctl_Raised, s'\<lparr>pause_set := True\<rparr>, w')
        | (Returned _, s', w') \<Rightarrow>
            (Ctl_Status ''pause_requested'' ''Session will pause at next checkpoint''
               (current_state s') (capabilities_of s'), s', w'))
     else if action = ''resume'' then
       let done = (\<lambda>s' w'. (Ctl_Status ''resumed'' ''Session resumed''
                     (current_state s') (capabilities_of s'), s', w'));
           s1 = s\<lparr>pause_set := True\<rparr>
       in if current = PAUSE_REQUESTED then
            (case transition env PROCESSING ''resume'' None (s1, w) of
               (Raised, s', w') \<Rightarrow> (Ctl_Raised, s'\<lparr>pause_set := False\<rparr>, w')
             | (Returned _, s', w') \<Rightarrow> done s' w')
          else done s1 w
     else (Ctl_Rejected (''Unsupported control: '' @ action), s, w))"

definition control_missing :: control_result where
  "control_missing = Ctl_Rejected ''Session not found''"

text \<open>
  The pause checkpoint of \<open>_pre_round_gate\<close>, before and after the \<open>await\<close> on the event.  The
  agent swallows an exception of \<open>transition\<close>, so only the state it leaves matters.
\<close>

definition quiet :: "outcome \<times> agent_session \<times> world \<Rightarrow> agent_session \<times> world" where
  "quiet = (\<lambda>(_, s, w). (s, w))"

definition observe_pause :: "env \<Rightarrow> agent_session \<times> world \<Rightarrow> agent_session \<times> world" where
  "observe_pause env = (\<lambda>(s, w).
     if \<not> pause_set s \<and> current_state s = PAUSE_REQUESTED
     then quiet (transition env PAUSED ''pause-observed'' None (s, w)) else (s, w))"

definition wake_paused :: "env \<Rightarrow> agent_session \<times> world \<Rightarrow> agent_session \<times> world" where
  "wake_paused env = (\<lambda>(s, w).
     if pause_set s \<and> current_state s = PAUSED
     then quiet (transition env PROCESSING ''resume'' None (s, w)) else (s, w))"

text \<open>The cancellation checks before and after; \<open>"run"\<close> and \<open>"return"\<close> as booleans.\<close>

definition cancel_checkpoint :: "agent_session \<Rightarrow> bool \<times> agent_session" where
  "cancel_checkpoint s = (if cancel_requested s
     then (False, s\<lparr>termination_reason := Some ''cancelled''\<rparr>) else (True, s))"

subsection \<open>Compaction\<close>

text \<open>The state part of \<open>_CompactionController.run\<close>, before and after the compactor's await.\<close>

definition compact_begin ::
    "env \<Rightarrow> string \<Rightarrow> event_payload \<Rightarrow> agent_session \<times> world \<Rightarrow> agent_session \<times> world" where
  "compact_begin env reason ev sw =
     quiet (transition env COMPACTING reason None (emit_event (e_wall env) ev None sw))"

definition compact_end ::
    "env \<Rightarrow> bool \<Rightarrow> bool \<Rightarrow> bool \<Rightarrow> agent_session \<times> world \<Rightarrow> agent_session \<times> world" where
  "compact_end env compacted refused' restore = (\<lambda>(s0, w).
     let s = touch (e_wall env) s0 in
     if compacted \<or> refused' \<or> restore then
       let pending = \<not> pause_set s in
       quiet (transition env (if pending then PAUSE_REQUESTED else PROCESSING)
                (if pending then ''compact-done-paused'' else ''compact-done'') None (s, w))
     else (s, w))"

subsection \<open>The ends of a turn\<close>

definition TERMINATION_ROUTED_STATES :: "sstate list" where
  "TERMINATION_ROUTED_STATES = [PROCESSING, PAUSE_REQUESTED]"

definition TERMINATION_TO_V2 :: "(string \<times> (string \<times> term_reason)) list" where
  "TERMINATION_TO_V2 = [
     (''complete'', (''loop-complete'', COMPLETE)),
     (''round_ceiling'', (''round-ceiling'', ROUND_CEILING)),
     (''stuck_loop'', (''stuck-loop'', STUCK_LOOP)),
     (''compaction_failed'', (''compaction-failed'', COMPACTION_FAILED)),
     (''error'', (''agent-error'', ERROR)),
     (''budget_exhausted'', (''loop-complete'', BUDGET_EXHAUSTED))]"

definition finalize_failure_reason :: "sstate \<Rightarrow> string" where
  "finalize_failure_reason a = (if a = FINALIZING then ''finalize-error'' else ''reaper-unstick'')"

definition map_termination_to_v2_reason :: "string option \<Rightarrow> string \<times> term_reason" where
  "map_termination_to_v2_reason tr =
     (let key = (case tr of None \<Rightarrow> ''complete'' | Some t \<Rightarrow> if t = '''' then ''complete'' else t) in
      case map_of TERMINATION_TO_V2 key of Some p \<Rightarrow> p | None \<Rightarrow> (''loop-complete'', COMPLETE))"

text \<open>What \<open>_run_agent_safe\<close> does when its task is cancelled, and when finalization raises.\<close>

definition cancel_reason :: "sstate \<Rightarrow> string" where
  "cancel_reason a = (if a \<in> {PAUSED, PAUSE_REQUESTED} then ''cancel-during-pause'' else ''cancel-requested'')"

definition cancelled_transition :: "env \<Rightarrow> agent_session \<times> world \<Rightarrow> agent_session \<times> world" where
  "cancelled_transition env = (\<lambda>(s0, w).
     let s = s0\<lparr>termination_reason := Some ''cancelled''\<rparr>; a = current_state s in
     if a \<noteq> CANCELLING then quiet (transition env CANCELLING (cancel_reason a) (Some CANCELLED) (s, w))
     else (s, w))"

definition start_reason :: "sstate \<Rightarrow> string" where
  "start_reason a = (if a = AWAITING_USER then ''answer-received''
     else if a = AWAITING_WORKERS then ''workers-complete'' else ''prompt-arrived'')"

text \<open>The boot sweep over sessions whose process died in mid-turn.\<close>

definition SWEEP :: "(sstate \<times> string) list" where
  "SWEEP = [(SCOUTING, ''reaper-unstick''), (PAUSE_REQUESTED, ''reaper-unstick''),
     (PAUSED, ''reaper-unstick''), (CANCELLING, ''cancel-timeout''), (FINALIZING, ''finalize-error''),
     (COMPACTING, ''compaction-failed'')]"

text \<open>One row of it, with whether the session was reset: a transition that raises ends the row.\<close>

definition reset_note :: event_payload where
  "reset_note = Other_Event ''system'' [(''content'',
     ''Session was interrupted by a server restart and has been reset. You can send a new message.'')]"

definition reconcile_row ::
    "env \<Rightarrow> sstate \<times> string \<Rightarrow> agent_session \<times> world \<Rightarrow> bool \<times> agent_session \<times> world" where
  "reconcile_row env = (\<lambda>(target, reason) (s, w).
     if current_state s \<noteq> target then (False, s, w)
     else
       let s1 = s\<lparr>cancel_requested := False, pause_set := True\<rparr>;
           announce = (\<lambda>sw. (True, emit_event (e_wall env) reset_note None sw))
       in case (if reason = ''compaction-failed''
                then transition env FINALIZING reason (Some COMPACTION_FAILED) (s1, w)
                else transition env (the (edge target reason)) reason None (s1, w)) of
            (Raised, s', w') \<Rightarrow> (False, s', w')
          | (Returned _, s', w') \<Rightarrow>
              if current_state s' = FINALIZING then
                (case transition env IDLE_READY ''finalize-error'' None (s', w') of
                   (Raised, s'', w'') \<Rightarrow> (False, s'', w'')
                 | (Returned _, s'', w'') \<Rightarrow> announce (s'', w''))
              else announce (s', w'))"

text \<open>
  \<open>_finalize_turn\<close>: the close of a cancelled turn (it returns the reason that its notice
  names), the exit of a loop that returned normally, and the last step after the hooks.
\<close>

definition close_cancelled :: "env \<Rightarrow> agent_session \<times> world \<Rightarrow> string \<times> agent_session \<times> world" where
  "close_cancelled env = (\<lambda>(s0, w).
     let s = (touch (e_wall env) s0)
               \<lparr>termination_reason := Some ''cancelled'', pause_set := True, cancel_requested := False\<rparr>;
         current = current_state s
     in if current = CANCELLING then
          (''cancel-complete'', quiet (transition env IDLE_READY ''cancel-complete'' None (s, w)))
        else if current \<noteq> IDLE_READY then
          (''cancel-timeout'', quiet (transition env IDLE_READY ''cancel-timeout'' None (s, w)))
        else (''cancel-complete'', s, w))"

definition leave_loop :: "env \<Rightarrow> agent_session \<times> world \<Rightarrow> agent_session \<times> world" where
  "leave_loop env = (\<lambda>(s0, w).
     let current = current_state s0;
         s = (if current = PAUSE_REQUESTED then s0\<lparr>pause_set := True\<rparr> else s0)
     in if current \<in> set TERMINATION_ROUTED_STATES then
          let (reason, term) = map_termination_to_v2_reason (termination_reason s)
          in quiet (transition env FINALIZING reason (Some term) (s, w))
        else if current = COMPACTING then
          quiet (transition env FINALIZING ''compaction-failed'' (Some COMPACTION_FAILED) (s, w))
        else (s, w))"

definition complete_turn :: "env \<Rightarrow> agent_session \<times> world \<Rightarrow> agent_session \<times> world" where
  "complete_turn env = (\<lambda>(s, w). if current_state s = FINALIZING
     then quiet (transition env IDLE_READY ''turn-complete'' None (s, w)) else (s, w))"

text \<open>The two transitions that open a turn: the start, and the end of the scout phase.\<close>

definition start_turn :: "env \<Rightarrow> agent_session \<times> world \<Rightarrow> outcome \<times> agent_session \<times> world" where
  "start_turn env = (\<lambda>(s, w). transition env SCOUTING (start_reason (current_state s)) None (s, w))"

definition scout_done :: "env \<Rightarrow> agent_session \<times> world \<Rightarrow> outcome \<times> agent_session \<times> world" where
  "scout_done env = transition env PROCESSING ''scout-done'' None"

end
