(* ===== verification/State_Proofs.thy ===== *)
theory State_Proofs
  imports State_Machine
begin

text \<open>
  What the session state machine guarantees: each transition is all or nothing, the log and
  the counters follow the state, no state traps a session, and the pause event agrees with the
  state through every interleaving of control calls, compaction and the agent loop.
\<close>

section \<open>The table\<close>

lemma edge_all: "edge a r = Some b \<Longrightarrow> list_all P TRANSITIONS \<Longrightarrow> P ((a, r), b)"
  by (auto simp: edge_def list_all_iff dest: map_of_SomeD)

lemma sstate_all: "(\<forall>a. P a) \<longleftrightarrow> list_all P ALL_STATES"
  by (auto simp: ALL_STATES_def) (metis sstate.exhaust)

lemma state_value_inject [simp]: "state_value a = state_value b \<longleftrightarrow> a = b"
  by (cases a; cases b) simp_all

lemma state_of_value_value [simp]: "state_of_value (state_value a) = Some a"
  by (cases a) (simp_all add: state_of_value_def ALL_STATES_def)

section \<open>One transition\<close>

lemma transition_rejected:
  "edge (current_state s) r \<noteq> Some b \<Longrightarrow> transition env b r tr (s, w) = reject_edge env b r (s, w)"
  by (simp add: transition_def)

lemma prepared_restore:
  "(prepared b tr s)\<lparr>termination_reason := termination_reason s, pause_set := pause_set s\<rparr> = s"
  by (simp add: prepared_def Let_def split: option.splits)

lemma transition_raised:
  assumes "edge (current_state s) r = Some b" and "\<not> e_log_ok env"
  shows "\<exists>warn. transition env b r tr (s, w) = (Raised, s, w\<lparr>w_warnings := warn\<rparr>)"
  using assms by (simp add: transition_def Let_def prepared_restore) blast

lemma session_log_other [simp]:
  "w_state_log (w\<lparr>w_queues := q\<rparr>) = w_state_log w" "w_db_state (w\<lparr>w_queues := q\<rparr>) = w_db_state w"
  by simp_all

text \<open>The fields a committed transition writes, and those it keeps.\<close>

lemma prepared_keeps [simp]:
  "session_id (prepared b tr s) = session_id s" "turn_id (prepared b tr s) = turn_id s"
  "retry_index (prepared b tr s) = retry_index s"
  "compaction_count (prepared b tr s) = compaction_count s"
  "state_v2 (prepared b tr s) = state_v2 s" "task (prepared b tr s) = task s"
  "cancel_requested (prepared b tr s) = cancel_requested s"
  by (simp_all add: prepared_def Let_def split: option.splits)

lemma current_prepared [simp]: "current_state (prepared b tr s) = current_state s"
  by (simp add: current_state_def)

lemma pause_prepared [simp]:
  "pause_set (prepared b tr s) = (pause_set s \<or>
     (b \<notin> {PAUSE_REQUESTED, PAUSED, COMPACTING} \<and> current_state s \<in> {PAUSE_REQUESTED, PAUSED}))"
  by (auto simp: prepared_def Let_def split: option.splits)

lemma committed_fields [simp]:
  "session_id (committed env b r tr s) = session_id s" "state_v2 (committed env b r tr s) = Some b"
  "pause_set (committed env b r tr s) = pause_set s" "task (committed env b r tr s) = task s"
  "cancel_requested (committed env b r tr s) = cancel_requested s"
  by (auto simp: committed_def touch_def Let_def split: prod.splits option.splits)

lemma committed_counters:
  "(turn_id (committed env b r tr s), retry_index (committed env b r tr s),
    compaction_count (committed env b r tr s))
   = (let (tid, _, retry, cc) = account r (turn_id s) (retry_index s) (compaction_count s)
      in (tid, retry, cc))"
  by (auto simp: committed_def touch_def Let_def split: prod.splits option.splits)

lemma committed_termination:
  "termination_reason (committed env b r (Some t) s) = Some (term_value t)"
  "termination_reason (committed env b r None s) = termination_reason s"
  by (auto simp: committed_def touch_def Let_def split: prod.splits option.splits)

lemma current_committed [simp]: "current_state (committed env b r tr s) = b"
  by (simp add: current_state_def)

lemma transition_done:
  assumes "edge (current_state s) r = Some b" and "e_log_ok env"
  shows "\<exists>evs subs q warn.
    transition env b r tr (s, w) =
      (Returned True,
       (committed env b r tr (prepared b tr s))\<lparr>event_seq := event_seq s + 1, events := evs, subscribers := subs\<rparr>,
       w\<lparr>w_warnings := warn, w_state_log := w_state_log w @ [transition_row env b r tr (prepared b tr s)],
         w_db_state := (w_db_state w)(session_id s \<mapsto> b), w_queues := q\<rparr>)"
proof -
  let ?s1 = "prepared b tr s"
  let ?s2 = "committed env b r tr ?s1"
  let ?row = "transition_row env b r tr ?s1"
  let ?w1 = "w\<lparr>w_warnings := w_warnings w @ map (\<lambda>v. (b, v)) (check_invariants env ?s1 b)\<rparr>"
  let ?p = "changed_event (current_state s) b r tr (l_parent_turn_id ?row) ?s2"
  have seq: "event_seq ?s2 = event_seq s"
    by (auto simp: committed_def prepared_def touch_def Let_def split: prod.splits option.splits)
  have sid: "l_session_id ?row = session_id s"
    by (auto simp: transition_row_def split: prod.splits)
  obtain evs subs q where "emit_event (e_wall env) ?p None (?s2, add_state_log ?row True b ?w1)
      = (?s2\<lparr>event_seq := event_seq ?s2 + 1, events := evs, subscribers := subs\<rparr>,
         (add_state_log ?row True b ?w1)\<lparr>w_queues := q\<rparr>)"
    using emit_event_frame by blast
  then have "transition env b r tr (s, w) = (Returned True,
      ?s2\<lparr>event_seq := event_seq s + 1, events := evs, subscribers := subs\<rparr>,
      w\<lparr>w_warnings := w_warnings w @ map (\<lambda>v. (b, v)) (check_invariants env ?s1 b),
        w_state_log := w_state_log w @ [?row],
        w_db_state := (w_db_state w)(session_id s \<mapsto> b), w_queues := q\<rparr>)"
    using assms by (simp add: transition_def Let_def seq sid add_state_log_def)
  then show ?thesis by blast
qed

text \<open>The three outcomes as one rule over the fields that the components read.\<close>

lemma transition_fields:
  assumes "transition env b r tr (s, w) = (out, s', w')"
  shows "out = (if edge (current_state s) r \<noteq> Some b then Returned False
                else if \<not> e_log_ok env then Raised else Returned True)
    \<and> (if out = Returned True then current_state s' = b \<and> state_v2 s' = Some b
         \<and> pause_set s' = (pause_set s \<or>
             (b \<notin> {PAUSE_REQUESTED, PAUSED, COMPACTING} \<and> current_state s \<in> {PAUSE_REQUESTED, PAUSED}))
         \<and> cancel_requested s' = cancel_requested s \<and> task s' = task s
         \<and> session_id s' = session_id s
         \<and> termination_reason s' =
             (case tr of None \<Rightarrow> termination_reason s | Some t \<Rightarrow> Some (term_value t))
         \<and> (turn_id s', retry_index s', compaction_count s')
             = (let (tid, _, retry, cc) = account r (turn_id s) (retry_index s) (compaction_count s)
                in (tid, retry, cc))
       else s' = s)"
proof -
  consider (rej) "edge (current_state s) r \<noteq> Some b"
    | (raise) "edge (current_state s) r = Some b" "\<not> e_log_ok env"
    | (ok) "edge (current_state s) r = Some b" "e_log_ok env" by blast
  then show ?thesis
  proof cases
    case rej
    with assms show ?thesis by (auto simp: transition_rejected reject_edge_def Let_def)
  next
    case raise
    from transition_raised [OF raise, of tr w] assms show ?thesis using raise by auto
  next
    case ok
    let ?c = "committed env b r tr (prepared b tr s)"
    from transition_done [OF ok, of tr w] assms obtain evs subs where
      out: "out = Returned True"
      and s': "s' = ?c\<lparr>event_seq := event_seq s + 1, events := evs, subscribers := subs\<rparr>"
      by auto
    have trm: "termination_reason ?c =
        (case tr of None \<Rightarrow> termination_reason s | Some t \<Rightarrow> Some (term_value t))"
      by (cases tr) (simp_all add: committed_termination prepared_def Let_def)
    have "(turn_id s', retry_index s', compaction_count s')
        = (let (tid, _, retry, cc) = account r (turn_id s) (retry_index s) (compaction_count s)
           in (tid, retry, cc))"
      using committed_counters [of env b r tr "prepared b tr s"] by (simp add: s')
    with ok out trm show ?thesis by (simp add: s' current_state_def)
  qed
qed

lemma transition_ok:
  assumes "edge (current_state s) r = Some b" and "e_log_ok env"
    and "transition env b r tr (s, w) = (out, s', w')"
  shows "out = Returned True" "current_state s' = b"
    "pause_set s' = (pause_set s \<or>
       (b \<notin> {PAUSE_REQUESTED, PAUSED, COMPACTING} \<and> current_state s \<in> {PAUSE_REQUESTED, PAUSED}))"
    "cancel_requested s' = cancel_requested s" "task s' = task s"
    "termination_reason s' = (case tr of None \<Rightarrow> termination_reason s | Some t \<Rightarrow> Some (term_value t))"
  using transition_fields [OF assms(3)] assms(1,2) by (auto split: if_splits)

section \<open>All or nothing\<close>

lemma sum_dict_bump:
  "sum_list (map snd (dict_set k (case map_of d k of None \<Rightarrow> 1 | Some n \<Rightarrow> n + 1) d))
     = Suc (sum_list (map snd d))"
  by (induction d) (auto split: option.splits)

lemma rejected_stats_bump:
  "fst (rejected_transition_stats (record_rejected_transition a r b w))
     = Suc (fst (rejected_transition_stats w))"
  by (simp add: rejected_transition_stats_def record_rejected_transition_def Let_def sum_dict_bump)

lemma record_rejected_frame [simp]:
  "w_state_log (record_rejected_transition a r b w) = w_state_log w"
  "w_db_state (record_rejected_transition a r b w) = w_db_state w"
  "w_queues (record_rejected_transition a r b w) = w_queues w"
  by (simp_all add: record_rejected_transition_def Let_def)

lemma stats_log [simp]:
  "fst (rejected_transition_stats (w\<lparr>w_state_log := l\<rparr>)) = fst (rejected_transition_stats w)"
  by (simp add: rejected_transition_stats_def)

text \<open>C1: A transition is all or nothing.  An undeclared edge returns False, leaves the session
  and every queue and the stored state alone, adds one to the count of rejected edges and logs at
  most a row that stays in the current state.  A declared edge that the database refuses raises
  with the session, the log, the stored state and the queues as they were.  Otherwise the state is
  the target in memory and in the database, and the log has exactly one more row, from the old
  state to the new one, with the counters the session now has.\<close>

theorem transition_atomic:
  "case transition env b r tr (s, w) of (out, s', w') \<Rightarrow>
     (if edge (current_state s) r \<noteq> Some b then
        out = Returned False \<and> s' = s \<and> w_db_state w' = w_db_state w \<and> w_queues w' = w_queues w
        \<and> fst (rejected_transition_stats w') = Suc (fst (rejected_transition_stats w))
        \<and> w_state_log w' = w_state_log w
            @ (if e_log_ok env then [violation_row env (current_state s) r s] else [])
      else if \<not> e_log_ok env then
        out = Raised \<and> s' = s \<and> w_state_log w' = w_state_log w \<and> w_db_state w' = w_db_state w
        \<and> w_queues w' = w_queues w \<and> w_rejected w' = w_rejected w
      else
        out = Returned True \<and> current_state s' = b \<and> w_db_state w' (session_id s) = Some b
        \<and> w_rejected w' = w_rejected w
        \<and> (\<exists>row. w_state_log w' = w_state_log w @ [row]
             \<and> l_from row = state_value (current_state s) \<and> l_to row = state_value b
             \<and> (l_turn_id row, l_retry_index row, l_compaction_count row)
                = (turn_id s', retry_index s', compaction_count s')))"
proof -
  consider (rej) "edge (current_state s) r \<noteq> Some b"
    | (raise) "edge (current_state s) r = Some b" "\<not> e_log_ok env"
    | (ok) "edge (current_state s) r = Some b" "e_log_ok env" by blast
  then show ?thesis
  proof cases
    case rej
    then show ?thesis
      by (simp add: transition_rejected reject_edge_def Let_def add_state_log_def rejected_stats_bump)
  next
    case raise
    from transition_raised [OF this, of tr w] show ?thesis using raise by auto
  next
    case ok
    obtain out s' w' where t: "transition env b r tr (s, w) = (out, s', w')" by (cases "transition env b r tr (s, w)")
    let ?row = "transition_row env b r tr (prepared b tr s)"
    have row: "l_from ?row = state_value (current_state s)" "l_to ?row = state_value b"
      by (auto simp: transition_row_def split: prod.splits)
    have "(l_turn_id ?row, l_retry_index ?row, l_compaction_count ?row)
        = (turn_id s', retry_index s', compaction_count s')"
      using transition_fields [OF t] ok
      by (auto simp: transition_row_def split: prod.splits if_splits)
    moreover have "w_state_log w' = w_state_log w @ [?row]" "w_db_state w' (session_id s) = Some b"
        "w_rejected w' = w_rejected w"
      using transition_done [OF ok, of tr w] t by auto
    moreover have "out = Returned True" "current_state s' = b"
      using transition_ok [OF ok t] by auto
    ultimately show ?thesis using ok t row by auto
  qed
qed

section \<open>Runs of transitions\<close>

text \<open>A call of \<open>transition\<close> with its arguments, as a step.\<close>

datatype call = Call env sstate string "term_reason option"

fun call_step :: "agent_session \<times> world \<Rightarrow> call \<Rightarrow> agent_session \<times> world" where
  "call_step (s, w) (Call env b r tr) = quiet (transition env b r tr (s, w))"

text \<open>Replaying the log: each row starts where the one before it ended.\<close>

fun log_chain :: "sstate \<Rightarrow> log_row list \<Rightarrow> sstate option" where
  "log_chain a [] = Some a"
| "log_chain a (row # rows) =
     (if l_from row = state_value a
      then (case state_of_value (l_to row) of Some b \<Rightarrow> log_chain b rows | None \<Rightarrow> None) else None)"

lemma log_chain_append:
  "log_chain a (xs @ ys) = (case log_chain a xs of Some b \<Rightarrow> log_chain b ys | None \<Rightarrow> None)"
  by (induction xs arbitrary: a) (auto split: option.splits)

definition rows_of :: "string \<Rightarrow> world \<Rightarrow> log_row list" where
  "rows_of sid w = filter (\<lambda>r. l_session_id r = sid) (w_state_log w)"

definition log_agrees :: "agent_session \<times> world \<Rightarrow> bool" where
  "log_agrees = (\<lambda>(s, w). log_chain IDLE_READY (rows_of (session_id s) w) = Some (current_state s)
     \<and> w_db_state w (session_id s) = state_v2 s)"

definition counters :: "agent_session \<times> world \<Rightarrow> int \<times> int \<times> int" where
  "counters = (\<lambda>(s, _). (turn_id s, retry_index s, compaction_count s))"

lemma rows_of_append:
  "w_state_log w' = w_state_log w @ rs \<Longrightarrow>
   rows_of sid w' = rows_of sid w @ filter (\<lambda>r. l_session_id r = sid) rs"
  by (simp add: rows_of_def)

lemma log_agrees_step:
  assumes "log_agrees sw"
  shows "log_agrees (call_step sw c)"
proof (cases sw; cases c)
  fix s w env b r tr
  assume sw: "sw = (s, w)" and c: "c = Call env b r tr"
  from assms have chain: "log_chain IDLE_READY (rows_of (session_id s) w) = Some (current_state s)"
    and db: "w_db_state w (session_id s) = state_v2 s" by (simp_all add: log_agrees_def sw)
  consider (rej) "edge (current_state s) r \<noteq> Some b"
    | (raise) "edge (current_state s) r = Some b" "\<not> e_log_ok env"
    | (ok) "edge (current_state s) r = Some b" "e_log_ok env" by blast
  then show ?thesis
  proof cases
    case rej
    then show ?thesis using chain db
      by (simp add: sw c transition_rejected reject_edge_def Let_def add_state_log_def quiet_def
          log_agrees_def rows_of_def violation_row_def log_chain_append)
  next
    case raise
    from transition_raised [OF this, of tr w] obtain warn where
      "transition env b r tr (s, w) = (Raised, s, w\<lparr>w_warnings := warn\<rparr>)" by blast
    then show ?thesis using chain db by (simp add: sw c quiet_def log_agrees_def rows_of_def)
  next
    case ok
    have row: "l_session_id (transition_row env b r tr (prepared b tr s)) = session_id s"
      "l_from (transition_row env b r tr (prepared b tr s)) = state_value (current_state s)"
      "l_to (transition_row env b r tr (prepared b tr s)) = state_value b"
      by (auto simp: transition_row_def split: prod.splits)
    obtain s' w' where t: "transition env b r tr (s, w) = (Returned True, s', w')"
      and v: "session_id s' = session_id s" "state_v2 s' = Some b"
      and log: "w_state_log w' = w_state_log w @ [transition_row env b r tr (prepared b tr s)]"
      and db': "w_db_state w' = (w_db_state w)(session_id s \<mapsto> b)"
      using transition_done [OF ok, of tr w] by auto
    have "rows_of (session_id s) w' = rows_of (session_id s) w @ [transition_row env b r tr (prepared b tr s)]"
      using rows_of_append [OF log] by (simp add: row)
    with chain have "log_chain IDLE_READY (rows_of (session_id s) w') = Some b"
      by (simp add: log_chain_append row)
    then show ?thesis by (simp add: sw c t quiet_def log_agrees_def v db' current_state_def)
  qed
qed

lemma counters_step: "counters sw \<le> counters (call_step sw c)"
proof (cases sw; cases c)
  fix s w env b r tr
  assume sw: "sw = (s, w)" and c: "c = Call env b r tr"
  obtain out s' w' where t: "transition env b r tr (s, w) = (out, s', w')"
    by (cases "transition env b r tr (s, w)")
  show ?thesis
  proof (cases "out = Returned True")
    case True
    with transition_fields [OF t] have "(turn_id s', retry_index s', compaction_count s')
        = (let (tid, _, retry, cc) = account r (turn_id s) (retry_index s) (compaction_count s)
           in (tid, retry, cc))" by simp
    then show ?thesis by (auto simp: sw c t quiet_def counters_def account_def split: if_splits)
  next
    case False
    with transition_fields [OF t] show ?thesis by (simp add: sw c t quiet_def counters_def)
  qed
qed

interpretation log_machine: invariant_machine call_step log_agrees
  by unfold_locales (rule log_agrees_step)

interpretation count_machine: monotone_machine call_step "\<lambda>_. True" counters
  by unfold_locales (simp_all add: counters_step)

definition empty_world :: world where
  "empty_world = \<lparr>w_queues = (\<lambda>_. \<lparr>q_items = [], q_dropped = False\<rparr>), w_next_queue = 0,
     w_next_handle = 1, w_state_log = [], w_db_state = Map.empty, w_rejected = [], w_warnings = []\<rparr>"

text \<open>C25: After any sequence of transition calls, accepted, rejected or refused by the
  database, replaying the state log from idle gives exactly the state in memory, and the state
  stored for the session is the one in memory.\<close>

theorem log_replays_to_state:
  "log_agrees (foldl call_step (new_session sid now, empty_world) cs)"
  by (rule log_machine.run_inv)
    (simp add: log_agrees_def rows_of_def empty_world_def new_session_def current_state_def)

text \<open>Turns are numbered in order: no sequence of transition calls ever takes the triple of
  turn number, retry number and compaction number back, in the lexicographic order.\<close>

theorem counters_never_go_back:
  "counters sw \<le> counters (foldl call_step sw cs)"
  by (rule count_machine.run_level) simp

section \<open>No state traps a session\<close>

text \<open>Whatever state the finalization of a turn dies in, the reason the manager picks has an
  edge to idle, and so has the emergency reason of a cancel, so the session is idle after it as
  soon as the database takes the row.\<close>

theorem no_state_traps:
  "reason \<in> {finalize_failure_reason (current_state s), ''cancel-timeout''} \<Longrightarrow>
   (case transition env IDLE_READY reason tr (s, w) of
     (out, s', w') \<Rightarrow> current_state s' = (if e_log_ok env then IDLE_READY else current_state s))"
proof -
  assume r: "reason \<in> {finalize_failure_reason (current_state s), ''cancel-timeout''}"
  have "\<forall>a. a \<noteq> IDLE_READY \<longrightarrow> edge a (finalize_failure_reason a) = Some IDLE_READY
      \<and> edge a ''cancel-timeout'' = Some IDLE_READY"
    unfolding sstate_all by code_simp
  with r have e: "current_state s \<noteq> IDLE_READY \<longrightarrow> edge (current_state s) reason = Some IDLE_READY"
    by auto
  obtain out s' w' where t: "transition env IDLE_READY reason tr (s, w) = (out, s', w')"
    by (cases "transition env IDLE_READY reason tr (s, w)")
  show ?thesis using transition_fields [OF t] e by (auto simp: t split: if_splits)
qed

definition demo_env :: env where
  "demo_env = \<lparr>e_wall = 10, e_mono = 5, e_log_ok = True, e_questions = Some 0\<rparr>"

definition demo_at :: "sstate \<Rightarrow> agent_session" where
  "demo_at a = (new_session ''s1'' 0)\<lparr>state_v2 := Some a, task := Task_Running\<rparr>"

lemma demo_at_fields [simp]:
  "current_state (demo_at a) = a" "pause_set (demo_at a)" "\<not> cancel_requested (demo_at a)"
  "task (demo_at a) = Task_Running" "termination_reason (demo_at a) = None" "e_log_ok demo_env"
  by (simp_all add: demo_at_def current_state_def new_session_def demo_env_def)

lemma no_state_traps_witness:
  "case transition demo_env IDLE_READY ''reaper-unstick'' None (demo_at CANCELLING, empty_world) of
     (out, s', w') \<Rightarrow> current_state s' = IDLE_READY"
  using no_state_traps [of "''reaper-unstick''" "demo_at CANCELLING" demo_env None empty_world]
  by (simp add: finalize_failure_reason_def split: prod.splits)

section \<open>The end of a turn is always declared\<close>

lemma routed_edges:
  assumes "a \<in> set TERMINATION_ROUTED_STATES"
  shows "edge a (fst (map_termination_to_v2_reason tr)) = Some FINALIZING"
proof -
  have "list_all (\<lambda>(_, (r, _)). edge PROCESSING r = Some FINALIZING
      \<and> edge PAUSE_REQUESTED r = Some FINALIZING) TERMINATION_TO_V2"
    by code_simp
  moreover have "edge PROCESSING ''loop-complete'' = Some FINALIZING"
      "edge PAUSE_REQUESTED ''loop-complete'' = Some FINALIZING" by code_simp+
  ultimately show ?thesis using assms
    by (auto simp: map_termination_to_v2_reason_def Let_def list_all_iff TERMINATION_ROUTED_STATES_def
        split: option.splits dest!: map_of_SomeD)
qed

lemma leave_loop_step:
  assumes "current_state s \<in> set TERMINATION_ROUTED_STATES"
  defines "s0 \<equiv> if current_state s = PAUSE_REQUESTED then s\<lparr>pause_set := True\<rparr> else s"
    and "tm \<equiv> map_termination_to_v2_reason (termination_reason s)"
  obtains out s' w' where "transition env FINALIZING (fst tm) (Some (snd tm)) (s0, w) = (out, s', w')"
    "edge (current_state s0) (fst tm) = Some FINALIZING" "leave_loop env (s, w) = (s', w')"
proof -
  have cur: "current_state s0 = current_state s" by (simp add: s0_def current_state_def)
  obtain out s' w' where t: "transition env FINALIZING (fst tm) (Some (snd tm)) (s0, w) = (out, s', w')"
    by (cases "transition env FINALIZING (fst tm) (Some (snd tm)) (s0, w)")
  moreover have "edge (current_state s0) (fst tm) = Some FINALIZING"
    using routed_edges [OF assms(1)] cur by (simp add: tm_def)
  moreover have "leave_loop env (s, w) = (s', w')"
    using assms(1) t unfolding s0_def tm_def by (cases "current_state s = PAUSE_REQUESTED")
      (simp_all add: leave_loop_def Let_def quiet_def split_beta)
  ultimately show thesis by (rule that)
qed

lemma mapped_reasons:
  "t \<in> fst ` set TERMINATION_TO_V2 \<Longrightarrow> term_value (snd (map_termination_to_v2_reason (Some t))) = t"
proof -
  have "list_all (\<lambda>(k, _). term_value (snd (map_termination_to_v2_reason (Some k))) = k) TERMINATION_TO_V2"
    by code_simp
  then show "t \<in> fst ` set TERMINATION_TO_V2 \<Longrightarrow> ?thesis" by (auto simp: list_all_iff)
qed

text \<open>However the agent loop ends, the exit it takes is declared: from processing and from a
  pause not yet observed, every termination reason, known or not, leaves the session finalizing
  with a reason recorded, and the recorded one is the loop's own whenever it is in the mapping.\<close>

theorem loop_exit_routed:
  assumes "current_state s \<in> set TERMINATION_ROUTED_STATES" and "e_log_ok env"
  shows "case leave_loop env (s, w) of (s', w') \<Rightarrow>
    current_state s' = FINALIZING \<and> pause_set s' = (pause_set s \<or> current_state s = PAUSE_REQUESTED)
    \<and> termination_reason s' = Some (term_value (snd (map_termination_to_v2_reason (termination_reason s))))
    \<and> (\<forall>t \<in> fst ` set TERMINATION_TO_V2. termination_reason s = Some t \<longrightarrow> termination_reason s' = Some t)"
proof -
  let ?s = "if current_state s = PAUSE_REQUESTED then s\<lparr>pause_set := True\<rparr> else s"
  let ?m = "map_termination_to_v2_reason (termination_reason s)"
  obtain out s' w' where t: "transition env FINALIZING (fst ?m) (Some (snd ?m)) (?s, w) = (out, s', w')"
    and e: "edge (current_state ?s) (fst ?m) = Some FINALIZING" and l: "leave_loop env (s, w) = (s', w')"
    by (rule leave_loop_step [OF assms(1)])
  have "term_value (snd ?m) = t" if "t \<in> fst ` set TERMINATION_TO_V2" "termination_reason s = Some t" for t
    using mapped_reasons [OF that(1)] that(2) by simp
  with l show ?thesis
    using transition_ok [OF e assms(2) t] assms(1)
    by (auto simp: TERMINATION_ROUTED_STATES_def current_state_def)
qed

lemma loop_exit_routed_witness:
  "current_state (fst (leave_loop demo_env (demo_at PAUSE_REQUESTED, empty_world))) = FINALIZING"
  using loop_exit_routed [of "demo_at PAUSE_REQUESTED" demo_env empty_world]
  by (simp add: TERMINATION_ROUTED_STATES_def split: prod.splits)

section \<open>The pause event and the state\<close>

text \<open>The operations that can interleave within one turn.\<close>

datatype turn_op =
    Op_Control env string
  | Op_Observe env
  | Op_Wake env
  | Op_Compact_Begin env string event_payload
  | Op_Compact_End env bool bool bool

fun turn_step :: "agent_session \<times> world \<Rightarrow> turn_op \<Rightarrow> agent_session \<times> world" where
  "turn_step sw (Op_Control env action) = snd (control_session env action sw)"
| "turn_step sw (Op_Observe env) = observe_pause env sw"
| "turn_step sw (Op_Wake env) = wake_paused env sw"
| "turn_step sw (Op_Compact_Begin env reason ev) = compact_begin env reason ev sw"
| "turn_step sw (Op_Compact_End env c r rs) = compact_end env c r rs sw"

definition pause_agrees :: "agent_session \<times> world \<Rightarrow> bool" where
  "pause_agrees = (\<lambda>(s, _). (current_state s = PROCESSING \<longrightarrow> pause_set s)
     \<and> (current_state s = PAUSE_REQUESTED \<longrightarrow> \<not> pause_set s)
     \<and> current_state s \<in> {PROCESSING, PAUSE_REQUESTED, PAUSED, COMPACTING})"

lemma pause_edges:
  "edge PROCESSING ''pause-requested'' = Some PAUSE_REQUESTED"
  "edge PAUSE_REQUESTED ''resume'' = Some PROCESSING" "edge PAUSED ''resume'' = Some PROCESSING"
  "edge PAUSE_REQUESTED ''pause-observed'' = Some PAUSED"
  "edge COMPACTING ''compact-done'' = Some PROCESSING"
  "edge COMPACTING ''compact-done-paused'' = Some PAUSE_REQUESTED"
  by code_simp+

lemma compact_enter_only:
  "edge a r = Some COMPACTING \<Longrightarrow> a \<in> {PROCESSING, PAUSE_REQUESTED} \<and> r \<in> set COMPACT_ENTER_REASONS"
  using edge_all [of a r COMPACTING "\<lambda>((a, r), b). b = COMPACTING \<longrightarrow>
      a \<in> {PROCESSING, PAUSE_REQUESTED} \<and> r \<in> set COMPACT_ENTER_REASONS"]
  by (simp add: TRANSITIONS_def COMPACT_ENTER_REASONS_def)

lemma compact_done_only:
  "edge a ''compact-done'' = Some b \<Longrightarrow> a = COMPACTING"
  "edge a ''compact-done-paused'' = Some b \<Longrightarrow> a = COMPACTING"
  using edge_all [of a "''compact-done''" b "\<lambda>((a, r), b).
      r \<in> {''compact-done'', ''compact-done-paused''} \<longrightarrow> a = COMPACTING"]
    edge_all [of a "''compact-done-paused''" b "\<lambda>((a, r), b).
      r \<in> {''compact-done'', ''compact-done-paused''} \<longrightarrow> a = COMPACTING"]
  by (simp_all add: TRANSITIONS_def)

text \<open>The state of a session after a swallowed transition.\<close>

lemma quiet_transition:
  "quiet (transition env b r tr (s, w)) = (s', w') \<Longrightarrow>
   (if edge (current_state s) r = Some b \<and> e_log_ok env then
      current_state s' = b \<and> pause_set s' = (pause_set s \<or>
        (b \<notin> {PAUSE_REQUESTED, PAUSED, COMPACTING} \<and> current_state s \<in> {PAUSE_REQUESTED, PAUSED}))
    else s' = s)"
  using transition_fields [of env b r tr s w "fst (transition env b r tr (s, w))" s' w']
  by (cases "transition env b r tr (s, w)") (auto simp: quiet_def split: if_splits)

lemma current_update [simp]:
  "current_state (s\<lparr>pause_set := p\<rparr>) = current_state s"
  "current_state (s\<lparr>termination_reason := x\<rparr>) = current_state s"
  "current_state (s\<lparr>cancel_requested := c\<rparr>) = current_state s"
  "current_state (touch t s) = current_state s"
  "pause_set (touch t s) = pause_set s"
  by (simp_all add: current_state_def touch_def)

text \<open>What each operation does to the state and the event, as the invariant needs it.\<close>

lemma control_pause:
  assumes "cap_pause (capabilities_of s)"
    and "control_session env ''pause'' (s, w) = (res, s', w')"
  shows "current_state s = PROCESSING"
    "if e_log_ok env then current_state s' = PAUSE_REQUESTED \<and> \<not> pause_set s'
     else res = Ctl_Raised \<and> s' = s\<lparr>pause_set := True\<rparr>"
proof -
  show cur: "current_state s = PROCESSING" using assms(1) by (simp add: capabilities_of_def Let_def)
  obtain out s1 w1 where t: "transition env PAUSE_REQUESTED ''pause-requested'' None
      (s\<lparr>pause_set := False\<rparr>, w) = (out, s1, w1)"
    by (cases "transition env PAUSE_REQUESTED ''pause-requested'' None (s\<lparr>pause_set := False\<rparr>, w)")
  show "if e_log_ok env then current_state s' = PAUSE_REQUESTED \<and> \<not> pause_set s'
     else res = Ctl_Raised \<and> s' = s\<lparr>pause_set := True\<rparr>"
    using assms transition_fields [OF t] cur
    by (auto simp: control_session_def Let_def cap_of_def t pause_edges split: if_splits)
qed

lemma control_resume:
  assumes "cap_resume (capabilities_of s)"
    and "control_session env ''resume'' (s, w) = (res, s', w')"
  shows "current_state s \<in> {PAUSE_REQUESTED, PAUSED}"
    "if current_state s = PAUSED then s' = s\<lparr>pause_set := True\<rparr>
     else if e_log_ok env then current_state s' = PROCESSING \<and> pause_set s'
     else res = Ctl_Raised \<and> s' = s\<lparr>pause_set := False\<rparr>"
proof -
  show cur: "current_state s \<in> {PAUSE_REQUESTED, PAUSED}"
    using assms(1) by (auto simp: capabilities_of_def Let_def)
  obtain out s1 w1 where t: "transition env PROCESSING ''resume'' None (s\<lparr>pause_set := True\<rparr>, w) = (out, s1, w1)"
    by (cases "transition env PROCESSING ''resume'' None (s\<lparr>pause_set := True\<rparr>, w)")
  show "if current_state s = PAUSED then s' = s\<lparr>pause_set := True\<rparr>
     else if e_log_ok env then current_state s' = PROCESSING \<and> pause_set s'
     else res = Ctl_Raised \<and> s' = s\<lparr>pause_set := False\<rparr>"
    using assms transition_fields [OF t] cur
    by (auto simp: control_session_def Let_def cap_of_def t pause_edges split: if_splits)
qed

text \<open>Any other request is answered without a change.\<close>

lemma control_other:
  "\<not> (action = ''pause'' \<and> cap_pause (capabilities_of s)) \<Longrightarrow>
   \<not> (action = ''resume'' \<and> cap_resume (capabilities_of s)) \<Longrightarrow>
   \<exists>detail. control_session env action (s, w) = (Ctl_Rejected detail, s, w)"
  by (auto simp: control_session_def cap_of_def Let_def)

lemma pause_agrees_control:
  assumes "pause_agrees (s, w)"
  shows "pause_agrees (snd (control_session env action (s, w)))"
proof -
  obtain res s' w' where c: "control_session env action (s, w) = (res, s', w')"
    by (cases "control_session env action (s, w)")
  consider (p) "action = ''pause''" "cap_pause (capabilities_of s)"
    | (r) "action = ''resume''" "cap_resume (capabilities_of s)"
    | (o) "s' = s"
    using control_other [of action s env w] c by force
  then show ?thesis
  proof cases
    case p
    with control_pause [of s env w res s' w'] c assms show ?thesis
      by (auto simp: pause_agrees_def split: if_splits)
  next
    case r
    with control_resume [of s env w res s' w'] c assms show ?thesis
      by (auto simp: pause_agrees_def split: if_splits)
  next
    case o
    with c assms show ?thesis by (simp add: pause_agrees_def)
  qed
qed

lemma emit_keeps_session:
  "emit_event now p st (s, w) = (s', w') \<Longrightarrow>
   current_state s' = current_state s \<and> pause_set s' = pause_set s \<and> cancel_requested s' = cancel_requested s
   \<and> termination_reason s' = termination_reason s \<and> task s' = task s"
  using emit_event_frame [of now p st s w] by (auto simp: current_state_def)

lemma pause_agrees_step:
  assumes "pause_agrees sw"
  shows "pause_agrees (turn_step sw op)"
proof (cases sw)
  case (Pair s w)
  show ?thesis
  proof (cases op)
    case (Op_Control env action)
    with assms Pair show ?thesis by (simp add: pause_agrees_control)
  next
    case (Op_Observe env)
    obtain s' w' where q: "quiet (transition env PAUSED ''pause-observed'' None (s, w)) = (s', w')"
      by (cases "quiet (transition env PAUSED ''pause-observed'' None (s, w))")
    from quiet_transition [OF q] assms show ?thesis
      by (auto simp: Op_Observe Pair observe_pause_def q pause_agrees_def split: if_splits)
  next
    case (Op_Wake env)
    obtain s' w' where q: "quiet (transition env PROCESSING ''resume'' None (s, w)) = (s', w')"
      by (cases "quiet (transition env PROCESSING ''resume'' None (s, w))")
    from quiet_transition [OF q] assms show ?thesis
      by (auto simp: Op_Wake Pair wake_paused_def q pause_agrees_def split: if_splits)
  next
    case (Op_Compact_Begin env reason ev)
    obtain s1 w1 where e: "emit_event (e_wall env) ev None (s, w) = (s1, w1)"
      by (cases "emit_event (e_wall env) ev None (s, w)")
    obtain s' w' where q: "quiet (transition env COMPACTING reason None (s1, w1)) = (s', w')"
      by (cases "quiet (transition env COMPACTING reason None (s1, w1))")
    from quiet_transition [OF q] emit_keeps_session [OF e] assms show ?thesis
      by (auto simp: Op_Compact_Begin Pair compact_begin_def e q pause_agrees_def split: if_splits)
  next
    case (Op_Compact_End env c r rs)
    let ?s = "touch (e_wall env) s"
    let ?b = "if pause_set s then PROCESSING else PAUSE_REQUESTED"
    let ?r = "if pause_set s then ''compact-done'' else ''compact-done-paused''"
    obtain s' w' where q: "quiet (transition env ?b ?r None (?s, w)) = (s', w')"
      by (cases "quiet (transition env ?b ?r None (?s, w))")
    have "turn_step sw op = (if c \<or> r \<or> rs then (s', w') else (?s, w))"
      using q by (cases "pause_set s") (simp_all add: Op_Compact_End Pair compact_end_def Let_def)
    then show ?thesis using quiet_transition [OF q] assms compact_done_only [of "current_state s"]
      by (cases "pause_set s") (auto simp: Pair pause_agrees_def split: if_splits)
  qed
qed

interpretation pause_machine: invariant_machine turn_step pause_agrees
  by unfold_locales (rule pause_agrees_step)

text \<open>C21: Within a turn the pause event always says what the state says: through every
  interleaving of control requests, the agent loop's checkpoint and compactions, with the database
  failing at any of them, a session that is processing has the event set and one whose pause is
  requested has it clear, so a request to pause is never lost and never blocks a running turn.\<close>

theorem pause_event_agrees:
  assumes "current_state s = PROCESSING" and "pause_set s"
    and "foldl turn_step (s, w) ops = (s', w')"
  shows "(current_state s' = PROCESSING \<longrightarrow> pause_set s')
    \<and> (current_state s' = PAUSE_REQUESTED \<longrightarrow> \<not> pause_set s')
    \<and> current_state s' \<in> {PROCESSING, PAUSE_REQUESTED, PAUSED, COMPACTING}"
  using pause_machine.run_inv [of "(s, w)" ops] assms by (simp add: pause_agrees_def)

lemma pause_event_agrees_witness:
  "let sw = foldl turn_step (demo_at PROCESSING, empty_world)
      [Op_Control demo_env ''pause'', Op_Compact_Begin demo_env ''compact-proactive'' reset_note,
       Op_Compact_End demo_env True False False]
   in current_state (fst sw) = PROCESSING \<longrightarrow> pause_set (fst sw)"
  using pause_event_agrees [of "demo_at PROCESSING" empty_world "[Op_Control demo_env ''pause'',
      Op_Compact_Begin demo_env ''compact-proactive'' reset_note, Op_Compact_End demo_env True False False]"]
  by (metis demo_at_fields(1,2) prod.collapse)

text \<open>The next turn of an idle session, up to the agent loop.\<close>

definition next_turn :: "env \<Rightarrow> agent_session \<times> world \<Rightarrow> agent_session \<times> world" where
  "next_turn env sw = quiet (scout_done env (quiet (start_turn env sw)))"

lemma step_edges:
  "edge PAUSE_REQUESTED ''compact-critical'' = Some COMPACTING"
  "edge COMPACTING ''compaction-failed'' = Some FINALIZING"
  "edge FINALIZING ''turn-complete'' = Some IDLE_READY"
  "edge IDLE_READY ''prompt-arrived'' = Some SCOUTING"
  "edge SCOUTING ''scout-done'' = Some PROCESSING"
  by code_simp+

lemma quiet_ok:
  assumes "edge (current_state s) r = Some b" and "e_log_ok env"
    and "quiet (transition env b r tr (s, w)) = (s', w')"
  shows "current_state s' = b" "pause_set s' = (pause_set s \<or>
       (b \<notin> {PAUSE_REQUESTED, PAUSED, COMPACTING} \<and> current_state s \<in> {PAUSE_REQUESTED, PAUSED}))"
  using quiet_transition [OF assms(3)] assms(1,2) by auto

text \<open>C40: A compaction that fails while a pause is pending loses the pause for good: the turn
  ends idle with the event still clear, and the next turn reaches the processing state with the
  event clear, so its loop waits at the first checkpoint while resume is refused.\<close>

theorem failed_compaction_leaves_event_clear:
  assumes "current_state s = PAUSE_REQUESTED" and "\<not> pause_set s" and "e_log_ok env"
  shows "case complete_turn env (leave_loop env (compact_end env False False False
            (compact_begin env ''compact-critical'' ev (s, w)))) of (s1, w1) \<Rightarrow>
     current_state s1 = IDLE_READY \<and> \<not> pause_set s1
     \<and> (case next_turn env (s1, w1) of (s2, w2) \<Rightarrow>
          current_state s2 = PROCESSING \<and> \<not> pause_set s2 \<and> \<not> cap_resume (capabilities_of s2))"
proof -
  obtain s0 w0 where e: "emit_event (e_wall env) ev None (s, w) = (s0, w0)"
    by (cases "emit_event (e_wall env) ev None (s, w)")
  obtain sa wa where a: "compact_begin env ''compact-critical'' ev (s, w) = (sa, wa)"
    by (cases "compact_begin env ''compact-critical'' ev (s, w)")
  have A: "current_state sa = COMPACTING" "\<not> pause_set sa"
    using quiet_ok [of s0 "''compact-critical''" COMPACTING env None w0 sa wa]
      a e emit_keeps_session [OF e] assms step_edges by (auto simp: compact_begin_def)
  let ?t = "touch (e_wall env) sa"
  obtain sb wb where b: "leave_loop env (?t, wa) = (sb, wb)" by (cases "leave_loop env (?t, wa)")
  have B: "current_state sb = FINALIZING" "\<not> pause_set sb"
    using quiet_ok [of ?t "''compaction-failed''" FINALIZING env "Some COMPACTION_FAILED" wa sb wb]
      b A assms(3) step_edges by (auto simp: leave_loop_def Let_def TERMINATION_ROUTED_STATES_def)
  obtain sc wc where c: "complete_turn env (sb, wb) = (sc, wc)" by (cases "complete_turn env (sb, wb)")
  have C: "current_state sc = IDLE_READY" "\<not> pause_set sc"
    using quiet_ok [of sb "''turn-complete''" IDLE_READY env None wb sc wc]
      c B assms(3) step_edges by (auto simp: complete_turn_def)
  obtain sd wd where d: "quiet (start_turn env (sc, wc)) = (sd, wd)" by (cases "quiet (start_turn env (sc, wc))")
  have D: "current_state sd = SCOUTING" "\<not> pause_set sd"
    using quiet_ok [of sc "''prompt-arrived''" SCOUTING env None wc sd wd]
      d C assms(3) step_edges by (auto simp: start_turn_def start_reason_def)
  obtain se we where f: "quiet (scout_done env (sd, wd)) = (se, we)" by (cases "quiet (scout_done env (sd, wd))")
  have E: "current_state se = PROCESSING" "\<not> pause_set se"
    using quiet_ok [of sd "''scout-done''" PROCESSING env None wd se we]
      f D assms(3) step_edges by (auto simp: scout_done_def)
  show ?thesis using a b c C d f E
    by (simp add: compact_end_def next_turn_def capabilities_of_def Let_def)
qed

lemma failed_compaction_leaves_event_clear_witness:
  "current_state (fst (complete_turn demo_env (leave_loop demo_env (compact_end demo_env False False False
     (compact_begin demo_env ''compact-critical'' reset_note
       ((demo_at PAUSE_REQUESTED)\<lparr>pause_set := False\<rparr>, empty_world)))))) = IDLE_READY"
  using failed_compaction_leaves_event_clear
    [of "(demo_at PAUSE_REQUESTED)\<lparr>pause_set := False\<rparr>" demo_env reset_note empty_world]
  by (simp split: prod.splits)

section \<open>Cancellation\<close>

lemma cancel_edges:
  "a \<notin> {IDLE_READY, CANCELLING} \<Longrightarrow> edge a (cancel_reason a) = Some CANCELLING"
proof -
  have "\<forall>a. a \<notin> {IDLE_READY, CANCELLING} \<longrightarrow> edge a (cancel_reason a) = Some CANCELLING"
    unfolding sstate_all by code_simp
  then show "a \<notin> {IDLE_READY, CANCELLING} \<Longrightarrow> edge a (cancel_reason a) = Some CANCELLING" by blast
qed

lemma close_edges:
  "a \<noteq> IDLE_READY \<Longrightarrow>
   edge a (if a = CANCELLING then ''cancel-complete'' else ''cancel-timeout'') = Some IDLE_READY"
proof -
  have "\<forall>a. a \<noteq> IDLE_READY \<longrightarrow>
      edge a (if a = CANCELLING then ''cancel-complete'' else ''cancel-timeout'') = Some IDLE_READY"
    unfolding sstate_all by code_simp
  then show "a \<noteq> IDLE_READY \<Longrightarrow>
    edge a (if a = CANCELLING then ''cancel-complete'' else ''cancel-timeout'') = Some IDLE_READY" by blast
qed

text \<open>A cancelled turn always comes to rest: from any state, even when the transition to
  cancelling was refused, the cancellation and the close of the turn leave the session idle, with
  the cancel flag down, the pause event set and the turn recorded as cancelled.\<close>

theorem cancel_comes_to_rest:
  assumes "e_log_ok env2"
  shows "case close_cancelled env2 (cancelled_transition env1 (s, w)) of (reason, s', w') \<Rightarrow>
     current_state s' = IDLE_READY \<and> \<not> cancel_requested s' \<and> pause_set s'
     \<and> termination_reason s' = Some ''cancelled''
     \<and> (reason = ''cancel-timeout'' \<longrightarrow> \<not> e_log_ok env1)"
proof -
  obtain s1 w1 where c: "cancelled_transition env1 (s, w) = (s1, w1)"
    by (cases "cancelled_transition env1 (s, w)")
  have C: "current_state s1 \<notin> {IDLE_READY, CANCELLING} \<Longrightarrow> \<not> e_log_ok env1"
    using c cancel_edges [of "current_state s"]
      quiet_transition [of env1 CANCELLING "cancel_reason (current_state s)" "Some CANCELLED"
        "s\<lparr>termination_reason := Some ''cancelled''\<rparr>" w s1 w1]
    by (auto simp: cancelled_transition_def Let_def split: if_splits)
  let ?s = "(touch (e_wall env2) s1)
      \<lparr>termination_reason := Some ''cancelled'', pause_set := True, cancel_requested := False\<rparr>"
  let ?r = "if current_state s1 = CANCELLING then ''cancel-complete'' else ''cancel-timeout''"
  obtain out s2 w2 where t: "transition env2 IDLE_READY ?r None (?s, w1) = (out, s2, w2)"
    by (cases "transition env2 IDLE_READY ?r None (?s, w1)")
  show ?thesis
  proof (cases "current_state s1 = IDLE_READY")
    case True
    then show ?thesis by (simp add: c close_cancelled_def Let_def)
  next
    case False
    have "edge (current_state ?s) ?r = Some IDLE_READY" using close_edges [OF False] by simp
    from transition_ok [OF this assms t] have "current_state s2 = IDLE_READY \<and> \<not> cancel_requested s2
        \<and> pause_set s2 \<and> termination_reason s2 = Some ''cancelled''" by simp
    moreover have "close_cancelled env2 (s1, w1) = (?r, s2, w2)"
      using t False by (simp add: close_cancelled_def Let_def quiet_def split: if_splits)
    ultimately show ?thesis using c C False by auto
  qed
qed

lemma cancel_comes_to_rest_witness:
  "current_state (fst (snd (close_cancelled demo_env
     (cancelled_transition demo_env (demo_at PAUSED, empty_world))))) = IDLE_READY"
  using cancel_comes_to_rest [of demo_env demo_env "demo_at PAUSED" empty_world]
  by (simp split: prod.splits)

section \<open>Tracked processes, on concrete sessions\<close>

lemma register_keeps_others_witness:
  "all_processes (fst (snd (register_process 12 ''b''
     ((demo_at PROCESSING)\<lparr>active_processes := [(process_handle ''a'' 0, (''a'', 11))]\<rparr>,
      empty_world\<lparr>w_next_handle := Suc 0\<rparr>)))) = [11, 12]"
proof -
  let ?s = "(demo_at PROCESSING)\<lparr>active_processes := [(process_handle ''a'' 0, (''a'', 11))]\<rparr>"
  let ?w = "empty_world\<lparr>w_next_handle := Suc 0\<rparr>"
  obtain h s' w' where r: "register_process 12 ''b'' (?s, ?w) = (h, s', w')"
    by (cases "register_process 12 ''b'' (?s, ?w)")
  have "handles_ok (?s, ?w)" by (simp add: handles_ok_def)
  from register_keeps_others [OF this r] show ?thesis by (simp add: r all_processes_def)
qed

end
