(* ===== verification/LLM_Scheduler.thy ===== *)
theory LLM_Scheduler
  imports Prelude "HOL-Library.Product_Lexorder" "HOL-Library.Multiset"
begin

text \<open>
  \<open>core/llm/semaphore.py\<close>: the scheduler that hands out the concurrency slots of one LLM
  provider, and the wall-clock budgets of the sessions that use it.

  The standard library's \<open>heapq\<close> is used through its contract, the locale \<open>min_queue\<close>; the
  model runs on a sorted list.  An asyncio future is its state, pending, resolved or cancelled,
  in a store under the number of its queue entry.  \<open>acquire\<close> is split at its \<open>await\<close>: the call
  up to it, and one operation for each way in which the wait can end.  The callers are part of
  the state: \<open>parked\<close> lists those that wait, \<open>held\<close> counts those that own a slot.
\<close>

section \<open>The heap\<close>

text \<open>What the scheduler relies on: a push adds one entry, a pop removes a least one.\<close>

locale min_queue =
  fixes push :: "('a \<Rightarrow> 'k :: linorder) \<Rightarrow> 'a \<Rightarrow> 'a list \<Rightarrow> 'a list"
    and pop :: "('a \<Rightarrow> 'k) \<Rightarrow> 'a list \<Rightarrow> ('a \<times> 'a list) option"
    and wf :: "('a \<Rightarrow> 'k) \<Rightarrow> 'a list \<Rightarrow> bool"
  assumes wf_empty: "wf k []"
    and push_wf: "wf k h \<Longrightarrow> wf k (push k x h)"
    and push_mset: "mset (push k x h) = add_mset x (mset h)"
    and pop_None: "pop k h = None \<longleftrightarrow> h = []"
    and pop_mset: "wf k h \<Longrightarrow> pop k h = Some (x, h') \<Longrightarrow> mset h = add_mset x (mset h')"
    and pop_wf: "wf k h \<Longrightarrow> pop k h = Some (x, h') \<Longrightarrow> wf k h'"
    and pop_least: "wf k h \<Longrightarrow> pop k h = Some (x, h') \<Longrightarrow> y \<in> set h' \<Longrightarrow> k x \<le> k y"
begin

lemma push_set: "set (push k x h) = insert x (set h)"
  using push_mset [of k x h] by (metis set_mset_add_mset_insert set_mset_mset)

lemma pop_set: "wf k h \<Longrightarrow> pop k h = Some (x, h') \<Longrightarrow> set h = insert x (set h')"
  using pop_mset by (metis set_mset_add_mset_insert set_mset_mset)

lemma pop_length: "wf k h \<Longrightarrow> pop k h = Some (x, h') \<Longrightarrow> length h = Suc (length h')"
  using pop_mset [of k h x h'] by (metis size_add_mset size_mset)

end

definition heappush :: "('a \<Rightarrow> 'k :: linorder) \<Rightarrow> 'a \<Rightarrow> 'a list \<Rightarrow> 'a list" where
  "heappush k x h = insort_key k x h"

fun heappop :: "('a \<Rightarrow> 'k :: linorder) \<Rightarrow> 'a list \<Rightarrow> ('a \<times> 'a list) option" where
  "heappop k [] = None"
| "heappop k (x # h) = Some (x, h)"

definition heap_ok :: "('a \<Rightarrow> 'k :: linorder) \<Rightarrow> 'a list \<Rightarrow> bool" where
  "heap_ok k h \<longleftrightarrow> sorted (map k h)"

interpretation hq: min_queue heappush heappop heap_ok
proof unfold_locales
  fix k :: "'a \<Rightarrow> 'b :: linorder" and h x h' y
  show "heap_ok k []" by (simp add: heap_ok_def)
  show "heap_ok k h \<Longrightarrow> heap_ok k (heappush k x h)"
    by (simp add: heap_ok_def heappush_def sorted_insort_key)
  show "mset (heappush k x h) = add_mset x (mset h)" by (induction h) (auto simp: heappush_def)
  show "heappop k h = None \<longleftrightarrow> h = []" by (cases h) auto
  show "heap_ok k h \<Longrightarrow> heappop k h = Some (x, h') \<Longrightarrow> mset h = add_mset x (mset h')" by (cases h) auto
  show "heap_ok k h \<Longrightarrow> heappop k h = Some (x, h') \<Longrightarrow> heap_ok k h'"
    by (cases h) (auto simp: heap_ok_def)
  show "heap_ok k h \<Longrightarrow> heappop k h = Some (x, h') \<Longrightarrow> y \<in> set h' \<Longrightarrow> k x \<le> k y"
    by (cases h) (auto simp: heap_ok_def)
qed

section \<open>State\<close>

definition PRIORITY_ORCHESTRATOR :: int where "PRIORITY_ORCHESTRATOR = 0"
definition PRIORITY_WORKER :: int where "PRIORITY_WORKER = 1"
definition PRIORITY_BACKGROUND :: int where "PRIORITY_BACKGROUND = 2"

record wait_item =
  session_created_at :: span
  priority :: int
  seq :: nat
  wi_session :: string

text \<open>The order of the dataclass: creation time, then priority, then the insertion number.\<close>

definition item_key :: "wait_item \<Rightarrow> span \<times> int \<times> nat" where
  "item_key i = (session_created_at i, priority i, seq i)"

datatype fut = Pending | Resolved | Cancelled

record scheduler =
  capacity :: int
  available :: int
  session_timeout :: span
  heap :: "wait_item list"
  next_seq :: nat
  waiting :: int
  first_active :: "string \<rightharpoonup> rat"
  timeout_override :: "string \<rightharpoonup> span"
  futures :: "nat \<Rightarrow> fut"
  parked :: "wait_item list"
  held :: nat

definition new_scheduler :: "nat \<Rightarrow> span \<Rightarrow> scheduler" where
  "new_scheduler n limit = \<lparr>capacity = int n, available = int n, session_timeout = limit, heap = [],
     next_seq = 0, waiting = 0, first_active = Map.empty, timeout_override = Map.empty,
     futures = (\<lambda>_. Cancelled), parked = [], held = 0\<rparr>"

section \<open>Slots\<close>

definition effective_timeout :: "string \<Rightarrow> scheduler \<Rightarrow> span" where
  "effective_timeout sid s = (case timeout_override s sid of Some t \<Rightarrow> t | None \<Rightarrow> session_timeout s)"

definition drop_dead_waiters :: "scheduler \<Rightarrow> scheduler" where
  "drop_dead_waiters s = (if waiting s = 0 \<and> heap s \<noteq> [] then s\<lparr>heap := []\<rparr> else s)"

text \<open>The pop loop of \<open>_wake_next_or_free\<close>, on the heap and the futures.\<close>

function pop_live :: "(nat \<Rightarrow> fut) \<Rightarrow> wait_item list \<Rightarrow> wait_item option \<times> wait_item list" where
  "pop_live fs h = (case heappop item_key h of None \<Rightarrow> (None, h)
     | Some (i, h') \<Rightarrow> if fs (seq i) = Pending then (Some i, h') else pop_live fs h')"
  by pat_completeness auto
termination
proof (relation "measure (\<lambda>(_, h). length h)")
  fix fs :: "nat \<Rightarrow> fut" and h x xa y
  assume "heappop item_key h = Some x" "(xa, y) = x"
  then show "((fs, y), fs, h) \<in> measure (\<lambda>(_, h). length h)" by (cases h) auto
qed simp

declare pop_live.simps [simp del]

lemma pop_live_Nil [simp]: "pop_live fs [] = (None, [])"
  by (simp add: pop_live.simps)

lemma pop_live_Cons [simp]:
  "pop_live fs (i # h) = (if fs (seq i) = Pending then (Some i, h) else pop_live fs h)"
  by (simp add: pop_live.simps [of fs "i # h"])

definition wake_next_or_free :: "scheduler \<Rightarrow> scheduler" where
  "wake_next_or_free s = (case pop_live (futures s) (heap s) of
     (Some i, h) \<Rightarrow> s\<lparr>heap := h, futures := (futures s)(seq i := Resolved)\<rparr>
   | (None, h) \<Rightarrow> drop_dead_waiters (s\<lparr>heap := h, available := available s + 1\<rparr>))"

definition start_clock :: "rat \<Rightarrow> string \<Rightarrow> scheduler \<Rightarrow> scheduler" where
  "start_clock now sid s = (if sid \<noteq> '''' \<and> first_active s sid = None
     then s\<lparr>first_active := (first_active s)(sid \<mapsto> now)\<rparr> else s)"

text \<open>\<open>acquire\<close> up to its \<open>await\<close>: refused, granted at once, or queued under a number.\<close>

datatype acquired = Session_Timeout | Granted | Queued nat

definition over_budget :: "rat \<Rightarrow> string \<Rightarrow> scheduler \<Rightarrow> bool" where
  "over_budget now sid s \<longleftrightarrow> sid \<noteq> '''' \<and> (case first_active s sid of None \<Rightarrow> False
     | Some first \<Rightarrow> Fin (now - first) > effective_timeout sid s)"

definition acquire :: "rat \<Rightarrow> string \<Rightarrow> span \<Rightarrow> int \<Rightarrow> scheduler \<Rightarrow> acquired \<times> scheduler" where
  "acquire now sid created prio s =
     (if over_budget now sid s then (Session_Timeout, s)
      else if available s > 0 then
        (Granted, start_clock now sid (s\<lparr>available := available s - 1, held := held s + 1\<rparr>))
      else
        let n = next_seq s;
            i = \<lparr>session_created_at = created, priority = prio, seq = n, wi_session = sid\<rparr>
        in (Queued n, s\<lparr>next_seq := Suc n, heap := heappush item_key i (heap s), waiting := waiting s + 1,
              futures := (futures s)(n := Pending), parked := parked s @ [i]\<rparr>))"

text \<open>
  The ways in which the wait ends.  The event loop may cancel a pending future at any time
  (the timeout of \<open>wait_for\<close>, or the cancellation of the task); the waiting coroutine runs its
  branch later.
\<close>

definition unpark :: "nat \<Rightarrow> scheduler \<Rightarrow> scheduler" where
  "unpark n s = s\<lparr>waiting := waiting s - 1, parked := filter (\<lambda>i. seq i \<noteq> n) (parked s)\<rparr>"

definition cancel_future :: "nat \<Rightarrow> scheduler \<Rightarrow> scheduler" where
  "cancel_future n s = (if futures s n = Pending then s\<lparr>futures := (futures s)(n := Cancelled)\<rparr> else s)"

definition wait_granted :: "rat \<Rightarrow> string \<Rightarrow> nat \<Rightarrow> scheduler \<Rightarrow> scheduler" where
  "wait_granted now sid n s = start_clock now sid (unpark n (s\<lparr>held := held s + 1\<rparr>))"

definition wait_timed_out :: "nat \<Rightarrow> scheduler \<Rightarrow> scheduler" where
  "wait_timed_out n s = (let s1 = unpark n s in
     drop_dead_waiters (if futures s n = Resolved then wake_next_or_free s1 else s1))"

definition wait_cancelled :: "nat \<Rightarrow> scheduler \<Rightarrow> scheduler" where
  "wait_cancelled n s = (let s1 = unpark n s in
     drop_dead_waiters (if futures s n = Pending then cancel_future n s1
       else if futures s n \<noteq> Cancelled then wake_next_or_free s1 else s1))"

text \<open>\<open>release\<close>, called by an owner of a slot.\<close>

definition release :: "scheduler \<Rightarrow> scheduler" where
  "release s = wake_next_or_free (s\<lparr>held := held s - 1\<rparr>)"

section \<open>Budgets\<close>

definition purge_session :: "string \<Rightarrow> scheduler \<Rightarrow> scheduler" where
  "purge_session sid s = s\<lparr>first_active := (first_active s)(sid := None),
     timeout_override := (timeout_override s)(sid := None)\<rparr>"

definition reset_session_budget :: "string \<Rightarrow> scheduler \<Rightarrow> scheduler" where
  "reset_session_budget sid s = (if sid = '''' then s else
     s\<lparr>first_active := (first_active s)(sid := None), timeout_override := (timeout_override s)(sid := None)\<rparr>)"

definition session_seconds_remaining :: "rat \<Rightarrow> string \<Rightarrow> scheduler \<Rightarrow> span" where
  "session_seconds_remaining now sid s = (case first_active s sid of None \<Rightarrow> Inf
     | Some first \<Rightarrow> max 0 (span_minus (effective_timeout sid s) (now - first)))"

definition raise_cap :: "string \<Rightarrow> span \<Rightarrow> scheduler \<Rightarrow> scheduler" where
  "raise_cap sid needed s = (if needed > effective_timeout sid s
     then s\<lparr>timeout_override := (timeout_override s)(sid \<mapsto> needed)\<rparr> else s)"

definition elapsed_of :: "rat \<Rightarrow> string \<Rightarrow> scheduler \<Rightarrow> rat" where
  "elapsed_of now sid s = (case first_active s sid of None \<Rightarrow> 0 | Some first \<Rightarrow> now - first)"

definition extend_session_budget :: "string \<Rightarrow> span \<Rightarrow> scheduler \<Rightarrow> span \<times> scheduler" where
  "extend_session_budget sid additional s = (if sid = '''' then (session_timeout s, s) else
     let s' = raise_cap sid (session_timeout s + max 0 additional) s in (effective_timeout sid s', s'))"

definition ensure_session_budget :: "rat \<Rightarrow> string \<Rightarrow> span \<Rightarrow> scheduler \<Rightarrow> span \<times> scheduler" where
  "ensure_session_budget now sid min_remaining s = (if sid = '''' then (session_timeout s, s) else
     let s' = raise_cap sid (Fin (elapsed_of now sid s) + max 0 min_remaining) s
     in (effective_timeout sid s', s'))"

definition renew_phase_budget ::
    "rat \<Rightarrow> string \<Rightarrow> span \<Rightarrow> span \<Rightarrow> scheduler \<Rightarrow> span \<times> scheduler" where
  "renew_phase_budget now sid window limit s = (if sid = '''' then (session_timeout s, s) else
     let elapsed = elapsed_of now sid s;
         needed = Fin elapsed + max 0 window;
         needed' = (if limit > 0 then min needed limit else needed);
         s' = raise_cap sid needed' s
     in (max 0 (span_minus (effective_timeout sid s') elapsed), s'))"

definition stats :: "scheduler \<Rightarrow> int \<times> int \<times> int" where
  "stats s = (available s, waiting s, capacity s)"

section \<open>The invariant of the slots\<close>

definition resolved_waiters :: "scheduler \<Rightarrow> nat" where
  "resolved_waiters s = length (filter (\<lambda>i. futures s (seq i) = Resolved) (parked s))"

text \<open>
  \<open>slots_ok d s\<close>: with \<open>d\<close> slots in transit, every slot is free, owned, or promised to a waiter;
  the queue holds exactly the live waiters; and a free slot means that nobody waits for one.
\<close>

definition queue_ok :: "scheduler \<Rightarrow> bool" where
  "queue_ok s \<longleftrightarrow> heap_ok item_key (heap s) \<and> distinct (map seq (heap s)) \<and> distinct (map seq (parked s))
     \<and> (\<forall>i \<in> set (heap s) \<union> set (parked s). seq i < next_seq s)
     \<and> (\<forall>i \<in> set (parked s). futures s (seq i) = Pending \<longrightarrow> i \<in> set (heap s))
     \<and> (\<forall>i \<in> set (heap s). futures s (seq i) = Pending \<longrightarrow> i \<in> set (parked s))
     \<and> waiting s = int (length (parked s))"

definition no_lost_slot :: "scheduler \<Rightarrow> bool" where
  "no_lost_slot s \<longleftrightarrow> (available s > 0 \<longrightarrow> (\<forall>i \<in> set (parked s). futures s (seq i) \<noteq> Pending))"

definition slots_ok :: "int \<Rightarrow> scheduler \<Rightarrow> bool" where
  "slots_ok d s \<longleftrightarrow> queue_ok s \<and> no_lost_slot s \<and> available s \<ge> 0
     \<and> available s + int (held s) + int (resolved_waiters s) + d = capacity s"

lemma pop_live_None: "pop_live fs h = (None, h') \<Longrightarrow> h' = [] \<and> (\<forall>i \<in> set h. fs (seq i) \<noteq> Pending)"
  by (induction h) (auto split: if_splits)

lemma pop_live_Some:
  "pop_live fs h = (Some i, h') \<Longrightarrow>
   \<exists>dead. h = dead @ i # h' \<and> (\<forall>j \<in> set dead. fs (seq j) \<noteq> Pending) \<and> fs (seq i) = Pending"
proof (induction h)
  case (Cons a h)
  show ?case
  proof (cases "fs (seq a) = Pending")
    case True
    with Cons.prems show ?thesis by (intro exI [of _ "[]"]) auto
  next
    case False
    with Cons obtain dead where "h = dead @ i # h'" "\<forall>j \<in> set dead. fs (seq j) \<noteq> Pending" "fs (seq i) = Pending"
      by auto
    with False show ?thesis by (intro exI [of _ "a # dead"]) auto
  qed
qed simp

lemma seq_inj:
  "distinct (map seq xs) \<Longrightarrow> i \<in> set xs \<Longrightarrow> j \<in> set xs \<Longrightarrow> seq i = seq j \<Longrightarrow> i = j"
  by (auto simp: distinct_map dest: inj_onD)

lemma drop_dead_slots: "slots_ok d s \<Longrightarrow> slots_ok d (drop_dead_waiters s)"
  by (auto simp: drop_dead_waiters_def slots_ok_def queue_ok_def no_lost_slot_def resolved_waiters_def
      heap_ok_def)

lemma resolve_one:
  assumes "distinct (map seq ps)" and "i \<in> set ps" and "fs (seq i) \<noteq> Resolved"
  shows "length (filter (\<lambda>j. (fs(seq i := Resolved)) (seq j) = Resolved) ps)
    = Suc (length (filter (\<lambda>j. fs (seq j) = Resolved) ps))"
  using assms
proof (induction ps)
  case (Cons p ps)
  show ?case
  proof (cases "p = i")
    case True
    with Cons.prems have "seq i \<notin> seq ` set ps" by simp
    then have "filter (\<lambda>j. (fs(seq i := Resolved)) (seq j) = Resolved) ps
        = filter (\<lambda>j. fs (seq j) = Resolved) ps"
      by (intro filter_cong) (force simp: image_iff)+
    with True Cons.prems show ?thesis by simp
  next
    case False
    with Cons.prems have "i \<in> set ps" "seq p \<noteq> seq i" by auto
    with Cons show ?thesis by simp
  qed
qed simp

lemma wake_slots:
  assumes "slots_ok 1 s"
  shows "slots_ok 0 (wake_next_or_free s)"
proof (cases "pop_live (futures s) (heap s)")
  case (Pair o' h')
  show ?thesis
  proof (cases o')
    case None
    with Pair have h': "h' = []" and dead: "\<forall>i \<in> set (heap s). futures s (seq i) \<noteq> Pending"
      using pop_live_None by blast+
    let ?s = "s\<lparr>heap := [], available := available s + 1\<rparr>"
    from assms have q: "queue_ok s" by (simp add: slots_ok_def)
    with dead have none: "\<forall>i \<in> set (parked s). futures s (seq i) \<noteq> Pending"
      unfolding queue_ok_def by blast
    with q have "queue_ok ?s" by (simp add: queue_ok_def heap_ok_def)
    moreover have "no_lost_slot ?s" using none by (simp add: no_lost_slot_def)
    ultimately have "slots_ok 0 ?s"
      using assms by (simp add: slots_ok_def resolved_waiters_def)
    with None Pair h' show ?thesis by (simp add: wake_next_or_free_def drop_dead_slots)
  next
    case (Some i)
    with Pair obtain dead where h: "heap s = dead @ i # h'"
      and pend: "futures s (seq i) = Pending" and dead: "\<forall>j \<in> set dead. futures s (seq j) \<noteq> Pending"
      using pop_live_Some by blast
    from assms have q: "queue_ok s" by (simp add: slots_ok_def)
    then have ip: "i \<in> set (parked s)" using h pend by (auto simp: queue_ok_def)
    let ?s = "s\<lparr>heap := h', futures := (futures s)(seq i := Resolved)\<rparr>"
    have "resolved_waiters ?s = Suc (resolved_waiters s)"
      using resolve_one [of "parked s" i "futures s"] q ip pend
      by (simp add: resolved_waiters_def queue_ok_def)
    moreover have "queue_ok ?s" using q h dead
      by (auto simp: queue_ok_def heap_ok_def sorted_append)
    moreover have "no_lost_slot ?s" using assms ip pend
      by (auto simp: slots_ok_def no_lost_slot_def)
    ultimately show ?thesis using assms Some Pair by (simp add: wake_next_or_free_def slots_ok_def)
  qed
qed

text \<open>A waiter that leaves; its own promise, if it had one, goes into transit.\<close>

lemma unpark_resolved:
  assumes "distinct (map seq ps)" and "i \<in> set ps"
  shows "length (filter (\<lambda>j. fs (seq j) = Resolved) ps)
    = length (filter (\<lambda>j. fs (seq j) = Resolved) (filter (\<lambda>j. seq j \<noteq> seq i) ps))
      + (if fs (seq i) = Resolved then 1 else 0)"
  using assms
proof (induction ps)
  case (Cons p ps)
  show ?case
  proof (cases "p = i")
    case True
    with Cons.prems have "filter (\<lambda>j. seq j \<noteq> seq i) ps = ps"
      by (intro filter_True) (force simp: image_iff)
    with True show ?thesis by simp
  next
    case False
    with Cons.prems have "i \<in> set ps" "seq p \<noteq> seq i" by auto
    with Cons show ?thesis by simp
  qed
qed simp

lemma unpark_length:
  "distinct (map seq ps) \<Longrightarrow> i \<in> set ps \<Longrightarrow> length ps = Suc (length (filter (\<lambda>j. seq j \<noteq> seq i) ps))"
proof (induction ps)
  case (Cons p ps)
  show ?case
  proof (cases "p = i")
    case True
    with Cons.prems have "filter (\<lambda>j. seq j \<noteq> seq i) ps = ps"
      by (intro filter_True) (force simp: image_iff)
    with True show ?thesis by simp
  next
    case False
    with Cons.prems have "i \<in> set ps" "seq p \<noteq> seq i" by auto
    with Cons show ?thesis by simp
  qed
qed simp

lemma unpark_slots:
  assumes "slots_ok d s" and "i \<in> set (parked s)" and "futures s (seq i) \<noteq> Pending"
  shows "slots_ok (d + (if futures s (seq i) = Resolved then 1 else 0)) (unpark (seq i) s)"
proof -
  from assms have q: "queue_ok s" by (simp add: slots_ok_def)
  then have dist: "distinct (map seq (parked s))" by (simp add: queue_ok_def)
  have "queue_ok (unpark (seq i) s)"
    using q assms(3) unpark_length [OF dist assms(2)]
    by (auto simp: queue_ok_def unpark_def distinct_map_filter)
  moreover have "no_lost_slot (unpark (seq i) s)"
    using assms(1) by (auto simp: slots_ok_def no_lost_slot_def unpark_def)
  ultimately show ?thesis
    using assms(1) unpark_resolved [OF dist assms(2), of "futures s"]
    by (auto simp: slots_ok_def resolved_waiters_def unpark_def)
qed

lemma cancel_future_slots:
  assumes "slots_ok d s"
  shows "slots_ok d (cancel_future n s)"
proof (cases "futures s n = Pending")
  case True
  let ?s = "s\<lparr>futures := (futures s)(n := Cancelled)\<rparr>"
  have "filter (\<lambda>j. futures ?s (seq j) = Resolved) (parked s) = filter (\<lambda>j. futures s (seq j) = Resolved) (parked s)"
    using True by (intro filter_cong) auto
  then show ?thesis using True assms
    by (auto simp: cancel_future_def slots_ok_def queue_ok_def no_lost_slot_def resolved_waiters_def)
qed (use assms in \<open>simp add: cancel_future_def\<close>)

section \<open>Runs of the scheduler\<close>

text \<open>
  What can happen next: a caller acquires or releases, the event loop cancels a future, a waiter
  takes one of its branches, a budget is changed.  A step that the asyncio contract rules out
  (a branch of a coroutine that does not wait, a grant without a resolved future, a timeout with a
  pending one, a release without a slot) changes nothing.
\<close>

datatype sched_op =
    Do_Acquire rat string span int
  | Do_Cancel_Future nat
  | Do_Granted rat nat
  | Do_Timed_Out nat
  | Do_Cancelled nat
  | Do_Release
  | Do_Extend string span
  | Do_Ensure rat string span
  | Do_Renew rat string span span
  | Do_Purge string
  | Do_Reset string

definition waiter :: "nat \<Rightarrow> scheduler \<Rightarrow> wait_item option" where
  "waiter n s = find (\<lambda>i. seq i = n) (parked s)"

fun sched_step :: "scheduler \<Rightarrow> sched_op \<Rightarrow> scheduler" where
  "sched_step s (Do_Acquire now sid created prio) = snd (acquire now sid created prio s)"
| "sched_step s (Do_Cancel_Future n) = cancel_future n s"
| "sched_step s (Do_Granted now n) = (case waiter n s of None \<Rightarrow> s
     | Some i \<Rightarrow> if futures s n = Resolved then wait_granted now (wi_session i) n s else s)"
| "sched_step s (Do_Timed_Out n) = (case waiter n s of None \<Rightarrow> s
     | Some i \<Rightarrow> if futures s n \<noteq> Pending then wait_timed_out n s else s)"
| "sched_step s (Do_Cancelled n) = (case waiter n s of None \<Rightarrow> s | Some i \<Rightarrow> wait_cancelled n s)"
| "sched_step s Do_Release = (if held s > 0 then release s else s)"
| "sched_step s (Do_Extend sid a) = snd (extend_session_budget sid a s)"
| "sched_step s (Do_Ensure now sid m) = snd (ensure_session_budget now sid m s)"
| "sched_step s (Do_Renew now sid win top_s) = snd (renew_phase_budget now sid win top_s s)"
| "sched_step s (Do_Purge sid) = purge_session sid s"
| "sched_step s (Do_Reset sid) = reset_session_budget sid s"

lemma waiter_Some: "waiter n s = Some i \<Longrightarrow> i \<in> set (parked s) \<and> seq i = n"
  by (auto simp: waiter_def find_Some_iff)

text \<open>The parts of the state that the slots do not read.\<close>

lemma slots_ok_budget [simp]:
  "slots_ok d (s\<lparr>first_active := fa, timeout_override := ov\<rparr>) = slots_ok d s"
  "slots_ok d (s\<lparr>first_active := fa\<rparr>) = slots_ok d s"
  "slots_ok d (s\<lparr>timeout_override := ov\<rparr>) = slots_ok d s"
  by (simp_all add: slots_ok_def queue_ok_def no_lost_slot_def resolved_waiters_def)

lemma slots_ok_clock [simp]: "slots_ok d (start_clock now sid s) = slots_ok d s"
  by (simp add: start_clock_def)

lemma slots_ok_raise [simp]: "slots_ok d (raise_cap sid x s) = slots_ok d s"
  by (simp add: raise_cap_def)

lemma acquire_slots:
  assumes "slots_ok 0 s"
  shows "slots_ok 0 (snd (acquire now sid created prio s))"
proof (cases "over_budget now sid s \<or> available s > 0")
  case True
  then show ?thesis using assms
    by (auto simp: acquire_def slots_ok_def queue_ok_def no_lost_slot_def resolved_waiters_def start_clock_def)
next
  case False
  define i where "i = \<lparr>session_created_at = created, priority = prio, seq = next_seq s, wi_session = sid\<rparr>"
  let ?s = "s\<lparr>next_seq := Suc (next_seq s), heap := heappush item_key i (heap s), waiting := waiting s + 1,
      futures := (futures s)(next_seq s := Pending), parked := parked s @ [i]\<rparr>"
  from assms have q: "queue_ok s" by (simp add: slots_ok_def)
  have new: "next_seq s \<notin> seq ` set (heap s)" "next_seq s \<notin> seq ` set (parked s)"
    using q by (force simp: queue_ok_def)+
  have neq: "\<forall>j \<in> set (heap s) \<union> set (parked s). seq j \<noteq> next_seq s"
    using q by (force simp: queue_ok_def)
  have ds: "distinct (map seq (heappush item_key i (heap s)))"
  proof -
    have "mset (map seq (heappush item_key i (heap s))) = mset (next_seq s # map seq (heap s))"
      by (simp add: hq.push_mset mset_map i_def)
    moreover have "distinct (next_seq s # map seq (heap s))" using q new by (simp add: queue_ok_def)
    ultimately show ?thesis by (metis mset_eq_imp_distinct_iff)
  qed
  have "queue_ok ?s"
    unfolding queue_ok_def
    using q new neq ds hq.push_wf [of item_key "heap s" i]
    by (auto simp: queue_ok_def hq.push_set i_def less_Suc_eq)
  moreover have "filter (\<lambda>j. futures ?s (seq j) = Resolved) (parked s)
      = filter (\<lambda>j. futures s (seq j) = Resolved) (parked s)"
    using new by (intro filter_cong) (auto simp: image_iff)
  then have "resolved_waiters ?s = resolved_waiters s" by (simp add: resolved_waiters_def i_def)
  ultimately have "slots_ok 0 ?s" using assms False by (simp add: slots_ok_def no_lost_slot_def)
  moreover have "acquire now sid created prio s = (Queued (next_seq s), ?s)"
    using False by (simp add: acquire_def Let_def i_def)
  ultimately show ?thesis by simp
qed

lemma held_slots: "slots_ok d s \<Longrightarrow> slots_ok (d - 1) (s\<lparr>held := held s + 1\<rparr>)"
  by (simp add: slots_ok_def queue_ok_def no_lost_slot_def resolved_waiters_def)

lemma granted_slots:
  assumes "slots_ok 0 s" and "i \<in> set (parked s)" and "futures s (seq i) = Resolved"
  shows "slots_ok 0 (wait_granted now sid (seq i) s)"
proof -
  have "unpark (seq i) (s\<lparr>held := held s + 1\<rparr>) = (unpark (seq i) s)\<lparr>held := held (unpark (seq i) s) + 1\<rparr>"
    by (simp add: unpark_def)
  with held_slots [OF unpark_slots [OF assms(1,2)]] assms(3) show ?thesis
    by (simp add: wait_granted_def)
qed

lemma timed_out_slots:
  assumes "slots_ok 0 s" and "i \<in> set (parked s)" and "futures s (seq i) \<noteq> Pending"
  shows "slots_ok 0 (wait_timed_out (seq i) s)"
  using unpark_slots [OF assms] wake_slots
  by (cases "futures s (seq i) = Resolved") (simp_all add: wait_timed_out_def Let_def drop_dead_slots)

lemma cancel_unpark: "cancel_future n (unpark n s) = unpark n (cancel_future n s)"
  by (simp add: cancel_future_def unpark_def)

lemma cancelled_slots:
  assumes "slots_ok 0 s" and "i \<in> set (parked s)"
  shows "slots_ok 0 (wait_cancelled (seq i) s)"
proof (cases "futures s (seq i) = Pending")
  case True
  let ?s = "cancel_future (seq i) s"
  have "slots_ok 0 (unpark (seq i) ?s)"
    using unpark_slots [OF cancel_future_slots [OF assms(1), of "seq i"], of i] assms(2) True
    by (simp add: cancel_future_def)
  with True show ?thesis by (simp add: wait_cancelled_def cancel_unpark drop_dead_slots)
next
  case False
  with unpark_slots [OF assms False] wake_slots show ?thesis
    by (cases "futures s (seq i)") (simp_all add: wait_cancelled_def Let_def drop_dead_slots)
qed

lemma release_slots: "slots_ok 0 s \<Longrightarrow> held s > 0 \<Longrightarrow> slots_ok 0 (release s)"
  unfolding release_def
  by (rule wake_slots) (auto simp: slots_ok_def queue_ok_def no_lost_slot_def resolved_waiters_def)

lemmas slot_ops = acquire_slots cancel_future_slots granted_slots timed_out_slots cancelled_slots
  release_slots

lemma sched_step_slots: "slots_ok 0 s \<Longrightarrow> slots_ok 0 (sched_step s op)"
  by (cases op)
    (auto simp: extend_session_budget_def ensure_session_budget_def renew_phase_budget_def Let_def
      purge_session_def reset_session_budget_def slot_ops dest!: waiter_Some split: option.splits)

interpretation slots: invariant_machine sched_step "slots_ok 0"
  by unfold_locales (rule sched_step_slots)

lemma new_scheduler_ok: "slots_ok 0 (new_scheduler n limit)"
  by (simp add: new_scheduler_def slots_ok_def queue_ok_def no_lost_slot_def resolved_waiters_def heap_ok_def)

text \<open>C2: No slot is ever lost or invented: after any sequence of acquires, releases, grants,
  timeouts and cancellations in any order, the free slots, the owned ones and those promised to a
  waiter that has not run yet add up to the capacity, none is negative, and the count of waiters
  is right.\<close>

theorem slots_conserved:
  "let s = foldl sched_step (new_scheduler n limit) ops in
   available s + int (held s) + int (resolved_waiters s) = int n \<and> available s \<ge> 0
   \<and> waiting s = int (length (parked s))"
proof -
  have cap: "capacity (foldl sched_step s ops) = capacity s" for s
  proof (induction ops arbitrary: s)
    case (Cons op ops)
    have "capacity (sched_step s op) = capacity s"
      by (cases op)
        (auto simp: acquire_def start_clock_def cancel_future_def wait_granted_def unpark_def
          wait_timed_out_def wait_cancelled_def release_def wake_next_or_free_def drop_dead_waiters_def
          extend_session_budget_def ensure_session_budget_def renew_phase_budget_def raise_cap_def
          purge_session_def reset_session_budget_def Let_def split: option.splits prod.splits)
    then show ?case using Cons by simp
  qed simp
  have "slots_ok 0 (foldl sched_step (new_scheduler n limit) ops)"
    by (rule slots.run_inv [OF new_scheduler_ok])
  then show ?thesis using cap [of "new_scheduler n limit"]
    by (simp add: Let_def slots_ok_def queue_ok_def new_scheduler_def)
qed

text \<open>No wake-up is lost: whenever a slot is free, no caller is waiting for one.\<close>

theorem free_slot_no_waiter:
  "let s = foldl sched_step (new_scheduler n limit) ops in
   available s = 0 \<or> filter (\<lambda>i. futures s (seq i) = Pending) (parked s) = []"
  using slots.run_inv [OF new_scheduler_ok, of n limit ops]
  by (auto simp: Let_def slots_ok_def no_lost_slot_def filter_empty_conv)

definition live_waiters :: "scheduler \<Rightarrow> wait_item list" where
  "live_waiters s = filter (\<lambda>i. futures s (seq i) = Pending) (parked s)"

lemma live_in_heap: "slots_ok d s \<Longrightarrow> set (live_waiters s) = {i \<in> set (heap s). futures s (seq i) = Pending}"
  by (auto simp: slots_ok_def queue_ok_def live_waiters_def)

text \<open>A released slot goes to the right caller: if nobody waits it becomes free; otherwise it
  is granted to exactly one live waiter, and none of the others comes before it in the order of
  session age, then priority, then arrival.\<close>

theorem release_serves_first:
  assumes "slots_ok 0 s" and "held s > 0"
  shows "if live_waiters s = [] then available (release s) = available s + 1 \<and> futures (release s) = futures s
    else available (release s) = available s
      \<and> (\<exists>i \<in> set (live_waiters s). futures (release s) = (futures s)(seq i := Resolved)
           \<and> (\<forall>j \<in> set (live_waiters s). item_key i \<le> item_key j))"
proof (cases "pop_live (futures s) (heap s)")
  case (Pair o' h')
  show ?thesis
  proof (cases o')
    case None
    with Pair pop_live_None have "\<forall>i \<in> set (heap s). futures s (seq i) \<noteq> Pending" by blast
    then have "set (live_waiters s) = {}" by (simp add: live_in_heap [OF assms(1)])
    then have "live_waiters s = []" by simp
    then show ?thesis
      using None Pair by (simp add: release_def wake_next_or_free_def drop_dead_waiters_def)
  next
    case (Some i)
    with Pair obtain dead where h: "heap s = dead @ i # h'"
      and pend: "futures s (seq i) = Pending" and dead: "\<forall>j \<in> set dead. futures s (seq j) \<noteq> Pending"
      using pop_live_Some by blast
    have live: "i \<in> set (live_waiters s)" using live_in_heap [OF assms(1)] h pend by auto
    have "heap_ok item_key (heap s)" using assms(1) by (simp add: slots_ok_def queue_ok_def)
    then have "\<forall>j \<in> set h'. item_key i \<le> item_key j" by (auto simp: heap_ok_def h sorted_append)
    then have "\<forall>j \<in> set (live_waiters s). item_key i \<le> item_key j"
      using live_in_heap [OF assms(1)] h dead by auto
    then show ?thesis using live Some Pair by (auto simp: release_def wake_next_or_free_def)
  qed
qed

definition demo_queue :: scheduler where
  "demo_queue = foldl sched_step (new_scheduler 1 (Fin 1800))
     [Do_Acquire 0 ''a'' (Fin 5) 0, Do_Acquire 1 ''b'' (Fin 9) 0, Do_Acquire 2 ''c'' (Fin 7) 2]"

lemma demo_queue_held: "held demo_queue > 0"
  by (simp add: demo_queue_def new_scheduler_def acquire_def start_clock_def over_budget_def
      effective_timeout_def Let_def)

lemma release_serves_first_witness:
  "if live_waiters demo_queue = [] then available (release demo_queue) = available demo_queue + 1
   else available (release demo_queue) = available demo_queue"
  using release_serves_first [OF slots.run_inv [OF new_scheduler_ok, of 1 "Fin 1800"
      "[Do_Acquire 0 ''a'' (Fin 5) 0, Do_Acquire 1 ''b'' (Fin 9) 0, Do_Acquire 2 ''c'' (Fin 7) 2]",
      folded demo_queue_def] demo_queue_held]
  by (auto split: if_splits)

section \<open>The guarantees of the budgets\<close>

lemma effective_raise [simp]:
  "effective_timeout sid (raise_cap sid x s) = max (effective_timeout sid s) x"
  by (auto simp: raise_cap_def effective_timeout_def max_def)

lemma effective_raise_other: "a \<noteq> b \<Longrightarrow> effective_timeout a (raise_cap b x s) = effective_timeout a s"
  by (auto simp: raise_cap_def effective_timeout_def split: option.splits)

lemma raise_cap_first [simp]: "first_active (raise_cap sid x s) = first_active s"
  "session_timeout (raise_cap sid x s) = session_timeout s"
  by (simp_all add: raise_cap_def)

lemma raise_cap_twice: "raise_cap sid y (raise_cap sid x s) = raise_cap sid (max x y) s"
  by (auto simp: raise_cap_def effective_timeout_def max_def)

lemma elapsed_raise [simp]: "elapsed_of now sid (raise_cap a x s) = elapsed_of now sid s"
  by (simp add: elapsed_of_def)

lemma span_plus_mono: "a \<le> b \<Longrightarrow> (c :: span) + a \<le> c + b"
  by (cases a; cases b; cases c) auto

lemma span_plus_max: "(c :: span) + max a b = max (c + a) (c + b)"
  by (cases a; cases b; cases c) (auto simp: max_def)

text \<open>Extensions of a session's budget are idempotent and do not compose: any two calls are
  the one call with the larger argument, in whatever order they come, so a repeated extension
  grants nothing.\<close>

theorem extend_is_max:
  "snd (extend_session_budget sid b (snd (extend_session_budget sid a s)))
     = snd (extend_session_budget sid (max a b) s)"
proof -
  have "max (session_timeout s + max 0 a) (session_timeout s + max 0 b) = session_timeout s + max 0 (max a b)"
    by (simp add: span_plus_max [symmetric] max.assoc max.left_commute)
  then show ?thesis
    by (simp add: extend_session_budget_def Let_def raise_cap_twice)
qed

text \<open>\<open>ensure_session_budget\<close> keeps its promise at the clock: at least the requested seconds
  remain, the cap has not shrunk, the next acquire at that time is not refused for the budget, and
  no other session's budget has changed.\<close>

theorem ensure_grants:
  assumes "sid \<noteq> ''''"
  shows "let s' = snd (ensure_session_budget now sid m s) in
    m \<le> session_seconds_remaining now sid s'
    \<and> effective_timeout sid s \<le> effective_timeout sid s'
    \<and> \<not> over_budget now sid s'
    \<and> (\<forall>a. a \<noteq> sid \<longrightarrow> effective_timeout a s' = effective_timeout a s)"
proof -
  let ?need = "Fin (elapsed_of now sid s) + max 0 m"
  let ?s = "raise_cap sid ?need s"
  have s': "snd (ensure_session_budget now sid m s) = ?s"
    using assms by (simp add: ensure_session_budget_def Let_def)
  have "m \<le> session_seconds_remaining now sid ?s"
  proof (cases "first_active s sid")
    case (Some f)
    have "max 0 m \<le> span_minus (max (effective_timeout sid s) ?need) (elapsed_of now sid s)"
      by (rule span_le_minus) simp
    then show ?thesis using Some
      by (simp add: session_seconds_remaining_def elapsed_of_def le_max_iff_disj)
  qed (simp add: session_seconds_remaining_def)
  moreover have "\<not> over_budget now sid ?s"
  proof (cases "first_active s sid")
    case (Some f)
    have "Fin (now - f) + 0 \<le> ?need"
      using span_plus_mono [of 0 "max 0 m" "Fin (now - f)"] Some by (simp add: elapsed_of_def)
    then have "Fin (now - f) \<le> effective_timeout sid ?s"
      by (simp add: le_max_iff_disj)
    then show ?thesis using Some by (auto simp: over_budget_def not_less le_max_iff_disj)
  qed (simp add: over_budget_def)
  ultimately show ?thesis
    by (simp add: s' Let_def effective_raise_other)
qed

lemma ensure_grants_witness:
  "\<not> over_budget 100 ''s'' (snd (ensure_session_budget 100 ''s'' (Fin 30)
      ((new_scheduler 2 (Fin 60))\<lparr>first_active := [''s'' \<mapsto> 0]\<rparr>)))"
  using ensure_grants [of "''s''" 100 "Fin 30" "(new_scheduler 2 (Fin 60))\<lparr>first_active := [''s'' \<mapsto> 0]\<rparr>"]
  by (simp add: Let_def)

text \<open>A step that neither purges nor resets the session \<open>sid\<close>.\<close>

definition cuts :: "string \<Rightarrow> sched_op \<Rightarrow> bool" where
  "cuts sid op \<longleftrightarrow> op = Do_Purge sid \<or> op = Do_Reset sid"

definition keep_step :: "string \<Rightarrow> scheduler \<Rightarrow> sched_op \<Rightarrow> scheduler" where
  "keep_step sid s op = (if cuts sid op then s else sched_step s op)"

lemma effective_frame [simp]:
  "effective_timeout sid (start_clock now a s) = effective_timeout sid s"
  "effective_timeout sid (s\<lparr>available := av, held := n\<rparr>) = effective_timeout sid s"
  "effective_timeout sid (s\<lparr>held := n\<rparr>) = effective_timeout sid s"
  "effective_timeout sid (s\<lparr>available := av\<rparr>) = effective_timeout sid s"
  "effective_timeout sid (s\<lparr>heap := h\<rparr>) = effective_timeout sid s"
  "effective_timeout sid (unpark k s) = effective_timeout sid s"
  "effective_timeout sid (cancel_future k s) = effective_timeout sid s"
  "effective_timeout sid (drop_dead_waiters s) = effective_timeout sid s"
  "effective_timeout sid (s\<lparr>heap := h, available := av\<rparr>) = effective_timeout sid s"
  "effective_timeout sid (s\<lparr>heap := h, futures := fs\<rparr>) = effective_timeout sid s"
  "effective_timeout sid (s\<lparr>next_seq := k, heap := h, waiting := x, futures := fs, parked := ps\<rparr>)
     = effective_timeout sid s"
  by (simp_all add: effective_timeout_def start_clock_def unpark_def cancel_future_def drop_dead_waiters_def
      split: option.splits)

lemma effective_wake [simp]: "effective_timeout sid (wake_next_or_free s) = effective_timeout sid s"
  by (simp add: wake_next_or_free_def split: prod.splits option.splits)

lemma effective_raise_any: "effective_timeout sid s \<le> effective_timeout sid (raise_cap a x s)"
  by (cases "a = sid") (simp_all add: effective_raise_other)

lemma keep_step_level: "effective_timeout sid s \<le> effective_timeout sid (keep_step sid s op)"
proof (cases op)
  case (Do_Purge a)
  then show ?thesis
    by (auto simp: keep_step_def cuts_def purge_session_def effective_timeout_def split: option.splits)
next
  case (Do_Reset a)
  then show ?thesis
    by (auto simp: keep_step_def cuts_def reset_session_budget_def effective_timeout_def split: option.splits)
next
  case (Do_Acquire now a c p)
  then show ?thesis by (simp add: keep_step_def cuts_def acquire_def Let_def)
qed (auto simp: keep_step_def cuts_def wait_granted_def wait_timed_out_def wait_cancelled_def release_def
      extend_session_budget_def ensure_session_budget_def renew_phase_budget_def Let_def
      effective_raise_any split: option.splits)

interpretation caps: monotone_machine "keep_step sid" "\<lambda>_. True" "effective_timeout sid" for sid
  by unfold_locales (simp_all add: keep_step_level)

lemma keep_run: "\<forall>op \<in> set ops. \<not> cuts sid op \<Longrightarrow> foldl (keep_step sid) s ops = foldl sched_step s ops"
  by (induction ops arbitrary: s) (simp_all add: keep_step_def)

text \<open>A granted budget stays granted: whatever the scheduler does for this or any other
  session, the session's cap only grows until the session is purged or its next turn resets it.\<close>

theorem cap_never_shrinks:
  assumes "\<forall>op \<in> set ops. op \<noteq> Do_Purge sid \<and> op \<noteq> Do_Reset sid"
  shows "effective_timeout sid s \<le> effective_timeout sid (foldl sched_step s ops)"
  using caps.run_level [where s = s and es = ops and sid = sid] keep_run [of ops sid s] assms by (simp add: cuts_def)

lemma cap_never_shrinks_witness:
  "Fin 60 \<le> effective_timeout ''s'' (foldl sched_step (new_scheduler 1 (Fin 60))
     [Do_Acquire 0 ''s'' (Fin 5) 0, Do_Purge ''t'', Do_Extend ''s'' (Fin 30)])"
  using cap_never_shrinks [of "[Do_Acquire 0 ''s'' (Fin 5) 0, Do_Purge ''t'', Do_Extend ''s'' (Fin 30)]"
      "''s''" "new_scheduler 1 (Fin 60)"]
  by (simp add: effective_timeout_def new_scheduler_def)

text \<open>A sequence of phase renewals of one session, at any times and for any windows.\<close>

definition renewals :: "string \<Rightarrow> span \<Rightarrow> (rat \<times> span) list \<Rightarrow> scheduler \<Rightarrow> scheduler" where
  "renewals sid limit xs s = foldl (\<lambda>s (now, win). snd (renew_phase_budget now sid win limit s)) s xs"

lemma renew_effective:
  assumes "sid \<noteq> ''''" and "limit > 0"
  shows "effective_timeout sid (snd (renew_phase_budget now sid win limit s))
    = max (effective_timeout sid s) (min (Fin (elapsed_of now sid s) + max 0 win) limit)"
  using assms by (simp add: renew_phase_budget_def Let_def)

text \<open>Self-renewing phases cannot spend without bound: no sequence of renewals takes the
  session's cap over the ceiling (or the cap it had), and as long as the window fits under the
  ceiling a renewal leaves the whole window, measured from now, as the headroom it reports.\<close>

theorem renewals_bounded:
  assumes "sid \<noteq> ''''" and "limit > 0"
  shows "effective_timeout sid (renewals sid limit xs s) \<le> max (effective_timeout sid s) limit
    \<and> (Fin (elapsed_of now sid s) + max 0 win \<le> limit \<longrightarrow>
         win \<le> fst (renew_phase_budget now sid win limit s))"
proof
  show "effective_timeout sid (renewals sid limit xs s) \<le> max (effective_timeout sid s) limit"
  proof (induction xs arbitrary: s)
    case (Cons x xs)
    obtain now' win' where x: "x = (now', win')" by (cases x)
    let ?s = "snd (renew_phase_budget now' sid win' limit s)"
    have "effective_timeout sid (renewals sid limit xs ?s) \<le> max (effective_timeout sid ?s) limit"
      by (rule Cons.IH)
    also have "\<dots> \<le> max (effective_timeout sid s) limit"
      unfolding renew_effective [OF assms] by (intro max.boundedI) (auto simp: le_max_iff_disj min_le_iff_disj)
    finally show ?case by (simp add: renewals_def x)
  qed (simp add: renewals_def)
  show "Fin (elapsed_of now sid s) + max 0 win \<le> limit \<longrightarrow>
      win \<le> fst (renew_phase_budget now sid win limit s)"
  proof
    let ?need = "Fin (elapsed_of now sid s) + max 0 win"
    assume "?need \<le> limit"
    then have "min ?need limit = ?need" by (simp add: min_def)
    moreover have "max 0 win \<le> span_minus (max (effective_timeout sid s) ?need) (elapsed_of now sid s)"
      by (rule span_le_minus) simp
    ultimately show "win \<le> fst (renew_phase_budget now sid win limit s)"
      using assms by (simp add: renew_phase_budget_def Let_def le_max_iff_disj)
  qed
qed

lemma renewals_bounded_witness:
  "effective_timeout ''s'' (renewals ''s'' (Fin 500) [(10, Fin 100), (90, Fin 400), (400, Inf)]
     (new_scheduler 1 (Fin 60))) \<le> max (Fin 60) (Fin 500)"
  using renewals_bounded [of "''s''" "Fin 500" "[(10, Fin 100), (90, Fin 400), (400, Inf)]" "new_scheduler 1 (Fin 60)"]
  by (simp add: effective_timeout_def new_scheduler_def zero_span_def)

end
