(* ===== verification/Edit_Distance.thy ===== *)
theory Edit_Distance
  imports Prelude
begin

text \<open>
  \<open>_levenshtein\<close> and \<open>_similarity\<close> of \<open>core/tools/builtin/file_edit.py\<close>: the one-row dynamic
  program, shown equal to the least number of single-character edits.  The similarity, a float in
  the program, is an exact rational.
\<close>

section \<open>The program\<close>

definition LEV_MAX_LEN :: nat where "LEV_MAX_LEN = 4096"

text \<open>The inner loop: \<open>left\<close> is \<open>curr[j]\<close>, the list argument \<open>prev\<close> from position \<open>j\<close>.\<close>

fun lev_cells :: "'a \<Rightarrow> nat \<Rightarrow> nat list \<Rightarrow> 'a list \<Rightarrow> nat list" where
  "lev_cells ca left (p # p' # ps) (cb # bs) =
     (let c = min (min (left + 1) (p' + 1)) (p + (if ca = cb then 0 else 1))
      in c # lev_cells ca c (p' # ps) bs)"
| "lev_cells ca left _ _ = []"

text \<open>The outer loop over the longer string, from row \<open>i\<close>.\<close>

fun lev_rows :: "nat \<Rightarrow> nat list \<Rightarrow> 'a list \<Rightarrow> 'a list \<Rightarrow> nat list" where
  "lev_rows i prev [] b = prev"
| "lev_rows i prev (ca # a) b = lev_rows (Suc i) ((i + 1) # lev_cells ca (i + 1) prev b) a b"

definition levenshtein :: "'a list \<Rightarrow> 'a list \<Rightarrow> nat" where
  "levenshtein a0 b0 =
     (let (a, b) = (if length a0 < length b0 then (b0, a0) else (a0, b0)) in
      if b = [] then length a
      else if length a > LEV_MAX_LEN \<or> length b > LEV_MAX_LEN then max (length a) (length b)
      else last (lev_rows 0 [0..<length b + 1] a b))"

definition similarity :: "'a list \<Rightarrow> 'a list \<Rightarrow> rat" where
  "similarity a b = (if a = [] \<and> b = [] then 1
     else let m = max (length a) (length b) in
       if m = 0 then 1 else 1 - rat_of_nat (levenshtein a b) / rat_of_nat m)"

section \<open>Edit scripts\<close>

text \<open>\<open>edits n xs ys\<close>: \<open>n\<close> insertions, deletions and substitutions turn \<open>xs\<close> into \<open>ys\<close>.\<close>

inductive edits :: "nat \<Rightarrow> 'a list \<Rightarrow> 'a list \<Rightarrow> bool" where
  empty: "edits 0 [] []"
| keep: "edits n xs ys \<Longrightarrow> edits n (c # xs) (c # ys)"
| delete: "edits n xs ys \<Longrightarrow> edits (Suc n) (x # xs) ys"
| insert: "edits n xs ys \<Longrightarrow> edits (Suc n) xs (y # ys)"
| change: "edits n xs ys \<Longrightarrow> edits (Suc n) (x # xs) (y # ys)"

inductive_cases edits_Nil: "edits n [] ys"
inductive_cases edits_zero: "edits 0 xs ys"

text \<open>The textbook recursion.\<close>

fun lev :: "'a list \<Rightarrow> 'a list \<Rightarrow> nat" where
  "lev [] ys = length ys"
| "lev (x # xs) [] = Suc (length xs)"
| "lev (x # xs) (y # ys) =
     min (min (lev (x # xs) ys + 1) (lev xs (y # ys) + 1)) (lev xs ys + (if x = y then 0 else 1))"

lemma lev_Nil2 [simp]: "lev xs [] = length xs"
  by (cases xs) auto

lemma edits_insert_all: "edits (length ys) [] ys"
  by (induction ys) (auto intro: edits.intros)

lemma edits_delete_all: "edits (length xs) xs []"
  by (induction xs) (auto intro: edits.intros)

lemma edits_lev: "edits (lev xs ys) xs ys"
proof (induction xs ys rule: lev.induct)
  case (3 x xs y ys)
  show ?case
  proof (cases "lev (x # xs) (y # ys) = lev (x # xs) ys + 1 \<or> lev (x # xs) (y # ys) = lev xs (y # ys) + 1")
    case True
    with 3 show ?thesis by (auto intro: edits.insert edits.delete)
  next
    case False
    then have "lev (x # xs) (y # ys) = lev xs ys + (if x = y then 0 else 1)"
      by (auto simp: min_def split: if_splits)
    with 3 show ?thesis by (auto intro: edits.keep edits.change)
  qed
qed (use edits_insert_all edits_delete_all in \<open>auto intro: edits.intros\<close>)

lemma lev_delete: "lev (x # xs) ys \<le> Suc (lev xs ys)"
  by (cases ys) auto

lemma lev_insert: "lev xs (y # ys) \<le> Suc (lev xs ys)"
  by (cases xs) auto

lemma lev_least: "edits n xs ys \<Longrightarrow> lev xs ys \<le> n"
proof (induction rule: edits.induct)
  case (delete n xs ys x)
  then show ?case using lev_delete [of x xs ys] by linarith
next
  case (insert n xs ys y)
  then show ?case using lev_insert [of xs y ys] by linarith
qed auto

lemma edits_append: "edits m xs ys \<Longrightarrow> edits n us vs \<Longrightarrow> edits (m + n) (xs @ us) (ys @ vs)"
  by (induction rule: edits.induct) (auto intro: edits.intros)

lemma edits_rev: "edits n xs ys \<Longrightarrow> edits n (rev xs) (rev ys)"
proof (induction rule: edits.induct)
  case (keep n xs ys c)
  then show ?case using edits_append [of n "rev xs" "rev ys" 0 "[c]" "[c]"] by (auto intro: edits.intros)
next
  case (delete n xs ys x)
  then show ?case using edits_append [of n "rev xs" "rev ys" 1 "[x]" "[]"] by (auto intro: edits.intros)
next
  case (insert n xs ys y)
  then show ?case using edits_append [of n "rev xs" "rev ys" 1 "[]" "[y]"] by (auto intro: edits.intros)
next
  case (change n xs ys x y)
  then show ?case using edits_append [of n "rev xs" "rev ys" 1 "[x]" "[y]"] by (auto intro: edits.intros)
qed (auto intro: edits.intros)

lemma edits_sym: "edits n xs ys \<Longrightarrow> edits n ys xs"
  by (induction rule: edits.induct) (auto intro: edits.intros)

lemma lev_rev: "lev (rev xs) (rev ys) = lev xs ys"
  using lev_least [OF edits_rev [OF edits_lev [of xs ys]]]
    lev_least [OF edits_rev [OF edits_lev [of "rev xs" "rev ys"]]] by simp

lemma lev_sym: "lev xs ys = lev ys xs"
  using lev_least [OF edits_sym [OF edits_lev [of xs ys]]]
    lev_least [OF edits_sym [OF edits_lev [of ys xs]]] by simp

lemma lev_bound: "lev xs ys \<le> max (length xs) (length ys)"
  by (induction xs ys rule: lev.induct) (auto simp: min_le_iff_disj)

lemma lev_zero: "lev xs ys = 0 \<longleftrightarrow> xs = ys"
proof
  assume "lev xs ys = 0"
  then have "edits 0 xs ys" using edits_lev [of xs ys] by simp
  then show "xs = ys"
    by (induction "0 :: nat" xs ys rule: edits.induct) auto
next
  have "edits 0 ys ys" by (induction ys) (auto intro: edits.intros)
  then show "xs = ys \<Longrightarrow> lev xs ys = 0" using lev_least by fastforce
qed

section \<open>The rows\<close>

text \<open>The row of the reversed prefix \<open>p\<close>: the distances to the reversed prefixes of the other
  string, from \<open>q\<close> on.\<close>

fun lev_row :: "'a list \<Rightarrow> 'a list \<Rightarrow> 'a list \<Rightarrow> nat list" where
  "lev_row p q [] = [lev p q]"
| "lev_row p q (b # bs) = lev p q # lev_row p (b # q) bs"

lemma lev_row_Cons: "\<exists>r. lev_row p q bs = lev p q # r"
  by (cases bs) auto

lemma lev_cells_row:
  "lev_cells ca (lev (ca # p) q) (lev_row p q bs) bs = tl (lev_row (ca # p) q bs)"
proof (induction bs arbitrary: q)
  case (Cons b bs)
  obtain r where r: "lev_row p (b # q) bs = lev p (b # q) # r" using lev_row_Cons by blast
  obtain r' where r': "lev_row (ca # p) (b # q) bs = lev (ca # p) (b # q) # r'" using lev_row_Cons by blast
  have "lev_cells ca (lev (ca # p) q) (lev_row p q (b # bs)) (b # bs)
      = lev (ca # p) (b # q) # lev_cells ca (lev (ca # p) (b # q)) (lev_row p (b # q) bs) bs"
    by (simp add: r Let_def)
  with Cons.IH [of "b # q"] r' show ?case by simp
qed simp

lemma lev_row_empty: "lev_row [] q bs = map (\<lambda>k. length q + k) [0..<length bs + 1]"
proof (induction bs arbitrary: q)
  case (Cons b bs)
  have "map (\<lambda>k. length q + k) [0..<Suc (length bs + 1)]
      = length q # map (\<lambda>k. length (b # q) + k) [0..<length bs + 1]"
    by (simp only: map_upt_Suc) simp
  with Cons [of "b # q"] show ?case by (simp del: upt_Suc)
qed simp

lemma lev_rows_row:
  "lev_rows (length p) (lev_row p [] b) a b = lev_row (rev a @ p) [] b"
proof (induction a arbitrary: p)
  case (Cons ca a)
  obtain r where r: "lev_row (ca # p) [] b = Suc (length p) # r" using lev_row_Cons [of "ca # p" "[]" b] by auto
  have "lev_cells ca (Suc (length p)) (lev_row p [] b) b = r"
    using lev_cells_row [of ca p "[]" b] r by simp
  then have "lev_rows (length p) (lev_row p [] b) (ca # a) b
      = lev_rows (length (ca # p)) (lev_row (ca # p) [] b) a b"
    by (simp add: r)
  with Cons [of "ca # p"] show ?case by simp
qed simp

lemma last_lev_row: "last (lev_row p q bs) = lev p (rev bs @ q)"
proof (induction bs arbitrary: q)
  case (Cons b bs)
  have "lev_row p (b # q) bs \<noteq> []" using lev_row_Cons [of p "b # q" bs] by auto
  with Cons [of "b # q"] show ?case by simp
qed simp

lemma lev_rows_correct: "last (lev_rows 0 [0..<length b + 1] a b) = lev a b"
proof -
  have "[0..<length b + 1] = lev_row [] [] b" by (simp add: lev_row_empty del: upt_Suc)
  then have "lev_rows 0 [0..<length b + 1] a b = lev_row (rev a) [] b"
    using lev_rows_row [of "[]" b a] by simp
  then show ?thesis by (simp add: last_lev_row lev_rev)
qed

lemmas lev_rows_last = lev_rows_correct [simplified Suc_eq_plus1 [symmetric]]

lemma levenshtein_lev:
  assumes "length a \<le> LEV_MAX_LEN" and "length b \<le> LEV_MAX_LEN"
  shows "levenshtein a b = lev a b"
  using assms
  by (cases "length a < length b")
    (auto simp: levenshtein_def lev_rows_last lev_sym [of b a] simp del: upt_Suc)

lemma levenshtein_bound: "levenshtein a b \<le> max (length a) (length b)"
proof (cases "length a \<le> LEV_MAX_LEN \<and> length b \<le> LEV_MAX_LEN")
  case True
  then show ?thesis by (simp add: levenshtein_lev lev_bound)
next
  case False
  then show ?thesis by (auto simp: levenshtein_def Let_def max_def)
qed

text \<open>C32: For strings within the length cap the one-row dynamic program returns the edit
  distance: that many single-character insertions, deletions and substitutions turn the first
  string into the second, and no shorter script does.\<close>

theorem levenshtein_is_edit_distance:
  assumes "length a \<le> LEV_MAX_LEN" and "length b \<le> LEV_MAX_LEN"
  shows "edits (levenshtein a b) a b \<and> (\<forall>n. edits n a b \<longrightarrow> levenshtein a b \<le> n)"
  using assms by (simp add: levenshtein_lev edits_lev lev_least)

lemma levenshtein_is_edit_distance_witness: "edits (levenshtein ''kitten'' ''sitting'') ''kitten'' ''sitting''"
  using levenshtein_is_edit_distance [of "''kitten''" "''sitting''"] by (simp add: LEV_MAX_LEN_def)

lemma similarity_range: "0 \<le> similarity a b \<and> similarity a b \<le> 1"
proof -
  define m where "m = max (length a) (length b)"
  have "rat_of_nat (levenshtein a b) \<le> rat_of_nat m"
    unfolding m_def using levenshtein_bound by (simp only: of_nat_le_iff)
  then have "m \<noteq> 0 \<Longrightarrow> rat_of_nat (levenshtein a b) / rat_of_nat m \<le> 1"
    by (simp add: divide_le_eq_1)
  then show ?thesis
    by (simp add: similarity_def Let_def m_def [symmetric])
qed

text \<open>The similarity is a fraction between 0 and 1, and within the length cap it is 1 for
  equal strings only, so a fuzzy match that scores 1 is an exact one.\<close>

theorem similarity_one_iff:
  "0 \<le> similarity a b \<and> similarity a b \<le> 1
   \<and> (if length a \<le> LEV_MAX_LEN \<and> length b \<le> LEV_MAX_LEN then (similarity a b = 1) = (a = b) else True)"
proof -
  have "(similarity a b = 1) = (a = b)" if "length a \<le> LEV_MAX_LEN" "length b \<le> LEV_MAX_LEN"
  proof (cases "a = [] \<and> b = []")
    case False
    then have m: "max (length a) (length b) \<noteq> 0" by auto
    then have "(similarity a b = 1) = (levenshtein a b = 0)"
      by (auto simp: similarity_def Let_def simp del: of_nat_max)
    then show ?thesis using that by (simp add: levenshtein_lev lev_zero)
  qed (simp add: similarity_def)
  then show ?thesis using similarity_range by auto
qed

end
