(* ===== verification/Edit_Match.thy ===== *)
theory Edit_Match
  imports Edit_Distance "HOL-Library.Product_Lexorder"
begin

text \<open>
  The four matching strategies of \<open>core/tools/builtin/file_edit.py\<close> and the cascade that tries
  them, the most precise first.  Refusals and notes are the values that the messages
  interpolate: the line numbers and the label of the strategy.
\<close>

section \<open>Line endings\<close>

abbreviation crlf :: string where "crlf \<equiv> [cr, nl]"

definition detect_eol :: "string \<Rightarrow> string" where
  "detect_eol text = (if has_sub crlf text then crlf
     else if cr \<in> set text \<and> nl \<notin> set text then [cr] else [nl])"

definition normalize_eol :: "string \<Rightarrow> string \<Rightarrow> string" where
  "normalize_eol text eol = (if eol = [nl] then text else py_replace eol [nl] text)"

section \<open>Attempts\<close>

datatype refusal =
    Ambiguous_Lines nat string "nat list"   \<comment> \<open>how many, the label, the 1-based lines named\<close>
  | Ambiguous_Blocks nat "nat list"

datatype edit_note = Block_Anchor_Single | Variants_Left "nat list"

record attempt =
  at_content :: "string option"
  at_count :: nat
  at_refusal :: "refusal option"
  at_note :: "edit_note option"

definition NO_MATCH :: attempt where
  "NO_MATCH = \<lparr>at_content = None, at_count = 0, at_refusal = None, at_note = None\<rparr>"

definition matched :: "string \<Rightarrow> nat \<Rightarrow> attempt" where
  "matched c n = \<lparr>at_content = Some c, at_count = n, at_refusal = None, at_note = None\<rparr>"

definition refuse :: "refusal \<Rightarrow> attempt" where
  "refuse r = \<lparr>at_content = None, at_count = 0, at_refusal = Some r, at_note = None\<rparr>"

record edit_result =
  er_content :: "string option"
  er_strategy :: "string option"
  er_count :: nat
  er_error :: "refusal option"
  er_notes :: "edit_note list"

section \<open>Splicing\<close>

type_synonym hit = "nat \<times> nat \<times> string list"

text \<open>\<open>_splice\<close>: one walk with a cursor; \<open>content_lines[cursor:start]\<close> is the kept part.\<close>

fun splice_from :: "nat \<Rightarrow> string list \<Rightarrow> hit list \<Rightarrow> string list" where
  "splice_from cursor content_lines [] = drop cursor content_lines"
| "splice_from cursor content_lines ((start, width, new_lines) # hits) =
     take (start - cursor) (drop cursor content_lines) @ new_lines
       @ splice_from (start + width) content_lines hits"

definition splice :: "string list \<Rightarrow> hit list \<Rightarrow> string" where
  "splice content_lines hits = join_with [nl] (splice_from 0 content_lines hits)"

definition resolve :: "string list \<Rightarrow> hit list \<Rightarrow> bool \<Rightarrow> string \<Rightarrow> attempt" where
  "resolve content_lines hits replace_all label =
     (if hits = [] then NO_MATCH
      else if \<not> replace_all \<and> length hits > 1 then
        refuse (Ambiguous_Lines (length hits) label (map (\<lambda>h. fst h + 1) (take 6 hits)))
      else matched (splice content_lines hits) (length hits))"

section \<open>The strategies\<close>

definition exact_replace :: "string \<Rightarrow> string \<Rightarrow> string \<Rightarrow> bool \<Rightarrow> attempt" where
  "exact_replace content old new replace_all =
     (case find_sub old content of None \<Rightarrow> NO_MATCH
      | Some idx \<Rightarrow>
          if replace_all then matched (py_replace old new content) (py_count old content)
          else matched (take idx content @ new @ drop (idx + length old) content) 1)"

definition blank_char :: "char \<Rightarrow> bool" where
  "blank_char c \<longleftrightarrow> c = CHR '' '' \<or> c = CHR 0x09"

fun squeeze :: "bool \<Rightarrow> string \<Rightarrow> string" where
  "squeeze inside [] = []"
| "squeeze inside (c # s) =
     (if blank_char c then (if inside then squeeze True s else CHR '' '' # squeeze True s)
      else c # squeeze False s)"

definition normalize_ws :: "string \<Rightarrow> string" where
  "normalize_ws s = squeeze False s"

text \<open>
  The scan that the two line strategies share: at a line where the next \<open>width\<close> lines match, record
  the place and skip the block, else go one line on.
\<close>

function scan_blocks :: "(string list \<Rightarrow> 'v option) \<Rightarrow> nat \<Rightarrow> nat \<Rightarrow> string list \<Rightarrow> (nat \<times> 'v) list" where
  "scan_blocks test width i ls =
     (if width = 0 \<or> length ls < width then []
      else case test (take width ls) of
          Some v \<Rightarrow> (i, v) # scan_blocks test width (i + width) (drop width ls)
        | None \<Rightarrow> scan_blocks test width (i + 1) (drop 1 ls))"
  by pat_completeness auto
termination
  by (relation "measure (\<lambda>(_, _, _, ls). length ls)") auto

declare scan_blocks.simps [simp del]

definition ws_test :: "string list \<Rightarrow> string list \<Rightarrow> unit option" where
  "ws_test old_lines chunk = (if map normalize_ws chunk = map normalize_ws old_lines then Some () else None)"

definition whitespace_normalized_starts :: "string list \<Rightarrow> string list \<Rightarrow> nat list" where
  "whitespace_normalized_starts content_lines old_lines =
     map fst (scan_blocks (ws_test old_lines) (length old_lines) 0 content_lines)"

definition whitespace_normalized_replace :: "string \<Rightarrow> string \<Rightarrow> string \<Rightarrow> bool \<Rightarrow> attempt" where
  "whitespace_normalized_replace content old new replace_all =
     (if \<not> has_sub (normalize_ws old) (normalize_ws content) then NO_MATCH
      else
        let content_lines = split_on nl content; old_lines = split_on nl old; new_lines = split_on nl new;
            hits = map (\<lambda>start. (start, length old_lines, new_lines))
                     (whitespace_normalized_starts content_lines old_lines)
        in resolve content_lines hits replace_all ''whitespace-normalized'')"

definition indent_of :: "string \<Rightarrow> nat" where
  "indent_of line = length line - length (py_lstrip line)"

definition solid :: "string \<Rightarrow> bool" where
  "solid line \<longleftrightarrow> py_strip line \<noteq> []"

definition dedent_by :: "nat \<Rightarrow> string list \<Rightarrow> string list" where
  "dedent_by n ls = map (\<lambda>line. if solid line then drop n line else []) ls"

definition chunk_indent_of :: "string list \<Rightarrow> nat" where
  "chunk_indent_of chunk = (case filter solid chunk of [] \<Rightarrow> 0 | line # _ \<Rightarrow> indent_of line)"

text \<open>\<open>line[k:] if len(line) >= k else line\<close>, as the loop over the chunk has it.\<close>

definition strip_chunk :: "string list \<Rightarrow> string list" where
  "strip_chunk chunk = (let k = chunk_indent_of chunk in
     map (\<lambda>line. if solid line then (if length line \<ge> k then drop k line else line) else []) chunk)"

definition indent_test :: "string list \<Rightarrow> string list \<Rightarrow> nat option" where
  "indent_test stripped_old chunk =
     (if strip_chunk chunk = stripped_old then Some (chunk_indent_of chunk) else None)"

definition indentation_flexible_starts :: "string list \<Rightarrow> string list \<Rightarrow> (nat \<times> nat) list" where
  "indentation_flexible_starts content_lines old_lines =
     (let indents = map indent_of (filter solid old_lines) in
      if indents = [] then []
      else scan_blocks (indent_test (dedent_by (Min (set indents)) old_lines)) (length old_lines) 0 content_lines)"

definition reindent :: "string list \<Rightarrow> nat \<Rightarrow> string list" where
  "reindent new_lines chunk_indent =
     (let indents = map indent_of (filter solid new_lines);
          m = (if indents = [] then 0 else Min (set indents))
      in map (\<lambda>line. if solid line then replicate chunk_indent (CHR '' '') @ drop m line else []) new_lines)"

definition indentation_flexible_replace :: "string \<Rightarrow> string \<Rightarrow> string \<Rightarrow> bool \<Rightarrow> attempt" where
  "indentation_flexible_replace content old new replace_all =
     (let old_lines = split_on nl old; content_lines = split_on nl content; new_lines = split_on nl new;
          hits = map (\<lambda>(start, indent). (start, length old_lines, reindent new_lines indent))
                   (indentation_flexible_starts content_lines old_lines)
      in resolve content_lines hits replace_all ''indentation-flexible'')"

definition BLOCK_ANCHOR_MIN_SIMILARITY :: rat where
  "BLOCK_ANCHOR_MIN_SIMILARITY = 6 / 10"

text \<open>The score of a middle section against the old one.\<close>

definition middle_score :: "string list \<Rightarrow> string list \<Rightarrow> rat" where
  "middle_score middle_old middle_content =
     (if middle_old = [] then (if middle_content = [] then 1 else 1 / 2)
      else
        let scores = map (\<lambda>(k, mol). if k < length middle_content then similarity mol (middle_content ! k) else 0)
              (zip [0..<length middle_old] middle_old);
            m = max (max (length middle_old) (length middle_content)) 1;
            penalty = 1 - rat_of_int \<bar>int (length middle_old) - int (length middle_content)\<bar> / rat_of_nat m
        in sum_list scores / rat_of_nat (max (length scores) 1) * penalty)"

definition slice :: "nat \<Rightarrow> nat \<Rightarrow> 'a list \<Rightarrow> 'a list" where
  "slice i j xs = drop i (take j xs)"

definition anchor_candidates :: "string list \<Rightarrow> string list \<Rightarrow> (nat \<times> nat \<times> rat) list" where
  "anchor_candidates content_lines old_lines =
     (let first_anchor = py_strip (hd old_lines); last_anchor = py_strip (last old_lines);
          middle_old = map py_strip (slice 1 (length old_lines - 1) old_lines)
      in concat (map (\<lambda>i.
           if py_strip (content_lines ! i) \<noteq> first_anchor then []
           else map (\<lambda>j. (i, j, middle_score middle_old (map py_strip (slice (i + 1) j content_lines))))
             (filter (\<lambda>j. py_strip (content_lines ! j) = last_anchor)
               [i + 2..<min (i + length old_lines * 2) (length content_lines)]))
         [0..<length content_lines]))"

definition block_anchor_replace :: "string \<Rightarrow> string \<Rightarrow> string \<Rightarrow> bool \<Rightarrow> attempt" where
  "block_anchor_replace content old new replace_all =
     (let old_lines = split_on nl old in
      if length old_lines < 3 then NO_MATCH
      else if py_strip (hd old_lines) = [] \<or> py_strip (last old_lines) = [] then NO_MATCH
      else
        let content_lines = split_on nl content;
            viable = filter (\<lambda>(_, _, sc). sc \<ge> BLOCK_ANCHOR_MIN_SIMILARITY)
                       (anchor_candidates content_lines old_lines)
        in case sort_key (\<lambda>(i, j, sc). (- sc, i)) viable of
             [] \<Rightarrow> NO_MATCH
           | (best_start, best_end, best) # rest \<Rightarrow>
               let tied = filter (\<lambda>(i, j, sc). i \<noteq> best_start \<and> \<bar>sc - best\<bar> < 1 / 10 ^ 9) rest in
               if tied \<noteq> [] then
                 refuse (Ambiguous_Blocks (1 + length tied)
                   (map (\<lambda>c. fst c + 1) ((best_start, best_end, best) # take 5 tied)))
               else
                 (matched (join_with [nl] (take best_start content_lines @ split_on nl new
                     @ drop (best_end + 1) content_lines)) 1)
                   \<lparr>at_note := if replace_all then Some Block_Anchor_Single else None\<rparr>)"

section \<open>The cascade\<close>

type_synonym replacer_fun = "string \<Rightarrow> string \<Rightarrow> string \<Rightarrow> bool \<Rightarrow> attempt"

definition REPLACERS :: "(string \<times> replacer_fun) list" where
  "REPLACERS = [
     (''exact'', exact_replace),
     (''whitespace-normalized'', whitespace_normalized_replace),
     (''indentation-flexible'', indentation_flexible_replace),
     (''block-anchor-fuzzy'', block_anchor_replace)]"

definition variants_left :: "string \<Rightarrow> string \<Rightarrow> nat list" where
  "variants_left content old =
     (let content_lines = split_on nl content; old_lines = split_on nl old in
      sorted_list_of_set ((\<lambda>s. s + 1) ` (set (whitespace_normalized_starts content_lines old_lines)
        \<union> fst ` set (indentation_flexible_starts content_lines old_lines))))"

definition result_of :: "string \<Rightarrow> attempt \<Rightarrow> string \<Rightarrow> string \<Rightarrow> bool \<Rightarrow> edit_result" where
  "result_of name a c old replace_all =
     (let leftover = (if name = ''exact'' \<and> replace_all then variants_left c old else []) in
      \<lparr>er_content = Some c, er_strategy = Some name, er_count = at_count a, er_error = None,
       er_notes = (case at_note a of None \<Rightarrow> [] | Some n \<Rightarrow> [n])
         @ (if leftover = [] then [] else [Variants_Left leftover])\<rparr>)"

fun cascade :: "(string \<times> replacer_fun) list \<Rightarrow> string \<Rightarrow> string \<Rightarrow> string \<Rightarrow> bool \<Rightarrow> edit_result" where
  "cascade [] content old new replace_all =
     \<lparr>er_content = None, er_strategy = None, er_count = 0, er_error = None, er_notes = []\<rparr>"
| "cascade ((name, rep) # reps) content old new replace_all =
     (let a = rep content old new replace_all in
      case at_refusal a of
        Some r \<Rightarrow> \<lparr>er_content = None, er_strategy = Some name, er_count = 0, er_error = Some r, er_notes = []\<rparr>
      | None \<Rightarrow> (case at_content a of
            None \<Rightarrow> cascade reps content old new replace_all
          | Some c \<Rightarrow> result_of name a c old replace_all))"

definition apply_edit :: "string \<Rightarrow> string \<Rightarrow> string \<Rightarrow> bool \<Rightarrow> edit_result" where
  "apply_edit content old new replace_all = cascade REPLACERS content old new replace_all"

end
