(* ===== verification/Edit_Proofs.thy ===== *)
theory Edit_Proofs
  imports Edit_Match
begin

text \<open>
  What an edit may change: the regions that its strategy matched, and nothing else.  The two
  strategies that scan for blocks share the contract \<open>block_strategy\<close>.
\<close>

section \<open>Patches\<close>

text \<open>\<open>patched R n s t\<close>: \<open>t\<close> is \<open>s\<close> with \<open>n\<close> disjoint regions replaced, each as \<open>R\<close> allows.\<close>

inductive patched :: "('a list \<Rightarrow> 'a list \<Rightarrow> bool) \<Rightarrow> nat \<Rightarrow> 'a list \<Rightarrow> 'a list \<Rightarrow> bool" for R where
  same: "patched R 0 s s"
| region: "R x y \<Longrightarrow> patched R n s t \<Longrightarrow> patched R (Suc n) (k @ x @ s) (k @ y @ t)"

inductive_cases patched_zero: "patched R 0 s t"

lemma patched_same_iff [simp]: "patched R 0 s t \<longleftrightarrow> s = t"
  by (auto elim: patched_zero intro: same)

lemma patched_prefix: "patched R n s t \<Longrightarrow> patched R n (k @ s) (k @ t)"
proof (induction rule: patched.induct)
  case (region x y n s t j)
  then show ?case using patched.region [of R x y n s t "k @ j"] by simp
qed (rule same)

lemma patched_Cons: "patched R n s t \<Longrightarrow> patched R n (c # s) (c # t)"
  using patched_prefix [of R n s t "[c]"] by simp

lemma patched_one: "R x y \<Longrightarrow> patched R 1 (k @ x @ s) (k @ y @ s)"
  using region [OF _ same, of R x y k s] by simp

lemma patched_mono: "patched R n s t \<Longrightarrow> (\<And>x y. R x y \<Longrightarrow> Q x y) \<Longrightarrow> patched Q n s t"
  by (induction rule: patched.induct) (auto intro: patched.intros)

section \<open>Hits\<close>

fun hits_ok :: "nat \<Rightarrow> 'a list \<Rightarrow> hit list \<Rightarrow> bool" where
  "hits_ok cursor xs [] = True"
| "hits_ok cursor xs ((start, width, ls) # hits) =
     (cursor \<le> start \<and> start + width \<le> length xs \<and> hits_ok (start + width) xs hits)"

lemma splice_patched:
  assumes "hits_ok cursor xs hits"
    and "\<And>s w ls. (s, w, ls) \<in> set hits \<Longrightarrow> R (take w (drop s xs)) ls"
  shows "patched R (length hits) (drop cursor xs) (splice_from cursor xs hits)"
  using assms
proof (induction hits arbitrary: cursor)
  case (Cons h hits)
  obtain s w ls where h: "h = (s, w, ls)" by (cases h)
  with Cons.prems have le: "cursor \<le> s" "s + w \<le> length xs" and ok: "hits_ok (s + w) xs hits" by auto
  have IH: "patched R (length hits) (drop (s + w) xs) (splice_from (s + w) xs hits)"
    using Cons ok by simp
  have "R (take w (drop s xs)) ls" using Cons.prems(2) h by simp
  then have "patched R (Suc (length hits))
      (take (s - cursor) (drop cursor xs) @ take w (drop s xs) @ drop (s + w) xs)
      (take (s - cursor) (drop cursor xs) @ ls @ splice_from (s + w) xs hits)"
    using IH by (rule region)
  moreover have "drop s xs = take w (drop s xs) @ drop (s + w) xs"
    by (metis add.commute append_take_drop_id drop_drop)
  moreover have "drop cursor xs = take (s - cursor) (drop cursor xs) @ drop s xs"
    using le by (metis append_take_drop_id drop_drop le_add_diff_inverse2)
  ultimately show ?case by (simp add: h)
qed simp

lemma scan_blocks_hits:
  assumes "width > 0" and "ls = drop i xs"
  shows "hits_ok i xs (map (\<lambda>(s, v). (s, width, f v)) (scan_blocks test width i ls))
    \<and> (\<forall>(s, v) \<in> set (scan_blocks test width i ls). test (take width (drop s xs)) = Some v)"
  using assms
proof (induction test width i ls rule: scan_blocks.induct)
  case (1 test width i ls)
  show ?case
  proof (cases "length ls < width")
    case True
    then show ?thesis by (simp add: scan_blocks.simps [of test width i ls])
  next
    case len: False
    show ?thesis
    proof (cases "test (take width ls)")
      case None
      have weaken: "hits_ok (i + 1) xs h \<Longrightarrow> hits_ok i xs h" for h :: "hit list" by (cases h) auto
      have "scan_blocks test width i ls = scan_blocks test width (i + 1) (drop 1 ls)"
        using len None "1.prems"(1) by (subst scan_blocks.simps) simp
      moreover have "drop 1 ls = drop (i + 1) xs" using "1.prems"(2) by simp
      ultimately show ?thesis using "1.IH"(1) [OF _ None] "1.prems"(1) len weaken by auto
    next
      case (Some v)
      have "scan_blocks test width i ls = (i, v) # scan_blocks test width (i + width) (drop width ls)"
        using len Some "1.prems"(1) by (subst scan_blocks.simps) simp
      moreover have "drop width ls = drop (i + width) xs" "i + width \<le> length xs"
        using "1.prems" len by (simp_all add: add.commute)
      ultimately show ?thesis using "1.IH"(2) [OF _ Some] "1.prems" len Some by auto
    qed
  qed
qed

section \<open>The contract of a block strategy\<close>

text \<open>
  A strategy finds hits; it promises that they are in order, inside the content and disjoint, and
  that each replaced block and its replacement are related by \<open>region\<close>.
\<close>

locale block_strategy =
  fixes find_hits :: "string list \<Rightarrow> string list \<Rightarrow> string list \<Rightarrow> hit list"
    and region :: "string list \<Rightarrow> string list \<Rightarrow> string list \<Rightarrow> string list \<Rightarrow> bool"
  assumes hits_in_order: "old \<noteq> [] \<Longrightarrow> hits_ok 0 content (find_hits content old new)"
    and hits_match: "old \<noteq> [] \<Longrightarrow> (s, w, ls) \<in> set (find_hits content old new) \<Longrightarrow>
      region old new (take w (drop s content)) ls"
begin

lemma resolve_patched:
  assumes "old \<noteq> []" and "at_content (resolve content (find_hits content old new) replace_all label) = Some c"
  shows "\<exists>ls. c = join_with [nl] ls
    \<and> patched (region old new) (at_count (resolve content (find_hits content old new) replace_all label)) content ls
    \<and> (if replace_all then 1 \<le> at_count (resolve content (find_hits content old new) replace_all label)
       else at_count (resolve content (find_hits content old new) replace_all label) = 1)"
proof -
  let ?h = "find_hits content old new"
  have p: "patched (region old new) (length ?h) content (splice_from 0 content ?h)"
    using splice_patched [of 0 content ?h "region old new"]
      hits_in_order [OF assms(1), of content new] hits_match [OF assms(1)] by simp
  have h: "?h \<noteq> []" and c: "c = splice content ?h" and one: "replace_all \<or> length ?h \<le> 1"
    using assms(2) by (auto simp: resolve_def NO_MATCH_def refuse_def matched_def split: if_splits)
  then have "at_count (resolve content ?h replace_all label) = length ?h"
    by (auto simp: resolve_def matched_def)
  then show ?thesis using p h c one by (cases ?h) (auto simp: splice_def)
qed

end

definition ws_hits :: "string list \<Rightarrow> string list \<Rightarrow> string list \<Rightarrow> hit list" where
  "ws_hits content old new =
     map (\<lambda>start. (start, length old, new)) (whitespace_normalized_starts content old)"

definition ws_region :: "string list \<Rightarrow> string list \<Rightarrow> string list \<Rightarrow> string list \<Rightarrow> bool" where
  "ws_region old new x y \<longleftrightarrow> map normalize_ws x = map normalize_ws old \<and> y = new"

interpretation ws: block_strategy ws_hits ws_region
proof
  fix old content new :: "string list" and s w ls
  assume "old \<noteq> []"
  then have *: "hits_ok 0 content (map (\<lambda>(s, v). (s, length old, new))
        (scan_blocks (ws_test old) (length old) 0 content))
      \<and> (\<forall>(s, v) \<in> set (scan_blocks (ws_test old) (length old) 0 content).
           ws_test old (take (length old) (drop s content)) = Some v)"
    by (intro scan_blocks_hits) auto
  have eq: "ws_hits content old new = map (\<lambda>(s, v). (s, length old, new))
      (scan_blocks (ws_test old) (length old) 0 content)"
    by (simp add: ws_hits_def whitespace_normalized_starts_def comp_def split_beta)
  show "hits_ok 0 content (ws_hits content old new)" using * eq by simp
  show "(s, w, ls) \<in> set (ws_hits content old new) \<Longrightarrow> ws_region old new (take w (drop s content)) ls"
    using * by (auto simp: eq ws_region_def ws_test_def split: if_splits)
qed

definition indent_hits :: "string list \<Rightarrow> string list \<Rightarrow> string list \<Rightarrow> hit list" where
  "indent_hits content old new = map (\<lambda>(start, indent). (start, length old, reindent new indent))
     (indentation_flexible_starts content old)"

definition indent_region :: "string list \<Rightarrow> string list \<Rightarrow> string list \<Rightarrow> string list \<Rightarrow> bool" where
  "indent_region old new x y \<longleftrightarrow>
     strip_chunk x = dedent_by (Min (set (map indent_of (filter solid old)))) old
     \<and> y = reindent new (chunk_indent_of x)"

interpretation ind: block_strategy indent_hits indent_region
proof
  fix old content new :: "string list" and s w ls
  assume old: "old \<noteq> []"
  let ?t = "indent_test (dedent_by (Min (set (map indent_of (filter solid old)))) old)"
  from old have *: "hits_ok 0 content (map (\<lambda>(s, v). (s, length old, reindent new v)) (scan_blocks ?t (length old) 0 content))
      \<and> (\<forall>(s, v) \<in> set (scan_blocks ?t (length old) 0 content). ?t (take (length old) (drop s content)) = Some v)"
    by (intro scan_blocks_hits) auto
  have eq: "indent_hits content old new = (if filter solid old = [] then []
      else map (\<lambda>(s, v). (s, length old, reindent new v)) (scan_blocks ?t (length old) 0 content))"
    by (simp add: indent_hits_def indentation_flexible_starts_def Let_def)
  show "hits_ok 0 content (indent_hits content old new)" using * eq by simp
  show "(s, w, ls) \<in> set (indent_hits content old new) \<Longrightarrow> indent_region old new (take w (drop s content)) ls"
    using * by (auto simp: eq indent_region_def indent_test_def split: if_splits)
qed

section \<open>The exact strategy\<close>

definition exact_region :: "string \<Rightarrow> string \<Rightarrow> string \<Rightarrow> string \<Rightarrow> bool" where
  "exact_region old new x y \<longleftrightarrow> x = old \<and> y = new"

lemma replace_patched: "p \<noteq> [] \<Longrightarrow> patched (exact_region p r) (count_ne p s) s (replace_ne p r s)"
proof (induction s rule: length_induct)
  case (1 s)
  show ?case
  proof (cases rule: replace_cases [OF 1(2), of s])
    case (2 t)
    with 1 have "patched (exact_region p r) (count_ne p t) t (replace_ne p r t)" by simp
    then have "patched (exact_region p r) (Suc (count_ne p t)) ([] @ p @ t) ([] @ r @ replace_ne p r t)"
      by (intro patched.region) (simp add: exact_region_def)
    with 2 1(2) show ?thesis by (simp add: replace_ne_starts count_ne_starts)
  next
    case (3 c cs)
    with 1 have "patched (exact_region p r) (count_ne p cs) cs (replace_ne p r cs)" by simp
    then have "patched (exact_region p r) (count_ne p cs) (c # cs) (c # replace_ne p r cs)"
      by (rule patched_Cons)
    with 3 show ?thesis by (simp add: replace_steps)
  qed simp
qed

lemma replace_empty_patched:
  "patched (exact_region [] r) (Suc (length s)) s (r @ concat (map (\<lambda>c. c # r) s))"
proof (induction s)
  case Nil
  have "exact_region [] r [] r" by (simp add: exact_region_def)
  then show ?case using patched_one [of "exact_region [] r" "[]" r "[]" "[]"] by simp
next
  case (Cons c s)
  have "patched (exact_region [] r) (Suc (Suc (length s))) ([] @ [] @ (c # s))
      ([] @ r @ (c # r @ concat (map (\<lambda>c. c # r) s)))"
    by (intro patched.region patched_Cons Cons) (simp add: exact_region_def)
  then show ?case by simp
qed

lemma exact_patched:
  assumes "at_content (exact_replace content old new replace_all) = Some c"
  shows "patched (exact_region old new) (at_count (exact_replace content old new replace_all)) content c
    \<and> (if replace_all then 1 \<le> at_count (exact_replace content old new replace_all)
       else at_count (exact_replace content old new replace_all) = 1)"
proof -
  obtain idx where idx: "find_sub old content = Some idx"
    using assms by (cases "find_sub old content") (simp_all add: exact_replace_def NO_MATCH_def)
  then have has: "has_sub old content" by (simp add: has_sub_def)
  show ?thesis
  proof (cases replace_all)
    case True
    have "patched (exact_region old new) (py_count old content) content (py_replace old new content)"
      using replace_patched [of old new content] replace_empty_patched [of new content]
      by (simp add: py_count_def py_replace_def)
    moreover have "1 \<le> py_count old content"
      using count_ne_pos [OF _ has] by (cases "old = []") (auto simp: py_count_def Suc_le_eq)
    ultimately show ?thesis using assms idx True by (simp add: exact_replace_def matched_def)
  next
    case False
    obtain t where t: "content = take idx content @ old @ t" using find_sub_Some [OF idx] by blast
    have "length (take idx content) = idx" using find_sub_Some_le [OF idx] by simp
    then have "drop (idx + length old) content = t"
      by (metis t append_assoc append_eq_conv_conj length_append)
    then have "c = take idx content @ new @ t" using assms idx False by (simp add: exact_replace_def matched_def)
    moreover have "patched (exact_region old new) 1 (take idx content @ old @ t) (take idx content @ new @ t)"
      by (rule patched_one) (simp add: exact_region_def)
    ultimately show ?thesis using assms idx False t by (simp add: exact_replace_def matched_def)
  qed
qed

section \<open>The anchored strategy\<close>

definition anchor_region :: "string list \<Rightarrow> string list \<Rightarrow> string list \<Rightarrow> string list \<Rightarrow> bool" where
  "anchor_region old new x y \<longleftrightarrow> y = new \<and> 3 \<le> length x \<and> 3 \<le> length old
     \<and> py_strip (hd x) = py_strip (hd old) \<and> py_strip (last x) = py_strip (last old)
     \<and> BLOCK_ANCHOR_MIN_SIMILARITY \<le> middle_score (map py_strip (slice 1 (length old - 1) old))
          (map py_strip (slice 1 (length x - 1) x))"

lemma candidate_facts:
  assumes "(i, j, sc) \<in> set (anchor_candidates ls old)"
  shows "i + 2 \<le> j" "j < length ls" "py_strip (ls ! i) = py_strip (hd old)"
    "py_strip (ls ! j) = py_strip (last old)"
    "sc = middle_score (map py_strip (slice 1 (length old - 1) old)) (map py_strip (slice (i + 1) j ls))"
  using assms by (auto simp: anchor_candidates_def Let_def split: if_splits)

lemma block_between:
  assumes "i + 2 \<le> j" and "j < length ls"
  shows "ls = take i ls @ take (j + 1 - i) (drop i ls) @ drop (j + 1) ls"
    "length (take (j + 1 - i) (drop i ls)) = j + 1 - i"
    "hd (take (j + 1 - i) (drop i ls)) = ls ! i" "last (take (j + 1 - i) (drop i ls)) = ls ! j"
    "slice 1 (j + 1 - i - 1) (take (j + 1 - i) (drop i ls)) = slice (i + 1) j ls"
proof -
  have "drop (j + 1) ls = drop (j + 1 - i) (drop i ls)" using assms by simp
  then show "ls = take i ls @ take (j + 1 - i) (drop i ls) @ drop (j + 1) ls" by (metis append_take_drop_id)
  show len: "length (take (j + 1 - i) (drop i ls)) = j + 1 - i" using assms by simp
  show "hd (take (j + 1 - i) (drop i ls)) = ls ! i"
    using assms by (simp add: hd_drop_conv_nth)
  show "last (take (j + 1 - i) (drop i ls)) = ls ! j"
    using assms len by (subst last_conv_nth) auto
  show "slice 1 (j + 1 - i - 1) (take (j + 1 - i) (drop i ls)) = slice (i + 1) j ls"
    using assms by (simp add: slice_def drop_take min_def)
qed

lemma anchor_patched:
  assumes "at_content (block_anchor_replace content old new replace_all) = Some c"
  shows "(\<exists>ls. c = join_with [nl] ls
      \<and> patched (anchor_region (split_on nl old) (split_on nl new)) 1 (split_on nl content) ls)
    \<and> at_count (block_anchor_replace content old new replace_all) = 1"
proof -
  let ?old = "split_on nl old" and ?ls = "split_on nl content" and ?new = "split_on nl new"
  let ?viable = "filter (\<lambda>(_, _, sc). sc \<ge> BLOCK_ANCHOR_MIN_SIMILARITY) (anchor_candidates ?ls ?old)"
  obtain i j sc rest where s: "sort_key (\<lambda>(i, j, sc). (- sc, i)) ?viable = (i, j, sc) # rest"
    and long: "3 \<le> length ?old"
    and c: "c = join_with [nl] (take i ?ls @ ?new @ drop (j + 1) ?ls)"
    and n: "at_count (block_anchor_replace content old new replace_all) = 1"
    using assms by (auto simp: block_anchor_replace_def Let_def NO_MATCH_def refuse_def matched_def
        split: if_splits list.splits)
  have "(i, j, sc) \<in> set (sort_key (\<lambda>(i, j, sc). (- sc, i)) ?viable)" using s by simp
  then have mem: "(i, j, sc) \<in> set (anchor_candidates ?ls ?old)" and sc: "sc \<ge> BLOCK_ANCHOR_MIN_SIMILARITY"
    by auto
  note cand = candidate_facts [OF mem]
  note between = block_between [OF cand(1,2)]
  let ?x = "take (j + 1 - i) (drop i ?ls)"
  have "anchor_region ?old ?new ?x ?new"
    unfolding anchor_region_def between(2-5) using cand sc long by simp
  then have "patched (anchor_region ?old ?new) 1 (take i ?ls @ ?x @ drop (j + 1) ?ls)
      (take i ?ls @ ?new @ drop (j + 1) ?ls)"
    by (rule patched_one)
  then show ?thesis using between(1) c n by metis
qed


section \<open>The cascade\<close>

text \<open>The region that the strategy of a given name may replace.\<close>

definition strategy_region :: "string \<Rightarrow> string list \<Rightarrow> string list \<Rightarrow> string list \<Rightarrow> string list \<Rightarrow> bool" where
  "strategy_region name = (if name = ''whitespace-normalized'' then ws_region
     else if name = ''indentation-flexible'' then indent_region else anchor_region)"

lemma ws_content:
  assumes "at_content (whitespace_normalized_replace content old new replace_all) = Some c"
  shows "\<exists>ls. c = join_with [nl] ls
    \<and> patched (ws_region (split_on nl old) (split_on nl new))
        (at_count (whitespace_normalized_replace content old new replace_all)) (split_on nl content) ls
    \<and> (if replace_all then 1 \<le> at_count (whitespace_normalized_replace content old new replace_all)
       else at_count (whitespace_normalized_replace content old new replace_all) = 1)"
proof -
  have "whitespace_normalized_replace content old new replace_all = resolve (split_on nl content)
      (ws_hits (split_on nl content) (split_on nl old) (split_on nl new)) replace_all ''whitespace-normalized''"
    using assms by (auto simp: whitespace_normalized_replace_def ws_hits_def Let_def NO_MATCH_def split: if_splits)
  note eq = this
  show ?thesis unfolding eq by (rule ws.resolve_patched) (use assms in \<open>simp_all add: eq\<close>)
qed

lemma indent_content:
  assumes "at_content (indentation_flexible_replace content old new replace_all) = Some c"
  shows "\<exists>ls. c = join_with [nl] ls
    \<and> patched (indent_region (split_on nl old) (split_on nl new))
        (at_count (indentation_flexible_replace content old new replace_all)) (split_on nl content) ls
    \<and> (if replace_all then 1 \<le> at_count (indentation_flexible_replace content old new replace_all)
       else at_count (indentation_flexible_replace content old new replace_all) = 1)"
proof -
  have "indentation_flexible_replace content old new replace_all = resolve (split_on nl content)
      (indent_hits (split_on nl content) (split_on nl old) (split_on nl new)) replace_all ''indentation-flexible''"
    by (simp add: indentation_flexible_replace_def indent_hits_def Let_def)
  note eq = this
  show ?thesis unfolding eq by (rule ind.resolve_patched) (use assms in \<open>simp_all add: eq\<close>)
qed

lemma cascade_result:
  assumes "er_content (cascade reps content old new replace_all) = Some c"
  shows "\<exists>name rep. (name, rep) \<in> set reps
    \<and> er_strategy (cascade reps content old new replace_all) = Some name
    \<and> at_content (rep content old new replace_all) = Some c
    \<and> er_count (cascade reps content old new replace_all) = at_count (rep content old new replace_all)
    \<and> er_error (cascade reps content old new replace_all) = None"
  using assms
proof (induction reps)
  case (Cons p reps)
  obtain name rep where p: "p = (name, rep)" by (cases p)
  show ?case
  proof (cases "at_refusal (rep content old new replace_all)")
    case None
    show ?thesis
    proof (cases "at_content (rep content old new replace_all)")
      case None
      with Cons p \<open>at_refusal _ = None\<close> show ?thesis by (simp add: Let_def) blast
    next
      case (Some d)
      with Cons.prems p None show ?thesis by (auto simp: Let_def result_of_def)
    qed
  next
    case (Some r)
    with Cons.prems p show ?thesis by (simp add: Let_def)
  qed
qed simp

lemma replacer_cases:
  "(name, rep) \<in> set REPLACERS \<Longrightarrow>
     name = ''exact'' \<and> rep = exact_replace
   \<or> name = ''whitespace-normalized'' \<and> rep = whitespace_normalized_replace
   \<or> name = ''indentation-flexible'' \<and> rep = indentation_flexible_replace
   \<or> name = ''block-anchor-fuzzy'' \<and> rep = block_anchor_replace"
  by (simp only: REPLACERS_def list.set insert_iff empty_iff prod.inject simp_thms)

text \<open>An edit changes only what its strategy matched: an exact edit replaces occurrences of the
  old string, character for character; a fuzzy one replaces whole blocks of lines that equal the
  old lines up to white space, up to a common indentation, or between equal anchors with a middle
  similar enough; everything else in the file is kept.  The count reported is the number of
  regions replaced, at least one, and exactly one unless all were asked for.\<close>

theorem edit_changes_only_matches:
  assumes "er_content (apply_edit content old new replace_all) = Some c"
  shows "\<exists>name n. er_strategy (apply_edit content old new replace_all) = Some name
    \<and> er_count (apply_edit content old new replace_all) = n
    \<and> (if replace_all then 1 \<le> n else n = 1)
    \<and> (if name = ''exact'' then patched (exact_region old new) n content c
       else \<exists>ls. c = join_with [nl] ls
         \<and> patched (strategy_region name (split_on nl old) (split_on nl new)) n (split_on nl content) ls)"
proof -
  obtain name rep where mem: "(name, rep) \<in> set REPLACERS"
    and name: "er_strategy (apply_edit content old new replace_all) = Some name"
    and c: "at_content (rep content old new replace_all) = Some c"
    and n: "er_count (apply_edit content old new replace_all) = at_count (rep content old new replace_all)"
    using cascade_result [OF assms [unfolded apply_edit_def]] by (auto simp: apply_edit_def)
  from replacer_cases [OF mem] consider
      (exact) "name = ''exact''" "rep = exact_replace"
    | (ws) "name = ''whitespace-normalized''" "rep = whitespace_normalized_replace"
    | (ind) "name = ''indentation-flexible''" "rep = indentation_flexible_replace"
    | (anchor) "name = ''block-anchor-fuzzy''" "rep = block_anchor_replace"
    by (elim disjE conjE)
  then show ?thesis
  proof cases
    case exact
    have "patched (exact_region old new) (at_count (rep content old new replace_all)) content c
      \<and> (if replace_all then 1 \<le> at_count (rep content old new replace_all)
         else at_count (rep content old new replace_all) = 1)"
      using c unfolding exact(2) by (rule exact_patched)
    then show ?thesis unfolding name n exact(1) by (cases replace_all) auto
  next
    case ws
    have r: "strategy_region name = ws_region" "name \<noteq> ''exact''" by (simp_all add: ws(1) strategy_region_def)
    show ?thesis using ws_content [OF c [unfolded ws(2)]] r unfolding name n ws(2) by (cases replace_all) auto
  next
    case ind
    have r: "strategy_region name = indent_region" "name \<noteq> ''exact''" by (simp_all add: ind(1) strategy_region_def)
    show ?thesis using indent_content [OF c [unfolded ind(2)]] r unfolding name n ind(2) by (cases replace_all) auto
  next
    case anchor
    have r: "strategy_region name = anchor_region" "name \<noteq> ''exact''" by (simp_all add: anchor(1) strategy_region_def)
    show ?thesis using anchor_patched [OF c [unfolded anchor(2)]] r unfolding name n anchor(2) by (cases replace_all) auto
  qed
qed

lemma edit_changes_only_matches_witness:
  "er_count (apply_edit ''xay'' ''a'' ''bc'' False) = 1"
proof -
  have e: "er_content (apply_edit ''xay'' ''a'' ''bc'' False) = Some ''xbcy''"
    by (simp add: apply_edit_def REPLACERS_def exact_replace_def matched_def starts_with_def Let_def result_of_def)
  show ?thesis using edit_changes_only_matches [OF e] by auto
qed

end
