(* ===== verification/Edit_File.thy ===== *)
theory Edit_File
  imports Edit_Proofs "HOL-Library.Word"
begin

unbundle bit_operations_syntax

text \<open>
  \<open>file_edit\<close>, \<open>multiedit\<close> and the atomic write below them (\<open>core/tools/builtin/file_edit.py\<close>,
  \<open>core/tools/atomic.py\<close>): the read, the transformation and the replacement of one file, with
  every refusal.

  The file system maps a resolved path to a node; a file is its text and its twelve mode bits.
  The record \<open>edit_env\<close> says what the operating system answers (the resolved path, whether
  reads, the second read, the stat and the write succeed), and \<open>outside\<close> is what other processes
  do between the first read and the check before the write.  The replies carry what the messages
  interpolate, less the text of the diff.
\<close>

section \<open>Files\<close>

type_synonym mode = "12 word"

datatype node = Regular string mode | Directory | Other_Node

type_synonym fs = "string \<rightharpoonup> node"

record edit_env =
  resolved_path :: "string option"
  read_ok :: bool
  reread_ok :: bool
  stat_ok :: bool
  write_ok :: bool
  outside :: "fs \<Rightarrow> fs"
  max_write_size :: nat
  max_edit_read_size :: nat

definition NEW_FILE_MODE :: mode where "NEW_FILE_MODE = 0x180"
definition S_ISUID :: mode where "S_ISUID = 0x800"

record write_outcome =
  wo_mode :: mode
  wo_created :: bool
  wo_dropped_setuid :: bool

text \<open>\<open>_mode_for\<close>: the mode to write, whether setuid is dropped, whether the file is new.\<close>

definition mode_for :: "bool \<Rightarrow> node option \<Rightarrow> mode \<times> bool \<times> bool" where
  "mode_for stat_works n = (if \<not> stat_works then (NEW_FILE_MODE, False, False) else
     case n of None \<Rightarrow> (NEW_FILE_MODE, False, True)
     | Some (Regular _ existing) \<Rightarrow> (existing AND NOT S_ISUID, existing AND S_ISUID \<noteq> 0, False)
     | Some _ \<Rightarrow> (NEW_FILE_MODE, False, False))"

text \<open>\<open>atomic_write\<close>: the whole new content at the mode, or an exception and the file as it was.
  \<open>os.replace\<close> onto a directory fails.\<close>

definition atomic_write :: "edit_env \<Rightarrow> string \<Rightarrow> string \<Rightarrow> fs \<Rightarrow> (write_outcome \<times> fs) option" where
  "atomic_write env p content f =
     (let (m, dropped, created) = mode_for (stat_ok env) (f p) in
      if \<not> write_ok env \<or> f p = Some Directory then None
      else Some (\<lparr>wo_mode = m, wo_created = created, wo_dropped_setuid = dropped\<rparr>, f(p \<mapsto> Regular content m)))"

text \<open>The bytes of a text: one below 128, two above, as UTF-8 has it on this range.\<close>

definition utf8_width :: "char \<Rightarrow> nat" where
  "utf8_width c = (if (of_char c :: nat) < 128 then 1 else 2)"

definition byte_size :: "string \<Rightarrow> nat" where
  "byte_size s = sum_list (map utf8_width s)"

fun null_within :: "nat \<Rightarrow> string \<Rightarrow> bool" where
  "null_within k [] = False"
| "null_within k (c # s) = (k > 0 \<and> (c = CHR 0x00 \<or> null_within (k - utf8_width c) s))"

definition is_binary :: "bool \<Rightarrow> string \<Rightarrow> bool" where
  "is_binary readable text \<longleftrightarrow> readable \<and> null_within 512 text"

definition text_of :: "node option \<Rightarrow> string option" where
  "text_of n = (case n of Some (Regular t _) \<Rightarrow> Some t | _ \<Rightarrow> None)"

section \<open>One edit\<close>

datatype edit_reply =
    No_Op
  | New_String_Too_Big nat nat
  | Bad_Path
  | Busy
  | Created nat
  | Create_Failed
  | Not_Found
  | Not_A_File
  | Binary_File
  | Too_Large nat nat
  | Read_Failed
  | Ambiguous string refusal
  | No_Occurrence "(nat \<times> string) list"
  | Result_Too_Big nat nat
  | Reread_Failed
  | Changed_On_Disk
  | Write_Failed
  | Edited string nat "edit_note list" bool

definition denormalize_eol :: "string \<Rightarrow> string \<Rightarrow> string" where
  "denormalize_eol text eol = (if eol = [nl] then text else py_replace [nl] eol text)"

text \<open>The lines suggested when nothing matched: number and text, five at most.\<close>

definition near_lines :: "string \<Rightarrow> string \<Rightarrow> (nat \<times> string) list" where
  "near_lines content old =
     (let old_first = (if old = [] then [] else py_strip (hd (split_on nl old)));
          lines = split_on nl content
      in take 5 (map (\<lambda>(i, line). (i + 1, take 80 (py_rstrip line)))
           (filter (\<lambda>(_, line). old_first \<noteq> [] \<and> similarity (py_strip line) old_first > 6 / 10)
             (zip [0..<length lines] lines))))"

datatype staleness = Fresh | Stale edit_reply

definition stale_read_error :: "edit_env \<Rightarrow> string \<Rightarrow> string \<Rightarrow> fs \<Rightarrow> staleness" where
  "stale_read_error env p original f = (if \<not> reread_ok env then Stale Reread_Failed
     else case text_of (f p) of None \<Rightarrow> Stale Reread_Failed
       | Some current \<Rightarrow> if current = original then Fresh else Stale Changed_On_Disk)"

text \<open>The text to write for an edit of the text read, or the reply that ends the call.\<close>

definition edited_text :: "nat \<Rightarrow> string \<Rightarrow> string \<Rightarrow> string \<Rightarrow> bool \<Rightarrow> edit_reply + string \<times> edit_result" where
  "edited_text cap original old new replace_all =
     (let eol = detect_eol original;
          content = normalize_eol original eol;
          old' = normalize_eol old eol;
          edit = apply_edit content old' (normalize_eol new eol) replace_all
      in case er_error edit of
           Some r \<Rightarrow> Inl (Ambiguous (the (er_strategy edit)) r)
         | None \<Rightarrow> (case er_content edit of
             None \<Rightarrow> Inl (No_Occurrence (near_lines content old'))
           | Some c \<Rightarrow> let result = denormalize_eol c eol in
               if length result > cap then Inl (Result_Too_Big (length result) cap) else Inr (result, edit)))"

definition file_edit_locked ::
    "edit_env \<Rightarrow> string \<Rightarrow> string \<Rightarrow> string \<Rightarrow> bool \<Rightarrow> fs \<Rightarrow> edit_reply \<times> fs" where
  "file_edit_locked env p old new replace_all f =
     (case f p of
        None \<Rightarrow>
          if old = [] then
            (case atomic_write env p new f of None \<Rightarrow> (Create_Failed, f)
             | Some (_, f') \<Rightarrow> (Created (length new), f'))
          else (Not_Found, f)
      | Some (Regular original _) \<Rightarrow>
          if is_binary (read_ok env) original then (Binary_File, f)
          else if byte_size original > max_edit_read_size env then
            (Too_Large (byte_size original) (max_edit_read_size env), f)
          else if \<not> read_ok env then (Read_Failed, f)
          else (case edited_text (max_write_size env) original old new replace_all of
              Inl reply \<Rightarrow> (reply, f)
            | Inr (result, edit) \<Rightarrow>
                let f1 = outside env f in
                (case stale_read_error env p original f1 of
                   Stale reply \<Rightarrow> (reply, f1)
                 | Fresh \<Rightarrow> (case atomic_write env p result f1 of
                     None \<Rightarrow> (Write_Failed, f1)
                   | Some (w, f2) \<Rightarrow>
                       (Edited (the (er_strategy edit)) (er_count edit) (er_notes edit) (wo_dropped_setuid w), f2))))
      | Some _ \<Rightarrow> (Not_A_File, f))"

text \<open>\<open>lock_free\<close> says whether the target's lock is obtained in time.\<close>

definition file_edit ::
    "edit_env \<Rightarrow> bool \<Rightarrow> string \<Rightarrow> string \<Rightarrow> bool \<Rightarrow> fs \<Rightarrow> edit_reply \<times> fs" where
  "file_edit env lock_free old new replace_all f =
     (if old = new then (No_Op, f)
      else if length new > max_write_size env then (New_String_Too_Big (length new) (max_write_size env), f)
      else case resolved_path env of None \<Rightarrow> (Bad_Path, f)
        | Some p \<Rightarrow> if \<not> lock_free then (Busy, f) else file_edit_locked env p old new replace_all f)"

section \<open>Several edits\<close>

record edit_spec =
  sp_old :: string
  sp_new :: string
  sp_all :: bool

record multi_state =
  ms_content :: string
  ms_applied :: nat
  ms_replacements :: nat
  ms_strategies :: "string list"
  ms_notes :: "(nat \<times> edit_note) list"

datatype multi_reply =
    M_No_Edits
  | M_Bad_Path
  | M_Busy
  | M_Not_Found
  | M_Binary
  | M_Too_Large nat nat
  | M_Read_Failed
  | M_Refused nat string refusal nat
  | M_No_Occurrence nat nat
  | M_No_Changes
  | M_Result_Too_Big nat nat
  | M_Stale edit_reply
  | M_Write_Failed
  | M_Applied nat nat nat "string list" "(nat \<times> edit_note) list" bool

text \<open>The loop over the edits, from the one of index \<open>i\<close>.\<close>

fun run_edits :: "string \<Rightarrow> nat \<Rightarrow> edit_spec list \<Rightarrow> multi_state \<Rightarrow> multi_reply + multi_state" where
  "run_edits eol i [] st = Inr st"
| "run_edits eol i (sp # specs) st =
     (if sp_old sp = sp_new sp then run_edits eol (i + 1) specs st
      else
        let edit = apply_edit (ms_content st) (normalize_eol (sp_old sp) eol) (normalize_eol (sp_new sp) eol) (sp_all sp)
        in case er_error edit of
             Some r \<Rightarrow> Inl (M_Refused (i + 1) (the (er_strategy edit)) r (ms_applied st))
           | None \<Rightarrow> (case er_content edit of
               None \<Rightarrow> Inl (M_No_Occurrence (i + 1) (ms_applied st))
             | Some c \<Rightarrow> run_edits eol (i + 1) specs
                 \<lparr>ms_content = c, ms_applied = ms_applied st + 1,
                  ms_replacements = ms_replacements st + er_count edit,
                  ms_strategies = ms_strategies st @ (case er_strategy edit of Some n \<Rightarrow> [n] | None \<Rightarrow> []),
                  ms_notes = ms_notes st @ map (\<lambda>n. (i + 1, n)) (er_notes edit)\<rparr>))"

definition multi_start :: "string \<Rightarrow> multi_state" where
  "multi_start content = \<lparr>ms_content = content, ms_applied = 0, ms_replacements = 0, ms_strategies = [],
     ms_notes = []\<rparr>"

definition multiedit_locked :: "edit_env \<Rightarrow> string \<Rightarrow> edit_spec list \<Rightarrow> fs \<Rightarrow> multi_reply \<times> fs" where
  "multiedit_locked env p specs f =
     (case f p of
        Some (Regular raw _) \<Rightarrow>
          if is_binary (read_ok env) raw then (M_Binary, f)
          else if byte_size raw > max_edit_read_size env then
            (M_Too_Large (byte_size raw) (max_edit_read_size env), f)
          else if \<not> read_ok env then (M_Read_Failed, f)
          else
            let eol = detect_eol raw; original = normalize_eol raw eol in
            (case run_edits eol 0 specs (multi_start original) of
               Inl reply \<Rightarrow> (reply, f)
             | Inr st \<Rightarrow>
                 if ms_content st = original then (M_No_Changes, f)
                 else if length (ms_content st) > max_write_size env then
                   (M_Result_Too_Big (length (ms_content st)) (max_write_size env), f)
                 else
                   let final = denormalize_eol (ms_content st) eol; f1 = outside env f in
                   (case stale_read_error env p raw f1 of
                      Stale reply \<Rightarrow> (M_Stale reply, f1)
                    | Fresh \<Rightarrow> (case atomic_write env p final f1 of
                        None \<Rightarrow> (M_Write_Failed, f1)
                      | Some (w, f2) \<Rightarrow> (M_Applied (ms_applied st) (length specs) (ms_replacements st)
                            (ms_strategies st) (ms_notes st) (wo_dropped_setuid w), f2))))
      | _ \<Rightarrow> (M_Not_Found, f))"

definition multiedit :: "edit_env \<Rightarrow> bool \<Rightarrow> edit_spec list \<Rightarrow> fs \<Rightarrow> multi_reply \<times> fs" where
  "multiedit env lock_free specs f =
     (if specs = [] then (M_No_Edits, f)
      else case resolved_path env of None \<Rightarrow> (M_Bad_Path, f)
        | Some p \<Rightarrow> if \<not> lock_free then (M_Busy, f) else multiedit_locked env p specs f)"

section \<open>Line endings come back\<close>

lemma single_replace: "replace_ne [a] r (c # s) = (if c = a then r @ replace_ne [a] r s else c # replace_ne [a] r s)"
  by (simp add: replace_ne_Cons starts_with_def)

lemma crlf_back: "replace_ne [nl] crlf (replace_ne crlf [nl] s) = s \<longleftrightarrow> nl \<notin> set (replace_ne crlf [] s)"
proof (induction s rule: length_induct)
  case (1 s)
  have ne: "crlf \<noteq> []" by simp
  show ?case
  proof (cases rule: replace_cases [OF ne, of s])
    case (2 t)
    with 1 have "replace_ne [nl] crlf (replace_ne crlf [nl] t) = t \<longleftrightarrow> nl \<notin> set (replace_ne crlf [] t)"
      by simp
    then show ?thesis
      using replace_ne_starts [OF ne, of "[nl]" t] replace_ne_starts [OF ne, of "[]" t]
      by (simp add: 2 single_replace)
  next
    case (3 c cs)
    with 1 have "replace_ne [nl] crlf (replace_ne crlf [nl] cs) = cs \<longleftrightarrow> nl \<notin> set (replace_ne crlf [] cs)"
      by simp
    then show ?thesis using 3 by (auto simp: replace_ne_Cons [of crlf] single_replace)
  qed simp
qed

lemma single_back: "b \<notin> set s \<Longrightarrow> replace_ne [b] [a] (replace_ne [a] [b] s) = s"
  by (induction s) (auto simp: single_replace)

text \<open>The line endings of a file survive an edit exactly when they are uniform: collapsing the
  dominant ending and writing it back is the identity for a file that has no line feed outside
  its CR LF pairs, and for any other CR LF file it is not, so an edit of such a file rewrites
  line endings that it did not match.\<close>

theorem line_endings_restored:
  "(denormalize_eol (normalize_eol s (detect_eol s)) (detect_eol s) = s)
     = (if detect_eol s = crlf then nl \<notin> set (py_replace crlf [] s) else True)"
proof -
  consider (crlf) "has_sub crlf s"
    | (cr) "\<not> has_sub crlf s" "cr \<in> set s" "nl \<notin> set s"
    | (nl) "\<not> has_sub crlf s" "\<not> (cr \<in> set s \<and> nl \<notin> set s)" by blast
  then show ?thesis
  proof cases
    case crlf
    then show ?thesis using crlf_back [of s]
      by (simp add: detect_eol_def denormalize_eol_def normalize_eol_def py_replace_def)
  next
    case cr
    then show ?thesis using single_back [of nl s cr]
      by (simp add: detect_eol_def denormalize_eol_def normalize_eol_def py_replace_def)
  next
    case nl
    then show ?thesis by (auto simp: detect_eol_def denormalize_eol_def normalize_eol_def)
  qed
qed

section \<open>What a call may do to the file\<close>

definition wrote :: "edit_reply \<Rightarrow> bool" where
  "wrote r = (case r of Edited _ _ _ _ \<Rightarrow> True | Created _ \<Rightarrow> True | _ \<Rightarrow> False)"

lemma atomic_write_Some:
  "atomic_write env p content f = Some (w, f') \<Longrightarrow>
     f' = f(p \<mapsto> Regular content (fst (mode_for (stat_ok env) (f p))))
     \<and> wo_dropped_setuid w = fst (snd (mode_for (stat_ok env) (f p)))"
  by (auto simp: atomic_write_def split: prod.splits if_splits)

lemma edited_text_reply: "edited_text cap original old new replace_all = Inl r \<Longrightarrow> \<not> wrote r"
  by (auto simp: edited_text_def Let_def wrote_def split: option.splits if_splits)

lemma stale_reply: "stale_read_error env p original f = Stale r \<Longrightarrow> \<not> wrote r"
  by (auto simp: stale_read_error_def wrote_def split: if_splits option.splits)

lemma stale_Fresh: "stale_read_error env p original f = Fresh \<Longrightarrow> text_of (f p) = Some original"
  by (auto simp: stale_read_error_def split: if_splits option.splits)

text \<open>A locked edit either wrote, or left the file system to others.\<close>

lemma locked_cases:
  assumes "file_edit_locked env p old new replace_all f = (r, f')"
  shows "(\<not> wrote r \<and> (f' = f \<or> f' = outside env f))
    \<or> (f p = None \<and> old = [] \<and> r = Created (length new)
        \<and> f' = f(p \<mapsto> Regular new (fst (mode_for (stat_ok env) (f p)))))
    \<or> (\<exists>original m result edit f1. f p = Some (Regular original m) \<and> f1 = outside env f
        \<and> text_of (f1 p) = Some original
        \<and> edited_text (max_write_size env) original old new replace_all = Inr (result, edit)
        \<and> r = Edited (the (er_strategy edit)) (er_count edit) (er_notes edit) (fst (snd (mode_for (stat_ok env) (f1 p))))
        \<and> f' = f1(p \<mapsto> Regular result (fst (mode_for (stat_ok env) (f1 p)))))"
proof (cases "f p")
  case None
  then show ?thesis using assms
    by (auto simp: file_edit_locked_def wrote_def split: if_splits option.splits dest!: atomic_write_Some)
next
  case (Some n)
  show ?thesis
  proof (cases n)
    case (Regular original m)
    show ?thesis
    proof (cases "edited_text (max_write_size env) original old new replace_all")
      case (Inl reply)
      with assms Some Regular edited_text_reply [OF Inl] show ?thesis
        by (auto simp: file_edit_locked_def wrote_def split: if_splits)
    next
      case (Inr re)
      obtain result edit where re: "re = (result, edit)" by (cases re)
      show ?thesis
      proof (cases "stale_read_error env p original (outside env f)")
        case (Stale reply)
        with assms Some Regular Inr re stale_reply [OF Stale] show ?thesis
          by (auto simp: file_edit_locked_def wrote_def Let_def split: if_splits)
      next
        case Fresh
        have "\<not> wrote r \<and> (f' = f \<or> f' = outside env f)
            \<or> (\<exists>w. atomic_write env p result (outside env f) = Some (w, f')
                \<and> r = Edited (the (er_strategy edit)) (er_count edit) (er_notes edit) (wo_dropped_setuid w))"
          using assms Some Regular Inr re Fresh
          by (auto simp: file_edit_locked_def wrote_def Let_def split: if_splits option.splits)
        then show ?thesis
          using Some Regular Inr re stale_Fresh [OF Fresh] by (auto dest!: atomic_write_Some)
      qed
    qed
  qed (use assms Some in \<open>auto simp: file_edit_locked_def wrote_def\<close>)
qed

text \<open>C19: An edit that reports anything but success has written nothing: the file system is as it
  was, or as others left it.  A successful one replaces the text of the one target by the edit of
  the text that was read, which the file still held at the check, and changes no other file; the
  file keeps its mode bits, except setuid, which is dropped and reported.\<close>

theorem file_edit_writes_only_on_success:
  assumes "file_edit env lock_free old new replace_all f = (r, f')" and "stat_ok env"
  shows "if wrote r then
      \<exists>p. resolved_path env = Some p \<and> (if f p = None then f' = f(p \<mapsto> Regular new NEW_FILE_MODE)
        else \<exists>original m result edit. text_of (f p) = Some original
          \<and> outside env f p = Some (Regular original m)
          \<and> edited_text (max_write_size env) original old new replace_all = Inr (result, edit)
          \<and> r = Edited (the (er_strategy edit)) (er_count edit) (er_notes edit) (m AND S_ISUID \<noteq> 0)
          \<and> f' = (outside env f)(p \<mapsto> Regular result (m AND NOT S_ISUID)))
    else f' = f \<or> f' = outside env f"
proof (cases "\<exists>p. old \<noteq> new \<and> length new \<le> max_write_size env \<and> resolved_path env = Some p \<and> lock_free")
  case False
  with assms show ?thesis by (auto simp: file_edit_def wrote_def not_le split: if_splits option.splits)
next
  case True
  then obtain p where p: "resolved_path env = Some p"
    and l: "file_edit_locked env p old new replace_all f = (r, f')"
    using assms(1) by (auto simp: file_edit_def)
  show ?thesis using locked_cases [OF l]
  proof (elim disjE)
    assume "\<not> wrote r \<and> (f' = f \<or> f' = outside env f)"
    then show ?thesis by simp
  next
    assume "f p = None \<and> old = [] \<and> r = Created (length new)
        \<and> f' = f(p \<mapsto> Regular new (fst (mode_for (stat_ok env) (f p))))"
    then show ?thesis using p assms(2) by (simp add: mode_for_def wrote_def)
  next
    assume "\<exists>original m result edit f1. f p = Some (Regular original m) \<and> f1 = outside env f
        \<and> text_of (f1 p) = Some original
        \<and> edited_text (max_write_size env) original old new replace_all = Inr (result, edit)
        \<and> r = Edited (the (er_strategy edit)) (er_count edit) (er_notes edit) (fst (snd (mode_for (stat_ok env) (f1 p))))
        \<and> f' = f1(p \<mapsto> Regular result (fst (mode_for (stat_ok env) (f1 p))))"
    then obtain original m result edit where
      e: "f p = Some (Regular original m)" "text_of (outside env f p) = Some original"
        "edited_text (max_write_size env) original old new replace_all = Inr (result, edit)"
        "r = Edited (the (er_strategy edit)) (er_count edit) (er_notes edit)
           (fst (snd (mode_for (stat_ok env) (outside env f p))))"
        "f' = (outside env f)(p \<mapsto> Regular result (fst (mode_for (stat_ok env) (outside env f p))))"
      by blast
    then obtain m' where m': "outside env f p = Some (Regular original m')"
      by (auto simp: text_of_def split: option.splits node.splits)
    show ?thesis using p e m' assms(2) by (auto simp: wrote_def text_of_def mode_for_def)
  qed
qed

definition demo_fs :: fs where
  "demo_fs = [''f'' \<mapsto> Regular [CHR ''a'', cr, nl, CHR ''b''] 0x9ED]"

definition demo_edit_env :: edit_env where
  "demo_edit_env = \<lparr>resolved_path = Some ''f'', read_ok = True, reread_ok = True, stat_ok = True,
     write_ok = True, outside = id, max_write_size = 4, max_edit_read_size = 100\<rparr>"

lemma file_edit_writes_only_on_success_witness:
  "\<exists>r f'. file_edit demo_edit_env True ''b'' ''a'' False demo_fs = (r, f') \<and> (wrote r \<or> f' = demo_fs)"
proof -
  obtain r f' where e: "file_edit demo_edit_env True ''b'' ''a'' False demo_fs = (r, f')"
    by (cases "file_edit demo_edit_env True ''b'' ''a'' False demo_fs")
  have "stat_ok demo_edit_env" "outside demo_edit_env = id" by (simp_all add: demo_edit_env_def)
  with file_edit_writes_only_on_success [OF e] e show ?thesis by (auto split: if_splits)
qed

section \<open>A batch is all or nothing\<close>

text \<open>The edits of a batch, one after the other, each on the result of the one before.\<close>

fun apply_all :: "string \<Rightarrow> edit_spec list \<Rightarrow> string \<Rightarrow> string option" where
  "apply_all eol [] c = Some c"
| "apply_all eol (sp # specs) c =
     (if sp_old sp = sp_new sp then apply_all eol specs c
      else case er_content (apply_edit c (normalize_eol (sp_old sp) eol) (normalize_eol (sp_new sp) eol) (sp_all sp)) of
          None \<Rightarrow> None | Some d \<Rightarrow> apply_all eol specs d)"

lemma cascade_error: "er_error (cascade reps c old new al) \<noteq> None \<Longrightarrow> er_content (cascade reps c old new al) = None"
  by (induction reps) (auto simp: Let_def result_of_def split: option.splits)

lemma run_edits_all:
  "(case run_edits eol i specs st of Inr st' \<Rightarrow> apply_all eol specs (ms_content st) = Some (ms_content st')
      \<and> ms_applied st \<le> ms_applied st' \<and> ms_applied st' \<le> ms_applied st + length specs
    | Inl _ \<Rightarrow> apply_all eol specs (ms_content st) = None)"
proof (induction specs arbitrary: i st)
  case (Cons sp specs)
  show ?case
  proof (cases "sp_old sp = sp_new sp")
    case True
    with Cons [of st "i + 1"] show ?thesis by (auto split: sum.splits)
  next
    case False
    let ?e = "apply_edit (ms_content st) (normalize_eol (sp_old sp) eol) (normalize_eol (sp_new sp) eol) (sp_all sp)"
    show ?thesis
    proof (cases "er_error ?e")
      case (Some r)
      with cascade_error have "er_content ?e = None" by (metis apply_edit_def option.distinct(1))
      with False Some show ?thesis by (simp add: Let_def)
    next
      case err: None
      show ?thesis
      proof (cases "er_content ?e")
        case None
        with False err show ?thesis by (simp add: Let_def)
      next
        case (Some c)
        let ?st = "\<lparr>ms_content = c, ms_applied = ms_applied st + 1,
            ms_replacements = ms_replacements st + er_count ?e,
            ms_strategies = ms_strategies st @ (case er_strategy ?e of Some n \<Rightarrow> [n] | None \<Rightarrow> []),
            ms_notes = ms_notes st @ map (\<lambda>n. (i + 1, n)) (er_notes ?e)\<rparr>"
        have "run_edits eol i (sp # specs) st = run_edits eol (i + 1) specs ?st"
          using False err Some by (simp add: Let_def)
        with Cons [of ?st "i + 1"] False Some show ?thesis by (auto split: sum.splits)
      qed
    qed
  qed
qed simp

lemma multi_start_fields [simp]:
  "ms_content (multi_start c) = c" "ms_applied (multi_start c) = 0"
  by (simp_all add: multi_start_def)

lemma run_edits_reply:
  "run_edits eol i specs st = Inl reply \<Longrightarrow> case reply of M_Applied _ _ _ _ _ _ \<Rightarrow> False | _ \<Rightarrow> True"
proof (induction specs arbitrary: i st)
  case (Cons sp specs)
  then show ?case by (auto simp: Let_def split: if_splits option.splits)
qed simp

text \<open>A batch of edits is all or nothing: if any of its edits is refused or finds nothing, the
  call changes no file; a batch that reports success has written exactly the composition of all
  its edits, in order, over the text that was read, to its one target.\<close>

theorem multiedit_all_or_nothing:
  assumes "multiedit_locked env p specs f = (r, f')"
  shows "case r of
      M_Applied applied count reps strategies notes dropped \<Rightarrow>
        \<exists>raw m c. f p = Some (Regular raw m) \<and> text_of (outside env f p) = Some raw
          \<and> apply_all (detect_eol raw) specs (normalize_eol raw (detect_eol raw)) = Some c
          \<and> applied \<le> count \<and> count = length specs
          \<and> f' = (outside env f)(p \<mapsto> Regular (denormalize_eol c (detect_eol raw))
                    (fst (mode_for (stat_ok env) (outside env f p))))
    | _ \<Rightarrow> f' = f \<or> f' = outside env f"
proof (cases "\<exists>raw m. f p = Some (Regular raw m)")
  case False
  then have "r = M_Not_Found \<and> f' = f" using assms
    by (auto simp: multiedit_locked_def split: option.splits node.splits)
  then show ?thesis by simp
next
  case True
  then obtain raw m where fp: "f p = Some (Regular raw m)" by blast
  let ?eol = "detect_eol raw"
  let ?run = "run_edits ?eol 0 specs (multi_start (normalize_eol raw ?eol))"
  show ?thesis
  proof (cases ?run)
    case (Inl reply)
    have "f' = f \<and> (case r of M_Applied _ _ _ _ _ _ \<Rightarrow> False | _ \<Rightarrow> True)"
    proof -
      have "case reply of M_Applied _ _ _ _ _ _ \<Rightarrow> False | _ \<Rightarrow> True"
        using Inl by (rule run_edits_reply)
      then show ?thesis using assms fp Inl
        by (auto simp: multiedit_locked_def Let_def split: if_splits)
    qed
    then show ?thesis by (cases r) auto
  next
    case (Inr st)
    have all: "apply_all ?eol specs (normalize_eol raw ?eol) = Some (ms_content st)"
      and n: "ms_applied st \<le> length specs"
      using run_edits_all [of ?eol specs "multi_start (normalize_eol raw ?eol)" 0]
      by (simp_all add: Inr)
    show ?thesis
    proof (cases "stale_read_error env p raw (outside env f)")
      case (Stale reply)
      then show ?thesis using assms fp Inr
        by (auto simp: multiedit_locked_def Let_def split: if_splits)
    next
      case Fresh
      then show ?thesis using assms fp Inr all n stale_Fresh [OF Fresh]
        by (auto simp: multiedit_locked_def Let_def split: if_splits option.splits dest!: atomic_write_Some)
    qed
  qed
qed

lemma multiedit_all_or_nothing_witness:
  "snd (multiedit_locked demo_edit_env ''g'' [\<lparr>sp_old = ''b'', sp_new = ''a'', sp_all = False\<rparr>] demo_fs) = demo_fs"
proof -
  let ?call = "multiedit_locked demo_edit_env ''g'' [\<lparr>sp_old = ''b'', sp_new = ''a'', sp_all = False\<rparr>] demo_fs"
  have e: "?call = (M_Not_Found, snd ?call)" by (simp add: multiedit_locked_def demo_fs_def)
  have "outside demo_edit_env = id" by (simp add: demo_edit_env_def)
  with multiedit_all_or_nothing [OF e] show ?thesis by simp
qed

text \<open>The two editing tools apply the size limit to different texts: on the same CR LF file, with
  the same replacement and the same limit, \<open>file_edit\<close> refuses the result for its size while
  \<open>multiedit\<close> writes it, over the limit.\<close>

theorem size_limit_disagrees:
  "fst (file_edit demo_edit_env True ''a'' ''aa'' False demo_fs) = Result_Too_Big 5 4
   \<and> text_of (snd (multiedit demo_edit_env True [\<lparr>sp_old = ''a'', sp_new = ''aa'', sp_all = False\<rparr>] demo_fs) ''f'')
      = Some [CHR ''a'', CHR ''a'', cr, nl, CHR ''b'']
   \<and> max_write_size demo_edit_env = 4"
proof -
  have eol: "detect_eol [CHR ''a'', cr, nl, CHR ''b''] = crlf"
    by (simp add: detect_eol_def has_sub_def starts_with_def)
  have norm: "normalize_eol [CHR ''a'', cr, nl, CHR ''b''] crlf = [CHR ''a'', nl, CHR ''b'']"
    "normalize_eol ''a'' crlf = ''a''" "normalize_eol ''aa'' crlf = ''aa''"
    "denormalize_eol [CHR ''a'', CHR ''a'', nl, CHR ''b''] crlf = [CHR ''a'', CHR ''a'', cr, nl, CHR ''b'']"
    by (simp_all add: normalize_eol_def denormalize_eol_def py_replace_def replace_ne_Cons starts_with_def)
  have edit: "apply_edit [CHR ''a'', nl, CHR ''b''] ''a'' ''aa'' False
      = \<lparr>er_content = Some [CHR ''a'', CHR ''a'', nl, CHR ''b''], er_strategy = Some ''exact'', er_count = 1,
         er_error = None, er_notes = []\<rparr>"
    by (simp add: apply_edit_def REPLACERS_def exact_replace_def starts_with_def matched_def Let_def result_of_def)
  note facts = eol norm edit demo_edit_env_def demo_fs_def edited_text_def is_binary_def byte_size_def
    utf8_width_def stale_read_error_def text_of_def atomic_write_def mode_for_def multi_start_def
  show ?thesis
    by (simp add: file_edit_def file_edit_locked_def multiedit_def multiedit_locked_def Let_def facts)
qed

end
