(* ===== verification/LLM_Models.thy ===== *)
theory LLM_Models
  imports Prelude
begin

text \<open>
  The typed failures of the LLM layer (\<open>core/llm/errors.py\<close>), the catalog of models
  (\<open>core/llm/registry.py\<close>) and the budgets derived from it (\<open>core/llm/budget.py\<close>, and the
  router's rules for its backup model).

  The catalog is a dictionary in insertion order, because a bare name resolves to the first of
  the shortest candidates.  The providers' listings are values: a list of models, or
  \<^const>\<open>None\<close> when the listing raises.
\<close>

section \<open>Failures\<close>

datatype failover_reason =
    RATE_LIMIT | OVERLOADED | TIMEOUT | CONTEXT_OVERFLOW | AUTH | MODEL_NOT_FOUND | FORMAT_ERROR | UNKNOWN

fun reason_value :: "failover_reason \<Rightarrow> string" where
  "reason_value RATE_LIMIT = ''rate_limit''"
| "reason_value OVERLOADED = ''overloaded''"
| "reason_value TIMEOUT = ''timeout''"
| "reason_value CONTEXT_OVERFLOW = ''context_overflow''"
| "reason_value AUTH = ''auth''"
| "reason_value MODEL_NOT_FOUND = ''model_not_found''"
| "reason_value FORMAT_ERROR = ''format_error''"
| "reason_value UNKNOWN = ''unknown''"

definition FALLBACK_REASONS :: "failover_reason list" where
  "FALLBACK_REASONS = [RATE_LIMIT, OVERLOADED, TIMEOUT, UNKNOWN]"

definition CONTEXT_OVERFLOW_PHRASES :: "string list" where
  "CONTEXT_OVERFLOW_PHRASES = [''context length'', ''maximum context'', ''context window'',
     ''context size'', ''prompt is too long'', ''input is too long'', ''too many tokens'',
     ''context_length_exceeded'']"

definition CONTEXT_OVERFLOW_CODES :: "string list" where
  "CONTEXT_OVERFLOW_CODES = [''context_length_exceeded'', ''context_window_exceeded'']"

text \<open>\<open>code\<close> is \<open>str(code)\<close>, or \<^const>\<open>None\<close> when the code is absent or empty.\<close>

definition is_context_overflow_code :: "string option \<Rightarrow> bool" where
  "is_context_overflow_code code = (case code of None \<Rightarrow> False
     | Some c \<Rightarrow> c \<noteq> [] \<and> list_ex (\<lambda>m. has_sub m (py_lower c)) CONTEXT_OVERFLOW_CODES)"

definition classify_http_error :: "int \<Rightarrow> string \<Rightarrow> string option \<Rightarrow> failover_reason" where
  "classify_http_error status body code =
     (if is_context_overflow_code code then CONTEXT_OVERFLOW
      else if status \<in> {429, 402} then RATE_LIMIT
      else if status \<in> {401, 403} then AUTH
      else if status = 404 then MODEL_NOT_FOUND
      else if status \<in> {502, 503} then OVERLOADED
      else if status = 408 then TIMEOUT
      else if status = 400 then
        (if list_ex (\<lambda>p. has_sub p (py_lower body)) CONTEXT_OVERFLOW_PHRASES then CONTEXT_OVERFLOW
         else FORMAT_ERROR)
      else UNKNOWN)"

section \<open>The catalog\<close>

record model_info =
  m_id :: string
  m_provider :: string
  context_length :: int
  supports_vision :: bool
  supports_tools :: bool
  max_output_tokens :: "int option"

record registry =
  models :: "(string \<times> model_info) list"
  populated :: bool

record remote =
  rp_name :: string
  rp_available :: bool
  rp_listing :: "model_info list option"

record llm_settings =
  openrouter_models :: "string list"
  openai_models :: "string list"
  openrouter_key :: bool
  context_auto :: bool
  max_tokens :: int
  fallback_model :: string

definition empty_registry :: registry where
  "empty_registry = \<lparr>models = [], populated = False\<rparr>"

definition remote_whitelists :: "llm_settings \<Rightarrow> (string \<times> string list) list" where
  "remote_whitelists cfg = [(''openrouter'', openrouter_models cfg), (''openai'', openai_models cfg)]"

definition whitelist_of :: "llm_settings \<Rightarrow> string \<Rightarrow> string set" where
  "whitelist_of cfg name = (case map_of (remote_whitelists cfg) name of None \<Rightarrow> {} | Some w \<Rightarrow> set w)"

definition whitelisted_anywhere :: "llm_settings \<Rightarrow> string set" where
  "whitelisted_anywhere cfg = (\<Union>(_, w) \<in> set (remote_whitelists cfg). set w)"

definition has_model :: "(string \<times> model_info) list \<Rightarrow> string \<Rightarrow> bool" where
  "has_model ms i \<longleftrightarrow> map_of ms i \<noteq> None"

definition register_remote_model ::
    "string set \<Rightarrow> model_info \<Rightarrow> (string \<times> model_info) list \<Rightarrow> (string \<times> model_info) list" where
  "register_remote_model whitelist m ms =
     (if has_model ms (m_id m) \<and> m_id m \<notin> whitelist then ms else dict_set (m_id m) m ms)"

definition register_remote ::
    "llm_settings \<Rightarrow> remote \<Rightarrow> (string \<times> model_info) list \<Rightarrow> (string \<times> model_info) list" where
  "register_remote cfg p ms = (if \<not> rp_available p then ms else
     case rp_listing p of None \<Rightarrow> ms
     | Some listed \<Rightarrow> fold (register_remote_model (whitelist_of cfg (rp_name p))) listed ms)"

definition register_ollama_model ::
    "string set \<Rightarrow> model_info \<Rightarrow> (string \<times> model_info) list \<Rightarrow> (string \<times> model_info) list" where
  "register_ollama_model anywhere m ms =
     (if has_model ms (m_id m) \<and> m_id m \<in> anywhere then ms else dict_set (m_id m) m ms)"

definition populate :: "llm_settings \<Rightarrow> model_info list option \<Rightarrow> remote list \<Rightarrow> registry \<Rightarrow> registry" where
  "populate cfg ollama remotes reg =
     (let ms = fold (register_remote cfg) remotes [];
          local = (case ollama of None \<Rightarrow> [] | Some l \<Rightarrow> l)
      in \<lparr>models = fold (register_ollama_model (whitelisted_anywhere cfg)) local ms, populated = True\<rparr>)"

definition get_model_info :: "registry \<Rightarrow> string \<Rightarrow> model_info option" where
  "get_model_info reg m = map_of (models reg) m"

definition resolve_provider :: "llm_settings \<Rightarrow> registry \<Rightarrow> string \<Rightarrow> string" where
  "resolve_provider cfg reg m = (case get_model_info reg m of Some info \<Rightarrow> m_provider info
     | None \<Rightarrow> (case find (\<lambda>(_, w). m \<in> set w) (remote_whitelists cfg) of
           Some (name, _) \<Rightarrow> name
         | None \<Rightarrow> if CHR ''/'' \<in> set m \<and> openrouter_key cfg then ''openrouter'' else ''ollama''))"

text \<open>\<open>min(candidates, key=len)\<close>: the first of the shortest.\<close>

fun first_shortest :: "string \<Rightarrow> string list \<Rightarrow> string" where
  "first_shortest best [] = best"
| "first_shortest best (c # cs) = first_shortest (if length c < length best then c else best) cs"

definition resolve_model_id :: "registry \<Rightarrow> string \<Rightarrow> string" where
  "resolve_model_id reg m = (if has_model (models reg) m then m
     else case filter (ends_with (CHR ''/'' # m)) (map fst (models reg)) of
         [] \<Rightarrow> m | c # cs \<Rightarrow> first_shortest c cs)"

section \<open>Derived budgets\<close>

definition info_of :: "registry \<Rightarrow> string \<Rightarrow> model_info option" where
  "info_of reg m = get_model_info reg (resolve_model_id reg m)"

definition derive_model_budget :: "llm_settings \<Rightarrow> registry \<Rightarrow> string \<Rightarrow> int option" where
  "derive_model_budget cfg reg m = (if \<not> context_auto cfg then None else
     case info_of reg m of None \<Rightarrow> None
     | Some info \<Rightarrow> if context_length info \<ge> 2048 then Some (context_length info * 9 div 10) else None)"

definition derive_max_output :: "llm_settings \<Rightarrow> registry \<Rightarrow> string \<Rightarrow> int" where
  "derive_max_output cfg reg m = (if \<not> context_auto cfg then max_tokens cfg else
     case info_of reg m of None \<Rightarrow> max_tokens cfg
     | Some info \<Rightarrow> (case max_output_tokens info of None \<Rightarrow> max_tokens cfg
         | Some cap \<Rightarrow> if cap > 0 then min (max_tokens cfg) cap else max_tokens cfg))"

definition backup_capabilities :: "registry \<Rightarrow> string \<Rightarrow> bool option \<times> bool" where
  "backup_capabilities reg m = (case info_of reg m of None \<Rightarrow> (None, False)
     | Some info \<Rightarrow> (Some (supports_tools info), supports_vision info))"

definition backup_max_output :: "llm_settings \<Rightarrow> registry \<Rightarrow> string \<Rightarrow> int \<Rightarrow> int" where
  "backup_max_output cfg reg m asked =
     (let derived = (if context_auto cfg then
            (case info_of reg m of None \<Rightarrow> 0
             | Some info \<Rightarrow> (case max_output_tokens info of None \<Rightarrow> 0 | Some c \<Rightarrow> c)) else 0);
          limit = (if derived > 0 then min derived (max_tokens cfg) else max_tokens cfg)
      in if asked \<noteq> 0 then min asked limit else limit)"

definition can_fall_back :: "llm_settings \<Rightarrow> registry \<Rightarrow> string \<Rightarrow> string \<Rightarrow> bool \<Rightarrow> bool" where
  "can_fall_back cfg reg provider m wants_tools =
     (fallback_model cfg \<noteq> [] \<and> provider \<noteq> ''ollama''
      \<and> \<not> (m \<noteq> [] \<and> fallback_model cfg = m)
      \<and> \<not> (wants_tools \<and> fst (backup_capabilities reg (fallback_model cfg)) = Some False))"

section \<open>Who serves a model\<close>

lemma map_of_register_remote:
  "map_of (register_remote_model w m ms) i
     = (if i = m_id m \<and> (map_of ms i = None \<or> i \<in> w) then Some m else map_of ms i)"
  by (auto simp: register_remote_model_def has_model_def)

lemma fold_remote_whitelisted:
  "i \<in> w \<Longrightarrow> map_of (fold (register_remote_model w) ms reg) i
     = (case filter (\<lambda>m. m_id m = i) ms of [] \<Rightarrow> map_of reg i | _ \<Rightarrow> Some (last (filter (\<lambda>m. m_id m = i) ms)))"
  by (induction ms arbitrary: reg) (auto simp: map_of_register_remote split: list.splits)

lemma map_of_register_ollama:
  "map_of (register_ollama_model w m ms) i
     = (if i = m_id m \<and> (map_of ms i = None \<or> i \<notin> w) then Some m else map_of ms i)"
  by (auto simp: register_ollama_model_def has_model_def)

lemma fold_ollama_free:
  "i \<notin> w \<Longrightarrow> map_of (fold (register_ollama_model w) ms reg) i
     = (case filter (\<lambda>m. m_id m = i) ms of [] \<Rightarrow> map_of reg i | _ \<Rightarrow> Some (last (filter (\<lambda>m. m_id m = i) ms)))"
  by (induction ms arbitrary: reg) (auto simp: map_of_register_ollama split: list.splits)

lemma fold_ollama_kept:
  "i \<in> w \<Longrightarrow> map_of reg i = Some m \<Longrightarrow> map_of (fold (register_ollama_model w) ms reg) i = Some m"
  by (induction ms arbitrary: reg) (auto simp: map_of_register_ollama)

text \<open>The collision policy of the catalog: a model that the local provider lists and that no
  whitelist names is served locally whatever the remotes list; one that the last remote lists and
  whitelists is served by that remote, whatever the local provider lists.\<close>

theorem collision_policy:
  assumes "\<forall>m \<in> set local. m_provider m = ''ollama''"
    and "rp_available p" and "rp_listing p = Some listed" and "\<forall>m \<in> set listed. m_provider m = rp_name p"
  shows "(if i \<in> m_id ` set local \<and> i \<notin> whitelisted_anywhere cfg
      then resolve_provider cfg (populate cfg (Some local) remotes reg) i = ''ollama'' else True)
    \<and> (if i \<in> m_id ` set listed \<and> i \<in> whitelist_of cfg (rp_name p)
      then resolve_provider cfg (populate cfg (Some local) (remotes @ [p]) reg) i = rp_name p else True)"
proof -
  have last_in: "\<exists>m. (case filter (\<lambda>m. m_id m = i) ms of [] \<Rightarrow> x | _ \<Rightarrow> Some (last (filter (\<lambda>m. m_id m = i) ms))) = Some m
      \<and> m \<in> set ms" if "i \<in> m_id ` set ms" for ms :: "model_info list" and x
  proof -
    from that have ne: "filter (\<lambda>m. m_id m = i) ms \<noteq> []" by (auto simp: filter_empty_conv)
    then have "last (filter (\<lambda>m. m_id m = i) ms) \<in> set ms"
      using last_in_set [OF ne] by simp
    with ne show ?thesis by (cases "filter (\<lambda>m. m_id m = i) ms") auto
  qed
  have "resolve_provider cfg (populate cfg (Some local) remotes reg) i = ''ollama''"
    if l: "i \<in> m_id ` set local" "i \<notin> whitelisted_anywhere cfg"
  proof -
    let ?reg = "fold (register_remote cfg) remotes []"
    obtain m where "map_of (fold (register_ollama_model (whitelisted_anywhere cfg)) local ?reg) i = Some m"
      "m \<in> set local"
      using last_in [OF l(1), of "map_of ?reg i"]
      unfolding fold_ollama_free [OF l(2), of local ?reg, symmetric] by blast
    then show ?thesis using assms(1) by (simp add: resolve_provider_def populate_def get_model_info_def Let_def)
  qed
  moreover have "resolve_provider cfg (populate cfg (Some local) (remotes @ [p]) reg) i = rp_name p"
    if i: "i \<in> m_id ` set listed" "i \<in> whitelist_of cfg (rp_name p)"
  proof -
    have any: "i \<in> whitelisted_anywhere cfg"
      using i(2) by (force simp: whitelist_of_def whitelisted_anywhere_def split: option.splits dest!: map_of_SomeD)
    obtain m where m: "m \<in> set listed"
      "map_of (fold (register_remote cfg) (remotes @ [p]) []) i = Some m"
      using last_in [OF i(1), of "map_of (fold (register_remote cfg) remotes []) i"] assms(2,3)
      unfolding fold_remote_whitelisted [OF i(2), of listed "fold (register_remote cfg) remotes []", symmetric]
      by (auto simp: register_remote_def)
    show ?thesis using fold_ollama_kept [OF any m(2)] m(1) assms(4)
      by (simp add: resolve_provider_def populate_def get_model_info_def Let_def)
  qed
  ultimately show ?thesis by simp
qed

definition demo_cfg :: llm_settings where
  "demo_cfg = \<lparr>openrouter_models = [''x''], openai_models = [], openrouter_key = True, context_auto = True,
     max_tokens = 8192, fallback_model = ''fb''\<rparr>"

definition demo_model :: "string \<Rightarrow> string \<Rightarrow> model_info" where
  "demo_model i p = \<lparr>m_id = i, m_provider = p, context_length = 32768, supports_vision = False,
     supports_tools = True, max_output_tokens = Some 4096\<rparr>"

lemma collision_policy_witness:
  "resolve_provider demo_cfg (populate demo_cfg (Some [demo_model ''x'' ''ollama''])
     [\<lparr>rp_name = ''openrouter'', rp_available = True, rp_listing = Some [demo_model ''x'' ''openrouter'']\<rparr>]
     empty_registry) ''x'' = ''openrouter''"
  using collision_policy [of "[demo_model ''x'' ''ollama'']"
      "\<lparr>rp_name = ''openrouter'', rp_available = True, rp_listing = Some [demo_model ''x'' ''openrouter'']\<rparr>"
      "[demo_model ''x'' ''openrouter'']" "''x''" demo_cfg "[]" empty_registry]
  by (simp add: demo_model_def whitelist_of_def remote_whitelists_def demo_cfg_def)

text \<open>The output request never exceeds the configured ceiling, nor a smaller cap of the model.\<close>

lemma derive_max_output_bound: "derive_max_output cfg reg m \<le> max_tokens cfg"
  by (simp add: derive_max_output_def split: option.splits)

lemma backup_max_output_bound:
  "backup_max_output cfg reg m asked \<le> max_tokens cfg \<and> (asked \<noteq> 0 \<longrightarrow> backup_max_output cfg reg m asked \<le> asked)"
  by (auto simp: backup_max_output_def Let_def min_le_iff_disj)

end
