(* ===== verification/Stream_Ladder.thy ===== *)
theory Stream_Ladder
  imports LLM_Models
begin

text \<open>
  \<open>core/llm/stream_ladder.py\<close>: one streamed LLM turn with its retries, its single switch to the
  fallback model, the quota circuit breaker and the usage rows it books.

  The provider client is the environment: \<open>script k\<close> says what the \<open>k\<close>-th call of
  \<open>chat_stream\<close> does (its events, how it ends, and the clock), whatever it is asked.  The
  normalized and un-normalized message lists are named, not represented, and so is the provider
  that the client says served a model.
\<close>

section \<open>Classifying errors\<close>

definition RETRYABLE_MARKERS :: "string list" where
  "RETRYABLE_MARKERS = [''500'', ''502'', ''503'', ''504'', ''ConnectError'', ''ReadTimeout'',
     ''ConnectTimeout'', ''Connection refused'', ''empty response'']"

definition is_stream_retryable :: "string \<Rightarrow> bool" where
  "is_stream_retryable err \<longleftrightarrow> list_ex (\<lambda>k. has_sub k err) RETRYABLE_MARKERS"

text \<open>A word character of the regular expression syntax, on the code points 0 to 255.\<close>

definition re_word :: "char \<Rightarrow> bool" where
  "re_word c \<longleftrightarrow> (let n = (of_char c :: nat) in
     (48 \<le> n \<and> n \<le> 57) \<or> (65 \<le> n \<and> n \<le> 90) \<or> n = 95 \<or> (97 \<le> n \<and> n \<le> 122)
     \<or> n \<in> {170, 178, 179, 181, 185, 186, 188, 189, 190} \<or> (192 \<le> n \<and> n \<noteq> 215 \<and> n \<noteq> 247))"

definition STATUS_CODES :: "(string \<times> int) list" where
  "STATUS_CODES = [(''400'', 400), (''401'', 401), (''402'', 402), (''403'', 403), (''404'', 404),
     (''408'', 408), (''429'', 429), (''500'', 500), (''502'', 502), (''503'', 503), (''504'', 504)]"

text \<open>The first of these codes that stands between word boundaries; \<open>before\<close> says whether the
  previous character is a word character.\<close>

fun find_status :: "bool \<Rightarrow> string \<Rightarrow> int option" where
  "find_status before [] = None"
| "find_status before (c # s) =
     (case map_of STATUS_CODES (take 3 (c # s)) of
        Some n \<Rightarrow> if \<not> before \<and> \<not> (case drop 3 (c # s) of [] \<Rightarrow> False | d # _ \<Rightarrow> re_word d) then Some n
                 else find_status (re_word c) s
      | None \<Rightarrow> find_status (re_word c) s)"

definition stream_failure_category :: "string \<Rightarrow> string" where
  "stream_failure_category err =
     (let lowered = py_lower err in
      if has_sub ''timeout'' lowered \<or> has_sub ''timed out'' lowered then ''timeout''
      else if has_sub ''connecterror'' lowered \<or> has_sub ''connection refused'' lowered then ''connection_error''
      else if has_sub ''empty response'' lowered then ''empty_response''
      else case find_status False err of
          Some n \<Rightarrow> reason_value (classify_http_error n [] None)
        | None \<Rightarrow> ''provider_stream_error'')"

definition is_budget_exhaustion :: "string \<Rightarrow> bool" where
  "is_budget_exhaustion err \<longleftrightarrow> has_sub ''exceeded the'' err \<and> has_sub ''LLM time limit'' err"

definition is_quota_error :: "string \<Rightarrow> bool" where
  "is_quota_error err \<longleftrightarrow> list_ex (\<lambda>p. has_sub p (py_lower err))
     [''key limit exceeded'', ''quota exceeded'', ''insufficient quota'', ''insufficient_quota'',
      ''billing hard limit'']"

section \<open>Prices\<close>

record price = price_in :: rat  price_out :: rat

definition estimate_cost :: "(string \<rightharpoonup> price) \<Rightarrow> string \<Rightarrow> int \<Rightarrow> int \<Rightarrow> rat option" where
  "estimate_cost prices m prompt_tokens completion_tokens = (case prices m of None \<Rightarrow> None
     | Some p \<Rightarrow> if price_in p \<le> 0 \<and> price_out p \<le> 0 then None
         else Some ((of_int prompt_tokens * price_in p + of_int completion_tokens * price_out p) / 1000000))"

section \<open>Tool-call fragments\<close>

record tool_call =
  tc_id :: string
  tc_name :: string
  tc_arguments :: string

text \<open>The first collected call with a given non-empty id is replaced by what \<open>f\<close> makes of it.\<close>

fun update_first :: "('a \<Rightarrow> bool) \<Rightarrow> ('a \<Rightarrow> 'a) \<Rightarrow> 'a list \<Rightarrow> 'a list" where
  "update_first p f [] = []"
| "update_first p f (x # xs) = (if p x then f x # xs else x # update_first p f xs)"

definition merge_delta :: "tool_call list \<Rightarrow> tool_call \<Rightarrow> tool_call list" where
  "merge_delta collected tc =
     (let same = (\<lambda>c. tc_id c = tc_id tc \<and> tc_id tc \<noteq> []);
          extend = (\<lambda>c. c\<lparr>tc_arguments := tc_arguments c @ tc_arguments tc\<rparr>)
      in case find same collected of
           Some e \<Rightarrow>
             if tc_name tc = [] then update_first same extend collected
             else if tc_name e = [] then update_first same (\<lambda>c. (extend c)\<lparr>tc_name := tc_name tc\<rparr>) collected
             else collected @ [tc]
         | None \<Rightarrow> collected @ [tc])"

definition merge_tool_call_deltas :: "tool_call list \<Rightarrow> tool_call list \<Rightarrow> tool_call list" where
  "merge_tool_call_deltas collected deltas = foldl merge_delta collected deltas"

section \<open>The environment and the outcome\<close>

record token_usage =
  prompt_tokens :: int
  completion_tokens :: int
  total_tokens :: int
  cache_read_tokens :: int
  cache_write_tokens :: int

datatype stream_event =
    Ev_Token string
  | Ev_Tool_Calls "tool_call list"
  | Ev_Usage token_usage
  | Ev_Error string
  | Ev_Done "string option"

text \<open>How a call ends: the generator finishes, or raises a typed or another exception.\<close>

datatype stream_end = Finishes | Raises_Failover failover_reason string | Raises_Other string string

record stream_call =
  sc_capacity :: bool
  sc_events :: "stream_event list"
  sc_end :: stream_end
  sc_started :: rat
  sc_now :: rat

datatype sent_messages = Given | Base | Normalized_For string

record usage_row =
  ur_model :: string
  ur_usage :: token_usage
  ur_cost :: "rat option"
  ur_provider :: string
  ur_requested :: string
  ur_routing :: string
  ur_failure :: "string option"

datatype emitted =
    Waiting_LLM
  | Stream_Token string
  | Stream_Reset string
  | Stream_Retry nat nat string
  | Stream_Fallback string

record call_made =
  cm_model :: string
  cm_max_tokens :: int
  cm_messages :: sent_messages

record stream_outcome =
  content :: string
  tool_calls :: "tool_call list"
  so_error :: "string option"
  finish_reason :: "string option"
  model :: string
  usage :: "token_usage option"
  started_at :: rat
  tried_fallback :: bool
  requested_model :: string
  failure_reason :: "string option"
  context_overflow :: "string option"

text \<open>The arguments that do not change during a run.\<close>

record ladder_cfg =
  lc_settings :: llm_settings
  lc_registry :: registry
  lc_prices :: "string \<rightharpoonup> price"
  lc_serving :: "string \<Rightarrow> string"
  lc_cooldown :: rat
  lc_requested :: string
  lc_max_output_cap :: int
  lc_surface_overflow :: bool

text \<open>What the loop carries from one attempt to the next, and what it leaves behind.\<close>

record ladder =
  ld_attempt :: nat
  ld_retries :: nat
  ld_model :: string
  ld_messages :: sent_messages
  ld_tried :: bool
  ld_failure :: "string option"
  ld_usage :: "token_usage option"
  ld_blocks :: "string \<rightharpoonup> rat"
  ld_emitted :: "emitted list"
  ld_rows :: "usage_row list"
  ld_calls :: "call_made list"

section \<open>One attempt\<close>

record attempt_state =
  as_content :: string
  as_calls :: "tool_call list"
  as_error :: "string option"
  as_finish :: "string option"
  as_failure :: string
  as_overflow :: "string option"

text \<open>The \<open>async for\<close> over the events; an error event ends it.\<close>

fun take_events ::
    "ladder_cfg \<Rightarrow> stream_event list \<Rightarrow> attempt_state \<times> ladder \<Rightarrow> bool \<times> attempt_state \<times> ladder" where
  "take_events cfg [] (a, l) = (True, a, l)"
| "take_events cfg (Ev_Token t # es) (a, l) =
     take_events cfg es (if t = [] then (a, l)
       else (a\<lparr>as_content := as_content a @ t\<rparr>, l\<lparr>ld_emitted := ld_emitted l @ [Stream_Token t]\<rparr>))"
| "take_events cfg (Ev_Tool_Calls ds # es) (a, l) =
     take_events cfg es (a\<lparr>as_calls := merge_tool_call_deltas (as_calls a) ds\<rparr>, l)"
| "take_events cfg (Ev_Usage u # es) (a, l) =
     take_events cfg es (a, l\<lparr>ld_usage := Some u, ld_rows := ld_rows l @
       [\<lparr>ur_model = ld_model l, ur_usage = u,
         ur_cost = estimate_cost (lc_prices cfg) (ld_model l) (prompt_tokens u) (completion_tokens u),
         ur_provider = lc_serving cfg (ld_model l), ur_requested = lc_requested cfg,
         ur_routing = (if ld_tried l then ''automatic_failover'' else ''selected''),
         ur_failure = ld_failure l\<rparr>]\<rparr>)"
| "take_events cfg (Ev_Error e # es) (a, l) =
     (let err = (if e = [] then ''provider stream ended with an error and no detail'' else e) in
      (False, a\<lparr>as_error := Some err, as_failure := stream_failure_category err\<rparr>, l))"
| "take_events cfg (Ev_Done f # es) (a, l) = take_events cfg es (a\<lparr>as_finish := f\<rparr>, l)"

definition end_attempt :: "ladder_cfg \<Rightarrow> stream_end \<Rightarrow> attempt_state \<Rightarrow> attempt_state" where
  "end_attempt cfg e a = (case e of Finishes \<Rightarrow> a
     | Raises_Failover r msg \<Rightarrow>
         if lc_surface_overflow cfg \<and> r = CONTEXT_OVERFLOW
         then a\<lparr>as_failure := reason_value r, as_overflow := Some msg\<rparr>
         else a\<lparr>as_failure := reason_value r, as_error := Some msg\<rparr>
     | Raises_Other ty msg \<Rightarrow>
         a\<lparr>as_error := Some msg, as_failure := stream_failure_category (ty @ '' '' @ msg)\<rparr>)"

definition request_tokens :: "ladder_cfg \<Rightarrow> string \<Rightarrow> int" where
  "request_tokens cfg m = (let t = derive_max_output (lc_settings cfg) (lc_registry cfg) m in
     if lc_max_output_cap cfg > 0 then min t (lc_max_output_cap cfg) else t)"

definition run_attempt :: "ladder_cfg \<Rightarrow> stream_call \<Rightarrow> ladder \<Rightarrow> attempt_state \<times> ladder" where
  "run_attempt cfg c l0 =
     (let l1 = (if sc_capacity c then l0 else l0\<lparr>ld_emitted := ld_emitted l0 @ [Waiting_LLM]\<rparr>);
          l2 = l1\<lparr>ld_attempt := ld_attempt l1 + 1,
                  ld_calls := ld_calls l1 @ [\<lparr>cm_model = ld_model l1,
                     cm_max_tokens = request_tokens cfg (ld_model l1), cm_messages = ld_messages l1\<rparr>]\<rparr>;
          a0 = \<lparr>as_content = [], as_calls = [], as_error = None, as_finish = None,
                as_failure = ''provider_stream_error'', as_overflow = None\<rparr>;
          (ran_out, a, l) = take_events cfg (sc_events c) (a0, l2)
      in (if ran_out then end_attempt cfg (sc_end c) a else a, l))"

definition outcome_of :: "ladder_cfg \<Rightarrow> stream_call \<Rightarrow> attempt_state \<Rightarrow> ladder \<Rightarrow> stream_outcome" where
  "outcome_of cfg c a l =
     \<lparr>content = as_content a, tool_calls = as_calls a, so_error = as_error a,
      finish_reason = as_finish a, model = ld_model l, usage = ld_usage l, started_at = sc_started c,
      tried_fallback = ld_tried l, requested_model = lc_requested cfg, failure_reason = ld_failure l,
      context_overflow = as_overflow a\<rparr>"

section \<open>Quota blocks\<close>

definition note_quota_block :: "rat \<Rightarrow> rat \<Rightarrow> string \<Rightarrow> (string \<rightharpoonup> rat) \<Rightarrow> (string \<rightharpoonup> rat)" where
  "note_quota_block cooldown now m blocks = (if cooldown > 0 then blocks(m \<mapsto> now + cooldown) else blocks)"

definition quota_block_remaining :: "rat \<Rightarrow> string \<Rightarrow> (string \<rightharpoonup> rat) \<Rightarrow> rat \<times> (string \<rightharpoonup> rat)" where
  "quota_block_remaining now m blocks = (case blocks m of None \<Rightarrow> (0, blocks)
     | Some until' \<Rightarrow> if until' - now \<le> 0 then (0, blocks(m := None)) else (until' - now, blocks))"

section \<open>The ladder\<close>

definition STREAM_BACKOFFS :: "nat list" where "STREAM_BACKOFFS = [5, 10, 15]"

text \<open>After an attempt that failed: stop, or go on with a new state.\<close>

definition retry_same :: "string \<Rightarrow> ladder \<Rightarrow> ladder" where
  "retry_same err l = l\<lparr>ld_retries := ld_retries l + 1,
     ld_emitted := ld_emitted l @ [Stream_Reset ''retry'',
       Stream_Retry (ld_retries l + 1) (STREAM_BACKOFFS ! ld_retries l) err]\<rparr>"

definition OPENAI_FORMAT_PROVIDERS :: "string set" where
  "OPENAI_FORMAT_PROVIDERS = {''openrouter'', ''openai''}"

definition switch_model :: "ladder_cfg \<Rightarrow> string \<Rightarrow> ladder \<Rightarrow> ladder" where
  "switch_model cfg attempt_failure l =
     (let fb = fallback_model (lc_settings cfg) in
      l\<lparr>ld_tried := True, ld_failure := Some attempt_failure, ld_retries := 0, ld_model := fb,
        ld_emitted := ld_emitted l @ [Stream_Reset ''fallback'', Stream_Fallback fb],
        ld_messages := (if resolve_provider (lc_settings cfg) (lc_registry cfg) fb \<in> OPENAI_FORMAT_PROVIDERS
                        then Normalized_For fb else Base)\<rparr>)"

definition after_failure :: "ladder_cfg \<Rightarrow> stream_call \<Rightarrow> string \<Rightarrow> string \<Rightarrow> ladder \<Rightarrow> bool \<times> ladder" where
  "after_failure cfg c err attempt_failure l0 =
     (let l = (if is_quota_error err
               then l0\<lparr>ld_blocks := note_quota_block (lc_cooldown cfg) (sc_now c) (ld_model l0) (ld_blocks l0)\<rparr>
               else l0);
          fb = fallback_model (lc_settings cfg)
      in if is_budget_exhaustion err then (False, l)
         else if ld_retries l < length STREAM_BACKOFFS \<and> is_stream_retryable err then (True, retry_same err l)
         else if fb \<noteq> [] \<and> \<not> ld_tried l \<and> fb \<noteq> ld_model l then
           (let (blocked, bs) = quota_block_remaining (sc_now c) fb (ld_blocks l); l' = l\<lparr>ld_blocks := bs\<rparr> in
            if blocked > 0 then (False, l') else (True, switch_model cfg attempt_failure l'))
         else (False, l))"

text \<open>What is left to try: at most three retries of a model and one switch.\<close>

definition rungs :: "ladder \<Rightarrow> nat" where
  "rungs l = (if ld_tried l then 0 else 4) + (3 - ld_retries l)"

lemma take_events_frame:
  "take_events cfg es (a, l) = (b, a', l') \<Longrightarrow>
     ld_attempt l' = ld_attempt l \<and> ld_retries l' = ld_retries l \<and> ld_model l' = ld_model l
     \<and> ld_messages l' = ld_messages l \<and> ld_tried l' = ld_tried l \<and> ld_failure l' = ld_failure l
     \<and> ld_blocks l' = ld_blocks l \<and> ld_calls l' = ld_calls l"
proof (induction es arbitrary: a l)
  case (Cons e es)
  then show ?case by (cases e) (auto simp: Let_def split: if_splits)
qed simp

lemma run_attempt_frame:
  "run_attempt cfg c l = (a, l') \<Longrightarrow>
     ld_attempt l' = ld_attempt l + 1 \<and> ld_retries l' = ld_retries l \<and> ld_model l' = ld_model l
     \<and> ld_messages l' = ld_messages l \<and> ld_tried l' = ld_tried l \<and> ld_failure l' = ld_failure l
     \<and> ld_blocks l' = ld_blocks l
     \<and> ld_calls l' = ld_calls l @ [\<lparr>cm_model = ld_model l, cm_max_tokens = request_tokens cfg (ld_model l),
          cm_messages = ld_messages l\<rparr>]"
  by (cases "sc_capacity c")
    (auto simp: run_attempt_def Let_def split: prod.splits dest!: take_events_frame)

lemma after_failure_rungs:
  "after_failure cfg c err f l = (True, l') \<Longrightarrow> rungs l' < rungs l"
  by (auto simp: after_failure_def Let_def retry_same_def switch_model_def rungs_def STREAM_BACKOFFS_def
      quota_block_remaining_def split: if_splits prod.splits option.splits)

text \<open>The \<open>while True\<close> loop.\<close>

function climb :: "ladder_cfg \<Rightarrow> (nat \<Rightarrow> stream_call) \<Rightarrow> ladder \<Rightarrow> stream_outcome \<times> ladder" where
  "climb cfg script l =
     (let c = script (ld_attempt l); (a, l1) = run_attempt cfg c l; out = outcome_of cfg c a l1
      in case as_error a of
           None \<Rightarrow> (out, l1)
         | Some err \<Rightarrow> (case after_failure cfg c err (as_failure a) l1 of
               (False, l2) \<Rightarrow> (out, l2)
             | (True, l2) \<Rightarrow> climb cfg script l2))"
  by pat_completeness auto
termination
proof (relation "measure (\<lambda>(_, _, l). rungs l)")
  fix cfg script l c res a l1 out err b l2
  assume "c = script (ld_attempt l)" "res = run_attempt cfg c l" "(a, l1) = res"
    "out = outcome_of cfg c a l1" "as_error a = Some err"
    "(b, l2) = after_failure cfg c err (as_failure a) l1" "b = True"
  then have "rungs l2 < rungs l1" and "rungs l1 = rungs l"
    using after_failure_rungs [of cfg c err "as_failure a" l1 l2] run_attempt_frame [of cfg c l a l1]
    by (simp, simp add: rungs_def)
  then show "((cfg, script, l2), (cfg, script, l)) \<in> measure (\<lambda>(_, _, l). rungs l)" by simp
qed simp

declare climb.simps [simp del]

definition start_ladder :: "string \<Rightarrow> bool \<Rightarrow> string option \<Rightarrow> (string \<rightharpoonup> rat) \<Rightarrow> ladder" where
  "start_ladder m tried failure blocks =
     \<lparr>ld_attempt = 0, ld_retries = 0, ld_model = m, ld_messages = Given, ld_tried = tried,
      ld_failure = failure, ld_usage = None, ld_blocks = blocks, ld_emitted = [], ld_rows = [], ld_calls = []\<rparr>"

definition stream_with_failover ::
    "ladder_cfg \<Rightarrow> (nat \<Rightarrow> stream_call) \<Rightarrow> string \<Rightarrow> bool \<Rightarrow> string option \<Rightarrow> (string \<rightharpoonup> rat)
     \<Rightarrow> stream_outcome \<times> ladder" where
  "stream_with_failover cfg script m tried failure blocks = climb cfg script (start_ladder m tried failure blocks)"

end
