(* ===== verification/Ladder_Proofs.thy ===== *)
theory Ladder_Proofs
  imports Stream_Ladder
begin

text \<open>
  What the ladder guarantees its callers: a bounded number of calls in a fixed order of models,
  the outcome of the last one, and the cases in which it must not switch.
\<close>

section \<open>One step of the loop\<close>

lemma climb_step:
  assumes "run_attempt cfg (script (ld_attempt l)) l = (a, l1)"
  shows "climb cfg script l = (case as_error a of
      None \<Rightarrow> (outcome_of cfg (script (ld_attempt l)) a l1, l1)
    | Some err \<Rightarrow> (case after_failure cfg (script (ld_attempt l)) err (as_failure a) l1 of
        (False, l2) \<Rightarrow> (outcome_of cfg (script (ld_attempt l)) a l1, l2)
      | (True, l2) \<Rightarrow> climb cfg script l2))"
  using assms by (simp add: climb.simps [of cfg script l] Let_def)

text \<open>Going on after a failure: a retry of the same model, or the one switch.\<close>

lemma after_failure_on:
  assumes "after_failure cfg c err f l = (True, l2)"
  shows "ld_attempt l2 = ld_attempt l \<and> ld_calls l2 = ld_calls l \<and>
    ((ld_retries l < 3 \<and> ld_retries l2 = ld_retries l + 1 \<and> ld_model l2 = ld_model l \<and> ld_tried l2 = ld_tried l
       \<and> is_stream_retryable err)
     \<or> (\<not> ld_tried l \<and> ld_tried l2 \<and> ld_retries l2 = 0 \<and> ld_model l2 = fallback_model (lc_settings cfg)
       \<and> ld_model l \<noteq> fallback_model (lc_settings cfg)))"
  using assms
  by (auto simp: after_failure_def Let_def retry_same_def switch_model_def STREAM_BACKOFFS_def
      quota_block_remaining_def split: if_splits prod.splits option.splits)

lemma after_failure_off:
  "after_failure cfg c err f l = (False, l2) \<Longrightarrow> ld_attempt l2 = ld_attempt l \<and> ld_calls l2 = ld_calls l"
  by (auto simp: after_failure_def Let_def quota_block_remaining_def split: if_splits prod.splits option.splits)

section \<open>The shape of a run\<close>

text \<open>\<open>run_shape i j\<close>: the run made \<open>Suc i\<close> calls to the model it started on, then \<open>j\<close> to the
  fallback, and returned the outcome of the last call.\<close>

definition run_shape ::
    "ladder_cfg \<Rightarrow> (nat \<Rightarrow> stream_call) \<Rightarrow> ladder \<Rightarrow> stream_outcome \<times> ladder \<Rightarrow> nat \<Rightarrow> nat \<Rightarrow> bool" where
  "run_shape cfg script l r i j \<longleftrightarrow>
     map cm_model (ld_calls (snd r)) = map cm_model (ld_calls l)
        @ replicate (Suc i) (ld_model l) @ replicate j (fallback_model (lc_settings cfg))
     \<and> ld_retries l + i \<le> max 3 (ld_retries l) \<and> j \<le> 4 \<and> (ld_tried l \<longrightarrow> j = 0)
     \<and> model (fst r) = (if j = 0 then ld_model l else fallback_model (lc_settings cfg))
     \<and> tried_fallback (fst r) = (ld_tried l \<or> j > 0)
     \<and> ld_attempt (snd r) = ld_attempt l + Suc i + j
     \<and> started_at (fst r) = sc_started (script (ld_attempt l + i + j))"

lemma climb_shape: "\<exists>i j. run_shape cfg script l (climb cfg script l) i j"
proof (induction cfg script l rule: climb.induct)
  case (1 cfg script l)
  let ?c = "script (ld_attempt l)"
  obtain a l1 where r: "run_attempt cfg ?c l = (a, l1)" by (cases "run_attempt cfg ?c l")
  note frame = run_attempt_frame [OF r]
  have stop: "run_shape cfg script l (outcome_of cfg ?c a l1, l2) 0 0"
    if "ld_attempt l2 = ld_attempt l1" "ld_calls l2 = ld_calls l1" for l2
    using frame that by (simp add: run_shape_def outcome_of_def)
  show ?case
  proof (cases "as_error a")
    case None
    then show ?thesis using stop [of l1] by (auto simp: climb_step [where script = script, OF r])
  next
    case (Some err)
    obtain b l2 where af: "after_failure cfg ?c err (as_failure a) l1 = (b, l2)"
      by (cases "after_failure cfg ?c err (as_failure a) l1")
    show ?thesis
    proof (cases b)
      case False
      with af after_failure_off have "ld_attempt l2 = ld_attempt l1 \<and> ld_calls l2 = ld_calls l1" by metis
      with stop [of l2] Some af False show ?thesis by (auto simp: climb_step [where script = script, OF r])
    next
      case True
      with af have on: "after_failure cfg ?c err (as_failure a) l1 = (True, l2)" by simp
      have eq: "climb cfg script l = climb cfg script l2"
        using Some on by (simp add: climb_step [where script = script, OF r])
      obtain i j where IH: "run_shape cfg script l2 (climb cfg script l2) i j"
        using "1.IH" [OF refl refl r [symmetric] refl Some on [symmetric]] by blast
      from after_failure_on [OF on] frame show ?thesis
      proof (elim conjE disjE)
        assume "ld_retries l2 = ld_retries l1 + 1" "ld_model l2 = ld_model l1" "ld_tried l2 = ld_tried l1"
          "ld_attempt l2 = ld_attempt l1" "ld_calls l2 = ld_calls l1" "ld_retries l1 < 3"
        with IH frame have "run_shape cfg script l (climb cfg script l) (Suc i) j"
          unfolding eq by (auto simp: run_shape_def)
        then show ?thesis by blast
      next
        assume "\<not> ld_tried l1" "ld_tried l2" "ld_retries l2 = 0" "ld_model l2 = fallback_model (lc_settings cfg)"
          "ld_attempt l2 = ld_attempt l1" "ld_calls l2 = ld_calls l1"
        with IH frame have "run_shape cfg script l (climb cfg script l) 0 (Suc i)"
          unfolding eq by (auto simp: run_shape_def)
        then show ?thesis by blast
      qed
    qed
  qed
qed

lemma start_fields [simp]:
  "ld_attempt (start_ladder m tried failure blocks) = 0" "ld_retries (start_ladder m tried failure blocks) = 0"
  "ld_model (start_ladder m tried failure blocks) = m" "ld_tried (start_ladder m tried failure blocks) = tried"
  "ld_blocks (start_ladder m tried failure blocks) = blocks" "ld_calls (start_ladder m tried failure blocks) = []"
  by (simp_all add: start_ladder_def)

text \<open>The ladder always returns, after at most eight calls: one to four to the requested model,
  then at most four to the fallback model, which it tries once at most and not at all if it was
  tried before.  The model it reports is the one that served the last call, and the outcome is
  that call's.\<close>

theorem ladder_bounded:
  "case stream_with_failover cfg script m tried failure blocks of (out, l) \<Rightarrow>
     \<exists>i j. map cm_model (ld_calls l) = replicate (Suc i) m @ replicate j (fallback_model (lc_settings cfg))
       \<and> i \<le> 3 \<and> j \<le> (if tried then 0 else 4) \<and> length (ld_calls l) \<le> 8
       \<and> model out = (if j = 0 then m else fallback_model (lc_settings cfg))
       \<and> tried_fallback out = (tried \<or> j > 0)
       \<and> started_at out = sc_started (script (i + j))"
proof -
  let ?l = "start_ladder m tried failure blocks"
  obtain i j where s: "run_shape cfg script ?l (climb cfg script ?l) i j" using climb_shape by blast
  then have "map cm_model (ld_calls (snd (climb cfg script ?l)))
      = replicate (Suc i) m @ replicate j (fallback_model (lc_settings cfg))" by (simp add: run_shape_def)
  then have "length (ld_calls (snd (climb cfg script ?l))) = Suc i + j"
    by (metis length_append length_map length_replicate)
  moreover obtain out l where r: "climb cfg script ?l = (out, l)" by (cases "climb cfg script ?l")
  ultimately have "map cm_model (ld_calls l) = replicate (Suc i) m @ replicate j (fallback_model (lc_settings cfg))
      \<and> i \<le> 3 \<and> j \<le> (if tried then 0 else 4) \<and> length (ld_calls l) \<le> 8
      \<and> model out = (if j = 0 then m else fallback_model (lc_settings cfg))
      \<and> tried_fallback out = (tried \<or> j > 0) \<and> started_at out = sc_started (script (i + j))"
    using s unfolding run_shape_def r by (cases tried) auto
  then show ?thesis unfolding stream_with_failover_def r prod.case by blast
qed

section \<open>When it must not switch\<close>

lemma blocked_stays:
  assumes "ld_blocks l (fallback_model (lc_settings cfg)) = Some t" and "ld_model l \<noteq> fallback_model (lc_settings cfg)"
    and "\<And>k. sc_now (script k) < t"
  shows "set (map cm_model (ld_calls (snd (climb cfg script l)))) \<subseteq> set (map cm_model (ld_calls l)) \<union> {ld_model l}
    \<and> tried_fallback (fst (climb cfg script l)) = ld_tried l"
  using assms
proof (induction cfg script l rule: climb.induct)
  case (1 cfg script l)
  let ?c = "script (ld_attempt l)" and ?fb = "fallback_model (lc_settings cfg)"
  obtain a l1 where r: "run_attempt cfg ?c l = (a, l1)" by (cases "run_attempt cfg ?c l")
  note frame = run_attempt_frame [OF r]
  show ?case
  proof (cases "as_error a")
    case None
    then show ?thesis using frame by (auto simp: climb_step [where script = script, OF r] outcome_of_def)
  next
    case (Some err)
    obtain b l2 where af: "after_failure cfg ?c err (as_failure a) l1 = (b, l2)"
      by (cases "after_failure cfg ?c err (as_failure a) l1")
    show ?thesis
    proof (cases b)
      case False
      with af after_failure_off have "ld_calls l2 = ld_calls l1" by metis
      then show ?thesis using frame Some af False by (auto simp: climb_step [where script = script, OF r] outcome_of_def)
    next
      case True
      with af have on: "after_failure cfg ?c err (as_failure a) l1 = (True, l2)" by simp
      have "\<not> t - sc_now ?c \<le> 0" using "1.prems"(3) [of "ld_attempt l"] by simp
      then have same: "ld_model l2 = ld_model l1" "ld_tried l2 = ld_tried l1" "ld_calls l2 = ld_calls l1"
          "ld_blocks l2 ?fb = Some t"
        using on frame "1.prems"(1,2)
        by (auto simp: after_failure_def Let_def retry_same_def note_quota_block_def quota_block_remaining_def
            split: if_splits prod.splits)
      have "climb cfg script l = climb cfg script l2" using Some on by (simp add: climb_step [where script = script, OF r])
      moreover have "set (map cm_model (ld_calls (snd (climb cfg script l2)))) \<subseteq> set (map cm_model (ld_calls l2)) \<union> {ld_model l2}
          \<and> tried_fallback (fst (climb cfg script l2)) = ld_tried l2"
        using "1.IH" [OF refl refl r [symmetric] refl Some on [symmetric]] same frame "1.prems" by simp
      ultimately show ?thesis using same frame by auto
    qed
  qed
qed

text \<open>A fallback whose quota is exhausted is never called: while its block lasts, every call of
  the run goes to the requested model and the caller's flag that the fallback was tried is left
  as it was, so the primary's own error comes back.\<close>

theorem blocked_fallback_not_called:
  assumes "blocks (fallback_model (lc_settings cfg)) = Some t" and "m \<noteq> fallback_model (lc_settings cfg)"
    and "\<And>k. sc_now (script k) < t"
  shows "case stream_with_failover cfg script m tried failure blocks of (out, l) \<Rightarrow>
    set (map cm_model (ld_calls l)) = {m} \<and> model out = m \<and> tried_fallback out = tried"
proof -
  let ?l = "start_ladder m tried failure blocks"
  have "ld_blocks ?l (fallback_model (lc_settings cfg)) = Some t" "ld_model ?l \<noteq> fallback_model (lc_settings cfg)"
    using assms(1,2) by (simp_all add: start_ladder_def)
  from blocked_stays [OF this assms(3)]
  have "set (map cm_model (ld_calls (snd (climb cfg script ?l)))) \<subseteq> {m}"
    "tried_fallback (fst (climb cfg script ?l)) = tried"
    by simp_all
  moreover obtain i j where s: "run_shape cfg script ?l (climb cfg script ?l) i j" using climb_shape by blast
  obtain out l where r: "climb cfg script ?l = (out, l)" by (cases "climb cfg script ?l")
  ultimately have sub: "set (map cm_model (ld_calls l)) \<subseteq> {m}" and tr: "tried_fallback out = tried"
    by simp_all
  from s have calls: "map cm_model (ld_calls l)
      = replicate (Suc i) m @ replicate j (fallback_model (lc_settings cfg))"
    and mo: "model out = (if j = 0 then m else fallback_model (lc_settings cfg))"
    by (simp_all add: run_shape_def r)
  have "j = 0"
  proof (rule ccontr)
    assume "j \<noteq> 0"
    then have "fallback_model (lc_settings cfg) \<in> set (map cm_model (ld_calls l))" unfolding calls by simp
    with sub assms(2) show False by auto
  qed
  then have "set (map cm_model (ld_calls l)) = {m}" unfolding calls by auto
  then show ?thesis unfolding stream_with_failover_def r prod.case using mo tr \<open>j = 0\<close> by simp
qed

definition demo_ladder :: ladder_cfg where
  "demo_ladder = \<lparr>lc_settings = demo_cfg, lc_registry = empty_registry, lc_prices = Map.empty,
     lc_serving = (\<lambda>_. ''ollama''), lc_cooldown = 600, lc_requested = ''m'', lc_max_output_cap = 0,
     lc_surface_overflow = False\<rparr>"

definition failing_call :: "failover_reason \<Rightarrow> string \<Rightarrow> stream_call" where
  "failing_call r msg = \<lparr>sc_capacity = True, sc_events = [], sc_end = Raises_Failover r msg, sc_started = 0, sc_now = 1\<rparr>"

lemma blocked_fallback_not_called_witness:
  "model (fst (stream_with_failover demo_ladder (\<lambda>_. failing_call AUTH ''bad key'') ''m'' False None [''fb'' \<mapsto> 100])) = ''m''"
  using blocked_fallback_not_called [of "[''fb'' \<mapsto> 100]" demo_ladder 100 "''m''" "\<lambda>_. failing_call AUTH ''bad key''" False None]
  by (simp add: demo_ladder_def demo_cfg_def failing_call_def split: prod.splits)

text \<open>A spent time budget is not a provider fault: when an attempt fails with the session's
  time-limit error the ladder stops there, with that error, without another call and without
  trying the fallback.\<close>

theorem budget_error_stops:
  assumes "run_attempt cfg (script (ld_attempt l)) l = (a, l1)"
    and "as_error a = Some err" and "is_budget_exhaustion err"
  shows "case climb cfg script l of (out, l') \<Rightarrow>
    so_error out = Some err \<and> ld_calls l' = ld_calls l1 \<and> length (ld_calls l') = Suc (length (ld_calls l))
    \<and> tried_fallback out = ld_tried l \<and> model out = ld_model l"
  using assms run_attempt_frame [OF assms(1)]
  by (simp add: climb_step [where script = script, OF assms(1)] after_failure_def Let_def outcome_of_def)

lemma budget_error_stops_witness:
  "length (ld_calls (snd (climb demo_ladder (\<lambda>_. failing_call TIMEOUT ''has exceeded the 60s LLM time limit'')
     (start_ladder ''m'' False None Map.empty)))) = 1"
proof -
  let ?msg = "''has exceeded the 60s LLM time limit''"
  let ?l = "start_ladder ''m'' False None Map.empty"
  obtain a l1 where r: "run_attempt demo_ladder (failing_call TIMEOUT ?msg) ?l = (a, l1)"
    by (cases "run_attempt demo_ladder (failing_call TIMEOUT ?msg) ?l")
  then have "as_error a = Some ?msg"
    by (auto simp: run_attempt_def Let_def failing_call_def end_attempt_def demo_ladder_def)
  moreover have "is_budget_exhaustion ?msg" by code_simp
  moreover obtain out l' where c: "climb demo_ladder (\<lambda>_. failing_call TIMEOUT ?msg) ?l = (out, l')"
    by (cases "climb demo_ladder (\<lambda>_. failing_call TIMEOUT ?msg) ?l")
  ultimately show ?thesis
    using budget_error_stops [of demo_ladder "\<lambda>_. failing_call TIMEOUT ?msg" ?l a l1 ?msg] r
    unfolding c by auto
qed


section \<open>When it switches\<close>

text \<open>The ladder switches on every typed failure: whatever the reason of the error that the
  provider raised, including the reasons that are declared unfit for a fallback, an error that is
  not retryable moves the run to the configured fallback model, with the reason recorded.\<close>

theorem any_reason_switches:
  assumes "sc_end (script 0) = Raises_Failover r msg" and "sc_events (script 0) = []"
    and "\<not> (lc_surface_overflow cfg \<and> r = CONTEXT_OVERFLOW)"
    and "\<not> is_stream_retryable msg" and "\<not> is_budget_exhaustion msg" and "\<not> is_quota_error msg"
    and "fallback_model (lc_settings cfg) \<noteq> []" and "m \<noteq> fallback_model (lc_settings cfg)"
    and "blocks (fallback_model (lc_settings cfg)) = None"
  shows "case stream_with_failover cfg script m False None blocks of (out, l) \<Rightarrow>
    \<exists>j. map cm_model (ld_calls l) = m # replicate (Suc j) (fallback_model (lc_settings cfg))
      \<and> tried_fallback out \<and> model out = fallback_model (lc_settings cfg)"
proof -
  let ?l = "start_ladder m False None blocks"
  obtain a l1 where r: "run_attempt cfg (script (ld_attempt ?l)) ?l = (a, l1)"
    by (cases "run_attempt cfg (script (ld_attempt ?l)) ?l")
  note frame = run_attempt_frame [OF r]
  have a: "as_error a = Some msg" "as_failure a = reason_value r"
    using r assms(1-3) by (auto simp: run_attempt_def Let_def end_attempt_def)
  have af: "after_failure cfg (script 0) msg (as_failure a) l1
      = (True, switch_model cfg (as_failure a) l1)"
    using assms(4-9) frame by (auto simp: after_failure_def Let_def quota_block_remaining_def)
  let ?l2 = "switch_model cfg (as_failure a) l1"
  have eq: "climb cfg script ?l = climb cfg script ?l2"
    using a af by (simp add: climb_step [where script = script, OF r])
  obtain i j where s: "run_shape cfg script ?l2 (climb cfg script ?l2) i j" using climb_shape by blast
  obtain out l where c: "climb cfg script ?l2 = (out, l)" by (cases "climb cfg script ?l2")
  have "ld_tried ?l2" "ld_model ?l2 = fallback_model (lc_settings cfg)" "map cm_model (ld_calls ?l2) = [m]"
    using frame by (simp_all add: switch_model_def Let_def)
  with s have "map cm_model (ld_calls l) = m # replicate (Suc i) (fallback_model (lc_settings cfg))"
    "tried_fallback out" "model out = fallback_model (lc_settings cfg)"
    by (simp_all add: run_shape_def c)
  then have "\<exists>j. map cm_model (ld_calls l) = m # replicate (Suc j) (fallback_model (lc_settings cfg))
      \<and> tried_fallback out \<and> model out = fallback_model (lc_settings cfg)"
    by (intro exI [of _ i] conjI)
  then show ?thesis by (simp add: stream_with_failover_def eq c)
qed

lemma any_reason_switches_witness:
  "AUTH \<notin> set FALLBACK_REASONS
   \<and> model (fst (stream_with_failover demo_ladder (\<lambda>_. failing_call AUTH ''invalid key'') ''m'' False None Map.empty)) = ''fb''"
proof -
  let ?msg = "''invalid key''"
  have "\<not> is_stream_retryable ?msg" "\<not> is_budget_exhaustion ?msg" "\<not> is_quota_error ?msg"
    by code_simp+
  then show ?thesis
    using any_reason_switches [of "\<lambda>_. failing_call AUTH ?msg" AUTH ?msg demo_ladder "''m''" Map.empty]
    by (simp add: failing_call_def demo_ladder_def demo_cfg_def FALLBACK_REASONS_def split: prod.splits)
qed

section \<open>Tool-call fragments\<close>

lemma find_append_last: "\<forall>c \<in> set cs. \<not> p c \<Longrightarrow> find p (cs @ [x]) = (if p x then Some x else None)"
  by (induction cs) auto

lemma update_append_last: "\<forall>c \<in> set cs. \<not> p c \<Longrightarrow> p x \<Longrightarrow> update_first p f (cs @ [x]) = cs @ [f x]"
  by (induction cs) auto

text \<open>Streamed tool calls are put together again: after calls with other ids, the fragments of a
  new call, the first with the name and the others with more of the arguments, become one call
  with all the arguments in order, and the calls already collected are kept.\<close>

theorem fragments_reassemble:
  assumes "i \<noteq> []" and "\<forall>c \<in> set collected. tc_id c \<noteq> i"
  shows "merge_tool_call_deltas collected
      (\<lparr>tc_id = i, tc_name = n, tc_arguments = a\<rparr>
        # map (\<lambda>x. \<lparr>tc_id = i, tc_name = [], tc_arguments = x\<rparr>) xs)
    = collected @ [\<lparr>tc_id = i, tc_name = n, tc_arguments = a @ concat xs\<rparr>]"
proof -
  have first: "merge_delta collected \<lparr>tc_id = i, tc_name = n, tc_arguments = a\<rparr>
      = collected @ [\<lparr>tc_id = i, tc_name = n, tc_arguments = a\<rparr>]"
  proof -
    have "find (\<lambda>c. tc_id c = i \<and> i \<noteq> []) collected = None"
      using assms by (auto simp: find_None_iff)
    then show ?thesis by (simp add: merge_delta_def Let_def)
  qed
  have rest: "foldl merge_delta (collected @ [\<lparr>tc_id = i, tc_name = n, tc_arguments = b\<rparr>])
      (map (\<lambda>x. \<lparr>tc_id = i, tc_name = [], tc_arguments = x\<rparr>) xs)
      = collected @ [\<lparr>tc_id = i, tc_name = n, tc_arguments = b @ concat xs\<rparr>]" for b
  proof (induction xs arbitrary: b)
    case (Cons x xs)
    have no: "\<forall>c \<in> set collected. \<not> (tc_id c = i \<and> i \<noteq> [])" using assms by auto
    have "merge_delta (collected @ [\<lparr>tc_id = i, tc_name = n, tc_arguments = b\<rparr>])
        \<lparr>tc_id = i, tc_name = [], tc_arguments = x\<rparr>
        = collected @ [\<lparr>tc_id = i, tc_name = n, tc_arguments = b @ x\<rparr>]"
      using assms(1) find_append_last [OF no] update_append_last [OF no]
      by (simp add: merge_delta_def Let_def)
    with Cons [of "b @ x"] show ?case by simp
  qed simp
  show ?thesis using first rest by (simp add: merge_tool_call_deltas_def)
qed

lemma fragments_reassemble_witness:
  "merge_tool_call_deltas [] [\<lparr>tc_id = ''c1'', tc_name = ''bash'', tc_arguments = ''ab''\<rparr>,
     \<lparr>tc_id = ''c1'', tc_name = [], tc_arguments = ''cd''\<rparr>]
   = [\<lparr>tc_id = ''c1'', tc_name = ''bash'', tc_arguments = ''abcd''\<rparr>]"
  using fragments_reassemble [of "''c1''" "[]" "''bash''" "''ab''" "[''cd'']"] by simp

end
