(* ===== verification/Compaction.thy ===== *)
theory Compaction
  imports Prelude
begin

text \<open>
  \<open>core/context/compaction.py\<close>: the views that prune old tool results and repair the pairing of
  tool calls with their results, and the compaction that folds a prefix of the transcript into a
  summary and records how far it reached.

  A row carries its decoded tool calls.  The token estimator, the summarizing model (one answer
  per chunk, \<^const>\<open>None\<close> when the call raises) and the texts of a tool call and of a clipping
  note are the record \<open>summ_env\<close>.  The footer is kept as the data it prints.
\<close>

section \<open>Rows\<close>

record call =
  c_id :: string
  c_name :: string
  c_arguments :: string
  c_rejected :: bool

text \<open>What the readers of a row's metadata column take from it: two flags, and two numbers, each missing,
  readable as a number or not.  A column that is empty, unreadable or no object is \<^const>\<open>None\<close>.\<close>

datatype meta_int = No_Value | Bad_Value | Int_Value nat

record row_meta =
  md_injected :: bool
  md_pending :: bool
  md_ephemeral :: meta_int
  md_parent :: meta_int

record msg =
  role :: string
  m_id :: "nat option"
  content :: string
  tool_calls :: "call list"
  tool_call_id :: string
  view_pruned :: bool
  up_to :: "nat option"
  m_meta :: "row_meta option"

definition MARKER_ROLES :: "string list" where
  "MARKER_ROLES = [''compaction'', ''scout'', ''notice'', ''reflect'', ''model_divider'', ''eval'']"

section \<open>Pruning in the view\<close>

text \<open>\<open>stub\<close> renders the text that takes the place of a long result.\<close>

definition prune_row :: "(msg \<Rightarrow> string) \<Rightarrow> nat \<Rightarrow> nat \<Rightarrow> nat \<Rightarrow> msg \<Rightarrow> msg" where
  "prune_row stub cutoff min_chars i m =
     (if i < cutoff \<and> role m = ''tool'' \<and> length (content m) > min_chars
      then m\<lparr>content := stub m, view_pruned := True\<rparr> else m)"

definition apply_view_pruning :: "(msg \<Rightarrow> string) \<Rightarrow> nat \<Rightarrow> nat \<Rightarrow> msg list \<Rightarrow> msg list" where
  "apply_view_pruning stub keep_recent min_chars ms =
     (if length ms \<le> keep_recent then ms
      else map (\<lambda>(i, m). prune_row stub (length ms - keep_recent) min_chars i m) (zip [0..<length ms] ms))"

section \<open>Orphans and unanswered calls\<close>

definition valid_ids :: "msg list \<Rightarrow> string set" where
  "valid_ids ms = (\<Union>m \<in> set (filter (\<lambda>m. role m = ''assistant'') ms). c_id ` set (tool_calls m))"

definition orphan :: "string set \<Rightarrow> msg \<Rightarrow> bool" where
  "orphan ids m \<longleftrightarrow> role m = ''tool'' \<and> tool_call_id m \<noteq> [] \<and> tool_call_id m \<notin> ids"

definition tool_call_ids :: "msg \<Rightarrow> string list" where
  "tool_call_ids m = filter (\<lambda>i. i \<noteq> []) (map c_id (tool_calls m))"

text \<open>The dash of the text is outside the modelled range of characters; it stands as its UTF-8 bytes.\<close>

definition ABORTED_CALL_STUB :: string where
  "ABORTED_CALL_STUB = ''Error: tool call aborted before it returned '' @ [CHR 0xE2, CHR 0x80, CHR 0x94]
     @ '' no result was recorded.''"

definition abort_stub :: "msg \<Rightarrow> string \<Rightarrow> msg" where
  "abort_stub m tcid = \<lparr>role = ''tool'', m_id = m_id m, content = ABORTED_CALL_STUB, tool_calls = [],
     tool_call_id = tcid, view_pruned = False, up_to = None, m_meta = None\<rparr>"

definition answered_ids :: "msg list \<Rightarrow> string set" where
  "answered_ids ms = tool_call_id ` set (filter (\<lambda>m. role m = ''tool'' \<and> tool_call_id m \<noteq> []) ms)"

definition is_tool :: "msg \<Rightarrow> bool" where
  "is_tool m \<longleftrightarrow> role m = ''tool''"

function repair_from :: "string set \<Rightarrow> msg list \<Rightarrow> msg list" where
  "repair_from answered [] = []"
| "repair_from answered (m # ms) =
     (let missing = filter (\<lambda>i. i \<notin> answered) (tool_call_ids m) in
      if role m \<noteq> ''assistant'' \<or> missing = [] then m # repair_from answered ms
      else m # takeWhile is_tool ms @ map (abort_stub m) missing @ repair_from answered (dropWhile is_tool ms))"
  by pat_completeness auto
termination
  by (relation "measure (\<lambda>(_, ms). length ms)") (auto simp: le_imp_less_Suc length_dropWhile_le)

definition repair_unanswered_tool_calls :: "msg list \<Rightarrow> msg list" where
  "repair_unanswered_tool_calls ms = repair_from (answered_ids ms) ms"

definition exclude_orphans :: "msg list \<Rightarrow> msg list" where
  "exclude_orphans ms = repair_unanswered_tool_calls (filter (\<lambda>m. \<not> orphan (valid_ids ms) m) ms)"

section \<open>How much to keep\<close>

definition MIN_KEEP_TOKENS :: int where "MIN_KEEP_TOKENS = 2000"

text \<open>\<open>budget\<close> is the session's context budget, used without a history budget.\<close>

definition resolve_keep_tokens :: "int \<Rightarrow> int option \<Rightarrow> int \<Rightarrow> int" where
  "resolve_keep_tokens configured history_budget budget =
     (let ceiling' = (case history_budget of
            Some h \<Rightarrow> if h > 0 then h div 2 else budget div 4
          | None \<Rightarrow> budget div 4)
      in max (min configured ceiling') MIN_KEEP_TOKENS)"

text \<open>The last index, then the first one, with a property.\<close>

definition last_index :: "('a \<Rightarrow> bool) \<Rightarrow> 'a list \<Rightarrow> nat option" where
  "last_index p xs = (case filter (\<lambda>i. p (xs ! i)) [0..<length xs] of [] \<Rightarrow> None | is \<Rightarrow> Some (last is))"

definition first_index_from :: "nat \<Rightarrow> ('a \<Rightarrow> bool) \<Rightarrow> 'a list \<Rightarrow> nat option" where
  "first_index_from k p xs = find (\<lambda>i. p (xs ! i)) [k..<length xs]"

definition is_user :: "msg \<Rightarrow> bool" where
  "is_user m \<longleftrightarrow> role m = ''user''"

definition active_turn_root_index :: "msg list \<Rightarrow> nat option" where
  "active_turn_root_index convo =
     (case last_index (\<lambda>m. \<not> is_user m) convo of
        None \<Rightarrow> first_index_from 0 is_user convo
      | Some n \<Rightarrow> (case last_index is_user (take n convo) of
            Some i \<Rightarrow> Some i
          | None \<Rightarrow> first_index_from (n + 1) is_user convo))"

definition clamp_boundary_to_live_turn :: "msg list \<Rightarrow> nat \<Rightarrow> nat option \<Rightarrow> nat" where
  "clamp_boundary_to_live_turn convo boundary turn_user_msg_id =
     (let known = (case turn_user_msg_id of None \<Rightarrow> None
            | Some t \<Rightarrow> first_index_from 0 (\<lambda>m. m_id m = Some t \<and> is_user m) convo);
          root = (case known of Some i \<Rightarrow> Some i | None \<Rightarrow> active_turn_root_index convo)
      in case root of Some i \<Rightarrow> if i < boundary then i else boundary | None \<Rightarrow> boundary)"

text \<open>The loop from the newest row back; its argument is the reversed list of the rows left.\<close>

fun scan_back :: "(msg \<Rightarrow> int) \<Rightarrow> int \<Rightarrow> int \<Rightarrow> msg list \<Rightarrow> nat option" where
  "scan_back count keep total' [] = None"
| "scan_back count keep total' (m # ms) =
     (if total' + count m > keep then Some (length ms + 1) else scan_back count keep (total' + count m) ms)"

definition keep_boundary :: "(msg \<Rightarrow> int) \<Rightarrow> int \<Rightarrow> msg list \<Rightarrow> nat" where
  "keep_boundary count keep convo =
     (case scan_back count keep 0 (rev convo) of None \<Rightarrow> length convo | Some b \<Rightarrow> b)"

section \<open>Serializing in chunks\<close>

record clip =
  cl_msg :: "nat option"
  cl_role :: string
  cl_kept :: nat
  cl_total :: nat

record chunk =
  ch_text :: string
  ch_ids :: "nat list"
  ch_clips :: "clip list"

datatype call_status = Rejected_Call | No_Result | Call_Error | Call_Ok

record summ_env =
  render_call :: "call \<Rightarrow> call_status \<Rightarrow> string"
  clip_note :: "nat \<Rightarrow> nat option \<Rightarrow> string"
  count_text :: "string \<Rightarrow> int"
  count_message :: "msg \<Rightarrow> int"
  summarize :: "nat \<Rightarrow> string option"
  configured_keep :: int
  session_budget :: int

definition CHUNK_CHARS :: nat where "CHUNK_CHARS = 60000"
definition BODY_CLIP_CHARS :: nat where "BODY_CLIP_CHARS = 4000"
definition TOOL_CLIP_CHARS :: nat where "TOOL_CLIP_CHARS = 2000"
definition MAX_CHUNKS :: nat where "MAX_CHUNKS = 8"
definition META_CLIPS :: nat where "META_CLIPS = 50"

definition clip_body :: "summ_env \<Rightarrow> string \<Rightarrow> nat \<Rightarrow> msg \<Rightarrow> string \<times> clip list" where
  "clip_body env s limit m = (if length s \<le> limit then (s, [])
     else (take limit s @ clip_note env (length s - limit) (m_id m),
           [\<lparr>cl_msg = m_id m, cl_role = role m, cl_kept = limit, cl_total = length s\<rparr>]))"

definition calls_of_head :: "msg \<Rightarrow> call list" where
  "calls_of_head m = (if role m = ''assistant'' then tool_calls m else [])"

text \<open>The results by call id; a later row with the same id wins.\<close>

definition result_for :: "msg list \<Rightarrow> string \<Rightarrow> msg option" where
  "result_for grp i = (case filter (\<lambda>m. is_tool m \<and> tool_call_id m = i) grp of [] \<Rightarrow> None | ms \<Rightarrow> Some (last ms))"

definition call_status :: "msg list \<Rightarrow> call \<Rightarrow> call_status" where
  "call_status grp c = (if c_rejected c then Rejected_Call
     else case result_for grp (c_id c) of None \<Rightarrow> No_Result
     | Some m \<Rightarrow> let b = py_lstrip (content m) in
         if starts_with ''Error:'' b \<or> starts_with ''ERROR'' b \<or> starts_with ''error:'' b then Call_Error else Call_Ok)"

definition tag_of :: "msg \<Rightarrow> string" where
  "tag_of m = (case m_id m of Some i \<Rightarrow> CHR ''#'' # dec i | None \<Rightarrow> ''#?'')"

definition name_for :: "call list \<Rightarrow> string \<Rightarrow> string" where
  "name_for cs i = (case filter (\<lambda>c. c_id c = i) cs of [] \<Rightarrow> ''tool''
     | xs \<Rightarrow> if c_name (last xs) = [] then ''tool'' else c_name (last xs))"

text \<open>The lines of one row of a group, and the clips they needed.\<close>

definition row_lines :: "summ_env \<Rightarrow> msg list \<Rightarrow> call list \<Rightarrow> bool \<Rightarrow> msg \<Rightarrow> string list \<times> clip list" where
  "row_lines env grp cs is_head m =
     (if is_head \<and> cs \<noteq> [] then
        let (body, clips) = (if py_strip (content m) = [] then ([], [])
              else let (b, cl) = clip_body env (content m) BODY_CLIP_CHARS m
                   in ([''[assistant '' @ tag_of m @ ''] '' @ b], cl))
        in (body @ map (\<lambda>c. ''[tool_call '' @ tag_of m @ ''] '' @ render_call env c (call_status grp c)) cs, clips)
      else if is_tool m then
        let (b, clips) = clip_body env (content m) TOOL_CLIP_CHARS m
        in ([''[tool_result '' @ tag_of m @ '' '' @ name_for cs (tool_call_id m) @ ''] '' @ b], clips)
      else
        let (b, clips) = clip_body env (content m) BODY_CLIP_CHARS m
        in ([''['' @ role m @ '' '' @ tag_of m @ ''] '' @ b], clips))"

definition serialize_group :: "summ_env \<Rightarrow> msg list \<Rightarrow> string \<times> clip list" where
  "serialize_group env grp =
     (let cs = calls_of_head (hd grp);
          rows = row_lines env grp cs True (hd grp) # map (row_lines env grp cs False) (tl grp)
      in (join_with [nl] (concat (map fst rows)), concat (map snd rows)))"

function group_messages :: "msg list \<Rightarrow> msg list list" where
  "group_messages [] = []"
| "group_messages (m # ms) =
     (if calls_of_head m \<noteq> [] then (m # takeWhile is_tool ms) # group_messages (dropWhile is_tool ms)
      else [m] # group_messages ms)"
  by pat_completeness auto
termination
  by (relation "measure length") (auto simp: le_imp_less_Suc length_dropWhile_le)

definition ids_of :: "msg list \<Rightarrow> nat list" where
  "ids_of ms = concat (map (\<lambda>m. case m_id m of Some i \<Rightarrow> [i] | None \<Rightarrow> []) ms)"

definition empty_chunk :: chunk where
  "empty_chunk = \<lparr>ch_text = [], ch_ids = [], ch_clips = []\<rparr>"

definition extend_chunk :: "summ_env \<Rightarrow> chunk \<Rightarrow> msg list \<Rightarrow> chunk" where
  "extend_chunk env cur grp = (let (s, clips) = serialize_group env grp in
     \<lparr>ch_text = (if ch_text cur \<noteq> [] then ch_text cur @ [nl] @ s else s),
      ch_ids = ch_ids cur @ ids_of grp, ch_clips = ch_clips cur @ clips\<rparr>)"

fun chunk_from :: "summ_env \<Rightarrow> nat \<Rightarrow> nat \<Rightarrow> chunk list \<Rightarrow> chunk \<Rightarrow> msg list list \<Rightarrow> chunk list" where
  "chunk_from env chars max_chunks done cur [] =
     take max_chunks (if ch_text cur \<noteq> [] then done @ [cur] else done)"
| "chunk_from env chars max_chunks done cur (grp # grps) =
     (if ch_text cur \<noteq> [] \<and> length (ch_text cur) + length (fst (serialize_group env grp)) + 1 > chars then
        (if length (done @ [cur]) \<ge> max_chunks then done @ [cur]
         else chunk_from env chars max_chunks (done @ [cur]) (extend_chunk env empty_chunk grp) grps)
      else chunk_from env chars max_chunks done (extend_chunk env cur grp) grps)"

definition chunk_slice :: "summ_env \<Rightarrow> msg list \<Rightarrow> chunk list" where
  "chunk_slice env ms = chunk_from env CHUNK_CHARS MAX_CHUNKS [] empty_chunk (group_messages ms)"

section \<open>The compaction\<close>

datatype compaction_reason = Performed | Failed | Nothing_To_Summarize

text \<open>\<open>_coverage_footer\<close>, as the numbers it prints: range, rows, calls, clips and groups left.\<close>

record footer =
  f_from :: nat
  f_to :: nat
  f_rows :: nat
  f_calls :: nat
  f_clips :: "clip list"
  f_groups_left :: nat

definition coverage_footer :: "nat list \<Rightarrow> clip list \<Rightarrow> nat \<Rightarrow> nat \<Rightarrow> footer option" where
  "coverage_footer covered clips calls left = (if covered = [] then None else
     Some \<lparr>f_from = Min (set covered), f_to = Max (set covered), f_rows = length covered, f_calls = calls,
       f_clips = clips, f_groups_left = left\<rparr>)"

record marker =
  mk_summary :: string
  mk_footer :: "footer option"
  mk_up_to :: nat
  mk_count :: nat
  mk_chunks_planned :: nat
  mk_clips :: "clip list"

text \<open>The running state of the loop over the chunks.\<close>

record progress =
  pg_summary :: string
  pg_covered :: "nat list"
  pg_clips :: "clip list"
  pg_used :: nat

text \<open>The gates on a candidate summary; the accepted one, shortened when it is too long.\<close>

definition accept_candidate :: "summ_env \<Rightarrow> string \<Rightarrow> chunk \<Rightarrow> string \<Rightarrow> string option" where
  "accept_candidate env summary ch candidate =
     (let before = (if summary = [] then 0 else count_text env summary);
          n = count_text env candidate; supplied = count_text env (ch_text ch); growth = n - before
      in if n < 20 then None
         else if supplied > 0 \<and> growth > 0 \<and> 100 * growth > 35 * supplied then None
         else Some (if n > 5000 then take 20000 candidate else candidate))"

fun summarize_chunks :: "summ_env \<Rightarrow> nat \<Rightarrow> chunk list \<Rightarrow> progress \<Rightarrow> progress" where
  "summarize_chunks env k [] p = p"
| "summarize_chunks env k (ch # chs) p =
     (case summarize env k of None \<Rightarrow> p
      | Some response \<Rightarrow> (case accept_candidate env (pg_summary p) ch (py_strip response) of
          None \<Rightarrow> p
        | Some s \<Rightarrow> summarize_chunks env (k + 1) chs
            \<lparr>pg_summary = s, pg_covered = pg_covered p @ ch_ids ch, pg_clips = pg_clips p @ ch_clips ch,
             pg_used = pg_used p + 1\<rparr>))"

definition covered_row :: "nat list \<Rightarrow> msg \<Rightarrow> bool" where
  "covered_row covered m = (case m_id m of None \<Rightarrow> False | Some i \<Rightarrow> i \<in> set covered)"

text \<open>The previous marker: its summary and how far it reached.\<close>

definition previous_marker :: "string option \<Rightarrow> msg list \<Rightarrow> string option \<times> nat" where
  "previous_marker existing raw = (case existing of Some s \<Rightarrow> (Some s, 0)
     | None \<Rightarrow> (case find (\<lambda>m. role m = ''compaction'') (rev raw) of None \<Rightarrow> (None, 0)
         | Some m \<Rightarrow> (Some (content m), case up_to m of Some k \<Rightarrow> k | None \<Rightarrow> 0)))"

definition conversation :: "nat \<Rightarrow> msg list \<Rightarrow> msg list" where
  "conversation prev raw = filter (\<lambda>m. role m \<notin> set MARKER_ROLES
     \<and> (case m_id m of Some i \<Rightarrow> i > prev | None \<Rightarrow> False)) raw"

text \<open>The rows that may be folded.\<close>

definition foldable :: "summ_env \<Rightarrow> int option \<Rightarrow> nat option \<Rightarrow> msg list \<Rightarrow> msg list" where
  "foldable env history_budget turn_id convo =
     (let keep = resolve_keep_tokens (configured_keep env) history_budget (session_budget env);
          b = keep_boundary (count_message env) keep convo
      in take (clamp_boundary_to_live_turn convo b turn_id) convo)"

definition compact_with_llm ::
    "summ_env \<Rightarrow> string option \<Rightarrow> int option \<Rightarrow> nat option \<Rightarrow> msg list \<Rightarrow> compaction_reason \<times> marker option" where
  "compact_with_llm env existing history_budget turn_id raw =
     (let (summary0, prev) = previous_marker existing raw;
          convo = conversation prev raw;
          slice' = foldable env history_budget turn_id convo
      in if length slice' < 4 then (Nothing_To_Summarize, None)
         else
           let chunks = chunk_slice env slice' in
           if chunks = [] then (Nothing_To_Summarize, None)
           else
             let p = summarize_chunks env 0 chunks
                   \<lparr>pg_summary = (case summary0 of Some s \<Rightarrow> s | None \<Rightarrow> []), pg_covered = [], pg_clips = [], pg_used = 0\<rparr>
             in if pg_covered p = [] then (Failed, None)
                else
                  let prefix = takeWhile (covered_row (pg_covered p)) slice';
                      last_id = (case ids_of prefix of [] \<Rightarrow> 0 | ids \<Rightarrow> last ids)
                  in if last_id \<le> prev then (Failed, None)
                     else
                       let clips = filter (\<lambda>c. case cl_msg c of Some i \<Rightarrow> i \<in> set (pg_covered p) | None \<Rightarrow> False) (pg_clips p);
                           left = length (group_messages slice') - length (group_messages prefix)
                       in (Performed, Some \<lparr>mk_summary = pg_summary p,
                             mk_footer = coverage_footer (ids_of prefix) clips (pg_used p) left,
                             mk_up_to = last_id, mk_count = length prefix, mk_chunks_planned = length chunks,
                             mk_clips = take META_CLIPS clips\<rparr>))"

end
