(* ===== verification/Compaction_Proofs.thy ===== *)
theory Compaction_Proofs
  imports Compaction
begin

text \<open>
  What the views and the compaction keep: the pairing of tool calls and results, the rows that no
  summarizer accepted, and the turn in flight.
\<close>

section \<open>Pairing\<close>

lemma repair_keeps: "m \<in> set ms \<Longrightarrow> m \<in> set (repair_from A ms)"
proof (induction A ms rule: repair_from.induct)
  case (2 A x ms)
  have "set ms = set (takeWhile is_tool ms) \<union> set (dropWhile is_tool ms)"
    by (metis set_append takeWhile_dropWhile_id)
  with 2 show ?case by (auto simp: Let_def)
qed simp

lemma repair_new:
  "x \<in> set (repair_from A ms) \<Longrightarrow> x \<in> set ms \<or>
     (\<exists>m \<in> set ms. role m = ''assistant'' \<and> (\<exists>i \<in> set (tool_call_ids m). x = abort_stub m i))"
proof (induction A ms rule: repair_from.induct)
  case (2 A m ms)
  show ?case
  proof (cases "role m \<noteq> ''assistant'' \<or> filter (\<lambda>i. i \<notin> A) (tool_call_ids m) = []")
    case True
    with 2 show ?thesis by (auto simp: Let_def)
  next
    case False
    then consider "x = m" | "x \<in> set (takeWhile is_tool ms)"
      | "x \<in> abort_stub m ` set (filter (\<lambda>i. i \<notin> A) (tool_call_ids m))"
      | "x \<in> set (repair_from A (dropWhile is_tool ms))"
      using "2.prems" by (auto simp: Let_def)
    then show ?thesis
    proof cases
      case 2
      then show ?thesis by (auto dest: set_takeWhileD)
    next
      case 3
      with False show ?thesis by auto
    next
      case 4
      with "2.IH"(2) [OF refl False] show ?thesis by (auto dest: set_dropWhileD)
    qed simp
  qed
qed simp

lemma repair_answers:
  "m \<in> set ms \<Longrightarrow> role m = ''assistant'' \<Longrightarrow> i \<in> set (tool_call_ids m) \<Longrightarrow> i \<notin> A \<Longrightarrow>
   abort_stub m i \<in> set (repair_from A ms)"
proof (induction A ms rule: repair_from.induct)
  case (2 A x ms)
  have "set ms = set (takeWhile is_tool ms) \<union> set (dropWhile is_tool ms)"
    by (metis set_append takeWhile_dropWhile_id)
  moreover have "m \<notin> set (takeWhile is_tool ms)"
    using "2.prems"(2) by (auto simp: is_tool_def dest: set_takeWhileD)
  ultimately have m: "m = x \<or> m \<in> set (dropWhile is_tool ms)" "m \<in> set ms \<or> m = x" using "2.prems"(1) by auto
  show ?case
  proof (cases "role x \<noteq> ''assistant'' \<or> filter (\<lambda>i. i \<notin> A) (tool_call_ids x) = []")
    case True
    then have "m \<noteq> x" using "2.prems"(2-4) by (auto simp: filter_empty_conv)
    with "2.IH"(1) [OF refl True] "2.prems" True m(2) show ?thesis by (auto simp: Let_def)
  next
    case False
    from m(1) show ?thesis
    proof
      assume "m = x"
      with False "2.prems" show ?thesis by (auto simp: Let_def)
    next
      assume "m \<in> set (dropWhile is_tool ms)"
      with "2.IH"(2) [OF refl False] "2.prems" False show ?thesis by (simp add: Let_def)
    qed
  qed
qed simp

lemma repair_other_rows: "filter (\<lambda>m. \<not> is_tool m) (repair_from A ms) = filter (\<lambda>m. \<not> is_tool m) ms"
proof (induction A ms rule: repair_from.induct)
  case (2 A m ms)
  have "filter (\<lambda>m. \<not> is_tool m) ms = filter (\<lambda>m. \<not> is_tool m) (takeWhile is_tool ms @ dropWhile is_tool ms)"
    by simp
  also have "\<dots> = filter (\<lambda>m. \<not> is_tool m) (dropWhile is_tool ms)"
    unfolding filter_append by (auto simp: filter_empty_conv dest: set_takeWhileD)
  finally have f: "filter (\<lambda>m. \<not> is_tool m) ms = filter (\<lambda>m. \<not> is_tool m) (dropWhile is_tool ms)" .
  have "filter (\<lambda>m. \<not> is_tool m) (takeWhile is_tool ms) = []"
    by (auto simp: filter_empty_conv dest: set_takeWhileD)
  with 2 f show ?case by (auto simp: Let_def filter_empty_conv abort_stub_def is_tool_def)
qed simp

lemma stub_fields [simp]:
  "role (abort_stub m i) = ''tool''" "tool_call_id (abort_stub m i) = i" "tool_calls (abort_stub m i) = []"
  by (simp_all add: abort_stub_def)

text \<open>C22: The transcript sent to a provider always pairs calls with results: after the orphan view
  every tool call of every assistant row has a result row, every result row that names a call
  belongs to a call of some assistant row, and all other rows are there, in order.\<close>

theorem calls_and_results_paired:
  "(\<forall>m \<in> set (exclude_orphans ms). role m = ''assistant'' \<longrightarrow>
      (\<forall>i \<in> set (tool_call_ids m). \<exists>t \<in> set (exclude_orphans ms). is_tool t \<and> tool_call_id t = i))
   \<and> (\<forall>t \<in> set (exclude_orphans ms). is_tool t \<and> tool_call_id t \<noteq> [] \<longrightarrow>
      (\<exists>m \<in> set (exclude_orphans ms). role m = ''assistant'' \<and> tool_call_id t \<in> c_id ` set (tool_calls m)))
   \<and> filter (\<lambda>m. \<not> is_tool m) (exclude_orphans ms) = filter (\<lambda>m. \<not> is_tool m) ms"
proof (intro conjI ballI impI)
  let ?v = "filter (\<lambda>m. \<not> orphan (valid_ids ms) m) ms"
  have e: "exclude_orphans ms = repair_from (answered_ids ?v) ?v"
    by (simp add: exclude_orphans_def repair_unanswered_tool_calls_def)
  show "\<exists>t \<in> set (exclude_orphans ms). is_tool t \<and> tool_call_id t = i"
    if "m \<in> set (exclude_orphans ms)" "role m = ''assistant''" "i \<in> set (tool_call_ids m)" for m i
  proof -
    have "m \<in> set ?v" using repair_new [of m "answered_ids ?v" ?v] that by (auto simp: e)
    show ?thesis
    proof (cases "i \<in> answered_ids ?v")
      case True
      then obtain t where "t \<in> set ?v" "role t = ''tool''" "tool_call_id t = i" by (auto simp: answered_ids_def)
      then show ?thesis using repair_keeps [of t ?v] by (auto simp: e is_tool_def)
    next
      case False
      with repair_answers [OF \<open>m \<in> set ?v\<close> that(2,3)] have "abort_stub m i \<in> set (exclude_orphans ms)"
        by (simp add: e)
      then show ?thesis by (auto simp: is_tool_def intro!: bexI [of _ "abort_stub m i"])
    qed
  qed
  show "\<exists>m \<in> set (exclude_orphans ms). role m = ''assistant'' \<and> tool_call_id t \<in> c_id ` set (tool_calls m)"
    if "t \<in> set (exclude_orphans ms)" "is_tool t \<and> tool_call_id t \<noteq> []" for t
  proof -
    have "\<exists>m \<in> set ms. role m = ''assistant'' \<and> tool_call_id t \<in> c_id ` set (tool_calls m)"
      using repair_new [of t "answered_ids ?v" ?v] that
      by (fastforce simp: e orphan_def is_tool_def valid_ids_def tool_call_ids_def)
    then obtain m where m: "m \<in> set ms" "role m = ''assistant''" "tool_call_id t \<in> c_id ` set (tool_calls m)"
      by blast
    then have "m \<in> set ?v" by (simp add: orphan_def)
    then show ?thesis using m repair_keeps [of m ?v] by (auto simp: e)
  qed
  have "filter (\<lambda>m. \<not> is_tool m) ?v = filter (\<lambda>m. \<not> is_tool m) ms"
    by (auto simp: orphan_def is_tool_def intro: filter_cong)
  then show "filter (\<lambda>m. \<not> is_tool m) (exclude_orphans ms) = filter (\<lambda>m. \<not> is_tool m) ms"
    by (simp add: e repair_other_rows)
qed

definition row :: "nat \<Rightarrow> string \<Rightarrow> string \<Rightarrow> msg" where
  "row i r c = \<lparr>role = r, m_id = Some i, content = c, tool_calls = [], tool_call_id = [], view_pruned = False, up_to = None, m_meta = None\<rparr>"

definition call_row :: "nat \<Rightarrow> string \<Rightarrow> msg" where
  "call_row i c = (row i ''assistant'' [])\<lparr>tool_calls := [\<lparr>c_id = c, c_name = ''bash'', c_arguments = ''{}'', c_rejected = False\<rparr>]\<rparr>"

definition result_row :: "nat \<Rightarrow> string \<Rightarrow> string \<Rightarrow> msg" where
  "result_row i c s = (row i ''tool'' s)\<lparr>tool_call_id := c\<rparr>"

lemmas demo_rows = row_def call_row_def result_row_def

lemma calls_and_results_paired_witness:
  "\<exists>t \<in> set (exclude_orphans [call_row 4 ''c1'']). is_tool t \<and> tool_call_id t = ''c1''"
proof -
  have "call_row 4 ''c1'' \<in> set (exclude_orphans [call_row 4 ''c1''])"
    by (simp add: exclude_orphans_def repair_unanswered_tool_calls_def orphan_def demo_rows Let_def)
  then show ?thesis
    using calls_and_results_paired [of "[call_row 4 ''c1'']"] by (simp add: demo_rows tool_call_ids_def)
qed

section \<open>Groups and chunks\<close>

lemma group_partition: "concat (group_messages ms) = ms"
  by (induction ms rule: group_messages.induct) auto

lemma group_nonempty: "g \<in> set (group_messages ms) \<Longrightarrow> g \<noteq> []"
  by (induction ms rule: group_messages.induct) (auto split: if_splits)

lemma ids_of_append [simp]: "ids_of (xs @ ys) = ids_of xs @ ids_of ys"
  by (simp add: ids_of_def)

lemma ids_of_concat: "ids_of (concat gs) = concat (map ids_of gs)"
  by (induction gs) (simp_all add: ids_of_def)

lemma extend_ids [simp]: "ch_ids (extend_chunk env cur g) = ch_ids cur @ ids_of g"
  by (simp add: extend_chunk_def split: prod.splits)

lemma concat_take_rest: "\<exists>rest. concat (map f xs) = concat (map f (take k xs)) @ rest"
  by (rule exI [of _ "concat (map f (drop k xs))"]) (metis append_take_drop_id concat_append map_append)

lemma chunk_from_ids:
  "\<exists>rest. concat (map ch_ids dn) @ ch_ids cur @ concat (map ids_of gs)
     = concat (map ch_ids (chunk_from env n k dn cur gs)) @ rest"
proof (induction env n k dn cur gs rule: chunk_from.induct)
  case (1 env n k dn cur)
  show ?case
  proof (cases "ch_text cur = []")
    case True
    from concat_take_rest obtain rest where
      "concat (map ch_ids dn) = concat (map ch_ids (take k dn)) @ rest" by blast
    with True show ?thesis by (intro exI [of _ "rest @ ch_ids cur"]) (simp del: append_eq_append_conv)
  next
    case False
    then show ?thesis using concat_take_rest [of ch_ids "dn @ [cur]" k] by (auto simp del: take_append)
  qed
next
  case (2 env n k dn cur g gs)
  then show ?case by (auto simp: empty_chunk_def)
qed

lemma chunk_from_length: "length dn < k \<Longrightarrow> length (chunk_from env n k dn cur gs) \<le> k"
  by (induction env n k dn cur gs rule: chunk_from.induct) auto

lemma chunk_slice_ids: "\<exists>rest. ids_of ms = concat (map ch_ids (chunk_slice env ms)) @ rest"
proof -
  have "concat (map ids_of (group_messages ms)) = ids_of ms"
    by (metis group_partition ids_of_concat)
  then show ?thesis
    using chunk_from_ids [of "[]" empty_chunk "group_messages ms" env CHUNK_CHARS MAX_CHUNKS]
    by (simp add: chunk_slice_def empty_chunk_def)
qed

lemma summarize_prefix:
  "\<exists>k \<le> length chs. pg_covered (summarize_chunks env i chs p) = pg_covered p @ concat (map ch_ids (take k chs))
     \<and> (\<forall>j < k. summarize env (i + j) \<noteq> None)"
proof (induction env i chs p rule: summarize_chunks.induct)
  case (2 env i ch chs p)
  show ?case
  proof (cases "summarize env i")
    case None
    then show ?thesis by (intro exI [of _ 0]) simp
  next
    case resp: (Some r)
    show ?thesis
    proof (cases "accept_candidate env (pg_summary p) ch (py_strip r)")
      case None
      with resp show ?thesis by (intro exI [of _ 0]) simp
    next
      case (Some s)
      let ?p = "\<lparr>pg_summary = s, pg_covered = pg_covered p @ ch_ids ch, pg_clips = pg_clips p @ ch_clips ch,
        pg_used = pg_used p + 1\<rparr>"
      from "2.IH" [OF resp Some] obtain k where
        "pg_covered (summarize_chunks env (i + 1) chs ?p) = pg_covered p @ ch_ids ch @ concat (map ch_ids (take k chs))"
        "\<forall>j < k. summarize env (i + 1 + j) \<noteq> None" "k \<le> length chs" by auto
      with resp Some show ?thesis
        by (intro exI [of _ "Suc k"]) (auto simp: less_Suc_eq_0_disj)
    qed
  qed
qed simp

section \<open>The boundary\<close>

abbreviation id_of :: "msg \<Rightarrow> nat" where
  "id_of m \<equiv> the (m_id m)"

text \<open>What the store returns: every row with an id, in ascending order.\<close>

definition ordered_rows :: "msg list \<Rightarrow> bool" where
  "ordered_rows ms \<longleftrightarrow> list_all (\<lambda>m. m_id m \<noteq> None) ms \<and> sorted_wrt (<) (map id_of ms)"

lemma ordered_conversation: "ordered_rows raw \<Longrightarrow> ordered_rows (conversation prev raw)"
  unfolding ordered_rows_def conversation_def by (auto simp: list_all_iff sorted_wrt_map intro: sorted_wrt_filter)

lemma ids_of_ordered: "ordered_rows ms \<Longrightarrow> ids_of ms = map id_of ms"
  unfolding ordered_rows_def ids_of_def by (induction ms) auto

lemma ordered_append:
  "ordered_rows (xs @ ys) \<longleftrightarrow> ordered_rows xs \<and> ordered_rows ys \<and> (\<forall>x \<in> set xs. \<forall>y \<in> set ys. id_of x < id_of y)"
  by (auto simp: ordered_rows_def sorted_wrt_append)

lemma ordered_upto_last:
  assumes "ordered_rows (xs @ ys)" "xs \<noteq> []"
  shows "filter (\<lambda>m. id_of m \<le> id_of (last xs)) (xs @ ys) = xs"
proof -
  have "id_of x \<le> id_of (last xs)" if "x \<in> set xs" for x
  proof -
    from assms(2) have "xs = butlast xs @ [last xs]" by simp
    with assms(1) have "\<forall>y \<in> set (butlast xs). id_of y < id_of (last xs)"
      by (metis list.set_intros(1) ordered_append)
    with that assms(2) show ?thesis
      by (metis Un_iff append_butlast_last_id empty_iff empty_set le_less set_ConsD set_append)
  qed
  moreover have "\<not> id_of y \<le> id_of (last xs)" if "y \<in> set ys" for y
    using that assms by (auto simp: ordered_append not_le)
  ultimately show ?thesis by (simp add: filter_empty_conv)
qed

text \<open>What a compaction that was performed has gone through.\<close>

lemma compact_performed:
  assumes "compact_with_llm env ex hb tid raw = (Performed, Some mk)" "ordered_rows raw"
  defines "convo \<equiv> conversation (snd (previous_marker ex raw)) raw"
  defines "S \<equiv> foldable env hb tid convo"
  obtains P R where "convo = P @ R" "P \<noteq> []" "length P = mk_count mk" "length P \<le> length S"
    "mk_up_to mk = id_of (last P)" "snd (previous_marker ex raw) < mk_up_to mk"
    "\<exists>k \<le> MAX_CHUNKS. (\<forall>j < k. summarize env j \<noteq> None) \<and>
       id_of ` set P \<subseteq> set (concat (map ch_ids (take k (chunk_slice env S))))"
proof -
  obtain s0 prev where pm: "previous_marker ex raw = (s0, prev)" by fastforce
  let ?p0 = "\<lparr>pg_summary = (case s0 of Some s \<Rightarrow> s | None \<Rightarrow> []), pg_covered = [], pg_clips = [], pg_used = 0\<rparr>"
  define cov where "cov = pg_covered (summarize_chunks env 0 (chunk_slice env S) ?p0)"
  define P where "P = takeWhile (covered_row cov) S"
  define last_id where "last_id = (case ids_of P of [] \<Rightarrow> 0 | ids \<Rightarrow> last ids)"
  have mk: "prev < last_id" "mk_up_to mk = last_id" "mk_count mk = length P"
    using assms(1) unfolding compact_with_llm_def
    by (auto simp: pm Let_def convo_def [symmetric, simplified pm snd_conv] S_def [symmetric] cov_def [symmetric]
        P_def [symmetric] last_id_def [symmetric] split: if_splits)
  obtain b where S: "S = take b convo" by (simp add: S_def foldable_def Let_def)
  have "convo = P @ (dropWhile (covered_row cov) S @ drop b convo)"
    unfolding P_def by (metis S append.assoc append_take_drop_id takeWhile_dropWhile_id)
  moreover have ord: "ordered_rows convo" unfolding convo_def using assms(2) by (rule ordered_conversation)
  ultimately have "ordered_rows P" by (metis ordered_append)
  then have ids: "ids_of P = map id_of P" by (rule ids_of_ordered)
  then have "P \<noteq> []" using mk(1) by (auto simp: last_id_def)
  then have "last_id = last (ids_of P)" using ids unfolding last_id_def by (metis list.case_eq_if map_is_Nil_conv list.collapse)
  then have "last_id = id_of (last P)" using ids \<open>P \<noteq> []\<close> by (simp add: last_map)
  moreover obtain k where k: "k \<le> length (chunk_slice env S)"
    "cov = concat (map ch_ids (take k (chunk_slice env S)))" "\<forall>j < k. summarize env j \<noteq> None"
    using summarize_prefix [where chs = "chunk_slice env S" and i = 0 and p = ?p0] by (auto simp: cov_def)
  moreover have "length (chunk_slice env S) \<le> MAX_CHUNKS"
    unfolding chunk_slice_def by (rule chunk_from_length) (simp add: MAX_CHUNKS_def)
  moreover have "id_of ` set P \<subseteq> set cov"
    by (auto simp: P_def covered_row_def split: option.splits dest!: set_takeWhileD)
  ultimately show thesis
    using \<open>convo = P @ _\<close> \<open>P \<noteq> []\<close> mk
    by (intro that [of P]) (auto simp: pm P_def length_takeWhile_le intro!: exI [of _ k])
qed


lemma clamped: "first_index_from 0 (\<lambda>m. m_id m = Some t \<and> is_user m) convo = Some i \<Longrightarrow>
    clamp_boundary_to_live_turn convo b (Some t) \<le> i"
  by (simp add: clamp_boundary_to_live_turn_def Let_def)

lemma first_index_found:
  assumes "u \<in> set convo" "p u"
  obtains i where "first_index_from 0 p convo = Some i" "i < length convo" "p (convo ! i)"
proof -
  from assms obtain j where "j < length convo" "p (convo ! j)" by (auto simp: in_set_conv_nth)
  then have "first_index_from 0 p convo \<noteq> None" by (auto simp: first_index_from_def find_None_iff)
  then obtain i where i: "first_index_from 0 p convo = Some i" by blast
  then have "i < length convo" "p (convo ! i)" by (auto simp: first_index_from_def find_Some_iff)
  with i show thesis by (rule that)
qed

text \<open>The turn in flight stays: whatever the token arithmetic says, the boundary of a
  compaction lies before the user row that opened the current turn, as long as that row is among
  the rows not folded yet.\<close>

theorem live_turn_never_folded:
  assumes "compact_with_llm env ex hb (Some t) raw = (Performed, Some mk)" "ordered_rows raw"
    and "u \<in> set (conversation (snd (previous_marker ex raw)) raw)" "m_id u = Some t" "is_user u"
  shows "mk_up_to mk < t"
proof -
  define convo where "convo = conversation (snd (previous_marker ex raw)) raw"
  obtain P R where PR: "convo = P @ R" "P \<noteq> []" "length P \<le> length (foldable env hb (Some t) convo)"
    "mk_up_to mk = id_of (last P)"
    using compact_performed [OF assms(1,2)] unfolding convo_def by metis
  obtain i where i: "first_index_from 0 (\<lambda>m. m_id m = Some t \<and> is_user m) convo = Some i"
    "i < length convo" "m_id (convo ! i) = Some t"
    using first_index_found [of u convo "\<lambda>m. m_id m = Some t \<and> is_user m"] assms(3-5) unfolding convo_def by metis
  have "length (foldable env hb (Some t) convo) \<le> i"
    unfolding foldable_def Let_def length_take using clamped [OF i(1)] by (rule min.coboundedI2)
  with PR(3) have "length P \<le> i" by (rule le_trans)
  then have "convo ! i \<in> set R" using i(2) PR(1) by (auto simp: nth_append)
  moreover have "ordered_rows (P @ R)" using ordered_conversation [OF assms(2)] PR(1) by (metis convo_def)
  ultimately have "id_of (last P) < id_of (convo ! i)" using PR(2) by (simp add: ordered_append)
  then show ?thesis using i(3) PR(4) by simp
qed

text \<open>A run on seven rows: the call of row 4 costs more than what may be kept, its result in row 5 does
  not.\<close>

definition demo_env :: summ_env where
  "demo_env = \<lparr>render_call = (\<lambda>c s. if s = No_Result then ''bash -> no result'' else ''bash -> ok''),
     clip_note = (\<lambda>n i. []), count_text = (\<lambda>s. 10 * int (length s)),
     count_message = (\<lambda>m. if m_id m = Some 4 then 5000 else 10), summarize = (\<lambda>k. Some ''ok''),
     configured_keep = 2000, session_budget = 8000\<rparr>"

definition demo_rows_7 :: "msg list" where
  "demo_rows_7 = [row 1 ''user'' ''hello'', row 2 ''assistant'' ''hi'', row 3 ''user'' ''run it'', call_row 4 ''c1'',
     result_row 5 ''c1'' ''done'', row 6 ''assistant'' ''ran'', row 7 ''user'' ''next'']"

lemma demo_conversation: "conversation (snd (previous_marker None demo_rows_7)) demo_rows_7 = demo_rows_7"
  by (simp add: conversation_def previous_marker_def demo_rows_7_def demo_rows MARKER_ROLES_def)

lemma demo_ordered: "ordered_rows demo_rows_7"
  by (simp add: ordered_rows_def demo_rows_7_def demo_rows)

lemma demo_foldable: "foldable demo_env None (Some 7) demo_rows_7 = take 4 demo_rows_7"
  by (simp add: foldable_def demo_rows_7_def demo_rows demo_env_def resolve_keep_tokens_def keep_boundary_def
      clamp_boundary_to_live_turn_def first_index_from_def is_user_def MIN_KEEP_TOKENS_def)

lemma demo_groups:
  "group_messages (take 4 demo_rows_7)
     = [[row 1 ''user'' ''hello''], [row 2 ''assistant'' ''hi''], [row 3 ''user'' ''run it''], [call_row 4 ''c1'']]"
  by (simp add: demo_rows_7_def calls_of_head_def demo_rows)

lemma demo_lines:
  "serialize_group demo_env [row 1 ''user'' ''hello''] = (''[user #1] hello'', [])"
  "serialize_group demo_env [row 2 ''assistant'' ''hi''] = (''[assistant #2] hi'', [])"
  "serialize_group demo_env [row 3 ''user'' ''run it''] = (''[user #3] run it'', [])"
  "serialize_group demo_env [call_row 4 ''c1''] = (''[tool_call #4] bash -> no result'', [])"
  by (simp_all add: serialize_group_def row_lines_def calls_of_head_def demo_rows clip_body_def BODY_CLIP_CHARS_def
      tag_of_def dec.simps is_tool_def call_status_def result_for_def demo_env_def py_strip_def py_lstrip_def
      py_rstrip_def char_of_def bit_Suc_0_iff)

lemma demo_ids: "ids_of [row i r c] = [i]" "ids_of [call_row i c'] = [i]"
  by (simp_all add: ids_of_def demo_rows)

lemma demo_chunks:
  "chunk_slice demo_env (take 4 demo_rows_7)
     = [\<lparr>ch_text = join_with [nl] [''[user #1] hello'', ''[assistant #2] hi'', ''[user #3] run it'', 
          ''[tool_call #4] bash -> no result''], ch_ids = [1, 2, 3, 4], ch_clips = []\<rparr>]"
  unfolding chunk_slice_def demo_groups
  by (simp add: demo_lines demo_ids extend_chunk_def empty_chunk_def CHUNK_CHARS_def MAX_CHUNKS_def del: One_nat_def)

lemma demo_accept: "length (ch_text ch) > 20 \<Longrightarrow> accept_candidate demo_env [] ch ''ok'' = Some ''ok''"
  by (simp add: accept_candidate_def demo_env_def)

definition demo_marker :: marker where
  "demo_marker = \<lparr>mk_summary = ''ok'', mk_footer = Some \<lparr>f_from = 1, f_to = 4, f_rows = 4, f_calls = 1, f_clips = [],
     f_groups_left = 0\<rparr>, mk_up_to = 4, mk_count = 4, mk_chunks_planned = 1, mk_clips = []\<rparr>"

lemma demo_prefix: "takeWhile (covered_row [1, 2, 3, 4]) (take 4 demo_rows_7) = take 4 demo_rows_7"
  "ids_of (take 4 demo_rows_7) = [1, 2, 3, 4]" "length (take 4 demo_rows_7) = 4"
  by (simp_all add: demo_rows_7_def demo_rows covered_row_def ids_of_def del: One_nat_def)

lemma demo_previous: "previous_marker None demo_rows_7 = (None, 0)"
  by (simp add: previous_marker_def demo_rows_7_def demo_rows)

lemma demo_ok: "summarize demo_env 0 = Some ''ok''" "py_strip ''ok'' = ''ok''"
  by (simp_all add: demo_env_def py_strip_def py_lstrip_def py_rstrip_def py_space_def)

lemma demo_all: "conversation 0 demo_rows_7 = demo_rows_7"
  using demo_conversation by (simp add: demo_previous)

lemma demo_run: "compact_with_llm demo_env None None (Some 7) demo_rows_7 = (Performed, Some demo_marker)"
proof -
  obtain ch where ch: "chunk_slice demo_env (take 4 demo_rows_7) = [ch]" "ch_ids ch = [1, 2, 3, 4]" "ch_clips ch = []"
    "length (ch_text ch) > 20" using demo_chunks by simp
  then have p: "summarize_chunks demo_env 0 (chunk_slice demo_env (take 4 demo_rows_7))
      \<lparr>pg_summary = [], pg_covered = [], pg_clips = [], pg_used = 0\<rparr>
    = \<lparr>pg_summary = ''ok'', pg_covered = [1, 2, 3, 4], pg_clips = [], pg_used = 1\<rparr>"
    by (simp add: demo_ok demo_accept del: One_nat_def)
  show ?thesis
    unfolding compact_with_llm_def demo_previous case_prod_conv Let_def demo_all demo_foldable option.case p progress.select_convs
      demo_prefix
    by (simp add: ch demo_marker_def coverage_footer_def META_CLIPS_def del: One_nat_def)
qed


lemma live_turn_never_folded_witness: "mk_up_to demo_marker < 7"
  by (rule live_turn_never_folded [OF demo_run demo_ordered, of "row 7 ''user'' ''next''"])
    (simp_all add: demo_conversation, simp_all add: demo_rows_7_def row_def is_user_def)

text \<open>The token budget can put the boundary inside an exchange: here the call of row 4 is folded
  away as a call without a result, although row 5 holds its result, and row 5, left in the live
  window without its call, is dropped from the transcript; its content reaches neither the summary
  nor the model.\<close>

theorem boundary_splits_exchange:
  "compact_with_llm demo_env None None (Some 7) demo_rows_7 = (Performed, Some demo_marker)
   \<and> mk_up_to demo_marker = 4
   \<and> result_row 5 ''c1'' ''done'' \<in> set demo_rows_7
   \<and> (let c = hd (tool_calls (call_row 4 ''c1''))
      in call_status [call_row 4 ''c1''] c = No_Result
       \<and> call_status [call_row 4 ''c1'', result_row 5 ''c1'' ''done''] c = Call_Ok
       \<and> [call_row 4 ''c1''] \<in> set (group_messages (take (mk_count demo_marker) demo_rows_7)))
   \<and> exclude_orphans (filter (\<lambda>m. id_of m > mk_up_to demo_marker) demo_rows_7)
       = [row 6 ''assistant'' ''ran'', row 7 ''user'' ''next'']"
proof (intro conjI)
  show "compact_with_llm demo_env None None (Some 7) demo_rows_7 = (Performed, Some demo_marker)" by (rule demo_run)
  show "let c = hd (tool_calls (call_row 4 ''c1''))
      in call_status [call_row 4 ''c1''] c = No_Result
       \<and> call_status [call_row 4 ''c1'', result_row 5 ''c1'' ''done''] c = Call_Ok
       \<and> [call_row 4 ''c1''] \<in> set (group_messages (take (mk_count demo_marker) demo_rows_7))"
  proof -
    have "[call_row 4 ''c1''] \<in> set (group_messages (take (mk_count demo_marker) demo_rows_7))"
      by (simp add: demo_marker_def demo_groups)
    then show ?thesis
      by (simp add: call_status_def result_for_def demo_rows is_tool_def py_lstrip_def starts_with_def)
  qed
  show "exclude_orphans (filter (\<lambda>m. id_of m > mk_up_to demo_marker) demo_rows_7)
      = [row 6 ''assistant'' ''ran'', row 7 ''user'' ''next'']"
    by (simp add: demo_rows_7_def demo_marker_def demo_rows exclude_orphans_def orphan_def valid_ids_def
        repair_unanswered_tool_calls_def tool_call_ids_def)
qed (simp_all add: demo_marker_def demo_rows_7_def)

end
