(* ===== verification/Turn_Exec.thy ===== *)
theory Turn_Exec
  imports State_Machine
begin

text \<open>
  \<open>sessions/manager.py\<close>: how a message is admitted, and the handle that carries its outcome.

  Handles (\<open>TurnExecution\<close>) are shared objects, so they live in the store \<open>m_execs\<close> of the
  manager's record and are named by numbers.  \<open>m_turn\<close> is the handle that the session's live task
  carries as its argument.  The transcript is reduced to the texts of its user rows, with a counter
  for the next row id; the session's clock budget, the snooze signals and the audit rows are left
  out.  \<open>prompt\<close> and \<open>process_pending\<close> run under the session's lock, so each is one step.
\<close>

section \<open>Combining rapid messages\<close>

definition COMBINED_PREFIX :: string where
  "COMBINED_PREFIX = ''[Combined rapid-fire messages]''"

text \<open>The number of an item line, read by the pattern \<open>^(\d+)\.\s\<close>; a line keeps its terminator.\<close>

definition is_digit :: "char \<Rightarrow> bool" where
  "is_digit c \<longleftrightarrow> (let n = (of_char c :: nat) in 48 \<le> n \<and> n \<le> 57)"

definition item_number :: "string \<Rightarrow> nat option" where
  "item_number l = (let ds = takeWhile is_digit l in
     if ds = [] then None
     else case dropWhile is_digit l of
         d # c # _ \<Rightarrow> if d = CHR ''.'' \<and> py_space c then Some (undec ds) else None
       | _ \<Rightarrow> None)"

definition item_numbers :: "string \<Rightarrow> nat list" where
  "item_numbers s = (let ls = split_on nl s in
     List.map_filter item_number (map (\<lambda>l. l @ [nl]) (butlast ls) @ [last ls]))"

definition combine_rapid_fire :: "string \<Rightarrow> string \<Rightarrow> string" where
  "combine_rapid_fire existing addition =
     (if starts_with COMBINED_PREFIX existing then
        let nums = item_numbers existing; next_num = (if nums = [] then 0 else Max (set nums)) + 1
        in existing @ [nl, nl] @ dec next_num @ ''. '' @ addition
      else COMBINED_PREFIX @ [nl, nl] @ ''1. '' @ existing @ [nl, nl] @ ''2. '' @ addition)"

section \<open>Handles\<close>

record exec_options =
  eo_model :: "string option"
  eo_tools :: "string set option"
  eo_budget :: "int option"

text \<open>Which options count as given: the empty ones do not.\<close>

definition given_model :: "exec_options \<Rightarrow> bool" where
  "given_model o' \<longleftrightarrow> eo_model o' \<notin> {None, Some []}"

definition given_tools :: "exec_options \<Rightarrow> bool" where
  "given_tools o' \<longleftrightarrow> eo_tools o' \<notin> {None, Some {}}"

definition given_budget :: "exec_options \<Rightarrow> bool" where
  "given_budget o' \<longleftrightarrow> eo_budget o' \<notin> {None, Some 0}"

definition is_empty :: "exec_options \<Rightarrow> bool" where
  "is_empty o' \<longleftrightarrow> \<not> (given_model o' \<or> given_tools o' \<or> given_budget o')"

datatype exec_result =
    EXEC_COMPLETED | EXEC_FAILED | EXEC_CANCELLED | EXEC_REJECTED | EXEC_DROPPED | EXEC_ABSORBED

datatype exec_state = X_Pending | X_Running | X_Terminal exec_result

record turn_execution =
  x_options :: "exec_options option"
  x_origin :: string
  x_msg_id :: "int option"
  x_state :: exec_state
  x_result :: "exec_result option"
  x_error :: "string option"
  x_termination :: "string option"

definition new_execution :: "exec_options option \<Rightarrow> string \<Rightarrow> turn_execution" where
  "new_execution opts origin = \<lparr>x_options = opts, x_origin = origin, x_msg_id = None, x_state = X_Pending,
     x_result = None, x_error = None, x_termination = None\<rparr>"

definition settled :: "turn_execution \<Rightarrow> bool" where
  "settled x \<longleftrightarrow> x_result x \<noteq> None"

definition mark_running :: "turn_execution \<Rightarrow> turn_execution" where
  "mark_running x = (if settled x then x else x\<lparr>x_state := X_Running\<rparr>)"

definition settle ::
    "exec_result \<Rightarrow> string option \<Rightarrow> string option \<Rightarrow> turn_execution \<Rightarrow> bool \<times> turn_execution" where
  "settle r err tr x = (if settled x then (False, x)
     else (True, x\<lparr>x_result := Some r, x_error := err, x_termination := tr, x_state := X_Terminal r\<rparr>))"

section \<open>The manager's tables\<close>

record applied_exec =
  ap_exec :: nat
  ap_model :: "string option"
  ap_tools :: "string set option"
  ap_budget :: "int option"

record manager =
  m_execs :: "nat \<Rightarrow> turn_execution"
  m_next :: nat
  m_pending :: "string \<rightharpoonup> (int \<times> nat) list"
  m_active :: "string \<rightharpoonup> applied_exec"
  m_turn :: "string \<rightharpoonup> nat"
  m_rows :: "int \<rightharpoonup> string"
  m_next_row :: int

definition new_manager :: manager where
  "new_manager = \<lparr>m_execs = (\<lambda>_. new_execution None ''user''), m_next = 0, m_pending = Map.empty,
     m_active = Map.empty, m_turn = Map.empty, m_rows = Map.empty, m_next_row = 1\<rparr>"

definition on_exec :: "nat \<Rightarrow> (turn_execution \<Rightarrow> turn_execution) \<Rightarrow> manager \<Rightarrow> manager" where
  "on_exec x f m = m\<lparr>m_execs := (m_execs m)(x := f (m_execs m x))\<rparr>"

definition settle_exec :: "exec_result \<Rightarrow> string option \<Rightarrow> string option \<Rightarrow> nat \<Rightarrow> manager \<Rightarrow> manager" where
  "settle_exec r err tr x = on_exec x (\<lambda>e. snd (settle r err tr e))"

definition parked_of :: "string \<Rightarrow> manager \<Rightarrow> (int \<times> nat) list" where
  "parked_of sid m = (case m_pending m sid of None \<Rightarrow> [] | Some d \<Rightarrow> d)"

text \<open>An inner dictionary that has become empty is dropped.\<close>

definition put_parked :: "string \<Rightarrow> (int \<times> nat) list \<Rightarrow> manager \<Rightarrow> manager" where
  "put_parked sid d m = m\<lparr>m_pending := (m_pending m)(sid := (if d = [] then None else Some d))\<rparr>"

definition register_pending_exec :: "string \<Rightarrow> int option \<Rightarrow> nat \<Rightarrow> manager \<Rightarrow> manager" where
  "register_pending_exec sid row x m = (case row of None \<Rightarrow> m
     | Some i \<Rightarrow> on_exec x (\<lambda>e. e\<lparr>x_msg_id := Some i\<rparr>) (put_parked sid (dict_set i x (parked_of sid m)) m))"

definition take_pending_exec :: "string \<Rightarrow> int option \<Rightarrow> manager \<Rightarrow> nat option \<times> manager" where
  "take_pending_exec sid row m = (case row of None \<Rightarrow> (None, m)
     | Some i \<Rightarrow> if parked_of sid m = [] then (None, m)
         else (map_of (parked_of sid m) i, put_parked sid (dict_pop i (parked_of sid m)) m))"

fun reap_ids :: "string \<Rightarrow> exec_result \<Rightarrow> string option \<Rightarrow> int option list \<Rightarrow> manager \<Rightarrow> manager" where
  "reap_ids sid r err [] m = m"
| "reap_ids sid r err (None # is) m = reap_ids sid r err is m"
| "reap_ids sid r err (Some i # is) m = reap_ids sid r err is
     (case map_of (parked_of sid m) i of None \<Rightarrow> m
      | Some x \<Rightarrow> settle_exec r err None x (put_parked sid (dict_pop i (parked_of sid m)) m))"

definition queued_ids :: "agent_session \<Rightarrow> int set" where
  "queued_ids s = {i. \<exists>e \<in> set (pending_messages s). msg_id e = Some i}"

text \<open>Without a list of ids: those parked whose row is not queued.\<close>

definition reap_pending_execs ::
    "agent_session \<Rightarrow> exec_result \<Rightarrow> string option \<Rightarrow> int option list option \<Rightarrow> manager \<Rightarrow> manager" where
  "reap_pending_execs s r err ids m =
     (let sid = session_id s in
      if parked_of sid m = [] then m
      else reap_ids sid r err
             (case ids of Some is \<Rightarrow> is
              | None \<Rightarrow> map Some (filter (\<lambda>i. i \<notin> queued_ids s) (map fst (parked_of sid m)))) m)"

section \<open>The settings of one turn\<close>

definition restore_session_settings :: "exec_options option \<Rightarrow> applied_exec \<Rightarrow> agent_session \<Rightarrow> agent_session" where
  "restore_session_settings opts applied s = (case opts of None \<Rightarrow> s
     | Some o' \<Rightarrow>
         let s1 = (if given_model o' then s\<lparr>model_override := ap_model applied\<rparr> else s);
             s2 = (if given_tools o' then s1\<lparr>tool_allowlist := ap_tools applied\<rparr> else s1)
         in if given_budget o' then s2\<lparr>context_budget_override := ap_budget applied\<rparr> else s2)"

definition put_settings :: "exec_options \<Rightarrow> agent_session \<Rightarrow> agent_session" where
  "put_settings o' s =
     (let s1 = (if given_model o' then s\<lparr>model_override := eo_model o'\<rparr> else s);
          s2 = (if given_tools o' then s1\<lparr>tool_allowlist := eo_tools o'\<rparr> else s1)
      in if given_budget o' then s2\<lparr>context_budget_override := eo_budget o'\<rparr> else s2)"

definition apply_execution :: "nat option \<Rightarrow> agent_session \<times> manager \<Rightarrow> agent_session \<times> manager" where
  "apply_execution execution = (\<lambda>(s0, m0).
     let sid = session_id s0;
         s = (case m_active m0 sid of None \<Rightarrow> s0
              | Some stale \<Rightarrow> restore_session_settings (x_options (m_execs m0 (ap_exec stale))) stale s0);
         m = m0\<lparr>m_active := (m_active m0)(sid := None)\<rparr>
     in case execution of None \<Rightarrow> (s, m)
        | Some x \<Rightarrow> (case x_options (m_execs m x) of None \<Rightarrow> (s, m)
            | Some o' \<Rightarrow>
                if is_empty o' then (s, m)
                else (put_settings o' s, m\<lparr>m_active := (m_active m)(sid \<mapsto>
                   \<lparr>ap_exec = x, ap_model = model_override s, ap_tools = tool_allowlist s,
                    ap_budget = context_budget_override s\<rparr>)\<rparr>)))"

definition release_execution :: "nat option \<Rightarrow> agent_session \<times> manager \<Rightarrow> agent_session \<times> manager" where
  "release_execution execution = (\<lambda>(s, m). case execution of None \<Rightarrow> (s, m)
     | Some x \<Rightarrow> (case m_active m (session_id s) of None \<Rightarrow> (s, m)
         | Some applied \<Rightarrow>
             if ap_exec applied \<noteq> x then (s, m)
             else (restore_session_settings (x_options (m_execs m x)) applied s,
                   m\<lparr>m_active := (m_active m)(session_id s := None)\<rparr>)))"

text \<open>
  The two other writers of these settings: the user's choice of a model (\<open>api/routers/sessions.py\<close>)
  and the agent's own switch (\<open>core/extensions/model_mgmt\<close>), which for one turn remembers what
  it displaced (the empty text and -1 for ``nothing'').  \<open>restore_agent_model\<close> lifts it.
\<close>

definition choose_model :: "string option \<Rightarrow> agent_session \<Rightarrow> agent_session" where
  "choose_model sel s =
     (let o' = (case sel of None \<Rightarrow> None | Some m \<Rightarrow> if py_strip m = [] then None else Some (py_strip m));
          s1 = s\<lparr>model_override := o', model_before_agent_switch := None, budget_before_agent_switch := None\<rparr>
      in if o' = None then s1\<lparr>context_budget_override := None\<rparr> else s1)"

definition switch_session_model :: "bool \<Rightarrow> string \<Rightarrow> int option \<Rightarrow> int \<Rightarrow> agent_session \<Rightarrow> agent_session" where
  "switch_session_model for_session m window default_budget s =
     (let s1 = (if for_session then s\<lparr>model_before_agent_switch := None, budget_before_agent_switch := None\<rparr>
                else if model_before_agent_switch s = None then
                  s\<lparr>model_before_agent_switch := Some (case model_override s of None \<Rightarrow> [] | Some old \<Rightarrow> old),
                    budget_before_agent_switch :=
                      Some (case context_budget_override s of None \<Rightarrow> -1 | Some b \<Rightarrow> b)\<rparr>
                else s);
          new_budget = (case window of Some n \<Rightarrow> n
             | None \<Rightarrow> (case context_budget_override s of None \<Rightarrow> default_budget
                 | Some b \<Rightarrow> if b = 0 then default_budget else b))
      in s1\<lparr>model_override := Some m, context_budget_override := Some new_budget\<rparr>)"

definition restored_override_event :: "string \<Rightarrow> agent_session \<Rightarrow> string option \<Rightarrow> event_payload" where
  "restored_override_event default_model s to_model = Other_Event ''model.override''
     [(''from'', case model_override s of None \<Rightarrow> default_model | Some m \<Rightarrow> if m = [] then default_model else m),
      (''to'', case to_model of None \<Rightarrow> ''null'' | Some m \<Rightarrow> m),
      (''active'', if to_model = None then ''false'' else ''true'')]"

definition restore_agent_model ::
    "rat \<Rightarrow> string \<Rightarrow> agent_session \<times> world \<Rightarrow> agent_session \<times> world" where
  "restore_agent_model now default_model = (\<lambda>(s, w). case model_before_agent_switch s of None \<Rightarrow> (s, w)
     | Some before \<Rightarrow>
         let to_model = (if before \<noteq> [] then Some before else None);
             s1 = s\<lparr>model_before_agent_switch := None, model_override := to_model,
                    budget_before_agent_switch := None,
                    context_budget_override := (if budget_before_agent_switch s \<in> {None, Some (-1)} then None
                                                else budget_before_agent_switch s)\<rparr>
         in emit_event now (restored_override_event default_model s to_model) None (s1, w))"

section \<open>The ends of a turn\<close>

text \<open>The outcome that the last block of \<open>_run_agent_safe\<close> reads off the session.\<close>

definition outcome_of_turn :: "agent_session \<Rightarrow> exec_result" where
  "outcome_of_turn s =
     (if termination_reason s = Some ''cancelled'' \<or> cancel_requested s then EXEC_CANCELLED
      else if error s \<notin> {None, Some []}
        \<or> termination_reason s \<in> Some ` {''error'', ''scout_error'', ''compaction_failed'', ''interrupted''}
      then EXEC_FAILED else EXEC_COMPLETED)"

definition settle_turn ::
    "rat \<Rightarrow> string \<Rightarrow> nat option \<Rightarrow> agent_session \<times> world \<times> manager \<Rightarrow> agent_session \<times> world \<times> manager" where
  "settle_turn now default_model execution = (\<lambda>(s0, w0, m0).
     let (s1, w) = restore_agent_model now default_model (s0, w0);
         (s, m) = release_execution execution (s1, m0)
     in (s, w, case execution of None \<Rightarrow> m
               | Some x \<Rightarrow> settle_exec (outcome_of_turn s) (error s) (termination_reason s) x m))"

text \<open>The head of \<open>_run_agent_safe\<close>, up to the transition that opens the turn.\<close>

definition begin_turn :: "nat option \<Rightarrow> agent_session \<times> manager \<Rightarrow> agent_session \<times> manager" where
  "begin_turn execution = (\<lambda>(s, m). apply_execution execution (s\<lparr>turn := new_turn\<rparr>, m))"

text \<open>The user removes a queued message; a cancel empties the queue.\<close>

fun remove_entry :: "int \<Rightarrow> pending_message list \<Rightarrow> pending_message list option" where
  "remove_entry i [] = None"
| "remove_entry i (e # es) = (if msg_id e = Some i then Some es else map_option (Cons e) (remove_entry i es))"

definition remove_pending ::
    "rat \<Rightarrow> int \<Rightarrow> agent_session \<times> world \<times> manager \<Rightarrow> bool \<times> agent_session \<times> world \<times> manager" where
  "remove_pending now i = (\<lambda>(s, w, m). case remove_entry i (pending_messages s) of None \<Rightarrow> (False, s, w, m)
     | Some es \<Rightarrow>
         let s1 = s\<lparr>pending_messages := es,
                    last_user_msg_id := (if last_user_msg_id s = Some i then None else last_user_msg_id s)\<rparr>;
             (s2, w2) = emit_event now (Other_Event ''session.queue_removed'' [(''message_id'', dec (nat i)),
                (''queue_depth'', dec (length es))]) None (s1, w)
         in (True, s2, w2, m\<lparr>m_rows := (m_rows m)(i := None)\<rparr>))"

definition drain_pending_for_cancel ::
    "agent_session \<times> manager \<Rightarrow> (nat \<times> int list \<times> int option) \<times> agent_session \<times> manager" where
  "drain_pending_for_cancel = (\<lambda>(s, m).
     let ids = List.map_filter msg_id (pending_messages s); s1 = s\<lparr>pending_messages := []\<rparr> in
     ((length (pending_messages s), ids, current_turn_user_msg_id s), s1,
      reap_pending_execs s1 EXEC_CANCELLED (Some ''queued work cancelled'') None m))"

section \<open>Dispatch from the queue\<close>

text \<open>
  What admission and dispatch read from outside: the readings of \<open>shutting_down\<close> in order,
  whether the caller is the session's own task, the queue limit, whether a runner is installed,
  whether the running turn's row has its final answer (\<^const>\<open>None\<close> when the query raises), the
  orphaned rows, whether the session is still registered; for a continuation, the status of its goal
  (\<^const>\<open>None\<close> when the lookup raises, \<open>Some None\<close> when the goal is gone) and whether the claim
  is granted.
\<close>

record adm_env =
  a_down :: "nat \<Rightarrow> bool"
  a_own_task :: bool
  a_max_pending :: nat
  a_now :: rat
  a_wall :: rat
  a_runner :: bool
  a_answered :: "bool option"
  a_orphans :: "(int \<times> string) list"
  a_registered :: bool
  a_goal_status :: "int \<Rightarrow> string option option"
  a_claim :: "int \<Rightarrow> bool"

definition turn_in_flight :: "bool \<Rightarrow> agent_session \<Rightarrow> bool" where
  "turn_in_flight own s \<longleftrightarrow> task s = Task_Running \<and> \<not> own"

definition admit_continuation ::
    "adm_env \<Rightarrow> agent_session \<Rightarrow> pending_message list \<Rightarrow> pending_message \<Rightarrow> bool" where
  "admit_continuation env s queue e = (case continuation_id e of None \<Rightarrow> True
     | Some cid \<Rightarrow> \<not> cancel_requested s \<and> pause_set s \<and> a_goal_status env cid = Some (Some ''active'')
         \<and> list_all (\<lambda>q. msg_id q = None) queue \<and> a_claim env cid)"

fun pop_admitted ::
    "adm_env \<Rightarrow> agent_session \<Rightarrow> pending_message list \<Rightarrow> manager
     \<Rightarrow> pending_message option \<times> pending_message list \<times> manager" where
  "pop_admitted env s [] m = (None, [], m)"
| "pop_admitted env s (e # es) m =
     (if admit_continuation env s es e then (Some e, es, m)
      else pop_admitted env s es
             (reap_pending_execs s EXEC_DROPPED (Some ''continuation refused'') (Some [msg_id e]) m))"

text \<open>The start of a turn's task, which carries its handle.\<close>

definition start_turn_task :: "nat option \<Rightarrow> agent_session \<times> manager \<Rightarrow> agent_session \<times> manager" where
  "start_turn_task execution = (\<lambda>(s, m).
     (s\<lparr>task := Task_Running\<rparr>, m\<lparr>m_turn := (m_turn m)(session_id s := execution)\<rparr>))"

definition process_pending ::
    "adm_env \<Rightarrow> sstate set \<Rightarrow> agent_session \<times> manager \<Rightarrow> agent_session \<times> manager" where
  "process_pending env ready = (\<lambda>(s, m0).
     if a_down env 0 \<or> a_down env 1 then (s, m0)
     else
       let m = reap_pending_execs s EXEC_DROPPED None None m0 in
       if pending_messages s = [] \<or> current_state s \<notin> ready \<or> \<not> a_registered env
         \<or> turn_in_flight (a_own_task env) s then (s, m)
       else (case pop_admitted env s (pending_messages s) m of
           (None, rest, m1) \<Rightarrow> (s\<lparr>pending_messages := rest\<rparr>, m1)
         | (Some e, rest, m1) \<Rightarrow>
             let s1 = s\<lparr>pending_messages := rest, goal_continuation_active := is_goal_continuation e,
                        current_turn_user_msg_id := (case msg_id e of None \<Rightarrow> current_turn_user_msg_id s
                                                     | Some i \<Rightarrow> Some i),
                        error := None, termination_reason := None\<rparr>;
                 (x, m2) = take_pending_exec (session_id s) (msg_id e) m1;
                 m3 = (case x of None \<Rightarrow> m2 | Some k \<Rightarrow> on_exec k mark_running m2)
             in start_turn_task x (s1, m3)))"

section \<open>Admission\<close>

datatype admission_outcome = ADMIT_STARTED | ADMIT_QUEUED | ADMIT_ABSORBED | ADMIT_REJECTED

record admission =
  ad_outcome :: admission_outcome
  ad_execution :: nat
  ad_reason :: string
  ad_msg_id :: "int option"

definition accepted :: "admission \<Rightarrow> bool" where
  "accepted a \<longleftrightarrow> ad_outcome a \<in> {ADMIT_STARTED, ADMIT_QUEUED}"

type_synonym adm_state = "agent_session \<times> world \<times> manager"

definition reject_admission ::
    "rat \<Rightarrow> nat \<Rightarrow> string \<Rightarrow> adm_state \<Rightarrow> admission \<times> adm_state" where
  "reject_admission now x reason = (\<lambda>(s, w, m).
     let (s1, w1) = emit_event now (Other_Event ''session.prompt_rejected'' [(''reason'', reason)]) None (s, w)
     in (\<lparr>ad_outcome = ADMIT_REJECTED, ad_execution = x, ad_reason = reason, ad_msg_id = None\<rparr>,
         s1, w1, settle_exec EXEC_REJECTED (Some reason) None x m))"

definition save_prompt :: "string \<Rightarrow> manager \<Rightarrow> int \<times> manager" where
  "save_prompt txt m = (m_next_row m,
     m\<lparr>m_rows := (m_rows m)(m_next_row m \<mapsto> txt), m_next_row := m_next_row m + 1\<rparr>)"

text \<open>\<open>_can_absorb_rapid_fire\<close>, with the event it may emit.\<close>

definition can_absorb_rapid_fire :: "adm_env \<Rightarrow> int \<Rightarrow> agent_session \<times> world \<Rightarrow> bool \<times> agent_session \<times> world" where
  "can_absorb_rapid_fire env target = (\<lambda>(s, w).
     if Some target \<noteq> current_turn_user_msg_id s then (True, s, w)
     else case a_answered env of
         None \<Rightarrow> (False, s, w)
       | Some False \<Rightarrow> (True, s, w)
       | Some True \<Rightarrow> (False, emit_event (a_wall env) (Other_Event ''session.message_combine_skipped''
             [(''message_id'', dec (nat target)), (''reason'', ''turn_already_answered'')]) None (s, w)))"

definition RAPID_FIRE_WINDOW_SECONDS :: rat where "RAPID_FIRE_WINDOW_SECONDS = 3"

text \<open>The first queued entry with the row gets the combined text.\<close>

fun rewrite_entry :: "int \<Rightarrow> string \<Rightarrow> rat \<Rightarrow> pending_message list \<Rightarrow> pending_message list" where
  "rewrite_entry i txt' now [] = []"
| "rewrite_entry i txt' now (e # es) =
     (if msg_id e = Some i then e\<lparr>message := txt', queued_at := now\<rparr> # es else e # rewrite_entry i txt' now es)"

definition absorb :: "adm_env \<Rightarrow> int \<Rightarrow> string \<Rightarrow> string \<Rightarrow> nat \<Rightarrow> adm_state \<Rightarrow> admission \<times> adm_state" where
  "absorb env target existing msg x = (\<lambda>(s, w, m).
     let combined = combine_rapid_fire existing msg;
         running = (Some target = current_turn_user_msg_id s);
         s1 = s\<lparr>turn := (if running then (turn s)\<lparr>user_row_version := user_row_version (turn s) + 1\<rparr> else turn s),
                last_user_msg_at := a_now env,
                pending_messages := rewrite_entry target combined (a_now env) (pending_messages s)\<rparr>;
         (s2, w2) = emit_event (a_wall env) (Other_Event ''session.message_combined''
            [(''message_id'', dec (nat target)), (''scout_stale'', if running then ''true'' else ''false'')]) None (s1, w)
     in (\<lparr>ad_outcome = ADMIT_ABSORBED, ad_execution = x, ad_reason = [], ad_msg_id = Some target\<rparr>, s2, w2,
         settle_exec EXEC_ABSORBED None None x (m\<lparr>m_rows := (m_rows m)(target \<mapsto> combined)\<rparr>)))"

text \<open>An entry for a saved message, at the end of the queue.\<close>

definition queue_entry :: "string \<Rightarrow> string option \<Rightarrow> rat \<Rightarrow> int option \<Rightarrow> pending_message" where
  "queue_entry msg prompt' now row = \<lparr>message = msg, system_prompt = prompt', pre_saved = True, queued_at = now,
     msg_id = row, is_goal_continuation = False, continuation_id = None\<rparr>"

definition enqueue :: "pending_message \<Rightarrow> agent_session \<Rightarrow> agent_session" where
  "enqueue e s = s\<lparr>pending_messages := pending_messages s @ [e]\<rparr>"

definition queue_message ::
    "adm_env \<Rightarrow> string \<Rightarrow> string option \<Rightarrow> nat \<Rightarrow> adm_state \<Rightarrow> admission \<times> adm_state" where
  "queue_message env msg prompt' x = (\<lambda>(s, w, m).
     let (row, s1, m1) = (if msg = [] then (None, s, m)
            else let (i, m1) = save_prompt msg m
                 in (Some i, s\<lparr>last_user_msg_id := Some i, last_user_msg_at := a_now env\<rparr>, m1));
         s2 = enqueue (queue_entry msg prompt' (a_now env) row) s1;
         m2 = register_pending_exec (session_id s) row x m1;
         (s3, w3) = emit_event (a_wall env) (Other_Event ''session.queued''
            [(''queue_depth'', dec (length (pending_messages s2))),
             (''message_id'', case row of None \<Rightarrow> ''null'' | Some i \<Rightarrow> dec (nat i))]) None (s2, w)
     in (\<lparr>ad_outcome = ADMIT_QUEUED, ad_execution = x, ad_reason = [], ad_msg_id = row\<rparr>, s3, w3,
         if row = None then settle_exec EXEC_DROPPED (Some ''no message to run'') None x m2 else m2))"

text \<open>A busy session: refuse when the queue is full, fold a rapid follow-up, or queue.\<close>

definition busy_prompt ::
    "adm_env \<Rightarrow> bool \<Rightarrow> string \<Rightarrow> string option \<Rightarrow> bool \<Rightarrow> nat \<Rightarrow> adm_state \<Rightarrow> admission \<times> adm_state" where
  "busy_prompt env settling msg prompt' absorbable x = (\<lambda>(s, w, m).
     if length (pending_messages s) \<ge> a_max_pending env then
       let (s1, w1) = emit_event (a_wall env) (Other_Event ''session.queue_full''
             [(''pending'', dec (length (pending_messages s))), (''max'', dec (a_max_pending env))]) None (s, w)
       in reject_admission (a_wall env) x ''queue_full'' (s1, w1, m)
     else case last_user_msg_id s of
         None \<Rightarrow> queue_message env msg prompt' x (s, w, m)
       | Some target \<Rightarrow>
           if msg \<noteq> [] \<and> absorbable \<and> \<not> settling \<and> a_now env - last_user_msg_at s \<le> RAPID_FIRE_WINDOW_SECONDS then
             (case m_rows m target of None \<Rightarrow> queue_message env msg prompt' x (s, w, m)
              | Some existing \<Rightarrow>
                  let (ok, s1, w1) = can_absorb_rapid_fire env target (s, w) in
                  if ok then absorb env target existing msg x (s1, w1, m)
                  else queue_message env msg prompt' x (s1, w1, m))
           else queue_message env msg prompt' x (s, w, m))"

text \<open>Orphaned rows go first: each is queued once.\<close>

definition queue_orphan :: "rat \<Rightarrow> agent_session \<Rightarrow> int \<times> string \<Rightarrow> agent_session" where
  "queue_orphan now s = (\<lambda>(i, txt').
     let s1 = s\<lparr>swept_orphan_ids := insert i (swept_orphan_ids s)\<rparr> in
     if list_ex (\<lambda>e. msg_id e = Some i) (pending_messages s1) then s1
     else enqueue (queue_entry txt' (Some []) now (Some i)) s1)"

definition recover_orphans ::
    "adm_env \<Rightarrow> (int \<times> string) list \<Rightarrow> string \<Rightarrow> string option \<Rightarrow> nat \<Rightarrow> adm_state \<Rightarrow> admission \<times> adm_state" where
  "recover_orphans env orphans msg prompt' x = (\<lambda>(s, w, m).
     let s1 = foldl (queue_orphan (a_now env)) s orphans in
     if msg = [] then
       (\<lparr>ad_outcome = ADMIT_QUEUED, ad_execution = x, ad_reason = [], ad_msg_id = x_msg_id (m_execs m x)\<rparr>,
        s1, w, settle_exec EXEC_DROPPED (Some ''no message to run'') None x m)
     else
       let (i, m1) = save_prompt msg m;
           s2 = enqueue (queue_entry msg prompt' (a_now env) (Some i))
                  (s1\<lparr>last_user_msg_id := Some i, last_user_msg_at := a_now env\<rparr>)
       in (\<lparr>ad_outcome = ADMIT_QUEUED, ad_execution = x, ad_reason = [], ad_msg_id = Some i\<rparr>, s2, w,
           register_pending_exec (session_id s) (Some i) x m1))"

text \<open>A session that can start now: the per-turn state is reset, then the row is written.\<close>

definition start_prompt ::
    "adm_env \<Rightarrow> string \<Rightarrow> string option \<Rightarrow> nat \<Rightarrow> adm_state \<Rightarrow> admission \<times> adm_state" where
  "start_prompt env msg prompt' x = (\<lambda>(s0, w, m).
     let s = (touch (a_wall env) s0)\<lparr>cancel_requested := False, turn := new_turn,
               goal_continuation_active := False, error := None, termination_reason := None\<rparr> in
     if \<not> a_runner env then
       let (s1, w1) = emit_event (a_wall env) (Other_Event ''stream.error''
             [(''error'', ''Agent runner not initialized'')]) None (s, w)
       in reject_admission (a_wall env) x ''no_agent_runner'' (s1, w1, m)
     else
       let orphans = (if current_state s0 = AWAITING_USER then []
             else filter (\<lambda>(i, _). i \<notin> swept_orphan_ids s) (a_orphans env)) in
       if orphans \<noteq> [] then recover_orphans env orphans msg prompt' x (s, w, m)
       else
         let (row, s1, m1) = (if msg = [] then (None, s, m)
               else let (i, m1) = save_prompt msg m
                    in (Some i, s\<lparr>last_user_msg_id := Some i, last_user_msg_at := a_now env,
                                  current_turn_user_msg_id := Some i\<rparr>, m1))
         in if a_down env 2 then reject_admission (a_wall env) x ''shutting_down'' (s1, w, m1)
            else
              let (s2, m2) = start_turn_task (Some x) (s1, on_exec x (\<lambda>e. mark_running (e\<lparr>x_msg_id := row\<rparr>)) m1)
              in (\<lparr>ad_outcome = ADMIT_STARTED, ad_execution = x, ad_reason = [], ad_msg_id = row\<rparr>, s2, w, m2))"

definition prompt ::
    "adm_env \<Rightarrow> string \<Rightarrow> string option \<Rightarrow> exec_options option \<Rightarrow> string \<Rightarrow> adm_state \<Rightarrow> admission \<times> adm_state" where
  "prompt env msg prompt' opts origin = (\<lambda>(s, w, m0).
     let x = m_next m0;
         m = m0\<lparr>m_next := Suc x, m_execs := (m_execs m0)(x := new_execution opts origin)\<rparr>;
         current = current_state s;
         idle = (current \<in> {IDLE_READY, AWAITING_USER});
         settling = (turn_in_flight (a_own_task env) s \<and> idle)
     in if opts \<noteq> None \<and> msg = [] then reject_admission (a_wall env) x ''empty_message'' (s, w, m)
        else if a_down env 0 \<or> a_down env 1 then reject_admission (a_wall env) x ''shutting_down'' (s, w, m)
        else if current = CANCELLING then reject_admission (a_wall env) x ''cancelling'' (s, w, m)
        else if settling \<or> \<not> idle then
          busy_prompt env settling msg prompt' (origin = ''user'' \<and> opts = None) x (s, w, m)
        else start_prompt env msg prompt' x (s, w, m))"

end
