(* ===== verification/Turn_Proofs.thy ===== *)
theory Turn_Proofs
  imports Turn_Exec State_Proofs
begin

text \<open>
  What admission promises about a message and its handle, that no handle is ever lost, and what
  becomes of the settings that a turn runs under.
\<close>

section \<open>Frames\<close>

lemma emit_fields [simp]:
  "session_id (fst (emit_event now p st (s, w))) = session_id s"
  "task (fst (emit_event now p st (s, w))) = task s"
  "pending_messages (fst (emit_event now p st (s, w))) = pending_messages s"
  "model_override (fst (emit_event now p st (s, w))) = model_override s"
  "tool_allowlist (fst (emit_event now p st (s, w))) = tool_allowlist s"
  "context_budget_override (fst (emit_event now p st (s, w))) = context_budget_override s"
  "error (fst (emit_event now p st (s, w))) = error s"
  "termination_reason (fst (emit_event now p st (s, w))) = termination_reason s"
  "cancel_requested (fst (emit_event now p st (s, w))) = cancel_requested s"
  "state_v2 (fst (emit_event now p st (s, w))) = state_v2 s"
  using emit_event_frame [of now p st s w] by auto

lemma on_exec_fields [simp]:
  "m_next (on_exec x f m) = m_next m" "m_pending (on_exec x f m) = m_pending m"
  "m_active (on_exec x f m) = m_active m" "m_turn (on_exec x f m) = m_turn m"
  "m_rows (on_exec x f m) = m_rows m" "m_next_row (on_exec x f m) = m_next_row m"
  "m_execs (on_exec x f m) y = (if y = x then f (m_execs m x) else m_execs m y)"
  by (simp_all add: on_exec_def)

lemma parked_on_exec [simp]: "parked_of sid (on_exec x f m) = parked_of sid m"
  by (simp add: parked_of_def)

lemma settle_exec_fields [simp]:
  "m_next (settle_exec r e t x m) = m_next m" "m_pending (settle_exec r e t x m) = m_pending m"
  "m_active (settle_exec r e t x m) = m_active m" "m_turn (settle_exec r e t x m) = m_turn m"
  "m_rows (settle_exec r e t x m) = m_rows m" "m_next_row (settle_exec r e t x m) = m_next_row m"
  "parked_of sid (settle_exec r e t x m) = parked_of sid m"
  "m_execs (settle_exec r e t x m) y = (if y = x then snd (settle r e t (m_execs m x)) else m_execs m y)"
  by (simp_all add: settle_exec_def)

lemma put_parked_fields [simp]:
  "m_next (put_parked sid d m) = m_next m" "m_execs (put_parked sid d m) = m_execs m"
  "m_active (put_parked sid d m) = m_active m" "m_turn (put_parked sid d m) = m_turn m"
  "m_rows (put_parked sid d m) = m_rows m" "m_next_row (put_parked sid d m) = m_next_row m"
  "parked_of sid (put_parked sid d m) = d"
  by (simp_all add: put_parked_def parked_of_def)

lemma settle_simps [simp]:
  "settled (snd (settle r e t x))"
  "x_result (snd (settle r e t x)) = (if settled x then x_result x else Some r)"
  "x_result (mark_running x) = x_result x" "settled (mark_running x) = settled x"
  "x_msg_id (mark_running x) = x_msg_id x" "x_options (mark_running x) = x_options x"
  "x_options (snd (settle r e t x)) = x_options x"
  by (simp_all add: settle_def settled_def mark_running_def)

lemma new_execution_simps [simp]:
  "\<not> settled (new_execution opts origin)" "x_msg_id (new_execution opts origin) = None"
  "x_result (new_execution opts origin) = None"
  by (simp_all add: new_execution_def settled_def)

lemma parked_of_update [simp]:
  "parked_of sid (m\<lparr>m_rows := r\<rparr>) = parked_of sid m" "parked_of sid (m\<lparr>m_next_row := n\<rparr>) = parked_of sid m"
  "parked_of sid (m\<lparr>m_turn := t\<rparr>) = parked_of sid m" "parked_of sid (m\<lparr>m_active := a\<rparr>) = parked_of sid m"
  "parked_of sid (m\<lparr>m_execs := x\<rparr>) = parked_of sid m" "parked_of sid (m\<lparr>m_next := k\<rparr>) = parked_of sid m"
  by (simp_all add: parked_of_def)

section \<open>The contract of an admission\<close>

lemma rewrite_entry_ids [simp]: "map msg_id (rewrite_entry i t now es) = map msg_id es"
  by (induction i t now es rule: rewrite_entry.induct) auto

lemma foldl_orphans [simp]:
  "session_id (foldl (queue_orphan now) s os) = session_id s" "task (foldl (queue_orphan now) s os) = task s"
  by (induction os arbitrary: s) (auto simp: queue_orphan_def enqueue_def Let_def)

text \<open>What each outcome promises of the handle \<open>x\<close>.\<close>

definition kept :: "nat \<Rightarrow> string \<Rightarrow> adm_state \<Rightarrow> admission \<times> adm_state \<Rightarrow> bool" where
  "kept x msg = (\<lambda>(s, w, m) (a, s', w', m'). ad_execution a = x \<and> m_next m' = m_next m \<and>
     (case ad_outcome a of
        ADMIT_REJECTED \<Rightarrow> x_result (m_execs m' x) = Some EXEC_REJECTED \<and> pending_messages s' = pending_messages s
          \<and> m_turn m' = m_turn m
      | ADMIT_ABSORBED \<Rightarrow> x_result (m_execs m' x) = Some EXEC_ABSORBED
          \<and> map msg_id (pending_messages s') = map msg_id (pending_messages s) \<and> m_turn m' = m_turn m
          \<and> (\<exists>i old. ad_msg_id a = Some i \<and> last_user_msg_id s = Some i \<and> m_rows m i = Some old
               \<and> m_rows m' = (m_rows m)(i \<mapsto> combine_rapid_fire old msg))
      | ADMIT_QUEUED \<Rightarrow> m_turn m' = m_turn m \<and>
          (if msg = [] then x_result (m_execs m' x) = Some EXEC_DROPPED
           else \<not> settled (m_execs m' x) \<and> (\<exists>i. ad_msg_id a = Some i \<and> m_rows m' i = Some msg
             \<and> map_of (parked_of (session_id s') m') i = Some x \<and> x_msg_id (m_execs m' x) = Some i
             \<and> pending_messages s' \<noteq> [] \<and> msg_id (last (pending_messages s')) = Some i
             \<and> message (last (pending_messages s')) = msg))
      | ADMIT_STARTED \<Rightarrow> x_state (m_execs m' x) = X_Running \<and> \<not> settled (m_execs m' x)
          \<and> m_turn m' (session_id s') = Some x \<and> task s' = Task_Running
          \<and> x_msg_id (m_execs m' x) = ad_msg_id a))"

lemma kept_reject: "\<not> settled (m_execs m x) \<Longrightarrow> pending_messages s = pending_messages s0 \<Longrightarrow> m_turn m = m_turn m0 \<Longrightarrow>
    m_next m = m_next m0 \<Longrightarrow> kept x msg (s0, w0, m0) (reject_admission now x r (s, w, m))"
  by (simp add: kept_def reject_admission_def Let_def split_beta)

lemma settled_fields [simp]:
  "settled (e\<lparr>x_msg_id := i\<rparr>) = settled e" "settled (e\<lparr>x_state := st\<rparr>) = settled e"
  by (simp_all add: settled_def)

lemma kept_queue_message:
  assumes "\<not> settled (m_execs m x)" "m_turn m = m_turn m0" "m_next m = m_next m0"
  shows "kept x msg (s0, w0, m0) (queue_message env msg p x (s, w, m))"
proof (cases "msg = []")
  case True
  with assms show ?thesis
    by (simp add: kept_def queue_message_def Let_def split_beta register_pending_exec_def)
next
  case False
  with assms show ?thesis
    by (simp add: kept_def queue_message_def Let_def split_beta save_prompt_def register_pending_exec_def
        enqueue_def queue_entry_def)
qed

lemma kept_absorb:
  assumes "\<not> settled (m_execs m x)" "m_rows m i = Some old" "last_user_msg_id s0 = Some i"
    "pending_messages s = pending_messages s0"
  shows "kept x msg (s0, w0, m) (absorb env i old msg x (s, w, m))"
  using assms by (simp add: kept_def absorb_def Let_def split_beta)

lemma can_absorb_fields [simp]:
  "pending_messages (fst (snd (can_absorb_rapid_fire env t (s, w)))) = pending_messages s"
  "session_id (fst (snd (can_absorb_rapid_fire env t (s, w)))) = session_id s"
  "task (fst (snd (can_absorb_rapid_fire env t (s, w)))) = task s"
  by (simp_all add: can_absorb_rapid_fire_def split: option.splits bool.splits)

lemma kept_busy:
  assumes "\<not> settled (m_execs m x)"
  shows "kept x msg (s, w, m) (busy_prompt env settling msg p ab x (s, w, m))"
proof (cases "length (pending_messages s) \<ge> a_max_pending env")
  case True
  with assms show ?thesis by (simp add: busy_prompt_def Let_def split_beta kept_reject)
next
  case False
  show ?thesis
  proof (cases "last_user_msg_id s")
    case None
    with False assms show ?thesis by (simp add: busy_prompt_def kept_queue_message)
  next
    case (Some t)
    obtain ok s1 w1 where c: "can_absorb_rapid_fire env t (s, w) = (ok, s1, w1)"
      by (cases "can_absorb_rapid_fire env t (s, w)")
    then have "pending_messages s1 = pending_messages s"
      using can_absorb_fields(1) [of env t s w] by simp
    with False Some c assms show ?thesis
      by (simp add: busy_prompt_def kept_queue_message kept_absorb split: option.split)
  qed
qed

lemma kept_orphans:
  assumes "\<not> settled (m_execs m x)" "m_turn m = m_turn m0" "m_next m = m_next m0"
  shows "kept x msg (s0, w0, m0) (recover_orphans env os msg p x (s, w, m))"
proof (cases "msg = []")
  case True
  with assms show ?thesis by (simp add: kept_def recover_orphans_def Let_def)
next
  case False
  with assms show ?thesis
    by (simp add: kept_def recover_orphans_def Let_def save_prompt_def register_pending_exec_def
        enqueue_def queue_entry_def)
qed

lemma kept_start:
  assumes "\<not> settled (m_execs m x)"
  shows "kept x msg (s, w, m) (start_prompt env msg p x (s, w, m))"
proof -
  let ?s = "(touch (a_wall env) s)\<lparr>cancel_requested := False, turn := new_turn,
     goal_continuation_active := False, error := None, termination_reason := None\<rparr>"
  have p: "pending_messages ?s = pending_messages s" "session_id ?s = session_id s" by (simp_all add: touch_def)
  show ?thesis
  proof (cases "a_runner env")
    case False
    with assms p show ?thesis by (simp add: start_prompt_def Let_def split_beta kept_reject)
  next
    case True
    show ?thesis
    proof (cases "(if current_state s = AWAITING_USER then []
             else filter (\<lambda>(i, _). i \<notin> swept_orphan_ids ?s) (a_orphans env)) = []")
      case False
      with True assms show ?thesis unfolding start_prompt_def case_prod_conv Let_def by (simp add: kept_orphans)
    next
      case no: True
      show ?thesis
      proof (cases "msg = []")
        case msg: True
        with no \<open>a_runner env\<close> assms show ?thesis unfolding start_prompt_def case_prod_conv Let_def
          by (cases "a_down env 2") (simp_all add: kept_reject p, simp add: kept_def start_turn_task_def mark_running_def)
      next
        case msg: False
        with no \<open>a_runner env\<close> assms show ?thesis unfolding start_prompt_def case_prod_conv Let_def
          by (cases "a_down env 2")
            (simp_all add: kept_reject touch_def save_prompt_def, simp add: kept_def start_turn_task_def mark_running_def)
      qed
    qed
  qed
qed

text \<open>A message is refused, meets a busy session, or starts a turn when none is in flight.\<close>

lemma prompt_cases:
  fixes s w m opts origin
  defines "st \<equiv> (s, w, m\<lparr>m_next := Suc (m_next m), m_execs := (m_execs m)(m_next m := new_execution opts origin)\<rparr>)"
  assumes "\<And>r. P (reject_admission (a_wall env) (m_next m) r st)"
    and "\<And>b ab. P (busy_prompt env b msg p ab (m_next m) st)"
    and "\<not> turn_in_flight (a_own_task env) s \<Longrightarrow> P (start_prompt env msg p (m_next m) st)"
  shows "P (prompt env msg p opts origin (s, w, m))"
proof -
  have "prompt env msg p opts origin (s, w, m) \<in> range (\<lambda>r. reject_admission (a_wall env) (m_next m) r st)
      \<union> {r. \<exists>b ab. r = busy_prompt env b msg p ab (m_next m) st}
      \<union> {r. \<not> turn_in_flight (a_own_task env) s \<and> r = start_prompt env msg p (m_next m) st}"
    unfolding prompt_def case_prod_conv Let_def st_def by auto
  with assms(2-4) show ?thesis by (elim UnE) auto
qed

text \<open>C3: What \<open>prompt\<close> decides and what becomes of its handle agree.  A rejected message has its handle
  settled as rejected, queues nothing and starts nothing.  An absorbed one is folded into the row of
  the last user message and nowhere else, its handle settled as absorbed.  A queued one is the last
  entry of the queue, saved in its row, with the unsettled handle parked under that row (or, with
  nothing to run, settled as dropped).  A started one runs in the session's task, with the handle
  running.  The handle is always a new one.\<close>

theorem admission_contract:
  "case prompt env msg p opts origin (s, w, m) of (a, s', w', m') \<Rightarrow>
     ad_execution a = m_next m \<and> m_next m' = Suc (m_next m) \<and>
     (let e = m_execs m' (m_next m) in
      case ad_outcome a of
        ADMIT_REJECTED \<Rightarrow> x_result e = Some EXEC_REJECTED \<and> pending_messages s' = pending_messages s
          \<and> m_turn m' = m_turn m
      | ADMIT_ABSORBED \<Rightarrow> x_result e = Some EXEC_ABSORBED
          \<and> map msg_id (pending_messages s') = map msg_id (pending_messages s) \<and> m_turn m' = m_turn m
          \<and> (\<exists>i old. ad_msg_id a = Some i \<and> last_user_msg_id s = Some i \<and> m_rows m i = Some old
               \<and> m_rows m' = (m_rows m)(i \<mapsto> combine_rapid_fire old msg))
      | ADMIT_QUEUED \<Rightarrow> m_turn m' = m_turn m \<and>
          (if msg = [] then x_result e = Some EXEC_DROPPED
           else \<not> settled e \<and> (\<exists>i. ad_msg_id a = Some i \<and> m_rows m' i = Some msg
             \<and> map_of (parked_of (session_id s') m') i = Some (m_next m) \<and> x_msg_id e = Some i
             \<and> pending_messages s' \<noteq> [] \<and> msg_id (last (pending_messages s')) = Some i
             \<and> message (last (pending_messages s')) = msg))
      | ADMIT_STARTED \<Rightarrow> x_state e = X_Running \<and> \<not> settled e
          \<and> m_turn m' (session_id s') = Some (m_next m) \<and> task s' = Task_Running
          \<and> x_msg_id e = ad_msg_id a)"
proof -
  let ?x = "m_next m"
  let ?m = "m\<lparr>m_next := Suc ?x, m_execs := (m_execs m)(?x := new_execution opts origin)\<rparr>"
  have new: "\<not> settled (m_execs ?m ?x)" by simp
  have "kept ?x msg (s, w, ?m) (prompt env msg p opts origin (s, w, m))"
    by (rule prompt_cases) (simp_all only: kept_reject kept_busy kept_start new refl simp_thms)
  then show ?thesis
    by (cases "prompt env msg p opts origin (s, w, m)") (auto simp: kept_def Let_def split: admission_outcome.splits)
qed

section \<open>No handle is lost\<close>

text \<open>The parked handles: rows below the counter, one handle per row.\<close>

definition parked_ok :: "agent_session \<Rightarrow> manager \<Rightarrow> bool" where
  "parked_ok s m \<longleftrightarrow> distinct (map fst (parked_of (session_id s) m))
     \<and> (\<forall>(i, x) \<in> set (parked_of (session_id s) m). i < m_next_row m \<and> x < m_next m)"

text \<open>Every handle but \<open>y\<close> has settled, is parked, or is carried by the running task.\<close>

definition accounted_but :: "nat set \<Rightarrow> agent_session \<Rightarrow> manager \<Rightarrow> bool" where
  "accounted_but Y s m \<longleftrightarrow> (\<forall>x < m_next m. x \<in> Y \<or> settled (m_execs m x)
     \<or> x \<in> snd ` set (parked_of (session_id s) m)
     \<or> (task s = Task_Running \<and> m_turn m (session_id s) = Some x))"

definition handles_fine :: "adm_state \<Rightarrow> bool" where
  "handles_fine = (\<lambda>(s, w, m). parked_ok s m \<and> accounted_but {} s m)"

lemma reap_ids_fine:
  assumes "parked_ok s m" "accounted_but Y s m"
  shows "parked_ok s (reap_ids (session_id s) r err is m) \<and> accounted_but Y s (reap_ids (session_id s) r err is m)"
  using assms
proof (induction "session_id s" r err "is" m rule: reap_ids.induct)
  case (3 r err i "is" m)
  show ?case
  proof (cases "map_of (parked_of (session_id s) m) i")
    case None
    with 3 show ?thesis by simp
  next
    case (Some x)
    let ?m = "settle_exec r err None x (put_parked (session_id s) (dict_pop i (parked_of (session_id s) m)) m)"
    have "parked_ok s ?m" using "3.prems"(1)
      by (auto simp: parked_ok_def dict_pop_def distinct_map_filter)
    moreover have "accounted_but Y s ?m"
    proof -
      have "y = x" if "(i, y) \<in> set (parked_of (session_id s) m)" for y
        using that Some "3.prems"(1) by (simp add: parked_ok_def)
      then show ?thesis using "3.prems"(2)
        by (fastforce simp: accounted_but_def dict_pop_def image_iff)
    qed
    ultimately show ?thesis using 3 Some by simp
  qed
qed simp_all

lemma reap_ids_frame [simp]:
  "m_next (reap_ids sid r err is m) = m_next m" "m_turn (reap_ids sid r err is m) = m_turn m"
  "m_next_row (reap_ids sid r err is m) = m_next_row m" "m_active (reap_ids sid r err is m) = m_active m"
  "m_rows (reap_ids sid r err is m) = m_rows m"
  "x_options (m_execs (reap_ids sid r err is m) x) = x_options (m_execs m x)"
  by (induction sid r err "is" m rule: reap_ids.induct) (auto split: option.split)

lemma reap_frame [simp]:
  "m_next (reap_pending_execs s r err is m) = m_next m" "m_turn (reap_pending_execs s r err is m) = m_turn m"
  "m_next_row (reap_pending_execs s r err is m) = m_next_row m"
  "m_active (reap_pending_execs s r err is m) = m_active m"
  by (simp_all add: reap_pending_execs_def Let_def)

lemma reap_fine: "parked_ok s m \<Longrightarrow> accounted_but Y s m \<Longrightarrow>
    parked_ok s (reap_pending_execs s r err is m) \<and> accounted_but Y s (reap_pending_execs s r err is m)"
  by (simp add: reap_pending_execs_def Let_def reap_ids_fine)

text \<open>Only the id, the task and the manager's tables matter.\<close>

lemma fine_cong:
  assumes "session_id s' = session_id s"
  shows "parked_ok s' m = parked_ok s m"
    and "task s' = task s \<Longrightarrow> accounted_but Y s' m = accounted_but Y s m"
  using assms by (simp_all add: parked_ok_def accounted_but_def)

lemma pop_admitted_fine:
  "parked_ok s m \<Longrightarrow> accounted_but Y s m \<Longrightarrow> pop_admitted env s es m = (e, rest, m') \<Longrightarrow>
     parked_ok s m' \<and> accounted_but Y s m' \<and> m_turn m' = m_turn m"
proof (induction env s es m arbitrary: e rest m' rule: pop_admitted.induct)
  case (2 env s q es m)
  show ?case
  proof (cases "admit_continuation env s es q")
    case False
    from reap_fine [OF "2.prems"(1,2)] have
      "parked_ok s (reap_pending_execs s EXEC_DROPPED (Some ''continuation refused'') (Some [msg_id q]) m)"
      "accounted_but Y s (reap_pending_execs s EXEC_DROPPED (Some ''continuation refused'') (Some [msg_id q]) m)"
      by blast+
    from "2.IH" [OF False this] "2.prems"(3) False show ?thesis by simp
  qed (use 2 in simp)
qed simp

lemma take_pending_fine:
  assumes "parked_ok s m" "accounted_but Y s m" "take_pending_exec (session_id s) i m = (x, m')"
  shows "parked_ok s m' \<and> accounted_but (case x of None \<Rightarrow> Y | Some k \<Rightarrow> insert k Y) s m' \<and> m_next m' = m_next m
    \<and> m_next_row m' = m_next_row m"
proof (cases "i = None \<or> parked_of (session_id s) m = []")
  case True
  with assms show ?thesis by (auto simp: take_pending_exec_def split: option.splits)
next
  case False
  then obtain k where k: "i = Some k" by auto
  with False assms(3) have x: "x = map_of (parked_of (session_id s) m) k"
    and m': "m' = put_parked (session_id s) (dict_pop k (parked_of (session_id s) m)) m"
    by (simp_all add: take_pending_exec_def)
  have "parked_ok s m'" using assms(1) by (auto simp: m' parked_ok_def dict_pop_def distinct_map_filter)
  moreover have "accounted_but (case x of None \<Rightarrow> Y | Some k \<Rightarrow> insert k Y) s m'"
  proof -
    have "x = Some y" if "(k, y) \<in> set (parked_of (session_id s) m)" for y
      using that assms(1) by (simp add: x parked_ok_def)
    then show ?thesis using assms(2) unfolding accounted_but_def m'
      by (fastforce simp: dict_pop_def image_iff split: option.splits)
  qed
  ultimately show ?thesis by (simp add: m')
qed

lemma on_exec_fine:
  "parked_ok s (on_exec x f m) = parked_ok s m"
  "(\<And>e. settled (f e) = settled e) \<Longrightarrow> accounted_but Y s (on_exec x f m) = accounted_but Y s m"
  by (simp add: parked_ok_def, auto simp: accounted_but_def)

lemma start_turn_fine:
  assumes "parked_ok s m" "accounted_but (set_option x) s m" "task s \<noteq> Task_Running"
    "start_turn_task x (s, m) = (s', m')"
  shows "parked_ok s' m' \<and> accounted_but {} s' m'"
  using assms by (auto simp: start_turn_task_def parked_ok_def accounted_but_def)

lemma process_pending_fine:
  assumes "parked_ok s m" "accounted_but {} s m" "\<not> a_own_task env"
    "process_pending env ready (s, m) = (s', m')"
  shows "parked_ok s' m' \<and> accounted_but {} s' m'"
proof -
  let ?m = "reap_pending_execs s EXEC_DROPPED None None m"
  note f = reap_fine [OF assms(1,2), of EXEC_DROPPED None None]
  consider "s' = s" "m' = m" | "s' = s" "m' = ?m"
    | e rest m1 where "task s \<noteq> Task_Running" "pop_admitted env s (pending_messages s) ?m = (e, rest, m1)"
      "(s', m') = (case e of None \<Rightarrow> (s\<lparr>pending_messages := rest\<rparr>, m1)
         | Some e \<Rightarrow>
             let s1 = s\<lparr>pending_messages := rest, goal_continuation_active := is_goal_continuation e,
                        current_turn_user_msg_id := (case msg_id e of None \<Rightarrow> current_turn_user_msg_id s
                                                     | Some i \<Rightarrow> Some i),
                        error := None, termination_reason := None\<rparr>;
                 (x, m2) = take_pending_exec (session_id s) (msg_id e) m1;
                 m3 = (case x of None \<Rightarrow> m2 | Some k \<Rightarrow> on_exec k mark_running m2)
             in start_turn_task x (s1, m3))"
    using assms(3,4) by (auto simp: process_pending_def Let_def turn_in_flight_def split: if_splits prod.splits option.splits)
  then show ?thesis
  proof cases
    case 3
    from pop_admitted_fine [OF conjunct1 [OF f] conjunct2 [OF f] 3(2)]
    have m1: "parked_ok s m1" "accounted_but {} s m1" by blast+
    show ?thesis
    proof (cases e)
      case None
      with 3(3) m1 show ?thesis by (simp add: fine_cong [of "s\<lparr>pending_messages := rest\<rparr>" s])
    next
      case (Some q)
      obtain x m2 where t: "take_pending_exec (session_id s) (msg_id q) m1 = (x, m2)" by fastforce
      define s1 where "s1 = s\<lparr>pending_messages := rest, goal_continuation_active := is_goal_continuation q,
        current_turn_user_msg_id := (case msg_id q of None \<Rightarrow> current_turn_user_msg_id s | Some i \<Rightarrow> Some i),
        error := None, termination_reason := None\<rparr>"
      have s1: "session_id s1 = session_id s" "task s1 = task s" by (simp_all add: s1_def)
      define m3 where "m3 = (case x of None \<Rightarrow> m2 | Some k \<Rightarrow> on_exec k mark_running m2)"
      from take_pending_fine [OF m1 t] have "parked_ok s m3" "accounted_but (set_option x) s m3"
        by (cases x; simp add: m3_def on_exec_fine)+
      then have "parked_ok s1 m3" "accounted_but (set_option x) s1 m3" by (simp_all add: fine_cong [OF s1(1)] s1(2))
      moreover have "start_turn_task x (s1, m3) = (s', m')"
        using 3(3) Some t by (simp add: Let_def s1_def m3_def)
      ultimately show ?thesis using start_turn_fine 3(1) s1(2) by simp
    qed
  qed (use assms f in auto)
qed

text \<open>An admission: the new handle is the only one it may leave open.\<close>

lemma new_exec_fine:
  fixes e :: turn_execution
  assumes "parked_ok s m" "accounted_but {} s m"
  defines "m1 \<equiv> m\<lparr>m_next := Suc (m_next m), m_execs := (m_execs m)(m_next m := e)\<rparr>"
  shows "parked_ok s m1" "accounted_but {m_next m} s m1"
  using assms by (auto simp: parked_ok_def accounted_but_def less_Suc_eq)

lemma settle_fine:
  "parked_ok s m \<Longrightarrow> accounted_but {x} s m \<Longrightarrow>
     parked_ok s (settle_exec r e t x m) \<and> accounted_but {} s (settle_exec r e t x m)"
  unfolding settle_exec_def by (auto simp: parked_ok_def accounted_but_def)

lemma row_fine:
  "parked_ok s m \<Longrightarrow> parked_ok s (m\<lparr>m_rows := r, m_next_row := m_next_row m + 1\<rparr>)"
  "accounted_but Y s (m\<lparr>m_rows := r, m_next_row := n\<rparr>) = accounted_but Y s m"
  "parked_ok s (m\<lparr>m_rows := r\<rparr>) = parked_ok s m" "accounted_but Y s (m\<lparr>m_rows := r\<rparr>) = accounted_but Y s m"
  by (fastforce simp: parked_ok_def accounted_but_def)+

lemma register_fine:
  fixes r :: "int \<rightharpoonup> string"
  assumes "parked_ok s m" "accounted_but {x} s m" "x < m_next m"
  defines "m1 \<equiv> register_pending_exec (session_id s) (Some (m_next_row m)) x
     (m\<lparr>m_rows := r, m_next_row := m_next_row m + 1\<rparr>)"
  shows "parked_ok s m1 \<and> accounted_but {} s m1"
proof -
  have fresh: "m_next_row m \<notin> fst ` set (parked_of (session_id s) m)"
    using assms(1) by (auto simp: parked_ok_def)
  have p: "parked_of (session_id s) m1 = parked_of (session_id s) m @ [(m_next_row m, x)]"
    by (simp add: m1_def register_pending_exec_def dict_set_new [OF fresh])
  have "parked_ok s m1" unfolding parked_ok_def p using assms(1,3) fresh
    by (auto simp: parked_ok_def m1_def register_pending_exec_def)
  moreover have "accounted_but {} s m1" unfolding accounted_but_def p using assms(2)
    by (auto simp: accounted_but_def m1_def register_pending_exec_def)
  ultimately show ?thesis by simp
qed

text \<open>\<open>fine_after\<close>: the handles of the state that an operation returns.\<close>

definition fine_after :: "admission \<times> adm_state \<Rightarrow> bool" where
  "fine_after = (\<lambda>(a, s, w, m). handles_fine (s, w, m))"

lemma reject_fine:
  assumes "parked_ok s m" "accounted_but {x} s m"
  shows "fine_after (reject_admission now x r (s, w, m))"
  using settle_fine [OF assms]
  by (simp add: fine_after_def handles_fine_def reject_admission_def Let_def split_beta fine_cong [OF emit_fields(1)])

lemma queue_message_fine:
  assumes "parked_ok s m" "accounted_but {x} s m" "x < m_next m"
  shows "fine_after (queue_message env msg p x (s, w, m))"
proof (cases "msg = []")
  case True
  then show ?thesis using settle_fine [OF assms(1,2)]
    by (simp add: fine_after_def handles_fine_def queue_message_def Let_def split_beta register_pending_exec_def
        enqueue_def parked_ok_def accounted_but_def)
next
  case False
  then show ?thesis
    using register_fine [OF assms, of "(m_rows m)(m_next_row m \<mapsto> msg)"]
    by (simp add: fine_after_def handles_fine_def queue_message_def Let_def split_beta save_prompt_def
        enqueue_def parked_ok_def accounted_but_def)
qed

lemma absorb_fine:
  assumes "parked_ok s m" "accounted_but {x} s m"
  shows "fine_after (absorb env t old msg x (s, w, m))"
  using settle_fine [of s "m\<lparr>m_rows := (m_rows m)(t \<mapsto> combine_rapid_fire old msg)\<rparr>" x EXEC_ABSORBED None None] assms
  by (simp add: fine_after_def handles_fine_def absorb_def Let_def split_beta row_fine parked_ok_def accounted_but_def)

lemma busy_fine:
  assumes "parked_ok s m" "accounted_but {x} s m" "x < m_next m"
  shows "fine_after (busy_prompt env settling msg p ab x (s, w, m))"
proof (cases "length (pending_messages s) \<ge> a_max_pending env")
  case True
  have "fine_after (reject_admission (a_wall env) x ''queue_full'' (fst ev, snd ev, m))"
    if "ev = emit_event (a_wall env) q None (s, w)" for ev q
    using assms that by (intro reject_fine) (simp_all add: fine_cong [OF emit_fields(1)])
  with True show ?thesis by (simp add: busy_prompt_def Let_def split_beta)
next
  case False
  show ?thesis
  proof (cases "last_user_msg_id s")
    case None
    with False assms show ?thesis by (simp add: busy_prompt_def queue_message_fine)
  next
    case (Some t)
    obtain ok s1 w1 where c: "can_absorb_rapid_fire env t (s, w) = (ok, s1, w1)"
      by (cases "can_absorb_rapid_fire env t (s, w)")
    then have f: "session_id s1 = session_id s" "task s1 = task s"
      using can_absorb_fields(2,3) [of env t s w] by simp_all
    then have "parked_ok s1 m" "accounted_but {x} s1 m" using assms(1,2) by (simp_all add: fine_cong [OF f(1)])
    with False Some c assms show ?thesis
      by (simp add: busy_prompt_def queue_message_fine absorb_fine split: option.split)
  qed
qed

lemma orphans_fine:
  assumes "parked_ok s m" "accounted_but {x} s m" "x < m_next m"
  shows "fine_after (recover_orphans env os msg p x (s, w, m))"
proof (cases "msg = []")
  case True
  then show ?thesis using settle_fine [OF assms(1,2)]
    by (simp add: fine_after_def handles_fine_def recover_orphans_def Let_def parked_ok_def accounted_but_def)
next
  case False
  then show ?thesis
    using register_fine [OF assms, of "(m_rows m)(m_next_row m \<mapsto> msg)"]
    by (simp add: fine_after_def handles_fine_def recover_orphans_def Let_def save_prompt_def
        enqueue_def parked_ok_def accounted_but_def)
qed

lemma start_fine:
  assumes "parked_ok s m" "accounted_but {x} s m" "x < m_next m" "task s \<noteq> Task_Running"
  shows "fine_after (start_prompt env msg p x (s, w, m))"
proof -
  let ?s = "(touch (a_wall env) s)\<lparr>cancel_requested := False, turn := new_turn,
     goal_continuation_active := False, error := None, termination_reason := None\<rparr>"
  have f: "session_id ?s = session_id s" "task ?s = task s" by (simp_all add: touch_def)
  then have p: "parked_ok ?s m" "accounted_but {x} ?s m" using assms(1,2) by (simp_all only: fine_cong [OF f(1)] f(2))
  show ?thesis
  proof (cases "a_runner env")
    case False
    have "fine_after (reject_admission (a_wall env) x ''no_agent_runner'' (fst ev, snd ev, m))"
      if "ev = emit_event (a_wall env) q None (?s, w)" for ev q
      using p that by (intro reject_fine) (simp_all only: fine_cong [OF emit_fields(1)] emit_fields(2))
    with False show ?thesis by (simp add: start_prompt_def Let_def split_beta)
  next
    case True
    show ?thesis
    proof (cases "(if current_state s = AWAITING_USER then []
             else filter (\<lambda>(i, _). i \<notin> swept_orphan_ids ?s) (a_orphans env)) = []")
      case False
      with True p assms(3) show ?thesis unfolding start_prompt_def case_prod_conv Let_def by (simp add: orphans_fine)
    next
      case no: True
      define row where "row = (if msg = [] then None else Some (m_next_row m))"
      define s1 where "s1 = (if msg = [] then ?s else ?s\<lparr>last_user_msg_id := row, last_user_msg_at := a_now env,
        current_turn_user_msg_id := row\<rparr>)"
      define m1 where "m1 = (if msg = [] then m else m\<lparr>m_rows := (m_rows m)(m_next_row m \<mapsto> msg),
        m_next_row := m_next_row m + 1\<rparr>)"
      have f1: "session_id s1 = session_id s" "task s1 = task s" by (simp_all add: s1_def touch_def)
      have p1: "parked_ok s1 m1" "accounted_but {x} s1 m1"
        using assms(1,2) by (simp_all add: fine_cong [OF f1(1)] f1(2) m1_def row_fine)
      have "start_prompt env msg p x (s, w, m) = (if a_down env 2 then reject_admission (a_wall env) x ''shutting_down'' (s1, w, m1)
            else let (s2, m2) = start_turn_task (Some x) (s1, on_exec x (\<lambda>e. mark_running (e\<lparr>x_msg_id := row\<rparr>)) m1)
              in (\<lparr>ad_outcome = ADMIT_STARTED, ad_execution = x, ad_reason = [], ad_msg_id = row\<rparr>, s2, w, m2))"
        unfolding start_prompt_def case_prod_conv Let_def using no True
        by (simp add: row_def s1_def m1_def save_prompt_def)
      moreover have "fine_after (let (s2, m2) = start_turn_task (Some x) (s1, on_exec x (\<lambda>e. mark_running (e\<lparr>x_msg_id := row\<rparr>)) m1)
              in (\<lparr>ad_outcome = ADMIT_STARTED, ad_execution = x, ad_reason = [], ad_msg_id = row\<rparr>, s2, w, m2))"
        using p1 start_turn_fine [of s1 "on_exec x (\<lambda>e. mark_running (e\<lparr>x_msg_id := row\<rparr>)) m1" "Some x"] f1 assms(4)
        by (simp add: fine_after_def handles_fine_def on_exec_fine split: prod.split)
      ultimately show ?thesis using p1 by (simp add: reject_fine)
    qed
  qed
qed

lemma prompt_fine:
  assumes "handles_fine (s, w, m)" "\<not> a_own_task env"
  shows "fine_after (prompt env msg p opts origin (s, w, m))"
proof -
  let ?m = "m\<lparr>m_next := Suc (m_next m), m_execs := (m_execs m)(m_next m := new_execution opts origin)\<rparr>"
  have p: "parked_ok s ?m" "accounted_but {m_next m} s ?m" "m_next m < m_next ?m"
    using new_exec_fine [of s m] assms(1) by (simp_all add: handles_fine_def)
  show ?thesis
    by (rule prompt_cases) (use assms(2) in \<open>auto simp: turn_in_flight_def
        intro: reject_fine [OF p(1,2)] busy_fine [OF p] start_fine [OF p]\<close>)
qed

text \<open>
  What can happen to a session, one lock section or one stretch without \<open>await\<close> at a time: an
  admission from outside, the start and the settlement of the running turn, the end of its task
  with the drain of the queue, a dispatch from another task, the removal of a queued message, a
  cancel, the user's choice of a model, and anything else that leaves the id and the task alone.
  A task ends only after it has settled its handle.
\<close>

datatype session_op =
    Do_Prompt adm_env string "string option" "exec_options option" string
  | Do_Begin
  | Do_Settle rat string
  | Do_End adm_env
  | Do_Dispatch adm_env "sstate set"
  | Do_Remove rat int
  | Do_Cancel
  | Do_Choose "string option"
  | Do_Session agent_session

abbreviation foreign :: "adm_env \<Rightarrow> adm_env" where
  "foreign env \<equiv> env\<lparr>a_own_task := False\<rparr>"

definition turn_handle :: "agent_session \<Rightarrow> manager \<Rightarrow> nat option" where
  "turn_handle s m = m_turn m (session_id s)"

fun session_step :: "adm_state \<Rightarrow> session_op \<Rightarrow> adm_state" where
  "session_step st (Do_Prompt env msg p opts origin) = snd (prompt (foreign env) msg p opts origin st)"
| "session_step (s, w, m) Do_Begin = (if task s \<noteq> Task_Running then (s, w, m)
     else let (s', m') = begin_turn (turn_handle s m) (s, m) in (s', w, m'))"
| "session_step (s, w, m) (Do_Settle now dflt) = (if task s \<noteq> Task_Running then (s, w, m)
     else settle_turn now dflt (turn_handle s m) (s, w, m))"
| "session_step (s, w, m) (Do_End env) =
     (if task s \<noteq> Task_Running \<or> (\<exists>x. turn_handle s m = Some x \<and> \<not> settled (m_execs m x)) then (s, w, m)
      else let (s', m') = process_pending (foreign env) {IDLE_READY}
                 (s\<lparr>task := Task_Done\<rparr>, m\<lparr>m_turn := (m_turn m)(session_id s := None)\<rparr>)
           in (s', w, m'))"
| "session_step (s, w, m) (Do_Dispatch env ready) =
     (let (s', m') = process_pending (foreign env) ready (s, m) in (s', w, m'))"
| "session_step (s, w, m) (Do_Remove now i) = snd (remove_pending now i (s, w, m))"
| "session_step (s, w, m) Do_Cancel = (let (_, s', m') = drain_pending_for_cancel (s, m) in (s', w, m'))"
| "session_step (s, w, m) (Do_Choose sel) = (choose_model sel s, w, m)"
| "session_step (s, w, m) (Do_Session s') =
     (if session_id s' = session_id s \<and> task s' = task s then (s', w, m) else (s, w, m))"

lemma restore_settings_frame [simp]:
  "session_id (restore_session_settings o' a s) = session_id s" "task (restore_session_settings o' a s) = task s"
  "error (restore_session_settings o' a s) = error s"
  by (simp_all add: restore_session_settings_def Let_def split: option.split)

lemma put_settings_frame [simp]:
  "session_id (put_settings o' s) = session_id s" "task (put_settings o' s) = task s"
  by (simp_all add: put_settings_def Let_def)

lemma apply_execution_frame:
  assumes "apply_execution x (s, m) = (s', m')"
  shows "session_id s' = session_id s" "task s' = task s" "\<exists>a. m' = m\<lparr>m_active := a\<rparr>"
  using assms by (auto simp: apply_execution_def Let_def split: option.splits if_splits)

lemma release_execution_frame:
  assumes "release_execution x (s, m) = (s', m')"
  shows "session_id s' = session_id s" "task s' = task s" "\<exists>a. m' = m\<lparr>m_active := a\<rparr>"
proof -
  have "\<exists>a. m = m\<lparr>m_active := a\<rparr>" by (rule exI [of _ "m_active m"]) simp
  then show "session_id s' = session_id s" "task s' = task s" "\<exists>a. m' = m\<lparr>m_active := a\<rparr>"
    using assms by (auto simp: release_execution_def Let_def split: option.splits if_splits)
qed

lemma restore_agent_model_frame [simp]:
  "session_id (fst (restore_agent_model now d (s, w))) = session_id s"
  "task (fst (restore_agent_model now d (s, w))) = task s"
  by (simp_all add: restore_agent_model_def Let_def split: option.split)

lemma active_fine [simp]:
  "parked_ok s (m\<lparr>m_active := a\<rparr>) = parked_ok s m" "accounted_but Y s (m\<lparr>m_active := a\<rparr>) = accounted_but Y s m"
  by (simp_all add: parked_ok_def accounted_but_def)

lemma settle_exec_fine:
  "parked_ok s m \<Longrightarrow> parked_ok s (settle_exec r e t x m)"
  "accounted_but Y s m \<Longrightarrow> accounted_but Y s (settle_exec r e t x m)"
  by (auto simp: parked_ok_def accounted_but_def)

lemma handles_fine_cong:
  "handles_fine (s, w, m) \<Longrightarrow> session_id s' = session_id s \<Longrightarrow> task s' = task s \<Longrightarrow> handles_fine (s', w', m)"
  using fine_cong [where s' = s' and s = s and m = m] by (simp add: handles_fine_def)

lemma step_fine: "handles_fine st \<Longrightarrow> handles_fine (session_step st op)"
proof (induction st op rule: session_step.induct)
  case (1 st env msg p opts origin)
  then show ?case
    using prompt_fine [of "fst st" "fst (snd st)" "snd (snd st)" "foreign env" msg p opts origin]
    by (simp add: fine_after_def split_beta)
next
  case (2 s w m)
  obtain s' m' where b: "begin_turn (turn_handle s m) (s, m) = (s', m')" by fastforce
  then obtain a where "session_id s' = session_id s" "task s' = task s" "m' = m\<lparr>m_active := a\<rparr>"
    using apply_execution_frame [of "turn_handle s m" "s\<lparr>turn := new_turn\<rparr>" m s' m'] by (auto simp: begin_turn_def)
  with 2 b show ?case using fine_cong [where s' = s' and s = s and m = m] by (simp add: handles_fine_def)
next
  case (3 s w m now d)
  obtain s1 w1 where r: "restore_agent_model now d (s, w) = (s1, w1)" by fastforce
  then have f1: "session_id s1 = session_id s" "task s1 = task s"
    using restore_agent_model_frame [of now d s w] by simp_all
  obtain s2 m2 where rel: "release_execution (turn_handle s m) (s1, m) = (s2, m2)" by fastforce
  from release_execution_frame [OF rel] obtain a where
    "session_id s2 = session_id s" "task s2 = task s" "m2 = m\<lparr>m_active := a\<rparr>" using f1 by auto
  with 3 r rel show ?case using fine_cong [where s' = s2 and s = s and m = m]
    by (simp add: settle_turn_def handles_fine_def settle_exec_fine split: option.split)
next
  case (4 s w m env)
  let ?s = "s\<lparr>task := Task_Done\<rparr>" and ?m = "m\<lparr>m_turn := (m_turn m)(session_id s := None)\<rparr>"
  show ?case
  proof (cases "task s \<noteq> Task_Running \<or> (\<exists>x. turn_handle s m = Some x \<and> \<not> settled (m_execs m x))")
    case False
    with 4 have "parked_ok ?s ?m" "accounted_but {} ?s ?m"
      by (auto simp: handles_fine_def parked_ok_def accounted_but_def turn_handle_def)
    with False show ?thesis
      using process_pending_fine [of ?s ?m "foreign env" "{IDLE_READY}"] by (auto simp: handles_fine_def split: prod.splits)
  qed (use 4 in simp)
next
  case (5 s w m env ready)
  then show ?case using process_pending_fine [of s m "foreign env" ready] by (auto simp: handles_fine_def split: prod.splits)
next
  case (6 s w m now i)
  then show ?case
    by (auto simp: remove_pending_def Let_def split_beta handles_fine_def fine_cong(1) [OF emit_fields(1)]
        fine_cong(2) [OF emit_fields(1,2)] parked_ok_def accounted_but_def split: option.splits)
next
  case (7 s w m)
  then show ?case
    using reap_fine [of "s\<lparr>pending_messages := []\<rparr>" m "{}" EXEC_CANCELLED "Some ''queued work cancelled''" None]
    by (simp add: drain_pending_for_cancel_def Let_def handles_fine_def parked_ok_def accounted_but_def)
next
  case (8 s w m sel)
  then show ?case using handles_fine_cong [of s w m "choose_model sel s" w]
    by (simp add: choose_model_def Let_def)
next
  case (9 s w m s')
  then show ?case by (auto intro: handles_fine_cong)
qed

interpretation handle_machine: invariant_machine session_step handles_fine
  by unfold_locales (rule step_fine)


section \<open>An outcome is final\<close>

definition keeps_results :: "manager \<Rightarrow> manager \<Rightarrow> bool" where
  "keeps_results m m' \<longleftrightarrow> m_next m \<le> m_next m' \<and>
     (\<forall>x < m_next m. settled (m_execs m x) \<longrightarrow> settled (m_execs m' x) \<and> x_result (m_execs m' x) = x_result (m_execs m x))"

named_theorems keeps \<open>operations that keep every settled outcome\<close>

lemma keeps_refl [keeps]: "keeps_results m m"
  by (simp add: keeps_results_def)

lemma keeps_trans: "keeps_results m m' \<Longrightarrow> keeps_results m' m'' \<Longrightarrow> keeps_results m m''"
  by (auto simp: keeps_results_def)

lemma keeps_tables [keeps]:
  "keeps_results m m' \<Longrightarrow> keeps_results m (m'\<lparr>m_turn := a\<rparr>)"
  "keeps_results m m' \<Longrightarrow> keeps_results m (m'\<lparr>m_active := b\<rparr>)"
  "keeps_results m m' \<Longrightarrow> keeps_results m (m'\<lparr>m_rows := c\<rparr>)"
  "keeps_results m m' \<Longrightarrow> keeps_results m (m'\<lparr>m_rows := c, m_next_row := k\<rparr>)"
  "keeps_results m m' \<Longrightarrow> keeps_results m (put_parked sid d m')"
  by (simp_all add: keeps_results_def)

lemma keeps_settle [keeps]: "keeps_results m m' \<Longrightarrow> keeps_results m (settle_exec r e t x m')"
  by (auto simp: keeps_results_def)

lemma keeps_on_exec [keeps]:
  "keeps_results m m' \<Longrightarrow> keeps_results m (on_exec x mark_running m')"
  "keeps_results m m' \<Longrightarrow> keeps_results m (on_exec x (\<lambda>e. e\<lparr>x_msg_id := i\<rparr>) m')"
  "keeps_results m m' \<Longrightarrow> keeps_results m (on_exec x (\<lambda>e. mark_running (e\<lparr>x_msg_id := i\<rparr>)) m')"
  by (auto simp: keeps_results_def)

lemma keeps_register [keeps]: "keeps_results m m' \<Longrightarrow> keeps_results m (register_pending_exec sid i x m')"
  by (auto simp: register_pending_exec_def intro!: keeps split: option.split)

lemma keeps_take [keeps]: "keeps_results m m' \<Longrightarrow> keeps_results m (snd (take_pending_exec sid i m'))"
  by (auto simp: take_pending_exec_def intro!: keeps split: option.split)

lemma keeps_reap_ids [keeps]: "keeps_results m m' \<Longrightarrow> keeps_results m (reap_ids sid r err is m')"
  by (induction sid r err "is" m' rule: reap_ids.induct) (auto simp: keeps split: option.split)

lemma keeps_reap [keeps]: "keeps_results m m' \<Longrightarrow> keeps_results m (reap_pending_execs s r err is m')"
  by (simp add: reap_pending_execs_def Let_def keeps)

lemma keeps_pop [keeps]:
  "keeps_results m m' \<Longrightarrow> keeps_results m (snd (snd (pop_admitted env s es m')))"
  by (induction env s es m' rule: pop_admitted.induct) (simp_all add: keeps)

lemma keeps_process [keeps]:
  "keeps_results m m' \<Longrightarrow> keeps_results m (snd (process_pending env ready (s, m')))"
proof -
  assume m: "keeps_results m m'"
  let ?m = "reap_pending_execs s EXEC_DROPPED None None m'"
  obtain e rest m1 where p: "pop_admitted env s (pending_messages s) ?m = (e, rest, m1)"
    by (cases "pop_admitted env s (pending_messages s) ?m")
  then have m1: "keeps_results m m1" using keeps_pop [OF keeps_reap [OF m], of env s] by (metis snd_conv)
  obtain x m2 where t: "take_pending_exec (session_id s) (msg_id (the e)) m1 = (x, m2)" by fastforce
  then have "keeps_results m m2" using keeps_take [OF m1] by (metis snd_conv)
  with p m m1 t show ?thesis
    by (cases e; cases x) (simp_all add: process_pending_def start_turn_task_def keeps Let_def)
qed

abbreviation mgr_after :: "admission \<times> adm_state \<Rightarrow> manager" where
  "mgr_after r \<equiv> snd (snd (snd r))"

lemma keeps_admission [keeps]:
  assumes "keeps_results m m'"
  shows "keeps_results m (mgr_after (reject_admission now x r (s, w, m')))"
    "keeps_results m (mgr_after (queue_message env msg p x (s, w, m')))"
    "keeps_results m (mgr_after (absorb env t old msg x (s, w, m')))"
    "keeps_results m (mgr_after (recover_orphans env os msg p x (s, w, m')))"
  using assms by (simp_all add: reject_admission_def queue_message_def absorb_def recover_orphans_def Let_def
      split_beta save_prompt_def keeps)

lemma keeps_busy [keeps]:
  assumes "keeps_results m m'"
  shows "keeps_results m (mgr_after (busy_prompt env settling msg p ab x (s, w, m')))"
proof -
  have "keeps_results m (mgr_after (reject_admission now x r (fst ev, snd ev, m')))" for now r ev
    using assms by (rule keeps)
  moreover have "keeps_results m (mgr_after (if fst c then absorb env t old msg x (fst (snd c), snd (snd c), m')
      else queue_message env msg p x (fst (snd c), snd (snd c), m')))" for c t old
    using assms by (simp add: keeps)
  ultimately show ?thesis using assms
    by (simp add: busy_prompt_def Let_def split_beta keeps split: option.split)
qed

lemma keeps_start [keeps]:
  assumes "keeps_results m m'"
  shows "keeps_results m (mgr_after (start_prompt env msg p x (s, w, m')))"
  using assms unfolding start_prompt_def case_prod_conv Let_def
  by (simp add: split_beta keeps save_prompt_def start_turn_task_def)

lemma keeps_prompt: "keeps_results m (mgr_after (prompt env msg p opts origin (s, w, m)))"
proof -
  have n: "keeps_results m (m\<lparr>m_next := Suc (m_next m), m_execs := (m_execs m)(m_next m := new_execution opts origin)\<rparr>)"
    by (simp add: keeps_results_def)
  show ?thesis by (rule prompt_cases; rule keeps_admission(1) [OF n] keeps_busy [OF n] keeps_start [OF n])
qed

lemma keeps_settle_turn: "keeps_results m (snd (snd (settle_turn now d x (s, w, m))))"
proof -
  obtain s1 w1 where r: "restore_agent_model now d (s, w) = (s1, w1)" by fastforce
  obtain s2 m2 where rel: "release_execution x (s1, m) = (s2, m2)" by fastforce
  from release_execution_frame(3) [OF rel] have "keeps_results m m2" by (auto simp: keeps)
  with r rel show ?thesis by (simp add: settle_turn_def keeps split: option.split)
qed

lemma keeps_step: "keeps_results (snd (snd st)) (snd (snd (session_step st op)))"
proof (induction st op rule: session_step.induct)
  case (1 st env msg p opts origin)
  then show ?case using keeps_prompt [of "snd (snd st)"] by (cases st) (auto simp: split_beta)
next
  case (2 s w m)
  obtain s' m' where b: "apply_execution (turn_handle s m) (s\<lparr>turn := new_turn\<rparr>, m) = (s', m')" by fastforce
  from apply_execution_frame(3) [OF this] b show ?case by (auto simp: begin_turn_def keeps)
next
  case (3 s w m now d)
  then show ?case by (simp add: keeps_settle_turn keeps)
next
  case (4 s w m env)
  have "keeps_results m (snd (process_pending (foreign env) {IDLE_READY}
      (s\<lparr>task := Task_Done\<rparr>, m\<lparr>m_turn := (m_turn m)(session_id s := None)\<rparr>)))"
    by (intro keeps)
  then show ?case by (simp add: split_beta keeps)
next
  case (5 s w m env ready)
  have "keeps_results m (snd (process_pending (foreign env) ready (s, m)))" by (intro keeps)
  then show ?case by (simp add: split_beta)
next
  case (6 s w m now i)
  then show ?case by (auto simp: remove_pending_def Let_def split_beta keeps split: option.split)
next
  case (7 s w m)
  then show ?case by (simp add: drain_pending_for_cancel_def Let_def keeps)
qed (simp_all add: keeps)

interpretation outcome_machine: invariant_machine session_step "\<lambda>st. keeps_results m0 (snd (snd st))" for m0
  by unfold_locales (blast intro: keeps_trans keeps_step)

text \<open>The outcome of a handle is final: whatever settles it first, no later admission, turn,
  cancel or clean-up changes the outcome that the waiting caller reads.\<close>

theorem outcome_is_final:
  assumes "x < m_next m" and "x_result (m_execs m x) = Some r"
  shows "x_result (m_execs (snd (snd (foldl session_step (s, w, m) ops))) x) = Some r"
proof -
  have "keeps_results m (snd (snd (s, w, m)))" by (simp add: keeps)
  from outcome_machine.run_inv [OF this, of ops] assms show ?thesis
    by (simp add: keeps_results_def settled_def)
qed

section \<open>The settings that a turn runs under\<close>

definition settings_of :: "agent_session \<Rightarrow> string option \<times> string set option \<times> int option" where
  "settings_of s = (model_override s, tool_allowlist s, context_budget_override s)"

text \<open>What an agent's switches for one turn remember.\<close>

definition remembers :: "agent_session \<Rightarrow> agent_session \<Rightarrow> bool" where
  "remembers s1 s \<longleftrightarrow> session_id s = session_id s1 \<and> tool_allowlist s = tool_allowlist s1 \<and>
     (case model_before_agent_switch s of
        None \<Rightarrow> settings_of s = settings_of s1
      | Some b \<Rightarrow> b = (case model_override s1 of None \<Rightarrow> [] | Some old \<Rightarrow> old)
          \<and> budget_before_agent_switch s = Some (case context_budget_override s1 of None \<Rightarrow> -1 | Some k \<Rightarrow> k))"

lemma switch_remembers: "remembers s1 s \<Longrightarrow> remembers s1 (switch_session_model False m win d s)"
  by (auto simp: remembers_def switch_session_model_def Let_def settings_of_def split: option.splits)

interpretation switch_machine: invariant_machine
  "\<lambda>s (m, win, d). switch_session_model False m win d s" "remembers s1" for s1
  by unfold_locales (auto intro: switch_remembers)

lemma restored_remembers:
  assumes "remembers s1 s" "model_override s1 \<noteq> Some []"
  shows "model_override (fst (restore_agent_model now d (s, w))) = model_override s1
    \<and> tool_allowlist (fst (restore_agent_model now d (s, w))) = tool_allowlist s1
    \<and> (context_budget_override s1 \<noteq> Some (-1) \<longrightarrow>
         context_budget_override (fst (restore_agent_model now d (s, w))) = context_budget_override s1)"
  using assms by (auto simp: remembers_def restore_agent_model_def Let_def settings_of_def split: option.splits)

text \<open>A turn leaves the session's settings as it found them: whatever model, tools and budget its
  message asked for, and however often the agent switched its own model during the turn, after the
  turn has settled the model, the tool charter and the context budget are those from before, and
  nothing is left in force.\<close>

theorem settings_restored:
  assumes "m_active m (session_id s) = None" and "model_before_agent_switch s = None"
    and "model_override s \<noteq> Some []" and "context_budget_override s \<noteq> Some (-1)"
    and "begin_turn (Some x) (s, m) = (s1, m1)"
    and "s2 = foldl (\<lambda>s (md, win, d). switch_session_model False md win d s) s1 switches"
    and "settle_turn now dflt (Some x) (s2, w, m1) = (s3, w3, m3)"
  shows "settings_of s3 = settings_of s \<and> m_active m3 (session_id s) = None"
proof -
  obtain a b where r: "restore_agent_model now dflt (s2, w) = (a, b)" by fastforce
  have s1: "session_id s1 = session_id s" "model_before_agent_switch s1 = None" "model_override s1 \<noteq> Some []"
    using assms(1-3,5) by (auto simp: begin_turn_def apply_execution_def Let_def put_settings_def given_model_def
        split: option.splits if_splits)
  then have "remembers s1 s1" by (simp add: remembers_def)
  from switch_machine.run_inv [OF this, of switches] have "remembers s1 s2" by (simp add: assms(6))
  from restored_remembers [OF this s1(3), of now dflt w] r
  have a: "model_override a = model_override s1" "tool_allowlist a = tool_allowlist s1"
    "context_budget_override s1 \<noteq> Some (-1) \<longrightarrow> context_budget_override a = context_budget_override s1" by simp_all
  have "session_id s2 = session_id s" using \<open>remembers s1 s2\<close> s1(1) by (simp add: remembers_def)
  then have sid: "session_id a = session_id s" using restore_agent_model_frame(1) [of now dflt s2 w] r by simp
  obtain s4 m4 where rel: "release_execution (Some x) (a, m1) = (s4, m4)" by fastforce
  have "s3 = s4" "m_active m3 = m_active m4" using assms(7) r rel by (auto simp: settle_turn_def)
  moreover have "settings_of s4 = settings_of s \<and> m_active m4 (session_id s) = None"
  proof (cases "x_options (m_execs m x)")
    case None
    with assms(1,4,5) have "settings_of s1 = settings_of s" "m_active m1 (session_id s) = None"
      by (auto simp: begin_turn_def apply_execution_def Let_def settings_of_def)
    with rel a assms(4) sid show ?thesis by (simp add: release_execution_def settings_of_def)
  next
    case (Some o')
    show ?thesis
    proof (cases "is_empty o'")
      case True
      with Some assms(1,4,5) have "settings_of s1 = settings_of s" "m_active m1 (session_id s) = None"
        by (auto simp: begin_turn_def apply_execution_def Let_def settings_of_def)
      with rel a assms(4) sid show ?thesis by (simp add: release_execution_def settings_of_def)
    next
      case False
      with Some assms(1,5) have "s1 = put_settings o' (s\<lparr>turn := new_turn\<rparr>)"
        "m_active m1 (session_id s) = Some \<lparr>ap_exec = x, ap_model = model_override s, ap_tools = tool_allowlist s,
           ap_budget = context_budget_override s\<rparr>" "x_options (m_execs m1 x) = Some o'"
        by (auto simp: begin_turn_def apply_execution_def Let_def)
      with rel a assms(4) sid show ?thesis
        by (auto simp: release_execution_def settings_of_def restore_session_settings_def put_settings_def Let_def
            split: if_splits)
    qed
  qed
  ultimately show ?thesis by simp
qed

definition demo_options :: exec_options where
  "demo_options = \<lparr>eo_model = Some ''job-model'', eo_tools = Some {''bash''}, eo_budget = Some 8000\<rparr>"

definition demo_manager :: manager where
  "demo_manager = new_manager\<lparr>m_next := 1, m_execs := (\<lambda>_. new_execution (Some demo_options) ''scheduled'')\<rparr>"

lemma demo_manager_simps [simp]:
  "m_active demo_manager = Map.empty" "x_options (m_execs demo_manager k) = Some demo_options"
  "m_next demo_manager = 1" "m_turn demo_manager = Map.empty" "parked_of sid demo_manager = []"
  "x_result (m_execs demo_manager k) = None"
  by (simp_all add: demo_manager_def new_manager_def new_execution_def parked_of_def)

lemma settings_restored_witness:
  "case begin_turn (Some 0) ((new_session ''s1'' 0)\<lparr>model_override := Some ''mine''\<rparr>, demo_manager) of (s1, m1) \<Rightarrow>
     model_override s1 = Some ''job-model'' \<and>
     model_override (fst (settle_turn 0 ''dflt'' (Some 0)
       (switch_session_model False ''other'' (Some 100) 10 s1, empty_world, m1))) = Some ''mine''"
proof -
  let ?s = "(new_session ''s1'' 0)\<lparr>model_override := Some ''mine''\<rparr>"
  obtain s1 m1 where b: "begin_turn (Some 0) (?s, demo_manager) = (s1, m1)" by fastforce
  obtain s3 w3 m3 where e: "settle_turn 0 ''dflt'' (Some 0)
      (switch_session_model False ''other'' (Some 100) 10 s1, empty_world, m1) = (s3, w3, m3)"
    by (cases "settle_turn 0 ''dflt'' (Some 0) (switch_session_model False ''other'' (Some 100) 10 s1, empty_world, m1)")
  have "settings_of s3 = settings_of ?s \<and> m_active m3 (session_id ?s) = None"
    by (rule settings_restored [OF _ _ _ _ b _ e, where switches = "[(''other'', Some 100, 10)]"])
      (simp_all add: new_session_def)
  moreover have "model_override s1 = Some ''job-model''"
    using b by (auto simp: begin_turn_def apply_execution_def is_empty_def given_model_def demo_options_def put_settings_def Let_def)
  ultimately show ?thesis by (simp add: b e settings_of_def)
qed

text \<open>A model that the user chooses (or the agent switches to for the whole session) while a turn
  runs under a job's own model is lost when that turn settles: the session goes back to the model
  from before the turn, not to the choice.\<close>

theorem choice_lost_under_pinned_turn:
  assumes "m_active m (session_id s) = None" and "x_options (m_execs m x) = Some o'" and "given_model o'"
    and "begin_turn (Some x) (s, m) = (s1, m1)"
    and "s2 \<in> {choose_model (Some sel) s1, switch_session_model True sel win d s1}" and "py_strip sel \<noteq> []"
  shows "model_override s2 \<in> {Some (py_strip sel), Some sel}
    \<and> model_override (fst (settle_turn now dflt (Some x) (s2, w, m1))) = model_override s"
proof -
  have s1: "session_id s1 = session_id s" "x_options (m_execs m1 x) = Some o'"
    "m_active m1 (session_id s) = Some \<lparr>ap_exec = x, ap_model = model_override s, ap_tools = tool_allowlist s,
       ap_budget = context_budget_override s\<rparr>"
    using assms(1-4) by (auto simp: begin_turn_def apply_execution_def Let_def is_empty_def)
  have s2: "session_id s2 = session_id s" "model_before_agent_switch s2 = None" "model_override s2 \<in> {Some (py_strip sel), Some sel}"
    using assms(5,6) s1(1) by (auto simp: choose_model_def switch_session_model_def Let_def)
  then show ?thesis using s1 assms(3)
    by (simp add: settle_turn_def restore_agent_model_def release_execution_def restore_session_settings_def Let_def)
qed

lemma choice_lost_under_pinned_turn_witness:
  "case begin_turn (Some 0) (new_session ''s1'' 0, demo_manager) of (s1, m1) \<Rightarrow>
     model_override (fst (settle_turn 0 ''dflt'' (Some 0) (choose_model (Some ''mine'') s1, empty_world, m1))) = None"
proof -
  obtain s1 m1 where b: "begin_turn (Some 0) (new_session ''s1'' 0, demo_manager) = (s1, m1)" by fastforce
  have g: "given_model demo_options" by (simp add: given_model_def demo_options_def)
  have "py_strip ''mine'' \<noteq> []" by (simp add: py_strip_def py_lstrip_def py_rstrip_def py_space_def)
  from choice_lost_under_pinned_turn [OF _ _ g b insertI1 this, where now = 0 and dflt = "''dflt''" and w = empty_world] b
  show ?thesis by (simp add: new_session_def)
qed

lemma outcome_is_final_witness:
  "x_result (m_execs (snd (snd (foldl session_step (new_session ''s1'' 0, empty_world,
      settle_exec EXEC_REJECTED None None 0 demo_manager) [Do_Cancel, Do_Settle 0 ''dflt'']))) 0) = Some EXEC_REJECTED"
  by (rule outcome_is_final) (simp_all add: settled_def)

section \<open>What a turn reports\<close>

lemma error_frames [simp]:
  "error (prepared b tr s) = error s" "error (committed env b r tr s) = error s"
  by (auto simp: prepared_def committed_def touch_def Let_def split: prod.splits option.splits)

lemma transition_error:
  assumes "edge (current_state s) r = Some b" "e_log_ok env" "transition env b r tr (s, w) = (out, s', w')"
  shows "error s' = error s"
  using transition_done [OF assms(1,2), of tr w] assms(3) by auto

text \<open>A turn that the loop detector broke off, that ran out of rounds or that ran out of its time
  budget reports ``completed'' to whoever admitted it: the ends of the turn keep its reason, record no
  error, and the reason is not among those that count as a failure.\<close>

theorem broken_off_turn_reports_completed:
  assumes "current_state s \<in> set TERMINATION_ROUTED_STATES" and "e_log_ok env"
    and "termination_reason s \<in> Some ` {''stuck_loop'', ''round_ceiling'', ''budget_exhausted''}"
    and "error s = None" and "\<not> cancel_requested s"
  shows "case complete_turn env (leave_loop env (s, w)) of (s', w') \<Rightarrow>
     current_state s' = IDLE_READY \<and> termination_reason s' = termination_reason s
     \<and> outcome_of_turn s' = EXEC_COMPLETED"
proof -
  let ?s = "if current_state s = PAUSE_REQUESTED then s\<lparr>pause_set := True\<rparr> else s"
  let ?m = "map_termination_to_v2_reason (termination_reason s)"
  obtain out s1 w1 where t: "transition env FINALIZING (fst ?m) (Some (snd ?m)) (?s, w) = (out, s1, w1)"
    and e: "edge (current_state ?s) (fst ?m) = Some FINALIZING" and l: "leave_loop env (s, w) = (s1, w1)"
    by (rule leave_loop_step [OF assms(1)])
  obtain out' s' w' where t': "transition env IDLE_READY ''turn-complete'' None (s1, w1) = (out', s', w')"
    by (cases "transition env IDLE_READY ''turn-complete'' None (s1, w1)")
  note f = transition_ok [OF e assms(2) t]
  have e': "edge (current_state s1) ''turn-complete'' = Some IDLE_READY"
    unfolding f(2) by code_simp
  note f' = transition_ok [OF e' assms(2) t']
  obtain t where t2: "termination_reason s = Some t" "t \<in> {''stuck_loop'', ''round_ceiling'', ''budget_exhausted''}"
    using assms(3) by blast
  moreover have "{''stuck_loop'', ''round_ceiling'', ''budget_exhausted''} \<subseteq> fst ` set TERMINATION_TO_V2"
    by code_simp
  ultimately have "t \<in> fst ` set TERMINATION_TO_V2" by blast
  with t2(1) have "term_value (snd ?m) = the (termination_reason s)"
    by (simp add: mapped_reasons)
  then have "termination_reason s' = termination_reason s" using f(6) f'(6) assms(3) by auto
  moreover have "error s' = None" using transition_error [OF e assms(2) t] transition_error [OF e' assms(2) t'] assms(4) by simp
  moreover have "\<not> cancel_requested s'" using f(4) f'(4) assms(5) by simp
  moreover have "complete_turn env (leave_loop env (s, w)) = (s', w')"
    using l t' f(2) by (simp add: complete_turn_def quiet_def)
  ultimately show ?thesis using f'(2) assms(3) by (auto simp: outcome_of_turn_def)
qed

lemma broken_off_turn_reports_completed_witness:
  "outcome_of_turn (fst (complete_turn demo_env (leave_loop demo_env
     ((demo_at PROCESSING)\<lparr>termination_reason := Some ''stuck_loop''\<rparr>, empty_world)))) = EXEC_COMPLETED"
  using broken_off_turn_reports_completed [of "(demo_at PROCESSING)\<lparr>termination_reason := Some ''stuck_loop''\<rparr>" demo_env empty_world]
  by (simp add: TERMINATION_ROUTED_STATES_def current_state_def demo_at_def demo_env_def new_session_def split: prod.splits)

end
