(* ===== verification/Preview.thy ===== *)
theory Preview
  imports Edit_File "HOL-Library.Char_ord" "HOL-Library.List_Lexorder" "HOL-Library.Product_Lexorder"
begin

text \<open>
  What a tool captured and what the model is shown of it: \<open>core/tools/truncation.py\<close>, and of
  \<open>core/tools/builtin/core_tools.py\<close> the capture of a command's output, the collapse of repeated
  lines and \<open>file_read\<close>.

  A header is the record of the values its text interpolates, a note likewise.  The artifacts on disk
  are the record \<open>evidence\<close>; a file written from a text is kept apart from one that holds raw
  bytes, whose decoding is a parameter.  \<open>file_read\<close> works on the file system of the edit tools.
\<close>

section \<open>Lines\<close>

text \<open>Reading in text mode turns CR LF and a lone CR into LF; iterating a file keeps the LF.\<close>

fun text_mode :: "string \<Rightarrow> string" where
  "text_mode [] = []"
| "text_mode [c] = [if c = cr then nl else c]"
| "text_mode (c # d # s) =
     (if c = cr then (if d = nl then nl # text_mode s else nl # text_mode (d # s)) else c # text_mode (d # s))"

fun keep_lines :: "string \<Rightarrow> string list" where
  "keep_lines [] = []"
| "keep_lines (c # s) = (if c = nl then [nl] # keep_lines s
     else case keep_lines s of [] \<Rightarrow> [[c]] | l # ls \<Rightarrow> (c # l) # ls)"

definition strip_nl :: "string \<Rightarrow> string" where
  "strip_nl l = rev (dropWhile (\<lambda>c. c = nl) (rev l))"

definition line_count :: "string \<Rightarrow> nat" where
  "line_count s = (if s = [] then 0 else count_list s nl + (if ends_with [nl] s then 0 else 1))"

text \<open>\<open>rfind\<close> and \<open>find\<close> of a line feed.\<close>

definition rfind_nl :: "string \<Rightarrow> nat option" where
  "rfind_nl s = (if nl \<in> set s then Some (length s - 1 - length (takeWhile (\<lambda>c. c \<noteq> nl) (rev s))) else None)"

definition head_at_line_boundary :: "string \<Rightarrow> nat \<Rightarrow> string \<times> nat \<times> bool" where
  "head_at_line_boundary output max_bytes =
     (let window = take max_bytes output in
      case rfind_nl window of
        None \<Rightarrow> (window, 0, True)
      | Some i \<Rightarrow> let preview = take (i + 1) window in (preview, count_list preview nl, False))"

definition tail_at_line_boundary :: "string \<Rightarrow> nat \<Rightarrow> string \<times> nat \<times> bool" where
  "tail_at_line_boundary output max_bytes =
     (let window = (if max_bytes = 0 then output else last_chars max_bytes output) in
      case find_sub [nl] window of
        None \<Rightarrow> (window, 0, True)
      | Some i \<Rightarrow> let preview = drop (i + 1) window in (preview, line_count preview, False))"

section \<open>What an acquisition says of itself\<close>

record acq_meta =
  aq_source :: string
  aq_unit :: string
  aq_captured :: nat
  aq_total :: "nat option"
  aq_complete :: bool
  aq_reason :: string
  aq_artifact :: string

definition acquisition_meta ::
    "string \<Rightarrow> nat \<Rightarrow> nat option \<Rightarrow> string \<Rightarrow> string \<Rightarrow> string \<Rightarrow> acq_meta" where
  "acquisition_meta src captured source_total unit' reason artifact =
     (let complete = (case source_total of None \<Rightarrow> False | Some t \<Rightarrow> captured \<ge> t) in
      \<lparr>aq_source = src, aq_unit = unit', aq_captured = captured, aq_total = source_total,
       aq_complete = complete, aq_reason = (if complete then [] else reason), aq_artifact = artifact\<rparr>)"

datatype acq_note =
    Incomplete_Acquisition string nat "nat option" string string "string option"
  | Raw_Evidence string nat string string

definition acquisition_note :: "acq_meta option \<Rightarrow> acq_note option" where
  "acquisition_note meta = (case meta of None \<Rightarrow> None
     | Some m \<Rightarrow> if aq_complete m then None
         else Some (Incomplete_Acquisition (aq_source m) (aq_captured m) (aq_total m) (aq_unit m)
           (if aq_reason m = [] then ''an acquisition cap'' else aq_reason m)
           (if aq_artifact m = [] then None else Some (aq_artifact m))))"

definition evidence_pointer :: "acq_meta option \<Rightarrow> acq_note option" where
  "evidence_pointer meta = (case meta of None \<Rightarrow> None
     | Some m \<Rightarrow> if aq_artifact m = [] \<or> \<not> aq_complete m then None
         else Some (Raw_Evidence (aq_source m) (aq_captured m) (aq_unit m) (aq_artifact m)))"

definition acquisition_notes :: "acq_meta list \<Rightarrow> acq_note list" where
  "acquisition_notes metas = List.map_filter
     (\<lambda>m. case acquisition_note (Some m) of Some n \<Rightarrow> Some n | None \<Rightarrow> evidence_pointer (Some m)) metas"

section \<open>Artifacts\<close>

datatype stored = Raw_Bytes string | Utf8_Text string

record evidence =
  ev_files :: "string \<rightharpoonup> stored"
  ev_meta :: "string \<rightharpoonup> acq_meta"

text \<open>The sidecar's path: the suffix of the last component replaced.\<close>

definition meta_path :: "string \<Rightarrow> string" where
  "meta_path p =
     (let name = rev (takeWhile (\<lambda>c. c \<noteq> CHR ''/'') (rev p));
          ext = rev (takeWhile (\<lambda>c. c \<noteq> CHR ''.'') (rev name));
          n = length name - length ext
      in (if CHR ''.'' \<in> set name \<and> n > 1 \<and> ext \<noteq> [] then take (length p - length ext - 1) p else p)
         @ ''.meta.json'')"

text \<open>A write attempt: the fresh path that \<open>new_artifact_path\<close> made up, and whether it succeeds.\<close>

record attempt =
  at_path :: string
  at_ok :: bool
  at_meta_ok :: bool

definition write_artifact_meta :: "attempt \<Rightarrow> acq_meta \<Rightarrow> evidence \<Rightarrow> evidence" where
  "write_artifact_meta a meta e = (if at_meta_ok a then e\<lparr>ev_meta := (ev_meta e)(meta_path (at_path a) \<mapsto> meta)\<rparr> else e)"

definition write_artifact :: "attempt \<Rightarrow> string \<Rightarrow> acq_meta option \<Rightarrow> evidence \<Rightarrow> string \<times> evidence" where
  "write_artifact a txt' meta e =
     (if \<not> at_ok a then ([], e)
      else let e1 = e\<lparr>ev_files := (ev_files e)(at_path a \<mapsto> Utf8_Text txt')\<rparr> in
        (at_path a, case meta of None \<Rightarrow> e1
           | Some m \<Rightarrow> write_artifact_meta a (m\<lparr>aq_artifact := at_path a\<rparr>) e1))"

section \<open>Truncation\<close>

definition MAX_OUTPUT :: nat where "MAX_OUTPUT = 50000"

datatype cursor = Continue_At nat | Wide_Line nat bool

record preview_header =
  ph_shown :: nat
  ph_total_lines :: nat
  ph_preview_chars :: nat
  ph_total_chars :: nat
  ph_path :: string
  ph_cursor :: cursor
  ph_notes :: "acq_note list"
  ph_rlm :: bool

datatype rendering =
    Whole string
  | Clipped string nat
  | Preview_Of preview_header string

record trunc_meta =
  tm_truncated :: bool
  tm_total_chars :: nat
  tm_source_complete :: bool
  tm_output_path :: "string option"

definition truncate_output ::
    "bool \<Rightarrow> attempt \<Rightarrow> string \<Rightarrow> bool \<Rightarrow> nat \<Rightarrow> acq_meta list \<Rightarrow> evidence \<Rightarrow> (rendering \<times> trunc_meta) \<times> evidence" where
  "truncate_output rlm a output tail max_bytes sources e =
     (let meta = \<lparr>tm_truncated = False, tm_total_chars = length output,
                  tm_source_complete = list_all aq_complete sources, tm_output_path = None\<rparr>
      in if length output \<le> max_bytes then ((Whole output, meta), e)
         else let (rel_path, e1) = write_artifact a output None e in
           if rel_path = [] then
             ((Clipped (take max_bytes output) (length output), meta\<lparr>tm_truncated := True\<rparr>), e1)
           else
             let total_lines = line_count output;
                 (preview, shown_lines, mid_line) =
                   (if tail then tail_at_line_boundary output max_bytes else head_at_line_boundary output max_bytes);
                 next_offset = (if tail then total_lines - shown_lines else shown_lines);
                 cursor = (if mid_line then Wide_Line (length preview) (total_lines > 1) else Continue_At next_offset);
                 header = \<lparr>ph_shown = shown_lines, ph_total_lines = total_lines, ph_preview_chars = length preview,
                           ph_total_chars = length output, ph_path = rel_path, ph_cursor = cursor,
                           ph_notes = acquisition_notes sources, ph_rlm = rlm\<rparr>
             in ((Preview_Of header preview, meta\<lparr>tm_truncated := True, tm_output_path := Some rel_path\<rparr>), e1))"

section \<open>The capture of a command\<close>

definition CAPTURE_READ_CAP :: nat where "CAPTURE_READ_CAP = 5 * 1024 * 1024"
definition CAPTURE_ARTIFACT_CAP :: nat where "CAPTURE_ARTIFACT_CAP = 5 * 1024 * 1024"
definition CAPTURE_COPY_CHUNK :: nat where "CAPTURE_COPY_CHUNK = 1024 * 1024"

text \<open>
  The copy loop: blocks of the file until \<open>remaining\<close> is used up or the file ends.
\<close>

function copy_blocks :: "nat \<Rightarrow> nat \<Rightarrow> string \<Rightarrow> string" where
  "copy_blocks chunk remaining source =
     (if remaining = 0 then []
      else let block = take (min chunk remaining) source in
        if block = [] then []
        else block @ copy_blocks chunk (remaining - length block) (drop (length block) source))"
  by pat_completeness auto
termination by (relation "measure (\<lambda>(_, r, _). r)") auto

text \<open>
  One capture file: its bytes, whether it can be measured and read back, the artifact's path, and
  how the copy goes: it fails before there is a file, or after some bytes.
\<close>

datatype copy_end = Copied | No_File | Broken_Off nat

record capture =
  cp_bytes :: string
  cp_seek_ok :: bool
  cp_read_ok :: bool
  cp_copy :: copy_end
  cp_attempt :: attempt

definition captured_nothing :: "string \<Rightarrow> acq_meta" where
  "captured_nothing stream = acquisition_meta (''bash '' @ stream) 0 (Some 0) ''bytes'' [] []"

definition capture_evidence ::
    "(string \<Rightarrow> string) \<Rightarrow> string \<Rightarrow> bool \<Rightarrow> capture \<Rightarrow> evidence \<Rightarrow> (string \<times> acq_meta) \<times> evidence" where
  "capture_evidence decode stream persist f e =
     (let sz = length (cp_bytes f); a = cp_attempt f in
      if \<not> cp_seek_ok f \<or> sz = 0 then (([], captured_nothing stream), e)
      else
        let (artifact, captured, e1) =
              (if persist \<and> sz > MAX_OUTPUT then
                 (case cp_copy f of
                    Copied \<Rightarrow> (at_path a, min sz CAPTURE_ARTIFACT_CAP, e\<lparr>ev_files := (ev_files e)(at_path a \<mapsto>
                      Raw_Bytes (copy_blocks CAPTURE_COPY_CHUNK (min sz CAPTURE_ARTIFACT_CAP) (cp_bytes f)))\<rparr>)
                  | No_File \<Rightarrow> ([], min sz CAPTURE_READ_CAP, e)
                  | Broken_Off k \<Rightarrow> ([], min sz CAPTURE_READ_CAP, e\<lparr>ev_files := (ev_files e)(at_path a \<mapsto>
                      Raw_Bytes (take k (take CAPTURE_ARTIFACT_CAP (cp_bytes f))))\<rparr>))
               else ([], sz, e));
            meta = acquisition_meta (''bash '' @ stream) captured (Some sz) ''bytes''
              (''the '' @ dec (CAPTURE_ARTIFACT_CAP div (1024 * 1024)) @ '' MiB process-output cap'') artifact;
            e2 = (if artifact = [] then e1 else write_artifact_meta a meta e1)
        in ((if cp_read_ok f then decode (take CAPTURE_READ_CAP (cp_bytes f)) else [], meta), e2))"

section \<open>Repeated lines\<close>

text \<open>\<open>repr\<close> of a string of the characters 0 to 255.\<close>

definition hex_digit :: "nat \<Rightarrow> char" where
  "hex_digit n = (if n < 10 then char_of (48 + n) else char_of (87 + n))"

definition repr_char :: "char \<Rightarrow> char \<Rightarrow> string" where
  "repr_char q c = (let n = (of_char c :: nat) in
     if c = q \<or> n = 92 then [CHR 0x5C, c]
     else if n = 10 then [CHR 0x5C, CHR ''n'']
     else if n = 13 then [CHR 0x5C, CHR ''r'']
     else if n = 9 then [CHR 0x5C, CHR ''t'']
     else if n < 32 \<or> 127 \<le> n \<and> n \<le> 160 \<or> n = 173 then [CHR 0x5C, CHR ''x'', hex_digit (n div 16), hex_digit (n mod 16)]
     else [c])"

definition py_repr :: "string \<Rightarrow> string" where
  "py_repr s = (let q = (if CHR 0x27 \<in> set s \<and> CHR 0x22 \<notin> set s then CHR 0x22 else CHR 0x27) in
     [q] @ concat (map (repr_char q) s) @ [q])"

definition noisy :: "nat \<Rightarrow> string list \<Rightarrow> string \<Rightarrow> bool" where
  "noisy threshold lines l \<longleftrightarrow> py_strip l \<noteq> [] \<and> count_list lines l \<ge> threshold"

text \<open>The loop, with the counters \<open>seen\<close> and \<open>omitted\<close>; the latter keeps its insertion order.\<close>

fun collapse_lines ::
    "(string \<Rightarrow> bool) \<Rightarrow> nat \<Rightarrow> (string \<Rightarrow> nat) \<Rightarrow> (string \<times> nat) list \<Rightarrow> string list \<Rightarrow> string list \<times> (string \<times> nat) list" where
  "collapse_lines ns keep seen omitted [] = ([], omitted)"
| "collapse_lines ns keep seen omitted (l # ls) =
     (if ns l then
        let seen' = seen(l := seen l + 1) in
        if seen' l > keep then
          collapse_lines ns keep seen' (dict_set l (case map_of omitted l of None \<Rightarrow> 1 | Some n \<Rightarrow> n + 1) omitted) ls
        else let (out, om) = collapse_lines ns keep seen' omitted ls in (l # out, om)
      else let (out, om) = collapse_lines ns keep seen omitted ls in (l # out, om))"

definition omission_marker :: "string \<times> nat \<Rightarrow> string" where
  "omission_marker = (\<lambda>(l, n). ''['' @ dec n @ '' more identical lines omitted: '' @ py_repr (take 80 l) @ '']'')"

definition collapse_repeated_lines :: "string \<Rightarrow> nat \<Rightarrow> nat \<Rightarrow> string" where
  "collapse_repeated_lines output threshold keep =
     (let lines = split_on nl output in
      if length lines < threshold \<or> \<not> list_ex (noisy threshold lines) lines then output
      else let (out, omitted) = collapse_lines (noisy threshold lines) keep (\<lambda>_. 0) [] lines
           in join_with [nl] (out @ map omission_marker omitted))"

definition collapse_for_preview ::
    "attempt \<Rightarrow> string \<Rightarrow> acq_meta list \<Rightarrow> evidence \<Rightarrow> (string \<times> acq_meta list) \<times> evidence" where
  "collapse_for_preview a raw metas e =
     (let collapsed = collapse_repeated_lines raw 6 3 in
      if collapsed = raw \<or> list_ex (\<lambda>m. aq_artifact m \<noteq> []) metas then ((collapsed, metas), e)
      else let n = byte_size raw;
               meta = acquisition_meta ''bash output (pre-collapse)'' n (Some n) ''bytes'' [] [];
               (path, e1) = write_artifact a raw (Some meta) e
           in if path = [] then ((collapsed, metas), e1)
              else ((collapsed, metas @ [meta\<lparr>aq_artifact := path\<rparr>]), e1))"

text \<open>What \<open>bash\<close> returns once the command has ended: the notes in front and the body.\<close>

definition bash_output ::
    "(string \<Rightarrow> string) \<Rightarrow> bool \<Rightarrow> capture \<Rightarrow> capture \<Rightarrow> attempt \<Rightarrow> attempt \<Rightarrow> evidence
     \<Rightarrow> (acq_note list \<times> rendering) \<times> evidence" where
  "bash_output decode rlm out_f err_f a1 a2 e =
     (let ((stdout, out_meta), e1) = capture_evidence decode ''stdout'' True out_f e;
          ((stderr, err_meta), e2) = capture_evidence decode ''stderr'' True err_f e1;
          acquired = filter (\<lambda>m. aq_captured m \<noteq> 0) [out_meta, err_meta];
          output = stdout @ (if stderr = [] then [] else (if stdout = [] then [] else [nl]) @ stderr);
          ((collapsed, acquired'), e3) = collapse_for_preview a1 output acquired e2
      in if length collapsed > MAX_OUTPUT then
           let ((r, _), e4) = truncate_output rlm a2 collapsed False MAX_OUTPUT acquired' e3 in (([], r), e4)
         else ((acquisition_notes acquired', Whole collapsed), e3))"

section \<open>Reading a file by pages\<close>

text \<open>The loop of the ranged read: the lines taken, how many characters, whether the budget ended it.\<close>

record page =
  pa_lines :: "string list"
  pa_total :: nat
  pa_chars :: nat
  pa_full :: bool

definition empty_page :: page where
  "empty_page = \<lparr>pa_lines = [], pa_total = 0, pa_chars = 0, pa_full = False\<rparr>"

definition range_step :: "nat \<Rightarrow> int \<Rightarrow> int \<Rightarrow> page \<Rightarrow> nat \<times> string \<Rightarrow> page" where
  "range_step budget offset limit pg = (\<lambda>(i, line).
     let pg = pg\<lparr>pa_total := i + 1\<rparr> in
     if int i < offset then pg
     else if pa_full pg \<or> limit > 0 \<and> int (length (pa_lines pg)) \<ge> limit then pg
     else if pa_chars pg + length line > budget then pg\<lparr>pa_full := True\<rparr>
     else pg\<lparr>pa_lines := pa_lines pg @ [strip_nl line], pa_chars := pa_chars pg + length line\<rparr>)"

definition range_page :: "nat \<Rightarrow> int \<Rightarrow> int \<Rightarrow> string list \<Rightarrow> page" where
  "range_page budget offset limit ls = foldl (range_step budget offset limit) empty_page (zip [0..<length ls] ls)"

text \<open>The loop over the head of a large file, which also stops counting at a ceiling.\<close>

definition LINE_COUNT_CEILING :: nat where "LINE_COUNT_CEILING = 1000000"

fun head_page :: "nat \<Rightarrow> nat \<Rightarrow> page \<Rightarrow> string list \<Rightarrow> page \<times> bool" where
  "head_page budget max_count pg [] = (pg, False)"
| "head_page budget max_count pg (line # ls) =
     (let pg1 = pg\<lparr>pa_total := pa_total pg + 1\<rparr> in
      if pa_total pg1 > max_count then (pg1, True)
      else head_page budget max_count
        (if pa_full pg1 then pg1
         else if pa_chars pg1 + length line > budget then pg1\<lparr>pa_full := True\<rparr>
         else pg1\<lparr>pa_lines := pa_lines pg1 @ [strip_nl line], pa_chars := pa_chars pg1 + length line\<rparr>) ls)"

definition read_one_line_head :: "string list \<Rightarrow> int \<Rightarrow> nat \<Rightarrow> string \<times> nat" where
  "read_one_line_head ls index cap =
     (if 0 \<le> index \<and> nat index < length ls then
        let body = strip_nl (ls ! nat index) in (take cap body, length body)
      else ([], 0))"

definition number_lines :: "int \<Rightarrow> string list \<Rightarrow> (int \<times> string) list" where
  "number_lines offset lines = map (\<lambda>(i, l). (offset + int i + 1, l)) (zip [0..<length lines] lines)"

text \<open>
  The replies.  \<open>Lines_Page\<close> carries the range, the total, whether the budget ended it, and the
  continuation when lines remain; the two wide-line replies carry the offset they name.
\<close>

datatype read_reply =
    Path_Refused
  | Listing "string list" nat
  | File_Not_Found
  | Not_Regular
  | Binary_Refused nat
  | Wide_Line_At int nat nat string int
  | Lines_Page int int nat bool "(nat \<times> int) option" "(int \<times> string) list"
  | Large_Wide nat bool nat nat string int
  | Large_Head nat bool nat nat nat int "(int \<times> string) list"
  | Whole_Text string
  | Read_Error

text \<open>A directory entry is shown with a mark and cut at two hundred.\<close>

definition listing :: "(string \<times> bool) list \<Rightarrow> read_reply" where
  "listing entries = (let sorted = sort_key (\<lambda>(n, d). (\<not> d, n)) entries in
     Listing (map (\<lambda>(n, d). (if d then ''d '' else ''  '') @ n) (take 200 sorted)) (length sorted - 200))"

definition read_range :: "string list \<Rightarrow> int \<Rightarrow> int \<Rightarrow> read_reply" where
  "read_range ls offset limit =
     (let pg = range_page MAX_OUTPUT offset limit ls;
          shown = length (pa_lines pg);
          end_line = offset + int shown;
          remaining = int (pa_total pg) - end_line
      in if pa_full pg \<and> shown = 0 then
           let (head, line_len) = read_one_line_head ls offset MAX_OUTPUT
           in Wide_Line_At (offset + 1) (pa_total pg) line_len head (offset + 1)
         else Lines_Page (offset + 1) end_line (pa_total pg) (pa_full pg)
                (if remaining > 0 then Some (nat remaining, end_line) else None)
                (number_lines offset (pa_lines pg)))"

definition read_large :: "nat \<Rightarrow> string list \<Rightarrow> read_reply" where
  "read_large sz ls =
     (let (pg, count_floor) = head_page MAX_OUTPUT LINE_COUNT_CEILING empty_page ls;
          shown = length (pa_lines pg)
      in if shown = 0 then
           let (head, line_len) = read_one_line_head ls 0 MAX_OUTPUT
           in Large_Wide sz count_floor (pa_total pg) line_len head 1
         else Large_Head sz count_floor (pa_total pg) shown (pa_chars pg) (int shown) (number_lines 0 (pa_lines pg)))"

text \<open>What \<open>file_read\<close> finds out about its path: the resolution, the entries of a directory.\<close>

record read_env =
  rd_resolved :: "string option"
  rd_candidates :: "(string \<times> bool) list option list"
  rd_entries :: "(string \<times> bool) list"
  rd_sample_ok :: bool
  rd_open_ok :: bool

definition file_read :: "read_env \<Rightarrow> int \<Rightarrow> int \<Rightarrow> fs \<Rightarrow> read_reply" where
  "file_read env offset limit f = (case rd_resolved env of None \<Rightarrow> Path_Refused
     | Some p \<Rightarrow> (case f p of
         None \<Rightarrow> (case List.map_filter id (rd_candidates env) of
             es # _ \<Rightarrow> listing es | [] \<Rightarrow> File_Not_Found)
       | Some Directory \<Rightarrow> listing (rd_entries env)
       | Some Other_Node \<Rightarrow> Not_Regular
       | Some (Regular text m) \<Rightarrow>
           if is_binary (rd_sample_ok env) text then Binary_Refused (byte_size text)
           else if \<not> rd_open_ok env then Read_Error
           else if offset > 0 \<or> limit > 0 then read_range (keep_lines (text_mode text)) offset limit
           else if byte_size text > MAX_OUTPUT then read_large (byte_size text) (keep_lines (text_mode text))
           else Whole_Text (text_mode text)))"

end
