(* ===== verification/Preview_Proofs.thy ===== *)
theory Preview_Proofs
  imports Preview "HOL-Library.Sublist"
begin

text \<open>
  What holds of the previews: the cursor of a truncated output against the file it points to, the
  pages of \<open>file_read\<close> followed to the end, what the collapse of repeated lines keeps, and
  which evidence survives.
\<close>

section \<open>Lines and text mode\<close>

lemma concat_keep_lines [simp]: "concat (keep_lines s) = s"
  by (induction s rule: keep_lines.induct) (auto split: list.splits)

lemma keep_lines_ne: "l \<in> set (keep_lines s) \<Longrightarrow> l \<noteq> []"
  by (induction s arbitrary: l rule: keep_lines.induct) (auto split: if_splits list.splits)

lemma keep_lines_Nil_iff [simp]: "keep_lines s = [] \<longleftrightarrow> s = []"
  by (induction s rule: keep_lines.induct) (auto split: list.splits)

lemma keep_lines_append: "keep_lines (s @ nl # t) = keep_lines (s @ [nl]) @ keep_lines t"
  by (induction s rule: keep_lines.induct) (auto split: list.splits)

lemma ends_with_iff: "ends_with [c] s \<longleftrightarrow> s \<noteq> [] \<and> last s = c"
  by (cases s rule: rev_cases) (auto simp: ends_with_def starts_with_iff)

lemma length_keep_lines: "length (keep_lines s) = line_count s"
proof (induction s rule: keep_lines.induct)
  case (2 c s)
  then show ?case by (auto simp: line_count_def ends_with_iff split: list.splits if_splits)
qed (simp add: line_count_def)

lemma text_mode_append: "text_mode (s @ nl # t) = text_mode (s @ [nl]) @ text_mode t"
proof (induction s rule: text_mode.induct)
  case (2 c)
  then show ?case by (cases t) auto
next
  case (3 c d s)
  then show ?case by simp
qed (cases t; simp)

lemma text_mode_nl [simp]: "text_mode (nl # t) = nl # text_mode t"
  using text_mode_append [of "[]" t] by simp

text \<open>Carriage returns that no line feed follows: each begins a line of its own in text mode.\<close>

fun lone_crs :: "string \<Rightarrow> nat" where
  "lone_crs [] = 0"
| "lone_crs [c] = (if c = cr then 1 else 0)"
| "lone_crs (c # d # s) = (if c = cr \<and> d \<noteq> nl then 1 else 0) + lone_crs (d # s)"

lemma lone_crs_nl: "lone_crs (nl # s) = lone_crs s"
  by (cases s) auto

lemma count_text_mode: "count_list (text_mode s) nl = count_list s nl + lone_crs s"
  by (induction s rule: text_mode.induct) (auto simp: lone_crs_nl)

lemma length_text_mode: "length (text_mode s) \<le> length s"
  by (induction s rule: text_mode.induct) auto

lemma line_count_ends: "ends_with [nl] s \<Longrightarrow> line_count s = count_list s nl"
  by (auto simp: line_count_def)

lemma ends_with_snoc [simp]: "ends_with [c] (s @ [d]) \<longleftrightarrow> c = d"
  by (auto simp: ends_with_iff)

lemma text_mode_snoc: "\<exists>t. text_mode (s @ [nl]) = t @ [nl]"
  by (induction s rule: text_mode.induct) auto

lemma lines_of_ended: "length (keep_lines (text_mode (s @ [nl]))) = count_list (s @ [nl]) nl + lone_crs (s @ [nl])"
proof -
  obtain t where t: "text_mode (s @ [nl]) = t @ [nl]" using text_mode_snoc by blast
  have "length (keep_lines (text_mode (s @ [nl]))) = count_list (text_mode (s @ [nl])) nl"
    by (simp add: length_keep_lines t line_count_ends)
  then show ?thesis by (simp only: count_text_mode)
qed

lemma rfind_nl_Some:
  assumes "rfind_nl w = Some i"
  shows "\<exists>p r. w = p @ nl # r \<and> length p = i"
proof -
  have "nl \<in> set w" using assms by (auto simp: rfind_nl_def split: if_splits)
  then obtain p r where w: "w = p @ nl # r" and r: "nl \<notin> set r" by (meson split_list_last)
  have "takeWhile (\<lambda>c. c \<noteq> nl) (rev r @ [nl] @ rev p) = rev r" using r by (subst takeWhile_append2) auto
  then have "i = length p" using assms by (simp add: rfind_nl_def w)
  with w show ?thesis by blast
qed

section \<open>The cursor of a truncated output\<close>

lemma head_boundary:
  assumes "head_at_line_boundary output mx = (preview, k, False)"
  shows "\<exists>p rest. preview = p @ [nl] \<and> output = preview @ rest \<and> k = count_list preview nl"
proof -
  obtain i where i: "rfind_nl (take mx output) = Some i"
    using assms by (auto simp: head_at_line_boundary_def Let_def split: option.splits)
  then obtain p r where w: "take mx output = p @ nl # r" and "length p = i" using rfind_nl_Some by blast
  then have tk: "take (i + 1) (take mx output) = p @ [nl]" by simp
  have pk: "preview = p @ [nl]" "k = count_list (p @ [nl]) nl"
    using assms i tk by (auto simp: head_at_line_boundary_def Let_def simp del: take_take)
  have "output = take mx output @ drop mx output" by simp
  then have "output = preview @ (r @ drop mx output)" using w pk by (metis append_Cons append_Nil append_assoc)
  then show ?thesis using pk by blast
qed

lemma truncated_head:
  assumes "truncate_output rlm a output False mx sources e = ((Preview_Of h preview, md), e')"
    and "ph_cursor h = Continue_At k"
  shows "head_at_line_boundary output mx = (preview, k, False)" "ph_path h = at_path a"
    "ev_files e' = (ev_files e)(at_path a \<mapsto> Utf8_Text output)" "ph_notes h = acquisition_notes sources"
  using assms by (auto simp: truncate_output_def Let_def write_artifact_def split: if_splits prod.splits)

text \<open>The cursor of a truncated output. The artifact named in the header holds the whole
  rendering, the preview is its beginning, cut after a line, and what \<open>file_read\<close> numbers from the
  cursor on begins with the first line not shown or earlier: nothing is skipped. Nothing is repeated
  either exactly when the preview holds no carriage return of its own, because \<open>file_read\<close>
  counts such a one as a line and the cursor does not.\<close>

theorem cursor_skips_nothing:
  assumes "truncate_output rlm a output False mx sources e = ((Preview_Of h preview, md), e')"
    and "ph_cursor h = Continue_At k"
  shows "ev_files e' (ph_path h) = Some (Utf8_Text output) \<and>
    (\<exists>rest. output = preview @ rest \<and> preview \<noteq> [] \<and> last preview = nl \<and> k = count_list preview nl \<and>
       keep_lines (text_mode output) = keep_lines (text_mode preview) @ keep_lines (text_mode rest) \<and>
       k \<le> length (keep_lines (text_mode preview)) \<and>
       (rest \<noteq> [] \<longrightarrow> (drop k (keep_lines (text_mode output)) = keep_lines (text_mode rest)) = (lone_crs preview = 0)))"
proof -
  note t = truncated_head [OF assms]
  obtain p rest where p: "preview = p @ [nl]" and o: "output = preview @ rest" and k: "k = count_list preview nl"
    using head_boundary [OF t(1)] by blast
  have len: "length (keep_lines (text_mode preview)) = k + lone_crs preview"
    unfolding k p by (rule lines_of_ended)
  obtain u where u: "text_mode preview = u @ [nl]" unfolding p using text_mode_snoc by blast
  have split: "keep_lines (text_mode output) = keep_lines (text_mode preview) @ keep_lines (text_mode rest)"
    using text_mode_append [of p rest] keep_lines_append [of u "text_mode rest"] by (simp add: o p u [unfolded p])
  have dr: "drop k (keep_lines (text_mode output)) = drop k (keep_lines (text_mode preview)) @ keep_lines (text_mode rest)"
    by (simp add: split len)
  have "(drop k (keep_lines (text_mode output)) = keep_lines (text_mode rest)) = (lone_crs preview = 0)"
    unfolding dr using len by auto
  then show ?thesis using t o p k split len by auto
qed

text \<open>At a preview of three characters: the same line of a progress display is read twice.\<close>

lemma cursor_skips_nothing_witness:
  "let out = ''a'' @ [cr] @ ''b'' @ [nl] @ ''c'' @ [nl] @ ''d'';
       a = \<lparr>at_path = ''o.txt'', at_ok = True, at_meta_ok = True\<rparr>;
       e = \<lparr>ev_files = Map.empty, ev_meta = Map.empty\<rparr>;
       h = \<lparr>ph_shown = 1, ph_total_lines = 3, ph_preview_chars = 4, ph_total_chars = 7, ph_path = ''o.txt'',
            ph_cursor = Continue_At 1, ph_notes = [], ph_rlm = False\<rparr>
   in fst (fst (truncate_output False a out False 5 [] e)) = Preview_Of h (''a'' @ [cr] @ ''b'' @ [nl])
      \<and> drop 1 (keep_lines (text_mode out)) = [''b'' @ [nl], ''c'' @ [nl], ''d'']
      \<and> ev_files (snd (truncate_output False a out False 5 [] e)) ''o.txt'' = Some (Utf8_Text out)"
proof -
  let ?out = "''a'' @ [cr] @ ''b'' @ [nl] @ ''c'' @ [nl] @ ''d''"
  let ?a = "\<lparr>at_path = ''o.txt'', at_ok = True, at_meta_ok = True\<rparr>"
  let ?e = "\<lparr>ev_files = Map.empty, ev_meta = Map.empty\<rparr> :: evidence"
  let ?h = "\<lparr>ph_shown = 1, ph_total_lines = 3, ph_preview_chars = 4, ph_total_chars = 7, ph_path = ''o.txt'',
            ph_cursor = Continue_At 1, ph_notes = [], ph_rlm = False\<rparr>"
  have t: "truncate_output False ?a ?out False 5 [] ?e =
    ((Preview_Of ?h (''a'' @ [cr] @ ''b'' @ [nl]), \<lparr>tm_truncated = True, tm_total_chars = 7,
       tm_source_complete = True, tm_output_path = Some ''o.txt''\<rparr>),
     \<lparr>ev_files = [''o.txt'' \<mapsto> Utf8_Text ?out], ev_meta = Map.empty\<rparr>)"
    by (simp add: truncate_output_def write_artifact_def head_at_line_boundary_def rfind_nl_def line_count_def
          ends_with_def starts_with_def acquisition_notes_def List.map_filter_def)
  have d: "drop 1 (keep_lines (text_mode ?out)) = [''b'' @ [nl], ''c'' @ [nl], ''d'']" by code_simp
  from cursor_skips_nothing [OF t] show ?thesis unfolding Let_def t d by simp
qed

section \<open>Pages\<close>

text \<open>The lines that fit a page: at most \<open>limit\<close> of them within the budget.\<close>

fun fit :: "nat \<Rightarrow> int \<Rightarrow> nat \<Rightarrow> nat \<Rightarrow> string list \<Rightarrow> string list \<times> bool" where
  "fit budget limit cnt used [] = ([], False)"
| "fit budget limit cnt used (l # ls) =
     (if limit > 0 \<and> int cnt \<ge> limit then ([], False)
      else if used + length l > budget then ([], True)
      else let (out, full) = fit budget limit (Suc cnt) (used + length l) ls in (l # out, full))"

lemma fit_prefix: "prefix (fst (fit budget limit cnt used ls)) ls"
  by (induction budget limit cnt used ls rule: fit.induct) (auto split: prod.splits)

lemma fit_empty:
  assumes "fst (fit budget limit 0 0 ls) = []" "ls \<noteq> []"
  shows "snd (fit budget limit 0 0 ls) \<and> length (hd ls) > budget"
  using assms by (cases ls) (auto split: prod.splits if_splits)

lemma fit_narrow: "\<forall>l \<in> set (fst (fit budget limit cnt used ls)). length l \<le> budget"
  by (induction budget limit cnt used ls rule: fit.induct) (auto split: prod.splits)

lemma fit_full_empty: "snd (fit budget limit 0 0 ls) \<Longrightarrow> fst (fit budget limit 0 0 ls) = [] \<Longrightarrow>
    ls \<noteq> [] \<and> length (hd ls) > budget"
  by (cases ls) (auto split: if_splits prod.splits)

lemma fit_zero: "fit budget limit 0 0 (l # ls) = ([], full) \<Longrightarrow> full"
  by (auto split: if_splits prod.splits)

abbreviation fold_range where
  "fold_range b off lm pg i ls \<equiv> foldl (range_step b off lm) pg (zip [i..<i + length ls] ls)"

lemma fold_range_Cons: "fold_range b off lm pg i (l # ls) = fold_range b off lm (range_step b off lm pg (i, l)) (Suc i) ls"
proof -
  have "[i..<i + length (l # ls)] = i # [Suc i..<Suc i + length ls]" by (simp add: upt_rec)
  then show ?thesis by simp
qed

lemma range_idle:
  assumes "int i + int (length ls) \<le> off \<or> pa_full pg \<or> lm > 0 \<and> int (length (pa_lines pg)) \<ge> lm"
  shows "fold_range b off lm pg i ls = (if ls = [] then pg else pg\<lparr>pa_total := i + length ls\<rparr>)"
  using assms
proof (induction ls arbitrary: i pg)
  case (Cons l ls)
  have s: "range_step b off lm pg (i, l) = pg\<lparr>pa_total := i + 1\<rparr>"
    using Cons.prems by (auto simp: range_step_def Let_def)
  show ?case unfolding fold_range_Cons s by (subst Cons.IH) (use Cons.prems in auto)
qed simp

lemma range_fit:
  assumes "off \<le> int i" "\<not> pa_full pg"
  shows "fold_range b off lm pg i ls =
     (let (out, full) = fit b lm (length (pa_lines pg)) (pa_chars pg) ls in
      pg\<lparr>pa_lines := pa_lines pg @ map strip_nl out, pa_total := (if ls = [] then pa_total pg else i + length ls),
         pa_chars := pa_chars pg + length (concat out), pa_full := full\<rparr>)"
  using assms
proof (induction ls arbitrary: i pg)
  case (Cons l ls)
  consider "lm > 0 \<and> int (length (pa_lines pg)) \<ge> lm"
    | "\<not> (lm > 0 \<and> int (length (pa_lines pg)) \<ge> lm)" "pa_chars pg + length l > b"
    | "\<not> (lm > 0 \<and> int (length (pa_lines pg)) \<ge> lm)" "\<not> pa_chars pg + length l > b" by blast
  then show ?case
  proof cases
    case 1
    then show ?thesis using Cons.prems by (subst range_idle) auto
  next
    case 2
    have s: "range_step b off lm pg (i, l) = pg\<lparr>pa_total := i + 1, pa_full := True\<rparr>"
      using 2 Cons.prems by (auto simp: range_step_def Let_def)
    show ?thesis unfolding fold_range_Cons s by (subst range_idle) (use 2 in auto)
  next
    case 3
    have s: "range_step b off lm pg (i, l) =
        pg\<lparr>pa_total := i + 1, pa_lines := pa_lines pg @ [strip_nl l], pa_chars := pa_chars pg + length l\<rparr>"
      using 3 Cons.prems by (auto simp: range_step_def Let_def)
    show ?thesis unfolding fold_range_Cons s by (subst Cons.IH) (use 3 Cons.prems in \<open>auto split: prod.splits\<close>)
  qed
qed simp

lemma range_page_eq:
  "range_page b (int k) lm ls = (let (out, full) = fit b lm 0 0 (drop k ls) in
     \<lparr>pa_lines = map strip_nl out, pa_total = length ls, pa_chars = length (concat out), pa_full = full\<rparr>)"
proof -
  let ?t = "take k ls" and ?d = "drop k ls"
  have z: "zip [0..<length ls] ls = zip [0..<0 + length ?t] ?t @ zip [length ?t..<length ?t + length ?d] ?d"
  proof -
    have "[0..<length ls] = [0..<length ?t] @ [length ?t..<length ?t + length ?d]"
      by (metis add_0 append_take_drop_id length_append upt_add_eq_append zero_le)
    then have "zip [0..<length ls] (?t @ ?d) = zip [0..<length ?t] ?t @ zip [length ?t..<length ?t + length ?d] ?d"
      by (simp only: zip_append length_upt)
    then show ?thesis by simp
  qed
  have "range_page b (int k) lm ls =
      fold_range b (int k) lm (fold_range b (int k) lm empty_page 0 ?t) (length ?t) ?d"
    unfolding range_page_def z by simp
  moreover have "fold_range b (int k) lm empty_page 0 ?t = empty_page\<lparr>pa_total := length ?t\<rparr>"
    by (subst range_idle) (auto simp: empty_page_def)
  ultimately have e: "range_page b (int k) lm ls =
      fold_range b (int k) lm (empty_page\<lparr>pa_total := length ?t\<rparr>) (length ?t) ?d" by simp
  show ?thesis
  proof (cases "?d = []")
    case True
    then show ?thesis unfolding e by (simp add: empty_page_def)
  next
    case False
    then have "int k \<le> int (length ?t)" by simp
    then show ?thesis unfolding e using False by (subst range_fit) (auto simp: empty_page_def split: prod.splits)
  qed
qed

lemma head_page_prefix:
  "\<exists>n. pa_lines (fst (head_page b mx pg ls)) = pa_lines pg @ map strip_nl (take n ls)
     \<and> (\<forall>l \<in> set (take n ls). length l \<le> b) \<and> (pa_full pg \<longrightarrow> n = 0)"
proof (induction b mx pg ls rule: head_page.induct)
  case (2 b mx pg l ls)
  let ?pg1 = "pg\<lparr>pa_total := pa_total pg + 1\<rparr>"
  consider "pa_total ?pg1 > mx" | "\<not> pa_total ?pg1 > mx" "pa_full pg \<or> pa_chars pg + length l > b"
    | "\<not> pa_total ?pg1 > mx" "\<not> pa_full pg" "\<not> pa_chars pg + length l > b" by blast
  then show ?case
  proof cases
    case 1
    then show ?thesis by (intro exI [of _ 0]) (simp add: Let_def)
  next
    case 2
    let ?pg2 = "if pa_full ?pg1 then ?pg1 else ?pg1\<lparr>pa_full := True\<rparr>"
    have h: "head_page b mx pg (l # ls) = head_page b mx ?pg2 ls" using 2 by (auto simp: Let_def)
    have f: "pa_full ?pg2" "pa_lines ?pg2 = pa_lines pg" by auto
    have "(if pa_full ?pg1 then ?pg1 else if pa_chars ?pg1 + length l > b then ?pg1\<lparr>pa_full := True\<rparr>
        else ?pg1\<lparr>pa_lines := pa_lines ?pg1 @ [strip_nl l], pa_chars := pa_chars ?pg1 + length l\<rparr>) = ?pg2" using 2 by auto
    then obtain n where "pa_lines (fst (head_page b mx ?pg2 ls)) = pa_lines ?pg2 @ map strip_nl (take n ls)" "n = 0"
      using "2.IH" [OF refl] 2(1) f by auto
    then show ?thesis unfolding h using f by (intro exI [of _ 0]) simp
  next
    case 3
    let ?pg2 = "?pg1\<lparr>pa_lines := pa_lines ?pg1 @ [strip_nl l], pa_chars := pa_chars ?pg1 + length l\<rparr>"
    have h: "head_page b mx pg (l # ls) = head_page b mx ?pg2 ls" using 3 by (auto simp: Let_def)
    obtain n where "pa_lines (fst (head_page b mx ?pg2 ls)) = pa_lines ?pg2 @ map strip_nl (take n ls)"
        "\<forall>l \<in> set (take n ls). length l \<le> b"
      using "2.IH" [OF refl] 3 by auto
    then show ?thesis unfolding h using 3 by (intro exI [of _ "Suc n"]) auto
  qed
qed (intro exI [of _ 0], simp)

text \<open>With the first line within the budget, the head shows it.\<close>

lemma head_page_none:
  assumes "pa_lines (fst (head_page b mx empty_page ls)) = []" "mx > 0" "ls \<noteq> []"
  shows "length (hd ls) > b"
proof (rule ccontr)
  assume w: "\<not> length (hd ls) > b"
  obtain l ls' where ls: "ls = l # ls'" using assms(3) by (cases ls) auto
  let ?pg = "empty_page\<lparr>pa_total := 1, pa_lines := [strip_nl l], pa_chars := length l\<rparr>"
  have "head_page b mx empty_page ls = head_page b mx ?pg ls'"
    using w assms(2) by (auto simp: ls empty_page_def Let_def)
  moreover obtain n where "pa_lines (fst (head_page b mx ?pg ls')) = pa_lines ?pg @ map strip_nl (take n ls')"
    using head_page_prefix by blast
  ultimately show False using assms(1) by simp
qed

text \<open>A reader that follows the continuation each reply names, for at most so many calls; the lines it was shown.\<close>

fun follow :: "nat \<Rightarrow> (int \<Rightarrow> read_reply) \<Rightarrow> read_reply \<Rightarrow> string list option" where
  "follow 0 rd r = None"
| "follow (Suc n) rd (Whole_Text t) = Some (map strip_nl (keep_lines t))"
| "follow (Suc n) rd (Lines_Page a b c full (Some (left, k)) ls) = map_option (append (map snd ls)) (follow n rd (rd k))"
| "follow (Suc n) rd (Lines_Page a b c full None ls) = Some (map snd ls)"
| "follow (Suc n) rd (Wide_Line_At a b c h k) = map_option (Cons h) (follow n rd (rd k))"
| "follow (Suc n) rd (Large_Wide a b c d h k) = map_option (Cons h) (follow n rd (rd k))"
| "follow (Suc n) rd (Large_Head a b c d e k ls) = map_option (append (map snd ls)) (follow n rd (rd k))"
| "follow (Suc n) rd r = None"

text \<open>What of a line is shown: all of it, or its beginning when it is wider than the budget.\<close>

definition shown_line :: "string \<Rightarrow> string" where
  "shown_line l = (if length l > MAX_OUTPUT then take MAX_OUTPUT (strip_nl l) else strip_nl l)"

lemma shown_narrow: "\<forall>l \<in> set ls. length l \<le> MAX_OUTPUT \<Longrightarrow> map shown_line ls = map strip_nl ls"
  by (auto simp: shown_line_def)

lemma snd_number_lines [simp]: "map snd (number_lines k ls) = ls"
  by (rule nth_equalityI) (simp_all add: number_lines_def)

lemma read_range_cases:
  assumes "k \<le> length ls" "lm > 0"
  obtains (page) n where "n \<le> length ls - k" "k < length ls \<longrightarrow> n > 0" "\<forall>l \<in> set (take n (drop k ls)). length l \<le> MAX_OUTPUT"
      "\<exists>full. read_range ls (int k) lm = Lines_Page (int k + 1) (int (k + n)) (length ls) full
         (if k + n < length ls then Some (length ls - (k + n), int (k + n)) else None)
         (number_lines (int k) (map strip_nl (take n (drop k ls))))"
    | (wide) "k < length ls" "length (ls ! k) > MAX_OUTPUT"
      "\<exists>c. read_range ls (int k) lm = Wide_Line_At (int k + 1) (length ls) c (take MAX_OUTPUT (strip_nl (ls ! k))) (int k + 1)"
proof -
  obtain out full where f: "fit MAX_OUTPUT lm 0 0 (drop k ls) = (out, full)" by (metis surj_pair)
  have pre: "prefix out (drop k ls)" using fit_prefix [of MAX_OUTPUT lm 0 0 "drop k ls"] f by simp
  then have ot: "out = take (length out) (drop k ls)" by (metis append_eq_conv_conj prefix_def)
  have le: "length out \<le> length ls - k" using pre prefix_length_le by fastforce
  have nar: "\<forall>l \<in> set out. length l \<le> MAX_OUTPUT" using fit_narrow [of MAX_OUTPUT lm 0 0 "drop k ls"] f by simp
  show thesis
  proof (cases "full \<and> out = []")
    case True
    then have d: "drop k ls \<noteq> [] \<and> length (hd (drop k ls)) > MAX_OUTPUT" using fit_full_empty [of MAX_OUTPUT lm "drop k ls"] f True by simp
    then have k: "k < length ls" by simp
    then have "length (ls ! k) > MAX_OUTPUT" using d by (simp add: hd_drop_conv_nth)
    moreover have "read_range ls (int k) lm = Wide_Line_At (int k + 1) (length ls) (length (strip_nl (ls ! k)))
        (take MAX_OUTPUT (strip_nl (ls ! k))) (int k + 1)"
      using True k by (simp add: read_range_def range_page_eq f read_one_line_head_def Let_def)
    ultimately show thesis using wide k by blast
  next
    case False
    have "k < length ls \<longrightarrow> length out > 0"
      using False f fit_zero by (cases "drop k ls") (auto simp: length_greater_0_conv simp del: fit.simps)
    moreover have "read_range ls (int k) lm = Lines_Page (int k + 1) (int (k + length out)) (length ls) full
         (if k + length out < length ls then Some (length ls - (k + length out), int (k + length out)) else None)
         (number_lines (int k) (map strip_nl out))"
      using False by (auto simp: read_range_def range_page_eq f Let_def)
    ultimately show thesis using page [of "length out"] le ot nar by metis
  qed
qed

lemma follow_range:
  assumes "\<And>j. rd (int j) = read_range ls (int j) lm" "lm > 0" "k \<le> length ls" "length ls - k < n"
  shows "follow n rd (read_range ls (int k) lm) = Some (map shown_line (drop k ls))"
  using assms(3,4)
proof (induction n arbitrary: k)
  case (Suc n)
  show ?case
  proof (rule read_range_cases [OF Suc.prems(1) assms(2)])
    fix j assume j: "j \<le> length ls - k" "k < length ls \<longrightarrow> j > 0"
      and nar: "\<forall>l \<in> set (take j (drop k ls)). length l \<le> MAX_OUTPUT"
      and r: "\<exists>full. read_range ls (int k) lm = Lines_Page (int k + 1) (int (k + j)) (length ls) full
         (if k + j < length ls then Some (length ls - (k + j), int (k + j)) else None)
         (number_lines (int k) (map strip_nl (take j (drop k ls))))"
    then obtain full where rr: "read_range ls (int k) lm = Lines_Page (int k + 1) (int (k + j)) (length ls) full
         (if k + j < length ls then Some (length ls - (k + j), int (k + j)) else None)
         (number_lines (int k) (map strip_nl (take j (drop k ls))))" by blast
    have split: "map shown_line (drop k ls) = map strip_nl (take j (drop k ls)) @ map shown_line (drop (k + j) ls)"
      by (metis (no_types) append_take_drop_id drop_drop add.commute map_append nar shown_narrow)
    show ?thesis
    proof (cases "k + j < length ls")
      case True
      then have "follow n rd (read_range ls (int (k + j)) lm) = Some (map shown_line (drop (k + j) ls))"
        using Suc.IH [of "k + j"] Suc.prems j by auto
      then show ?thesis using True by (simp only: rr split follow.simps assms(1) if_True snd_number_lines option.map)
    next
      case False
      then show ?thesis using j by (simp add: rr split)
    qed
  next
    assume w: "k < length ls" "length (ls ! k) > MAX_OUTPUT"
      and r: "\<exists>c. read_range ls (int k) lm = Wide_Line_At (int k + 1) (length ls) c (take MAX_OUTPUT (strip_nl (ls ! k))) (int k + 1)"
    then obtain c where rr: "read_range ls (int k) lm = Wide_Line_At (int k + 1) (length ls) c
        (take MAX_OUTPUT (strip_nl (ls ! k))) (int (Suc k))" by (auto simp: add.commute)
    have "follow n rd (read_range ls (int (Suc k)) lm) = Some (map shown_line (drop (Suc k) ls))"
      using Suc.IH [of "Suc k"] Suc.prems w by auto
    then have "follow (Suc n) rd (read_range ls (int k) lm) =
        Some (take MAX_OUTPUT (strip_nl (ls ! k)) # map shown_line (drop (Suc k) ls))"
      by (simp only: rr follow.simps assms(1) option.map)
    also have "\<dots> = Some (map shown_line (drop k ls))"
      using w by (subst (2) Cons_nth_drop_Suc [symmetric]) (simp_all add: shown_line_def)
    finally show ?thesis .
  qed
qed simp

lemma text_mode_le_bytes: "length (text_mode s) \<le> byte_size s"
proof -
  have "length s \<le> byte_size s" by (induction s) (auto simp: byte_size_def utf8_width_def)
  then show ?thesis using length_text_mode [of s] by linarith
qed

lemma line_le: "l \<in> set (keep_lines s) \<Longrightarrow> length l \<le> length s"
  using member_le_sum_list [of "length l" "map length (keep_lines s)"] length_concat [of "keep_lines s"] by simp

text \<open>C34: no line is out of reach. A reader that opens a text file and then follows the
  continuation each reply names is shown every line of the file once and in order, a line wider
  than the budget by its first characters; and it needs no more calls than there are lines, and two.\<close>

theorem pointers_cover_file:
  assumes "rd_resolved env = Some p" "f p = Some (Regular txt' m)" "\<not> is_binary (rd_sample_ok env) txt'"
    and "rd_open_ok env" "n \<ge> length (keep_lines (text_mode txt')) + 2"
  shows "follow n (\<lambda>k. file_read env k 200 f) (file_read env 0 0 f)
    = Some (map shown_line (keep_lines (text_mode txt')))"
proof -
  let ?ls = "keep_lines (text_mode txt')"
  let ?rd = "\<lambda>k. file_read env k 200 f"
  have rd: "?rd (int j) = read_range ?ls (int j) 200" for j
    using assms(1-4) by (simp add: file_read_def)
  obtain n' where n: "n = Suc n'" "length ?ls < n'" using assms(5) by (cases n) auto
  have rest: "follow n' ?rd (?rd (int k)) = Some (map shown_line (drop k ?ls))" if "k \<le> length ?ls" for k
    unfolding rd by (rule follow_range [OF rd]) (use that n in auto)
  show ?thesis
  proof (cases "byte_size txt' > MAX_OUTPUT")
    case False
    have "\<forall>l \<in> set ?ls. length l \<le> MAX_OUTPUT"
      using False line_le [of _ "text_mode txt'"] text_mode_le_bytes [of txt'] by (meson le_trans not_le)
    then have "map shown_line ?ls = map strip_nl ?ls" by (rule shown_narrow)
    then show ?thesis using assms(1-4) False n by (simp add: file_read_def)
  next
    case True
    then have ne: "txt' \<noteq> []" by (auto simp: byte_size_def)
    then have lne: "?ls \<noteq> []" by (cases txt' rule: text_mode.cases) auto
    obtain pg fl where hp: "head_page MAX_OUTPUT LINE_COUNT_CEILING empty_page ?ls = (pg, fl)" by (metis surj_pair)
    obtain j where j: "pa_lines pg = map strip_nl (take j ?ls)" "\<forall>l \<in> set (take j ?ls). length l \<le> MAX_OUTPUT"
      using head_page_prefix [of MAX_OUTPUT LINE_COUNT_CEILING empty_page ?ls] hp by (auto simp: empty_page_def)
    have r0: "file_read env 0 0 f = read_large (byte_size txt') ?ls"
      using assms(1-4) True by (simp add: file_read_def)
    show ?thesis
    proof (cases "pa_lines pg = []")
      case True
      then have w: "length (hd ?ls) > MAX_OUTPUT"
        using head_page_none [of MAX_OUTPUT LINE_COUNT_CEILING ?ls] hp lne by (simp add: LINE_COUNT_CEILING_def)
      have hd: "hd ?ls = ?ls ! 0" using lne by (simp add: hd_conv_nth)
      have r: "read_large (byte_size txt') ?ls = Large_Wide (byte_size txt') fl (pa_total pg) (length (strip_nl (?ls ! 0)))
          (take MAX_OUTPUT (strip_nl (?ls ! 0))) 1"
        using True lne by (simp add: read_large_def hp read_one_line_head_def Let_def)
      have "map shown_line ?ls = take MAX_OUTPUT (strip_nl (?ls ! 0)) # map shown_line (drop 1 ?ls)"
        using w hd lne by (cases ?ls) (auto simp: shown_line_def)
      moreover have "1 \<le> length ?ls" using lne by (cases ?ls) auto
      ultimately show ?thesis using rest [of 1] by (simp add: n r0 r)
    next
      case False
      let ?s = "length (pa_lines pg)"
      have s: "?s \<le> length ?ls" "take ?s ?ls = take j ?ls" using j(1) by (auto simp: min_def)
      have r: "read_large (byte_size txt') ?ls = Large_Head (byte_size txt') fl (pa_total pg) ?s (pa_chars pg) (int ?s)
          (number_lines 0 (pa_lines pg))"
        using False by (simp add: read_large_def hp Let_def)
      have "map shown_line ?ls = pa_lines pg @ map shown_line (drop ?s ?ls)"
        using shown_narrow [OF j(2)] j(1) s(2) by (metis append_take_drop_id map_append)
      then show ?thesis using rest [OF s(1)] by (simp add: n r0 r)
    qed
  qed
qed

lemma pointers_cover_file_witness:
  "let env = \<lparr>rd_resolved = Some ''a'', rd_candidates = [], rd_entries = [], rd_sample_ok = True, rd_open_ok = True\<rparr>;
       f = [''a'' \<mapsto> Regular (''x'' @ [nl] @ ''y'') 0x180]
   in follow 4 (\<lambda>k. file_read env k 200 f) (file_read env 0 0 f) = Some [''x'', ''y'']"
proof -
  let ?env = "\<lparr>rd_resolved = Some ''a'', rd_candidates = [], rd_entries = [], rd_sample_ok = True, rd_open_ok = True\<rparr>"
  let ?f = "[''a'' \<mapsto> Regular (''x'' @ [nl] @ ''y'') 0x180] :: fs"
  have k: "keep_lines (text_mode (''x'' @ [nl] @ ''y'')) = [''x'' @ [nl], ''y'']" by code_simp
  have b: "\<not> is_binary True (''x'' @ [nl] @ ''y'')" by code_simp
  have s: "shown_line (''x'' @ [nl]) = ''x''" "shown_line ''y'' = ''y''"
    by (simp_all add: shown_line_def strip_nl_def MAX_OUTPUT_def)
  show ?thesis
    using pointers_cover_file [of ?env "''a''" ?f "''x'' @ [nl] @ ''y''" "0x180" 4] k b s by (simp add: Let_def)
qed

section \<open>Repeated lines\<close>

definition omitted_of :: "(string \<times> nat) list \<Rightarrow> string \<Rightarrow> nat" where
  "omitted_of om l = (case map_of om l of None \<Rightarrow> 0 | Some n \<Rightarrow> n)"

lemma omitted_of_set: "omitted_of (dict_set k v om) l = (if l = k then v else omitted_of om l)"
  by (simp add: omitted_of_def)

lemma collapse_lines_keeps:
  assumes "collapse_lines ns keep seen om ls = (out, om')"
  shows "subseq out ls \<and> filter (\<lambda>l. \<not> ns l) out = filter (\<lambda>l. \<not> ns l) ls
    \<and> (\<forall>l. ns l \<longrightarrow> count_list out l = min (count_list ls l) (keep - seen l))
    \<and> (\<forall>l. omitted_of om' l = omitted_of om l + (if ns l then count_list ls l - (keep - seen l) else 0))
    \<and> (distinct (map fst om) \<longrightarrow> distinct (map fst om'))"
  using assms
proof (induction ns keep seen om ls arbitrary: out om' rule: collapse_lines.induct)
  case (2 ns keep seen om l ls)
  let ?seen = "seen(l := seen l + 1)"
  consider "\<not> ns l" | "ns l" "?seen l > keep" | "ns l" "\<not> ?seen l > keep" by blast
  then show ?case
  proof cases
    case 1
    obtain out' where o: "collapse_lines ns keep seen om ls = (out', om')" "out = l # out'"
      using 2 1 by (auto split: prod.splits)
    then show ?thesis using "2.IH"(3) [OF 1] 1 by auto
  next
    case 2
    let ?om = "dict_set l (case map_of om l of None \<Rightarrow> 1 | Some n \<Rightarrow> n + 1) om"
    have o: "collapse_lines ns keep ?seen ?om ls = (out, om')" using "2.prems" 2 by (simp add: Let_def)
    have v: "(case map_of om l of None \<Rightarrow> 1 | Some n \<Rightarrow> n + 1) = omitted_of om l + 1"
      by (simp add: omitted_of_def split: option.splits)
    show ?thesis using "2.IH"(1) [OF 2(1) refl 2(2) o] 2
      by (auto simp: v omitted_of_set distinct_dict_set)
  next
    case 3
    obtain out' where o: "collapse_lines ns keep ?seen om ls = (out', om')" "out = l # out'"
      using "2.prems" 3 by (auto simp: Let_def split: prod.splits)
    show ?thesis using "2.IH"(2) [OF 3(1) refl 3(2) o(1)] 3 o by (auto simp: min_def)
  qed
qed auto

text \<open>What the collapse of repeated lines keeps. The lines shown are lines of the output in
  their order; every line repeated fewer times than the threshold, and every blank one, is there as
  often as before; of a repeated line the first ones are there, and a marker counts the rest, one
  marker a line.\<close>

theorem collapse_keeps:
  "\<exists>body om. collapse_repeated_lines output threshold keep = join_with [nl] (body @ map omission_marker om)
    \<and> subseq body (split_on nl output) \<and> distinct (map fst om)
    \<and> (\<forall>l. count_list body l + omitted_of om l = count_list (split_on nl output) l
        \<and> count_list body l = (if noisy threshold (split_on nl output) l
             then min keep (count_list (split_on nl output) l) else count_list (split_on nl output) l))"
proof -
  let ?ls = "split_on nl output"
  let ?ns = "noisy threshold ?ls"
  have nil: "omitted_of [] l = 0" for l by (simp add: omitted_of_def)
  show ?thesis
  proof (cases "length ?ls < threshold \<or> \<not> list_ex ?ns ?ls")
    case True
    then have e: "collapse_repeated_lines output threshold keep = join_with [nl] (?ls @ map omission_marker [])"
      by (auto simp: collapse_repeated_lines_def Let_def)
    have "count_list ?ls l = 0" if "?ns l" for l
    proof (rule ccontr)
      assume z: "count_list ?ls l \<noteq> 0"
      then have "list_ex ?ns ?ls" using that by (auto simp: list_ex_iff count_list_0_iff)
      then show False using True that count_le_length [of ?ls l] by (auto simp: noisy_def)
    qed
    then show ?thesis
      by (intro exI [of _ ?ls] exI [of _ "[]"]) (use e in \<open>auto simp: nil\<close>)
  next
    case False
    obtain out om where c: "collapse_lines ?ns keep (\<lambda>_. 0) [] ?ls = (out, om)" by (metis surj_pair)
    have e: "collapse_repeated_lines output threshold keep = join_with [nl] (out @ map omission_marker om)"
      using False by (simp add: collapse_repeated_lines_def c)
    note k = collapse_lines_keeps [OF c]
    have cnt: "count_list out l = count_list ?ls l" if "\<not> ?ns l" for l
    proof -
      have "count_list (filter (\<lambda>x. \<not> ?ns x) ys) l = count_list ys l" for ys
        using that by (induction ys) auto
      then show ?thesis using k by metis
    qed
    have "count_list out l + omitted_of om l = count_list ?ls l
        \<and> count_list out l = (if ?ns l then min keep (count_list ?ls l) else count_list ?ls l)" for l
      using k cnt [of l] by (auto simp: nil min_def)
    moreover have "distinct (map fst om)" using k by simp
    ultimately show ?thesis using e k by blast
  qed
qed

section \<open>Evidence\<close>

declare copy_blocks.simps [simp del]

lemma copy_blocks_take: "0 < chunk \<Longrightarrow> copy_blocks chunk n s = take n s"
proof (induction chunk n s rule: copy_blocks.induct)
  case (1 chunk n s)
  let ?b = "take (min chunk n) s" and ?m = "length (take (min chunk n) s)"
  show ?case
  proof (cases "n = 0 \<or> ?b = []")
    case True
    then show ?thesis using "1.prems" by (subst copy_blocks.simps) (auto simp: Let_def)
  next
    case False
    have b: "?b = take ?m s" by (simp add: min_def)
    have "copy_blocks chunk n s = ?b @ copy_blocks chunk (n - ?m) (drop ?m s)"
      using False by (subst copy_blocks.simps) (auto simp: Let_def min_def)
    also have "copy_blocks chunk (n - ?m) (drop ?m s) = take (n - ?m) (drop ?m s)"
      using "1.IH" [OF _ refl] False "1.prems" by (simp only: de_Morgan_disj not_False_eq_True simp_thms)
    also have "?b @ take (n - ?m) (drop ?m s) = take (?m + (n - ?m)) s"
      by (subst (1) b) (rule take_add [symmetric])
    also have "?m + (n - ?m) = n" by simp
    finally show ?thesis .
  qed
qed

lemma chunk_pos: "0 < CAPTURE_COPY_CHUNK" by (simp add: CAPTURE_COPY_CHUNK_def)

text \<open>A stream over the preview size that is copied: what is on disk, and what is said of it.\<close>

definition stream_meta :: "string \<Rightarrow> nat \<Rightarrow> string \<Rightarrow> acq_meta" where
  "stream_meta stream n artifact = acquisition_meta (''bash '' @ stream) (min n CAPTURE_ARTIFACT_CAP) (Some n) ''bytes''
     (''the '' @ dec (CAPTURE_ARTIFACT_CAP div (1024 * 1024)) @ '' MiB process-output cap'') artifact"

lemma stream_meta_simps [simp]:
  "aq_artifact (stream_meta stream n p) = p" "aq_captured (stream_meta stream n p) = min n CAPTURE_ARTIFACT_CAP"
  by (simp_all add: stream_meta_def acquisition_meta_def Let_def)

lemma capture_copied:
  assumes "cp_seek_ok f" "length (cp_bytes f) > MAX_OUTPUT" "cp_copy f = Copied" "at_path (cp_attempt f) \<noteq> []"
  shows "\<exists>e'. capture_evidence decode stream True f e =
      ((if cp_read_ok f then decode (take CAPTURE_READ_CAP (cp_bytes f)) else [],
        stream_meta stream (length (cp_bytes f)) (at_path (cp_attempt f))), e')
    \<and> ev_files e' = (ev_files e)(at_path (cp_attempt f) \<mapsto> Raw_Bytes (take CAPTURE_ARTIFACT_CAP (cp_bytes f)))"
  using assms
  by (auto simp: capture_evidence_def Let_def stream_meta_def write_artifact_meta_def copy_blocks_take [OF chunk_pos] min_def)

lemma capture_small:
  assumes "cp_seek_ok f" "cp_bytes f \<noteq> []" "length (cp_bytes f) \<le> MAX_OUTPUT"
  shows "capture_evidence decode stream True f e =
      ((if cp_read_ok f then decode (cp_bytes f) else [], stream_meta stream (length (cp_bytes f)) []), e)"
proof -
  have "length (cp_bytes f) \<le> CAPTURE_READ_CAP" "length (cp_bytes f) \<le> CAPTURE_ARTIFACT_CAP"
    using assms(3) by (auto simp: MAX_OUTPUT_def CAPTURE_READ_CAP_def CAPTURE_ARTIFACT_CAP_def)
  then show ?thesis using assms by (auto simp: capture_evidence_def Let_def stream_meta_def)
qed

lemma capture_files:
  "ev_files (snd (capture_evidence decode stream persist f e)) p \<noteq> ev_files e p \<Longrightarrow> p = at_path (cp_attempt f)"
  by (auto simp: capture_evidence_def Let_def write_artifact_meta_def split: if_splits copy_end.splits)

lemma write_artifact_files:
  "ev_files (snd (write_artifact a t m e)) p \<noteq> ev_files e p \<Longrightarrow> p = at_path a"
  by (auto simp: write_artifact_def write_artifact_meta_def Let_def split: if_splits option.splits)

definition reply_notes :: "acq_note list \<times> rendering \<Rightarrow> acq_note list" where
  "reply_notes r = (case snd r of Preview_Of h _ \<Rightarrow> ph_notes h | Whole _ \<Rightarrow> fst r | Clipped _ _ \<Rightarrow> [])"

lemma collapse_for_preview_cases:
  assumes "collapse_for_preview a raw metas e = ((c, ms), e')"
  shows "c = collapse_repeated_lines raw 6 3" "set metas \<subseteq> set ms" "ev_files e' p \<noteq> ev_files e p \<Longrightarrow> p = at_path a"
proof -
  show "c = collapse_repeated_lines raw 6 3" "set metas \<subseteq> set ms"
    using assms by (auto simp: collapse_for_preview_def Let_def split: if_splits prod.splits)
  show "p = at_path a" if "ev_files e' p \<noteq> ev_files e p"
    using assms that write_artifact_files [of a raw _ e p]
    by (auto simp: collapse_for_preview_def Let_def split: if_splits prod.splits) (metis snd_conv)+
qed

lemma truncate_not_clipped:
  assumes "truncate_output rlm a output tl' mx sources e = ((r, md), e')" "at_ok a" "at_path a \<noteq> []"
    and "length output > mx"
  shows "\<exists>h preview. r = Preview_Of h preview \<and> ph_notes h = acquisition_notes sources"
    and "p \<noteq> at_path a \<Longrightarrow> ev_files e' p = ev_files e p"
  using assms by (auto simp: truncate_output_def write_artifact_def Let_def split: prod.splits)

lemma note_in_notes:
  "m \<in> set ms \<Longrightarrow> acquisition_note (Some m) = Some n \<Longrightarrow> n \<in> set (acquisition_notes ms)"
  by (force simp: acquisition_notes_def List.map_filter_def)

text \<open>No loss goes unsaid. When a command printed more than the cap of what is kept, the reply
  of \<open>bash\<close> says how many bytes of how many were captured, where they are and that the record is
  incomplete, whatever the collapse and the truncation made of the text; and what was captured is on
  disk as it came.\<close>

theorem loss_is_announced:
  assumes "cp_seek_ok f1" "length (cp_bytes f1) > CAPTURE_ARTIFACT_CAP" "cp_copy f1 = Copied"
    and "at_path (cp_attempt f1) \<notin> {[], at_path (cp_attempt f2), at_path a1, at_path a2}"
    and "at_ok a2" "at_path a2 \<noteq> []"
  shows "case bash_output decode rlm f1 f2 a1 a2 e of (r, e') \<Rightarrow>
    Incomplete_Acquisition ''bash stdout'' CAPTURE_ARTIFACT_CAP (Some (length (cp_bytes f1))) ''bytes''
      ''the 5 MiB process-output cap'' (Some (at_path (cp_attempt f1))) \<in> set (reply_notes r)
    \<and> ev_files e' (at_path (cp_attempt f1)) = Some (Raw_Bytes (take CAPTURE_ARTIFACT_CAP (cp_bytes f1)))"
proof -
  let ?p = "at_path (cp_attempt f1)" and ?m1 = "stream_meta ''stdout'' (length (cp_bytes f1)) (at_path (cp_attempt f1))"
  let ?note = "Incomplete_Acquisition ''bash stdout'' CAPTURE_ARTIFACT_CAP (Some (length (cp_bytes f1))) ''bytes''
      ''the 5 MiB process-output cap'' (Some ?p)"
  have big: "length (cp_bytes f1) > MAX_OUTPUT" using assms(2) by (simp add: MAX_OUTPUT_def CAPTURE_ARTIFACT_CAP_def)
  have p0: "?p \<noteq> []" using assms(4) by simp
  obtain t1 e1 where c1: "capture_evidence decode ''stdout'' True f1 e = ((t1, ?m1), e1)"
      and e1: "ev_files e1 ?p = Some (Raw_Bytes (take CAPTURE_ARTIFACT_CAP (cp_bytes f1)))"
    using capture_copied [OF assms(1) big assms(3) p0, of decode "''stdout''" e] by auto
  obtain t2 m2 e2 where c2: "capture_evidence decode ''stderr'' True f2 e1 = ((t2, m2), e2)" by (metis surj_pair)
  have e2: "ev_files e2 ?p = ev_files e1 ?p"
    using capture_files [of decode "''stderr''" True f2 e1 ?p] c2 assms(4) by auto
  let ?out = "t1 @ (if t2 = [] then [] else (if t1 = [] then [] else [nl]) @ t2)"
  let ?ms = "filter (\<lambda>m. aq_captured m \<noteq> 0) [?m1, m2]"
  have in_ms: "?m1 \<in> set ?ms" using assms(2) by (simp add: CAPTURE_ARTIFACT_CAP_def)
  have dec5: "dec (CAPTURE_ARTIFACT_CAP div (1024 * 1024)) = ''5''"
  proof -
    have "CAPTURE_ARTIFACT_CAP div (1024 * 1024) = 5" by (simp add: CAPTURE_ARTIFACT_CAP_def)
    moreover have "dec 5 = ''5''" by code_simp
    ultimately show ?thesis by simp
  qed
  have nt: "acquisition_note (Some ?m1) = Some ?note"
    using assms(2) p0 by (simp add: acquisition_note_def stream_meta_def acquisition_meta_def dec5 [simplified])
  obtain c ms e3 where cf: "collapse_for_preview a1 ?out ?ms e2 = ((c, ms), e3)" by (metis surj_pair)
  note cc = collapse_for_preview_cases [OF cf]
  have nin: "?note \<in> set (acquisition_notes ms)" using note_in_notes nt in_ms cc(2) by blast
  have e3: "ev_files e3 ?p = ev_files e2 ?p" using cc(3) [of ?p] assms(4) by auto
  show ?thesis
  proof (cases "length c > MAX_OUTPUT")
    case False
    then have b: "bash_output decode rlm f1 f2 a1 a2 e = ((acquisition_notes ms, Whole c), e3)"
      unfolding bash_output_def Let_def c1 prod.case c2 cf by simp
    show ?thesis unfolding b using nin e1 e2 e3 by (simp add: reply_notes_def)
  next
    case True
    obtain r md e4 where t: "truncate_output rlm a2 c False MAX_OUTPUT ms e3 = ((r, md), e4)" by (metis surj_pair)
    have b: "bash_output decode rlm f1 f2 a1 a2 e = (([], r), e4)"
      unfolding bash_output_def Let_def c1 prod.case c2 cf using True by (simp add: t)
    obtain h pv where r: "r = Preview_Of h pv" "ph_notes h = acquisition_notes ms"
      using truncate_not_clipped(1) [OF t assms(5,6) True] by blast
    have "ev_files e4 ?p = ev_files e3 ?p"
      using truncate_not_clipped(2) [OF t assms(5,6) True, of ?p] assms(4) by auto
    then show ?thesis unfolding b using nin r e1 e2 e3 by (simp add: reply_notes_def)
  qed
qed

lemma loss_is_announced_witness:
  "let w = (\<lambda>p. \<lparr>at_path = p, at_ok = True, at_meta_ok = True\<rparr>);
       f1 = \<lparr>cp_bytes = replicate 6000000 CHR ''x'', cp_seek_ok = True, cp_read_ok = True, cp_copy = Copied, cp_attempt = w ''a''\<rparr>;
       f2 = \<lparr>cp_bytes = [], cp_seek_ok = True, cp_read_ok = True, cp_copy = Copied, cp_attempt = w ''b''\<rparr>;
       r = bash_output (\<lambda>s. s) False f1 f2 (w ''c'') (w ''d'') \<lparr>ev_files = Map.empty, ev_meta = Map.empty\<rparr>
   in Incomplete_Acquisition ''bash stdout'' 5242880 (Some 6000000) ''bytes'' ''the 5 MiB process-output cap'' (Some ''a'')
        \<in> set (reply_notes (fst r))"
proof -
  let ?w = "\<lambda>p. \<lparr>at_path = p, at_ok = True, at_meta_ok = True\<rparr>"
  let ?f1 = "\<lparr>cp_bytes = replicate 6000000 CHR ''x'', cp_seek_ok = True, cp_read_ok = True, cp_copy = Copied, cp_attempt = ?w ''a''\<rparr>"
  let ?f2 = "\<lparr>cp_bytes = [], cp_seek_ok = True, cp_read_ok = True, cp_copy = Copied, cp_attempt = ?w ''b''\<rparr>"
  have c: "CAPTURE_ARTIFACT_CAP = 5242880" by (simp add: CAPTURE_ARTIFACT_CAP_def)
  show ?thesis
    using loss_is_announced [of ?f1 ?f2 "?w ''c''" "?w ''d''" "\<lambda>s. s" False "\<lparr>ev_files = Map.empty, ev_meta = Map.empty\<rparr>"]
    unfolding Let_def case_prod_beta by (simp add: c)
qed

text \<open>Evidence that is lost. When one stream is over the preview size it has its own copy on
  disk, and the collapse then keeps none of the whole text, although the other stream, below that
  size, has no copy. Two such streams that collapse to the same lines leave the same reply and the
  same files behind: what distinguished them is gone.\<close>

theorem mixed_capture_loses_lines:
  assumes "cp_seek_ok f1" "cp_read_ok f1" "length (cp_bytes f1) > MAX_OUTPUT" "cp_copy f1 = Copied"
    and "at_path (cp_attempt f1) \<noteq> []" "decode (take CAPTURE_READ_CAP (cp_bytes f1)) = big" "big \<noteq> []"
    and "cp_seek_ok f2" "cp_read_ok f2" "cp_bytes f2 \<noteq> []" "length (cp_bytes f2) \<le> MAX_OUTPUT"
    and "length other = length (cp_bytes f2)" "decode (cp_bytes f2) \<noteq> []" "decode other \<noteq> []"
    and "collapse_repeated_lines (big @ nl # decode (cp_bytes f2)) 6 3
       = collapse_repeated_lines (big @ nl # decode other) 6 3"
    and "collapse_repeated_lines (big @ nl # decode (cp_bytes f2)) 6 3 \<noteq> big @ nl # decode (cp_bytes f2)"
  shows "bash_output decode rlm f1 (f2\<lparr>cp_bytes := other\<rparr>) a1 a2 e = bash_output decode rlm f1 f2 a1 a2 e
    \<and> (\<forall>p. p \<noteq> at_path (cp_attempt f1) \<longrightarrow> ev_files (snd (bash_output decode rlm f1 f2 a1 a2 e)) p
         \<in> {ev_files e p, Some (Utf8_Text (collapse_repeated_lines (big @ nl # decode (cp_bytes f2)) 6 3))})"
proof -
  let ?m1 = "stream_meta ''stdout'' (length (cp_bytes f1)) (at_path (cp_attempt f1))"
  let ?m2 = "stream_meta ''stderr'' (length (cp_bytes f2)) []"
  let ?c = "collapse_repeated_lines (big @ nl # decode (cp_bytes f2)) 6 3"
  obtain e1 where c1: "capture_evidence decode ''stdout'' True f1 e = ((big, ?m1), e1)"
      and e1: "ev_files e1 = (ev_files e)(at_path (cp_attempt f1) \<mapsto> Raw_Bytes (take CAPTURE_ARTIFACT_CAP (cp_bytes f1)))"
    using capture_copied [OF assms(1,3,4,5), of decode "''stdout''" e] assms(2,6) by auto
  have small: "capture_evidence decode ''stderr'' True (f2\<lparr>cp_bytes := b\<rparr>) e1 = ((decode b, ?m2), e1)"
    if "length b = length (cp_bytes f2)" for b
    using capture_small [of "f2\<lparr>cp_bytes := b\<rparr>" decode "''stderr''" e1] assms(8-11) that by (cases "b = []") auto
  let ?ms = "filter (\<lambda>m. aq_captured m \<noteq> 0) [?m1, ?m2]"
  have art: "list_ex (\<lambda>m. aq_artifact m \<noteq> []) ?ms"
    using assms(3,5) by (auto simp: CAPTURE_ARTIFACT_CAP_def MAX_OUTPUT_def)
  have cf: "collapse_for_preview a1 raw ?ms e1 = ((collapse_repeated_lines raw 6 3, ?ms), e1)" for raw
    using art by (simp only: collapse_for_preview_def Let_def simp_thms if_True)
  have b: "bash_output decode rlm f1 (f2\<lparr>cp_bytes := b\<rparr>) a1 a2 e =
      (if length ?c > MAX_OUTPUT
       then let ((r, _), e4) = truncate_output rlm a2 ?c False MAX_OUTPUT ?ms e1 in (([], r), e4)
       else ((acquisition_notes ?ms, Whole ?c), e1))"
    if "length b = length (cp_bytes f2)" "decode b \<noteq> []" "collapse_repeated_lines (big @ nl # decode b) 6 3 = ?c" for b
  proof -
    have o: "big @ (if decode b = [] then [] else (if big = [] then [] else [nl]) @ decode b) = big @ nl # decode b"
      using that assms(7) by simp
    show ?thesis unfolding bash_output_def Let_def c1 prod.case small [OF that(1)] o cf that(3) ..
  qed
  have same: "f2\<lparr>cp_bytes := cp_bytes f2\<rparr> = f2" by simp
  note b2 = b [OF refl assms(13) refl, unfolded same]
  have files: "ev_files (snd (truncate_output rlm a2 ?c False MAX_OUTPUT ?ms e1)) p \<in> {ev_files e1 p, Some (Utf8_Text ?c)}" for p
    by (auto simp: truncate_output_def write_artifact_def Let_def split: prod.splits)
  have "ev_files (snd (bash_output decode rlm f1 f2 a1 a2 e)) p \<in> {ev_files e1 p, Some (Utf8_Text ?c)}" for p
    using files [of p] unfolding b2 by (auto simp: case_prod_beta)
  then have "p \<noteq> at_path (cp_attempt f1) \<longrightarrow> ev_files (snd (bash_output decode rlm f1 f2 a1 a2 e)) p
      \<in> {ev_files e p, Some (Utf8_Text ?c)}" for p
    by (metis e1 fun_upd_other)
  moreover have "bash_output decode rlm f1 (f2\<lparr>cp_bytes := other\<rparr>) a1 a2 e = bash_output decode rlm f1 f2 a1 a2 e"
    unfolding b2 by (rule b [OF assms(12,14) assms(15) [symmetric]])
  ultimately show ?thesis by blast
qed

text \<open>Six warnings and a diagnosis, whose place among them is lost.\<close>

lemma collapse_example:
  assumes "nl \<notin> set big" "length big > 1"
  shows "collapse_repeated_lines (big @ nl # join_with [nl] [''n'', ''n'', ''n'', ''n'', ''n'', ''n'', ''b'']) 6 3
      = join_with [nl] [big, ''n'', ''n'', ''n'', ''b'', omission_marker (''n'', 3)]"
    and "collapse_repeated_lines (big @ nl # join_with [nl] [''n'', ''n'', ''n'', ''b'', ''n'', ''n'', ''n'']) 6 3
      = join_with [nl] [big, ''n'', ''n'', ''n'', ''b'', omission_marker (''n'', 3)]"
proof -
  have ne: "big \<noteq> ''n''" "big \<noteq> ''b''" using assms(2) by auto
  have s: "py_strip ''n'' \<noteq> []" by code_simp
  have sp1: "split_on nl (join_with [nl] [''n'', ''n'', ''n'', ''n'', ''n'', ''n'', ''b'']) =
      [''n'', ''n'', ''n'', ''n'', ''n'', ''n'', ''b'']" by code_simp
  have sp2: "split_on nl (join_with [nl] [''n'', ''n'', ''n'', ''b'', ''n'', ''n'', ''n'']) =
      [''n'', ''n'', ''n'', ''b'', ''n'', ''n'', ''n'']" by code_simp
  have no1: "noisy 6 [big, ''n'', ''n'', ''n'', ''n'', ''n'', ''n'', ''b''] l = (l = ''n'')" for l
    using ne s by (auto simp: noisy_def)
  have no2: "noisy 6 [big, ''n'', ''n'', ''n'', ''b'', ''n'', ''n'', ''n''] l = (l = ''n'')" for l
    using ne s by (auto simp: noisy_def)
  show "collapse_repeated_lines (big @ nl # join_with [nl] [''n'', ''n'', ''n'', ''n'', ''n'', ''n'', ''b'']) 6 3
      = join_with [nl] [big, ''n'', ''n'', ''n'', ''b'', omission_marker (''n'', 3)]"
    unfolding collapse_repeated_lines_def split_on_append split_on_free [OF assms(1)] sp1 Let_def
    using ne by (simp add: no1 numeral_3_eq_3)
  show "collapse_repeated_lines (big @ nl # join_with [nl] [''n'', ''n'', ''n'', ''b'', ''n'', ''n'', ''n'']) 6 3
      = join_with [nl] [big, ''n'', ''n'', ''n'', ''b'', omission_marker (''n'', 3)]"
    unfolding collapse_repeated_lines_def split_on_append split_on_free [OF assms(1)] sp2 Let_def
    using ne by (simp add: no2 numeral_3_eq_3)
qed

lemma mixed_capture_loses_lines_witness:
  "\<exists>f1 f2 other. other \<noteq> cp_bytes f2 \<and> (\<forall>a1 a2 e.
     bash_output (\<lambda>s. s) False f1 (f2\<lparr>cp_bytes := other\<rparr>) a1 a2 e = bash_output (\<lambda>s. s) False f1 f2 a1 a2 e)"
proof -
  let ?w = "\<lambda>p. \<lparr>at_path = p, at_ok = True, at_meta_ok = True\<rparr>"
  let ?u = "join_with [nl] [''n'', ''n'', ''n'', ''n'', ''n'', ''n'', ''b'']"
  let ?v = "join_with [nl] [''n'', ''n'', ''n'', ''b'', ''n'', ''n'', ''n'']"
  obtain b :: string where b: "b = replicate 50001 CHR ''x''" by blast
  let ?f1 = "\<lparr>cp_bytes = b, cp_seek_ok = True, cp_read_ok = True, cp_copy = Copied, cp_attempt = ?w ''a''\<rparr>"
  let ?f2 = "\<lparr>cp_bytes = ?u, cp_seek_ok = True, cp_read_ok = True, cp_copy = Copied, cp_attempt = ?w ''b''\<rparr>"
  have nin: "nl \<notin> set b" and len: "length b = 50001" unfolding b by (simp_all del: replicate.simps)
  have big: "length b > 1" "length b > MAX_OUTPUT" "length b \<le> CAPTURE_READ_CAP"
    unfolding len by (simp_all add: MAX_OUTPUT_def CAPTURE_READ_CAP_def)
  note ex = collapse_example [OF nin big(1)]
  have ne: "join_with [nl] [b, ''n'', ''n'', ''n'', ''b'', omission_marker (''n'', 3)] \<noteq> b @ nl # ?u" by simp
  have small: "length ?u \<le> MAX_OUTPUT" "length ?v = length ?u" "?u \<noteq> []" "?v \<noteq> []" by (simp_all add: MAX_OUTPUT_def)
  have "b \<noteq> []" using big(1) by auto
  then have "bash_output (\<lambda>s. s) False ?f1 (?f2\<lparr>cp_bytes := ?v\<rparr>) a1 a2 e = bash_output (\<lambda>s. s) False ?f1 ?f2 a1 a2 e" for a1 a2 e
    using mixed_capture_loses_lines [of ?f1 "\<lambda>s. s" b ?f2 ?v False a1 a2 e] big ne small ex
    by (simp del: join_with.simps collapse_example)
  moreover have "?v \<noteq> cp_bytes ?f2" by simp
  ultimately show ?thesis by blast
qed

end
