(* ===== verification/Paths.thy ===== *)
theory Paths
  imports Prelude "HOL-Library.Sublist"
begin

text \<open>
  \<open>core/tools/paths.py\<close>: where a tool may read and write, what a relative name means, and the
  environment of a shell.

  A path is its root and its components, as \<open>pathlib\<close> has it.  The settings, the two context
  variables and the operating system's \<open>resolve\<close> are the record \<open>path_env\<close>; which paths exist and
  which are directories is the state \<open>dirs\<close>, since the write path creates its roots.  That
  \<open>resolve\<close> answers at all is assumed: a loop of links, which makes it raise, is left out.
\<close>

section \<open>Paths\<close>

record path =
  p_root :: string
  p_parts :: "string list"

definition slash :: char where "slash = CHR ''/''"

text \<open>\<open>Path(s)\<close>: two slashes at the front, and no third, are a root of their own.\<close>

definition py_path :: "string \<Rightarrow> path" where
  "py_path s =
     \<lparr>p_root = (if \<not> starts_with [slash] s then []
                else if starts_with [slash, slash] s \<and> \<not> starts_with [slash, slash, slash] s then [slash, slash]
                else [slash]),
      p_parts = filter (\<lambda>c. c \<noteq> [] \<and> c \<noteq> ''.'') (split_on slash s)\<rparr>"

definition path_str :: "path \<Rightarrow> string" where
  "path_str p = (if p_root p = [] \<and> p_parts p = [] then ''.'' else p_root p @ join_with [slash] (p_parts p))"

definition is_absolute :: "path \<Rightarrow> bool" where
  "is_absolute p \<longleftrightarrow> p_root p \<noteq> []"

definition join_path :: "path \<Rightarrow> path \<Rightarrow> path" where
  "join_path a b = (if is_absolute b then b else a\<lparr>p_parts := p_parts a @ p_parts b\<rparr>)"

definition is_relative_to :: "path \<Rightarrow> path \<Rightarrow> bool" where
  "is_relative_to p base \<longleftrightarrow> p_root p = p_root base \<and> prefix (p_parts base) (p_parts p)"

definition path_name :: "path \<Rightarrow> string" where
  "path_name p = (if p_parts p = [] then [] else last (p_parts p))"

definition path_parent :: "path \<Rightarrow> path" where
  "path_parent p = p\<lparr>p_parts := butlast (p_parts p)\<rparr>"

section \<open>What the functions read\<close>

record path_env =
  pe_override :: "string option"
  pe_home :: "string option"
  pe_workspace_dir :: string
  pe_skills_dir :: string
  pe_tool_output_dir :: string
  pe_kernels_dir :: "string option"
  pe_data_dir :: string
  pe_resolve :: "path \<Rightarrow> path"

record dirs =
  d_exists :: "path \<Rightarrow> bool"
  d_is_dir :: "path \<Rightarrow> bool"

definition mkdir_parents :: "path \<Rightarrow> dirs \<Rightarrow> dirs" where
  "mkdir_parents p d =
     \<lparr>d_exists = (\<lambda>q. d_exists d q \<or> is_relative_to p q), d_is_dir = (\<lambda>q. d_is_dir d q \<or> is_relative_to p q)\<rparr>"

definition PROTECTED_FILES :: "string list" where
  "PROTECTED_FILES = [''sessions.md'', ''instructions.md'', ''soul.md'', ''rules.md'', ''safety.md'', ''.env'', ''settings.json'']"

definition PROTECTED_DIRS :: "string list" where
  "PROTECTED_DIRS = [''.git'', ''__pycache__'', ''.venv'']"

definition HARNESS_DATA_DIRS :: "string list" where
  "HARNESS_DATA_DIRS = [''adaptive'', ''memories'', ''canaries'', ''kernels'', ''sessions'', ''logs'', ''agent'', ''cache'', ''workflows'']"

section \<open>Roots\<close>

definition resolved :: "path_env \<Rightarrow> string \<Rightarrow> path" where
  "resolved env s = pe_resolve env (py_path s)"

definition workspace :: "path_env \<Rightarrow> path" where
  "workspace env = (case pe_override env of
       Some o' \<Rightarrow> if o' \<noteq> [] then resolved env o' else resolved env (pe_workspace_dir env)
     | None \<Rightarrow> resolved env (pe_workspace_dir env))"

text \<open>The space home, when one is set and no sandbox is active.\<close>

definition active_home :: "path_env \<Rightarrow> path option" where
  "active_home env = (case pe_home env of None \<Rightarrow> None
     | Some h \<Rightarrow> if h \<noteq> [] \<and> pe_override env = None then Some (resolved env h) else None)"

definition workspace_home :: "path_env \<Rightarrow> path" where
  "workspace_home env = (case active_home env of Some h \<Rightarrow> h | None \<Rightarrow> workspace env)"

definition roots_for_context :: "path_env \<Rightarrow> string option \<Rightarrow> string option \<Rightarrow> path \<times> path" where
  "roots_for_context env override home =
     (if override \<notin> {None, Some []} then (resolved env (the override), resolved env (the override))
      else let base = resolved env (pe_workspace_dir env)
           in (base, if home \<in> {None, Some []} then base else resolved env (the home)))"

definition data_root :: "path_env \<Rightarrow> path" where
  "data_root env = resolved env (pe_data_dir env)"

definition kernel_state_root :: "path_env \<Rightarrow> path option" where
  "kernel_state_root env = map_option (resolved env) (pe_kernels_dir env)"

definition tool_output_root :: "path_env \<Rightarrow> path" where
  "tool_output_root env = resolved env (pe_tool_output_dir env)"

definition add_root :: "path \<Rightarrow> path list \<Rightarrow> path list" where
  "add_root r roots = (if r \<in> set roots then roots else roots @ [r])"

definition base_roots :: "path_env \<Rightarrow> path list" where
  "base_roots env =
     (let roots = add_root (workspace env) (case active_home env of Some h \<Rightarrow> [h] | None \<Rightarrow> [])
      in if pe_override env = None then roots @ [resolved env ''/tmp''] else roots)"

definition allowed_read_roots :: "path_env \<Rightarrow> path list" where
  "allowed_read_roots env =
     (let roots = add_root (tool_output_root env) (add_root (resolved env (pe_skills_dir env)) (base_roots env))
      in case kernel_state_root env of None \<Rightarrow> roots | Some k \<Rightarrow> add_root k roots)"

definition allowed_write_roots :: "path_env \<Rightarrow> path list" where
  "allowed_write_roots env = base_roots env"

definition relative_resolution_roots :: "path_env \<Rightarrow> path list \<Rightarrow> path list" where
  "relative_resolution_roots env roots =
     (let allowed = (case active_home env of Some h \<Rightarrow> if h \<in> set roots then [h] else [] | None \<Rightarrow> []);
          allowed' = (if workspace env \<in> set roots \<and> workspace env \<notin> set allowed then allowed @ [workspace env] else allowed)
      in if allowed' = [] then roots else allowed')"

definition relative_path_roots :: "path_env \<Rightarrow> path list" where
  "relative_path_roots env = relative_resolution_roots env (base_roots env)"

definition owning_root :: "path_env \<Rightarrow> path \<Rightarrow> path" where
  "owning_root env target = (let roots = relative_path_roots env in
     case find (is_relative_to target) roots of Some r \<Rightarrow> r
     | None \<Rightarrow> (case roots of r # _ \<Rightarrow> r | [] \<Rightarrow> workspace env))"

section \<open>Resolution\<close>

datatype path_error = Protected_File string | Protected_Dir string | Outside_Roots string

definition check_protected :: "path \<Rightarrow> path list \<Rightarrow> path_error option" where
  "check_protected p roots =
     (if py_lower (path_name p) \<in> set PROTECTED_FILES \<and> path_parent p \<in> set roots then Some (Protected_File (path_name p))
      else map_option Protected_Dir
        (find (\<lambda>c. py_lower c \<in> set PROTECTED_DIRS) ((if p_root p = [] then [] else [p_root p]) @ p_parts p)))"

definition guarded :: "path \<Rightarrow> path list \<Rightarrow> path_error + path" where
  "guarded p roots = (case check_protected p roots of Some e \<Rightarrow> Inl e | None \<Rightarrow> Inr p)"

definition redirect_doubled_home_path :: "path_env \<Rightarrow> string \<Rightarrow> path option" where
  "redirect_doubled_home_path env s = (case active_home env of None \<Rightarrow> None
     | Some h \<Rightarrow>
         let ws = workspace env in
         if \<not> is_relative_to h ws then None
         else let pre = drop (length (p_parts ws)) (p_parts h); rel = py_path s in
           if pre = [] \<or> take (length pre) ((if is_absolute rel then [p_root rel] else []) @ p_parts rel) \<noteq> pre then None
           else let candidate = pe_resolve env (join_path ws rel) in
             if is_relative_to candidate ws then Some candidate else None)"

text \<open>The scan, with the first candidate and the first whose directory exists so far.\<close>

fun scan_roots ::
    "path_env \<Rightarrow> dirs \<Rightarrow> bool \<Rightarrow> string \<Rightarrow> path list \<Rightarrow> path option \<Rightarrow> path option \<Rightarrow> path option" where
  "scan_roots env d prefer s [] first_valid parent_exists =
     (case parent_exists of Some c \<Rightarrow> Some c | None \<Rightarrow> first_valid)"
| "scan_roots env d prefer s (base # roots) first_valid parent_exists =
     (let candidate = pe_resolve env (join_path base (py_path s)) in
      if is_relative_to candidate base then
        if \<not> prefer \<or> d_exists d candidate then Some candidate
        else scan_roots env d prefer s roots
               (if first_valid = None then Some candidate else first_valid)
               (if parent_exists = None \<and> d_is_dir d (path_parent candidate) then Some candidate else parent_exists)
      else scan_roots env d prefer s roots first_valid parent_exists)"

definition resolve_within ::
    "path_env \<Rightarrow> string \<Rightarrow> path list \<Rightarrow> bool \<Rightarrow> dirs \<Rightarrow> (path_error + path) \<times> dirs" where
  "resolve_within env s roots create d0 =
     (let d = (if create then foldl (\<lambda>d r. mkdir_parents r d) d0 roots else d0);
          r = resolved env s
      in (if list_ex (is_relative_to r) roots then guarded r roots
          else case redirect_doubled_home_path env s of
            Some c \<Rightarrow> guarded c roots
          | None \<Rightarrow>
              let prefer = (pe_home env \<noteq> None \<and> pe_override env = None) in
              (case scan_roots env d prefer s (if prefer then relative_resolution_roots env roots else roots) None None of
                 Some c \<Rightarrow> guarded c roots
               | None \<Rightarrow> Inl (Outside_Roots s)), d))"

definition safe_read_path :: "path_env \<Rightarrow> string \<Rightarrow> dirs \<Rightarrow> (path_error + path) \<times> dirs" where
  "safe_read_path env s = resolve_within env s (allowed_read_roots env) False"

definition safe_write_path :: "path_env \<Rightarrow> string \<Rightarrow> dirs \<Rightarrow> (path_error + path) \<times> dirs" where
  "safe_write_path env s = resolve_within env s (allowed_write_roots env) True"

definition resolve_workspace_path :: "path_env \<Rightarrow> string \<Rightarrow> dirs \<Rightarrow> (path_error + path) \<times> dirs" where
  "resolve_workspace_path env s = resolve_within env s (relative_path_roots env) False"

section \<open>The hint after a failure\<close>

fun drop_dot_slash :: "string \<Rightarrow> string" where
  "drop_dot_slash (a # b # s) = (if a = CHR ''.'' \<and> b = slash then drop_dot_slash s else a # b # s)"
| "drop_dot_slash s = s"

text \<open>The workspace and the data root that the hint names.\<close>

definition root_mismatch_hint :: "path_env \<Rightarrow> dirs \<Rightarrow> string \<Rightarrow> (path \<times> path) option" where
  "root_mismatch_hint env d s =
     (let ws = workspace env; data = data_root env; raw = drop_dot_slash (py_strip s); candidate = py_path raw;
          parts = (if is_absolute candidate then [p_root candidate] else []) @ p_parts candidate;
          first = (if parts = [] then [] else hd parts);
          fits = (if is_absolute candidate then
                    (let target = pe_resolve env candidate in is_relative_to target data \<and> \<not> is_relative_to target ws)
                  else if list_ex (\<lambda>r. d_exists d (join_path r (py_path raw))) (relative_path_roots env) then False
                  else if first = ''data'' \<or> first = path_name data then
                    \<not> (length parts > 1 \<and> is_relative_to (data\<lparr>p_parts := p_parts data @ tl parts\<rparr>) ws)
                  else first \<in> set HARNESS_DATA_DIRS \<and> d_exists d (data\<lparr>p_parts := p_parts data @ [first]\<rparr>))
      in if s = [] \<or> raw = [] then None else if fits then Some (ws, data) else None)"

section \<open>The environment of a shell\<close>

datatype env_mode = Passthrough | Denylist | Allowlist

record shell_settings =
  sh_mode :: env_mode
  sh_denylist :: "string list"
  sh_allowlist :: "string list"

definition under :: "path \<Rightarrow> string list \<Rightarrow> path" where
  "under p cs = p\<lparr>p_parts := p_parts p @ cs\<rparr>"

definition filtered_env :: "shell_settings \<Rightarrow> (string \<rightharpoonup> string) \<Rightarrow> string \<rightharpoonup> string" where
  "filtered_env st environ = (case sh_mode st of
       Passthrough \<Rightarrow> environ
     | Denylist \<Rightarrow> (\<lambda>k. if k \<in> set (sh_denylist st) then None else environ k)
     | Allowlist \<Rightarrow> (\<lambda>k. if k \<in> set (sh_allowlist st) then environ k else None))"

text \<open>Also whether the workspace's virtual environment has to be made first.\<close>

definition build_shell_env ::
    "path_env \<Rightarrow> dirs \<Rightarrow> shell_settings \<Rightarrow> path option \<Rightarrow> path option \<Rightarrow> (string \<rightharpoonup> string) \<Rightarrow> bool \<times> (string \<rightharpoonup> string)" where
  "build_shell_env env d st workspace_root run_dir environ =
     (let ws = (case workspace_root of None \<Rightarrow> workspace env | Some w \<Rightarrow> w);
          home = (case run_dir of None \<Rightarrow> workspace_home env | Some h \<Rightarrow> h);
          venv_dir = under ws [''.venv'']
      in (\<not> d_exists d (under venv_dir [''bin'', ''python'']),
          (filtered_env st environ)
            (''PATH'' \<mapsto> path_str (under venv_dir [''bin'']) @ '':/usr/local/bin:/usr/bin:/bin'',
             ''HOME'' \<mapsto> path_str home,
             ''VIRTUAL_ENV'' \<mapsto> path_str venv_dir,
             ''PYTHONUNBUFFERED'' \<mapsto> ''1'')))"

end
