(* ===== verification/Paths_Proofs.thy ===== *)
theory Paths_Proofs
  imports Paths
begin

text \<open>
  What holds of path resolution: results stay within the roots and off the protected names, a
  sandbox is the only place to write, a result can be named again, which root a relative name
  means, and where the contract of one meaning for all tools breaks.
\<close>

section \<open>Paths as texts\<close>

text \<open>The paths that \<open>resolve\<close> returns: absolute, of proper components.\<close>

definition proper_path :: "path \<Rightarrow> bool" where
  "proper_path p \<longleftrightarrow> p_root p = [slash] \<and> (\<forall>c \<in> set (p_parts p). c \<noteq> [] \<and> c \<noteq> ''.'' \<and> slash \<notin> set c)"

text \<open>What is relied on: \<open>resolve\<close> returns proper paths and has nothing left to do on them.\<close>

definition resolves :: "path_env \<Rightarrow> bool" where
  "resolves env \<longleftrightarrow> (\<forall>p. proper_path (pe_resolve env p) \<and> pe_resolve env (pe_resolve env p) = pe_resolve env p)"

lemma split_join_parts:
  "\<forall>c \<in> set cs. slash \<notin> set c \<Longrightarrow> split_on slash (join_with [slash] cs) = (if cs = [] then [[]] else cs)"
proof (induction cs)
  case (Cons c cs)
  then show ?case by (cases cs) (auto simp: split_on_free split_on_append)
qed simp

lemma py_path_str: "proper_path p \<Longrightarrow> py_path (path_str p) = p"
proof -
  assume p: "proper_path p"
  obtain r cs where pc: "p = \<lparr>p_root = r, p_parts = cs\<rparr>" by (cases p)
  then have r: "r = [slash]" and cs: "\<forall>c \<in> set cs. c \<noteq> [] \<and> c \<noteq> ''.'' \<and> slash \<notin> set c"
    using p by (auto simp: proper_path_def)
  let ?j = "join_with [slash] cs"
  have s: "split_on slash (slash # ?j) = [] # split_on slash ?j" by (simp add: slash_def)
  have two: "\<not> starts_with [slash] ?j"
  proof (cases cs)
    case (Cons c cs')
    then obtain x c' where c: "c = x # c'" "x \<noteq> slash" using cs by (cases c) auto
    then show ?thesis using Cons by (cases cs') (auto simp: starts_with_iff)
  qed (simp add: starts_with_iff)
  have "filter (\<lambda>c. c \<noteq> [] \<and> c \<noteq> ''.'') (split_on slash (slash # ?j)) = cs"
    using cs by (subst s, subst split_join_parts) auto
  moreover have "\<not> starts_with [slash, slash] (slash # ?j)" using two by (auto simp: starts_with_iff)
  ultimately show ?thesis using r by (simp add: pc path_str_def py_path_def starts_with_iff)
qed

lemma is_relative_refl [simp]: "is_relative_to p p"
  by (simp add: is_relative_to_def)

lemma is_relative_trans: "is_relative_to p q \<Longrightarrow> is_relative_to q r \<Longrightarrow> is_relative_to p r"
  by (auto simp: is_relative_to_def)

section \<open>Containment\<close>

text \<open>Not a reserved name directly in a root, and no protected directory anywhere in it.\<close>

definition unprotected :: "path list \<Rightarrow> path \<Rightarrow> bool" where
  "unprotected roots p \<longleftrightarrow> \<not> (py_lower (path_name p) \<in> set PROTECTED_FILES \<and> path_parent p \<in> set roots)
     \<and> (\<forall>c \<in> set (p_parts p). py_lower c \<notin> set PROTECTED_DIRS)"

lemma guarded_Inr: "guarded p roots = Inr r \<longleftrightarrow> r = p \<and> check_protected p roots = None"
  by (auto simp: guarded_def split: option.splits)

lemma check_protected_None: "check_protected p roots = None \<Longrightarrow> unprotected roots p"
  by (auto simp: check_protected_def unprotected_def find_None_iff split: if_splits)

lemma scan_roots_within:
  assumes "scan_roots env d pf s roots fv pe = Some c"
  shows "fv = Some c \<or> pe = Some c \<or>
    (\<exists>r \<in> set roots. c = pe_resolve env (join_path r (py_path s)) \<and> is_relative_to c r)"
  using assms
proof (induction env d pf s roots fv pe rule: scan_roots.induct)
  case (1 env d pf s fv pe)
  then show ?case by (auto split: option.splits)
next
  case (2 env d pf s r roots fv pe)
  let ?c = "pe_resolve env (join_path r (py_path s))"
  show ?case
  proof (cases "is_relative_to ?c r")
    case False
    then show ?thesis using "2.IH"(2) [OF refl False] "2.prems" by auto
  next
    case rel: True
    show ?thesis
    proof (cases "\<not> pf \<or> d_exists d ?c")
      case True
      then show ?thesis using rel "2.prems" by (auto simp: Let_def)
    next
      case False
      then show ?thesis using "2.IH"(1) [OF refl rel False] "2.prems" rel by (auto simp: Let_def split: if_splits)
    qed
  qed
qed

lemma redirect_within:
  "redirect_doubled_home_path env s = Some c \<Longrightarrow>
     c = pe_resolve env (join_path (workspace env) (py_path s)) \<and> is_relative_to c (workspace env)"
  by (auto simp: redirect_doubled_home_path_def Let_def split: option.splits if_splits)

lemma relative_roots_subset: "set (relative_resolution_roots env roots) \<subseteq> set roots"
  by (auto simp: relative_resolution_roots_def Let_def split: option.splits if_splits)

lemma resolve_within_contained:
  assumes "fst (resolve_within env s roots create d) = Inr p" "workspace env \<in> set roots"
  shows "(\<exists>r \<in> set roots. is_relative_to p r) \<and> unprotected roots p \<and> (\<exists>q. p = pe_resolve env q)"
proof -
  consider "list_ex (is_relative_to (resolved env s)) roots" "p = resolved env s" "check_protected p roots = None"
    | c where "redirect_doubled_home_path env s = Some c" "p = c" "check_protected p roots = None"
    | d' pf rs c where "scan_roots env d' pf s rs None None = Some c" "set rs \<subseteq> set roots" "p = c" "check_protected p roots = None"
    using assms(1) relative_roots_subset [of env roots]
    by (auto simp: resolve_within_def Let_def guarded_Inr split: if_splits option.splits)
  then show ?thesis
  proof cases
    case 1
    then show ?thesis by (auto simp: list_ex_iff check_protected_None resolved_def)
  next
    case 2
    then show ?thesis using redirect_within assms(2) check_protected_None by blast
  next
    case 3
    then show ?thesis using scan_roots_within [OF 3(1)] check_protected_None by blast
  qed
qed

lemma workspace_in_base: "workspace env \<in> set (base_roots env)"
  by (auto simp: base_roots_def add_root_def Let_def)

lemma base_in_read: "set (base_roots env) \<subseteq> set (allowed_read_roots env)"
  by (auto simp: allowed_read_roots_def add_root_def Let_def split: option.splits)

lemma workspace_in_relative: "workspace env \<in> set (relative_path_roots env)"
  using workspace_in_base [of env] by (auto simp: relative_path_roots_def relative_resolution_roots_def Let_def)

lemma relative_in_base: "set (relative_path_roots env) \<subseteq> set (base_roots env)"
  using relative_roots_subset by (simp add: relative_path_roots_def)

lemmas root_facts = workspace_in_base workspace_in_relative base_in_read [THEN subsetD] relative_in_base [THEN subsetD]

text \<open>C33: no tool path leaves its roots. What the read, write and search resolutions return lies
  under one of the roots of that operation, is a result of \<open>resolve\<close>, so no link and no \<open>..\<close> is
  left in it, is not a reserved file directly in a root and has no protected directory in it,
  whatever exists on disk and whatever space or sandbox is active.\<close>

theorem paths_contained:
  assumes "fst (safe_read_path env s d) = Inr p \<and> roots = allowed_read_roots env
    \<or> fst (safe_write_path env s d) = Inr p \<and> roots = allowed_write_roots env
    \<or> fst (resolve_workspace_path env s d) = Inr p \<and> roots = relative_path_roots env"
  shows "(\<exists>r \<in> set roots. is_relative_to p r) \<and> unprotected roots p \<and> (\<exists>q. p = pe_resolve env q)"
  using assms resolve_within_contained [of env s roots]
  by (auto simp: safe_read_path_def safe_write_path_def resolve_workspace_path_def allowed_write_roots_def root_facts)

text \<open>A sandbox is the only place to write. Under a session's override every path the write
  and search resolutions return lies under the override, and so does the directory a shell starts in.\<close>

theorem sandbox_contains_writes:
  assumes "pe_override env = Some o'" "o' \<noteq> []"
    and "fst (safe_write_path env s d) = Inr p \<or> fst (resolve_workspace_path env s d) = Inr p"
  shows "is_relative_to p (resolved env o') \<and> workspace_home env = resolved env o'
    \<and> roots_for_context env (pe_override env) (pe_home env) = (resolved env o', resolved env o')"
proof -
  have ws: "workspace env = resolved env o'" using assms(1,2) by (simp add: workspace_def)
  have home: "active_home env = None" using assms(1) by (simp add: active_home_def split: option.splits)
  have base: "base_roots env = [resolved env o']"
    using assms(1) home by (simp add: base_roots_def add_root_def ws)
  have rel: "relative_path_roots env = [resolved env o']"
    by (simp add: relative_path_roots_def relative_resolution_roots_def home base ws)
  have "is_relative_to p (resolved env o')"
    using assms(3) resolve_within_contained [of env s "[resolved env o']"]
    by (auto simp: safe_write_path_def resolve_workspace_path_def allowed_write_roots_def base rel ws)
  then show ?thesis using assms(1,2) by (simp add: workspace_home_def home ws roots_for_context_def)
qed

section \<open>A result names itself\<close>

lemma resolve_within_checked:
  assumes "fst (resolve_within env s roots create d) = Inr p"
  shows "check_protected p roots = None"
  using assms by (auto simp: resolve_within_def Let_def guarded_Inr split: if_splits option.splits)

lemma resolve_within_self:
  assumes "resolves env" "fst (resolve_within env s roots create d) = Inr p" "workspace env \<in> set roots"
  shows "fst (resolve_within env (path_str p) roots create' d') = Inr p"
proof -
  note c = resolve_within_contained [OF assms(2,3)]
  then obtain q where q: "p = pe_resolve env q" by blast
  have "proper_path p" using assms(1) by (auto simp: resolves_def q)
  then have "resolved env (path_str p) = pe_resolve env p" by (simp add: resolved_def py_path_str)
  then have r: "resolved env (path_str p) = p" using assms(1) by (simp add: resolves_def q)
  have "list_ex (is_relative_to p) roots" using c by (auto simp: list_ex_iff)
  then show ?thesis using resolve_within_checked [OF assms(2)] by (simp add: resolve_within_def r guarded_Inr)
qed

text \<open>A path that a tool reports can be given back to it. Resolving the text of an accepted path
  again, at any later time and whatever exists by then, gives the same path, for reading, for
  writing and for searching.\<close>

theorem result_names_itself:
  assumes "resolves env"
  shows "(fst (safe_read_path env s d) = Inr p \<longrightarrow> fst (safe_read_path env (path_str p) d') = Inr p)
    \<and> (fst (safe_write_path env s d) = Inr p \<longrightarrow> fst (safe_write_path env (path_str p) d') = Inr p)
    \<and> (fst (resolve_workspace_path env s d) = Inr p \<longrightarrow> fst (resolve_workspace_path env (path_str p) d') = Inr p)"
  using resolve_within_self [OF assms]
  by (auto simp: safe_read_path_def safe_write_path_def resolve_workspace_path_def allowed_write_roots_def root_facts)

section \<open>One meaning of a relative name\<close>

definition contract_roots :: "path_env \<Rightarrow> path list" where
  "contract_roots env = (case active_home env of
     Some h \<Rightarrow> if h = workspace env then [h] else [h, workspace env] | None \<Rightarrow> [workspace env])"

lemma relative_roots_eq:
  assumes "workspace env \<in> set roots" "\<And>h. active_home env = Some h \<Longrightarrow> h \<in> set roots"
  shows "relative_resolution_roots env roots = contract_roots env"
  using assms by (auto simp: relative_resolution_roots_def contract_roots_def Let_def split: option.splits)

lemma home_in_base: "active_home env = Some h \<Longrightarrow> h \<in> set (base_roots env)"
  by (auto simp: base_roots_def add_root_def Let_def)

lemma relative_path_roots_eq: "relative_path_roots env = contract_roots env"
  unfolding relative_path_roots_def by (intro relative_roots_eq workspace_in_base home_in_base)

lemma home_in_contract: "active_home env = Some h \<Longrightarrow> h \<in> set (contract_roots env)"
  by (simp add: contract_roots_def)

lemma workspace_in_contract: "workspace env \<in> set (contract_roots env)"
  by (auto simp: contract_roots_def split: option.splits)

lemma prefix_add_root: "prefix xs (add_root r xs)"
  by (simp add: add_root_def)

lemma contract_prefix: "prefix (contract_roots env) (base_roots env)"
  by (cases "active_home env") (simp_all add: contract_roots_def base_roots_def add_root_def Let_def)

lemma prefix_add_root_I: "prefix xs ys \<Longrightarrow> prefix xs (add_root r ys)"
  using prefix_add_root prefix_order.trans by blast

lemma base_prefix: "prefix (base_roots env) (allowed_read_roots env)"
  unfolding allowed_read_roots_def Let_def by (cases "kernel_state_root env") (simp_all add: prefix_add_root_I)

lemmas roots_prefix = contract_prefix base_prefix

lemma scan_prefix:
  "scan_roots env d False s rs None None = Some c \<Longrightarrow> scan_roots env d False s (rs @ ts) None None = Some c"
  by (induction rs) (auto simp: Let_def)

text \<open>What an accepted relative name was resolved to, when the process's own directory does not capture it.\<close>

definition chosen :: "path_env \<Rightarrow> dirs \<Rightarrow> string \<Rightarrow> path option" where
  "chosen env d s = (case redirect_doubled_home_path env s of Some c \<Rightarrow> Some c
     | None \<Rightarrow> if pe_home env \<noteq> None \<and> pe_override env = None then scan_roots env d True s (contract_roots env) None None
         else scan_roots env d False s (allowed_read_roots env) None None)"

lemma resolve_within_chosen:
  assumes "fst (resolve_within env s roots create d) = Inr p" "\<not> list_ex (is_relative_to (resolved env s)) roots"
    and "prefix roots (allowed_read_roots env)" "set (contract_roots env) \<subseteq> set roots"
    and "\<not> create \<or> foldl (\<lambda>d r. mkdir_parents r d) d roots = d"
  shows "chosen env d s = Some p"
proof -
  have e: "(if create then foldl (\<lambda>d r. mkdir_parents r d) d roots else d) = d" using assms(5) by auto
  have rr: "relative_resolution_roots env roots = contract_roots env"
    by (rule relative_roots_eq) (use assms(4) workspace_in_contract home_in_contract in blast)+
  obtain ts where ts: "allowed_read_roots env = roots @ ts" using assms(3) by (auto simp: prefix_def)
  show ?thesis
    using assms(1,2) scan_prefix [of env d s roots _ ts]
    by (auto simp: resolve_within_def Let_def e rr chosen_def ts guarded_Inr split: if_splits option.splits)
qed

definition roots_exist :: "path_env \<Rightarrow> dirs \<Rightarrow> bool" where
  "roots_exist env d \<longleftrightarrow> (\<forall>r \<in> set (base_roots env). \<forall>q. is_relative_to r q \<longrightarrow> d_exists d q \<and> d_is_dir d q)"

lemma mkdir_existing:
  "\<forall>r \<in> set rs. \<forall>q. is_relative_to r q \<longrightarrow> d_exists d q \<and> d_is_dir d q \<Longrightarrow> foldl (\<lambda>d r. mkdir_parents r d) d rs = d"
proof (induction rs)
  case (Cons r rs)
  have "mkdir_parents r d = d"
  proof (rule dirs.equality)
    show "d_exists (mkdir_parents r d) = d_exists d" "d_is_dir (mkdir_parents r d) = d_is_dir d"
      using Cons.prems by (auto simp: mkdir_parents_def fun_eq_iff)
  qed simp
  then show ?case using Cons by simp
qed simp

text \<open>One meaning of a name for all tools. When the directory the server runs in does not itself
  put the name under a root, then reading, writing and searching, when they accept it, resolve it to
  the same path.\<close>

theorem one_meaning_for_all_tools:
  assumes "\<not> list_ex (is_relative_to (resolved env s)) (allowed_read_roots env)" "roots_exist env d"
    and "fst (safe_read_path env s d) = Inr p \<or> fst (safe_write_path env s d) = Inr p
       \<or> fst (resolve_workspace_path env s d) = Inr p"
    and "fst (safe_read_path env s d) = Inr q \<or> fst (safe_write_path env s d) = Inr q
       \<or> fst (resolve_workspace_path env s d) = Inr q"
  shows "p = q"
proof -
  have sub: "\<not> list_ex (is_relative_to (resolved env s)) rs" if "prefix rs (allowed_read_roots env)" for rs
    using assms(1) set_mono_prefix [OF that] by (auto simp: list_ex_iff)
  have pre: "prefix (contract_roots env) (allowed_read_roots env)" using roots_prefix prefix_order.trans by blast
  have con: "set (contract_roots env) \<subseteq> set (base_roots env)" "set (contract_roots env) \<subseteq> set (allowed_read_roots env)"
    using roots_prefix pre set_mono_prefix by blast+
  have mk: "foldl (\<lambda>d r. mkdir_parents r d) d (base_roots env) = d"
    using mkdir_existing assms(2) by (auto simp: roots_exist_def)
  have "chosen env d s = Some x" if "fst (safe_read_path env s d) = Inr x \<or> fst (safe_write_path env s d) = Inr x
       \<or> fst (resolve_workspace_path env s d) = Inr x" for x
    using that
  proof (elim disjE)
    assume "fst (safe_read_path env s d) = Inr x"
    then show ?thesis using resolve_within_chosen [of env s "allowed_read_roots env" False d x] assms(1) con
      by (simp add: safe_read_path_def)
  next
    assume "fst (safe_write_path env s d) = Inr x"
    then show ?thesis using resolve_within_chosen [of env s "base_roots env" True d x] sub roots_prefix(2) con mk
      by (simp add: safe_write_path_def allowed_write_roots_def)
  next
    assume "fst (resolve_workspace_path env s d) = Inr x"
    then show ?thesis using resolve_within_chosen [of env s "contract_roots env" False d x] sub pre
      by (simp add: resolve_workspace_path_def relative_path_roots_eq)
  qed
  then show ?thesis using assms(3,4) by (metis option.inject)
qed

text \<open>What a relative name means in a space. With the home and the workspace as candidates, the
  file of the home is taken if it exists, else that of the workspace if it exists; a new one goes to
  the first of the two in which its directory exists, and to the home when neither has it. No other
  root competes.\<close>

theorem relative_name_in_space:
  assumes "active_home env = Some h" "h \<noteq> workspace env"
    and "\<not> list_ex (is_relative_to (resolved env s)) (allowed_read_roots env)" "redirect_doubled_home_path env s = None"
    and "in_home = pe_resolve env (join_path h (py_path s))" "is_relative_to in_home h"
    and "in_ws = pe_resolve env (join_path (workspace env) (py_path s))" "is_relative_to in_ws (workspace env)"
  shows "fst (safe_read_path env s d) =
    guarded (if d_exists d in_home then in_home
      else if d_exists d in_ws then in_ws
      else if d_is_dir d (path_parent in_home) then in_home
      else if d_is_dir d (path_parent in_ws) then in_ws
      else in_home) (allowed_read_roots env)"
proof -
  have pf: "pe_home env \<noteq> None \<and> pe_override env = None"
    using assms(1) by (auto simp: active_home_def split: option.splits if_splits)
  have con: "set (contract_roots env) \<subseteq> set (allowed_read_roots env)"
    using roots_prefix prefix_order.trans set_mono_prefix by blast
  have rr: "relative_resolution_roots env (allowed_read_roots env) = [h, workspace env]"
    using relative_roots_eq [of env "allowed_read_roots env"] con workspace_in_contract home_in_contract assms(1,2)
    by (auto simp: contract_roots_def)
  show ?thesis
    using assms(3-8) pf by (simp add: safe_read_path_def resolve_within_def rr Let_def)
qed

text \<open>A space is never nested inside itself. A relative name that begins with the home's own path
  below the workspace is resolved from the workspace, whatever exists on disk: also when the doubled
  tree exists already.\<close>

theorem home_prefix_not_doubled:
  assumes "active_home env = Some h" "p_root h = p_root (workspace env)" "p_parts h = p_parts (workspace env) @ pre" "pre \<noteq> []"
    and "\<not> is_absolute (py_path s)" "prefix pre (p_parts (py_path s))"
    and "\<not> list_ex (is_relative_to (resolved env s)) (allowed_read_roots env)"
    and "is_relative_to (pe_resolve env (join_path (workspace env) (py_path s))) (workspace env)"
  shows "fst (safe_read_path env s d)
      = guarded (pe_resolve env (join_path (workspace env) (py_path s))) (allowed_read_roots env)
    \<and> fst (safe_write_path env s d)
      = guarded (pe_resolve env (join_path (workspace env) (py_path s))) (allowed_write_roots env)"
proof -
  have "redirect_doubled_home_path env s = Some (pe_resolve env (join_path (workspace env) (py_path s)))"
    using assms by (auto simp: redirect_doubled_home_path_def Let_def is_relative_to_def prefix_def)
  moreover have "\<not> list_ex (is_relative_to (resolved env s)) (base_roots env)"
    using assms(7) base_in_read [of env] by (auto simp: list_ex_iff)
  ultimately show ?thesis
    using assms(7) by (simp add: safe_read_path_def safe_write_path_def resolve_within_def allowed_write_roots_def)
qed

text \<open>The roots computed for a caller outside a tool call (a detached job, the gates) are the
  ones the tools have: the workspace and the default directory.\<close>

theorem contexts_agree:
  assumes "pe_override env \<noteq> Some []"
  shows "roots_for_context env (pe_override env) (pe_home env) = (workspace env, workspace_home env)"
  using assms
  by (auto simp: roots_for_context_def workspace_def workspace_home_def active_home_def Let_def split: option.splits)

section \<open>Where the contract breaks\<close>

text \<open>One name, two files. A relative name that the server's own directory puts under a root
  only readers have (the skills or the spill tree) is read there, while a write of the same name goes
  to the workspace: what has just been written is not what the same name then reads.\<close>

theorem read_and_write_disagree:
  assumes "pe_home env = None" "pe_override env = None"
    and "list_ex (is_relative_to (resolved env s)) (allowed_read_roots env)"
    and "\<not> list_ex (is_relative_to (resolved env s)) (allowed_write_roots env)"
    and "in_ws = pe_resolve env (join_path (workspace env) (py_path s))" "is_relative_to in_ws (workspace env)"
    and "check_protected (resolved env s) (allowed_read_roots env) = None" "check_protected in_ws (allowed_write_roots env) = None"
  shows "fst (safe_read_path env s d) = Inr (resolved env s) \<and> fst (safe_write_path env s d) = Inr in_ws
    \<and> resolved env s \<noteq> in_ws"
proof -
  have home: "active_home env = None" by (simp add: active_home_def assms(1))
  have no: "redirect_doubled_home_path env s = None" by (simp add: redirect_doubled_home_path_def home)
  have base: "base_roots env = [workspace env, resolved env ''/tmp'']"
    by (simp add: base_roots_def home add_root_def assms(2))
  have "fst (safe_read_path env s d) = Inr (resolved env s)"
    using assms(3,7) by (simp add: safe_read_path_def resolve_within_def guarded_def)
  moreover have "fst (safe_write_path env s d) = Inr in_ws"
    using assms(1,2,4,8) assms(5,6)
    by (simp add: safe_write_path_def resolve_within_def no allowed_write_roots_def base guarded_def Let_def)
  moreover have "resolved env s \<noteq> in_ws" using assms(4,6) by (auto simp: allowed_write_roots_def base)
  ultimately show ?thesis by simp
qed

section \<open>The environment of a shell\<close>

text \<open>What reaches a shell. In every mode the search path, the home, the virtual environment and
  the buffering are the ones set here, whatever the server's environment and the lists say; a denied
  name is not passed on, in the allowlist mode no other name is, and what is passed on is unchanged.\<close>

theorem shell_env_filtered:
  "case build_shell_env env d st wr rd environ of (_, e) \<Rightarrow>
     let ws = (case wr of None \<Rightarrow> workspace env | Some w \<Rightarrow> w);
         pinned = {''PATH'', ''HOME'', ''VIRTUAL_ENV'', ''PYTHONUNBUFFERED''}
     in e ''PATH'' = Some (path_str (under ws [''.venv'', ''bin'']) @ '':/usr/local/bin:/usr/bin:/bin'')
      \<and> e ''HOME'' = Some (path_str (case rd of None \<Rightarrow> workspace_home env | Some h \<Rightarrow> h))
      \<and> e ''VIRTUAL_ENV'' = Some (path_str (under ws [''.venv''])) \<and> e ''PYTHONUNBUFFERED'' = Some ''1''
      \<and> e |` (- pinned) = (\<lambda>k. case sh_mode st of
            Passthrough \<Rightarrow> environ k
          | Denylist \<Rightarrow> if k \<in> set (sh_denylist st) then None else environ k
          | Allowlist \<Rightarrow> if k \<in> set (sh_allowlist st) then environ k else None) |` (- pinned)"
  by (cases "sh_mode st") (auto simp: build_shell_env_def filtered_env_def Let_def under_def restrict_map_def fun_eq_iff)

section \<open>An installation without links\<close>

text \<open>A server in \<open>/srv\<close> with the default settings, on a file system without links, where
  resolving is a matter of the text.\<close>

fun norm_parts :: "string list \<Rightarrow> string list \<Rightarrow> string list" where
  "norm_parts acc [] = rev acc"
| "norm_parts acc (c # cs) = norm_parts (if c = ''..'' then tl acc else c # acc) cs"

definition lexical :: "string list \<Rightarrow> path \<Rightarrow> path" where
  "lexical cwd p = \<lparr>p_root = [slash],
     p_parts = norm_parts [] (filter (\<lambda>c. c \<noteq> [] \<and> c \<noteq> ''.'' \<and> slash \<notin> set c)
                 ((if is_absolute p then [] else cwd) @ p_parts p))\<rparr>"

definition srv_env :: "string option \<Rightarrow> string option \<Rightarrow> path_env" where
  "srv_env override home = \<lparr>pe_override = override, pe_home = home, pe_workspace_dir = ''data/workspace'',
     pe_skills_dir = ''data/skills'', pe_tool_output_dir = ''data/.tool_output'', pe_kernels_dir = None,
     pe_data_dir = ''data'', pe_resolve = lexical [''srv'']\<rparr>"

definition every_dir :: dirs where
  "every_dir = \<lparr>d_exists = (\<lambda>_. True), d_is_dir = (\<lambda>_. True)\<rparr>"

definition no_dir :: dirs where
  "no_dir = \<lparr>d_exists = (\<lambda>_. False), d_is_dir = (\<lambda>_. False)\<rparr>"

lemma norm_parts_set: "set (norm_parts acc cs) \<subseteq> set acc \<union> (set cs - {''..''})"
proof (induction acc cs rule: norm_parts.induct)
  case (2 acc c cs)
  then show ?case by (cases acc) (auto split: if_splits)
qed simp

lemma norm_parts_plain: "''..'' \<notin> set cs \<Longrightarrow> norm_parts acc cs = rev acc @ cs"
  by (induction acc cs rule: norm_parts.induct) auto

lemma srv_resolves: "resolves (srv_env override home)"
proof -
  have "proper_path (lexical cwd p)" for cwd p
    using norm_parts_set [of "[]" "filter (\<lambda>c. c \<noteq> [] \<and> c \<noteq> ''.'' \<and> slash \<notin> set c) ((if is_absolute p then [] else cwd) @ p_parts p)"]
    by (auto simp: proper_path_def lexical_def)
  moreover have "lexical cwd (lexical cwd p) = lexical cwd p" for cwd p
  proof -
    let ?f = "filter (\<lambda>c. c \<noteq> [] \<and> c \<noteq> ''.'' \<and> slash \<notin> set c)"
    let ?cs = "?f ((if is_absolute p then [] else cwd) @ p_parts p)"
    have s: "set (norm_parts [] ?cs) \<subseteq> set ?cs - {''..''}" using norm_parts_set [of "[]" ?cs] by simp
    then have "?f (norm_parts [] ?cs) = norm_parts [] ?cs" by (auto simp: filter_id_conv)
    moreover have "''..'' \<notin> set (norm_parts [] ?cs)" using s by blast
    ultimately show ?thesis
      using norm_parts_plain [of "norm_parts [] ?cs" "[]"]
      by (simp add: lexical_def is_absolute_def del: filter_append)
  qed
  ultimately show ?thesis by (simp add: resolves_def srv_env_def)
qed

abbreviation "srv_path cs \<equiv> \<lparr>p_root = [slash], p_parts = cs\<rparr>"

lemma paths_contained_witness:
  "fst (safe_write_path (srv_env None None) ''src/../a.py'' no_dir) = Inr (srv_path [''srv'', ''data'', ''workspace'', ''a.py''])
   \<and> unprotected (allowed_write_roots (srv_env None None)) (srv_path [''srv'', ''data'', ''workspace'', ''a.py''])"
proof -
  have e: "fst (safe_write_path (srv_env None None) ''src/../a.py'' no_dir) = Inr (srv_path [''srv'', ''data'', ''workspace'', ''a.py''])"
    by code_simp
  then show ?thesis using paths_contained [of "srv_env None None" "''src/../a.py''" no_dir] by blast
qed

lemma sandbox_contains_writes_witness:
  "fst (safe_write_path (srv_env (Some ''/tmp/canary'') None) ''a.py'' no_dir) = Inr (srv_path [''tmp'', ''canary'', ''a.py''])
   \<and> is_relative_to (srv_path [''tmp'', ''canary'', ''a.py'']) (resolved (srv_env (Some ''/tmp/canary'') None) ''/tmp/canary'')"
proof -
  have e: "fst (safe_write_path (srv_env (Some ''/tmp/canary'') None) ''a.py'' no_dir) = Inr (srv_path [''tmp'', ''canary'', ''a.py''])"
    by code_simp
  have o': "pe_override (srv_env (Some ''/tmp/canary'') None) = Some ''/tmp/canary''" by (simp add: srv_env_def)
  show ?thesis using sandbox_contains_writes [OF o' _ disjI1 [OF e]] e by simp
qed

lemma result_names_itself_witness:
  "fst (safe_read_path (srv_env None None) ''src/../a.py'' no_dir) = Inr (srv_path [''srv'', ''data'', ''workspace'', ''a.py''])
   \<and> fst (safe_read_path (srv_env None None) ''/srv/data/workspace/a.py'' every_dir) = Inr (srv_path [''srv'', ''data'', ''workspace'', ''a.py''])"
proof -
  have e: "fst (safe_read_path (srv_env None None) ''src/../a.py'' no_dir) = Inr (srv_path [''srv'', ''data'', ''workspace'', ''a.py''])"
    by code_simp
  have s: "path_str (srv_path [''srv'', ''data'', ''workspace'', ''a.py'']) = ''/srv/data/workspace/a.py''" by code_simp
  show ?thesis using result_names_itself [OF srv_resolves, of None None "''src/../a.py''" no_dir
      "srv_path [''srv'', ''data'', ''workspace'', ''a.py'']" every_dir] e s by simp
qed

lemma one_meaning_for_all_tools_witness:
  "\<exists>p. fst (safe_read_path (srv_env None None) ''a.py'' every_dir) = Inr p
     \<and> (\<forall>q. fst (safe_write_path (srv_env None None) ''a.py'' every_dir) = Inr q \<longrightarrow> p = q)"
proof -
  let ?e = "srv_env None None"
  have p: "fst (safe_read_path ?e ''a.py'' every_dir) = Inr (srv_path [''srv'', ''data'', ''workspace'', ''a.py''])"
    by code_simp
  have c: "\<not> list_ex (is_relative_to (resolved ?e ''a.py'')) (allowed_read_roots ?e)" by code_simp
  have "roots_exist ?e every_dir" by (simp add: roots_exist_def every_dir_def)
  then show ?thesis using one_meaning_for_all_tools [OF c _ disjI1 [OF p]] p by blast
qed

lemma relative_name_in_space_witness:
  "fst (safe_read_path (srv_env None (Some ''data/workspace/spaces/x'')) ''notes.md'' no_dir)
     = Inr (srv_path [''srv'', ''data'', ''workspace'', ''spaces'', ''x'', ''notes.md''])"
proof -
  let ?e = "srv_env None (Some ''data/workspace/spaces/x'')"
  let ?h = "srv_path [''srv'', ''data'', ''workspace'', ''spaces'', ''x'']"
  have h: "active_home ?e = Some ?h" "?h \<noteq> workspace ?e" by code_simp+
  have c: "\<not> list_ex (is_relative_to (resolved ?e ''notes.md'')) (allowed_read_roots ?e)"
    "redirect_doubled_home_path ?e ''notes.md'' = None" by code_simp+
  have r: "is_relative_to (pe_resolve ?e (join_path ?h (py_path ''notes.md''))) ?h"
    "is_relative_to (pe_resolve ?e (join_path (workspace ?e) (py_path ''notes.md''))) (workspace ?e)" by code_simp+
  have g: "guarded (pe_resolve ?e (join_path ?h (py_path ''notes.md''))) (allowed_read_roots ?e)
      = Inr (srv_path [''srv'', ''data'', ''workspace'', ''spaces'', ''x'', ''notes.md''])" by code_simp
  show ?thesis using relative_name_in_space [OF h c refl r(1) refl r(2), of no_dir] g by (simp add: no_dir_def)
qed

lemma home_prefix_not_doubled_witness:
  "fst (safe_write_path (srv_env None (Some ''data/workspace/spaces/x'')) ''spaces/x/a.py'' every_dir)
     = Inr (srv_path [''srv'', ''data'', ''workspace'', ''spaces'', ''x'', ''a.py''])"
proof -
  let ?e = "srv_env None (Some ''data/workspace/spaces/x'')"
  let ?h = "srv_path [''srv'', ''data'', ''workspace'', ''spaces'', ''x'']"
  have h: "active_home ?e = Some ?h" "p_root ?h = p_root (workspace ?e)"
    "p_parts ?h = p_parts (workspace ?e) @ [''spaces'', ''x'']" by code_simp+
  have s: "\<not> is_absolute (py_path ''spaces/x/a.py'')" "prefix [''spaces'', ''x''] (p_parts (py_path ''spaces/x/a.py''))"
    by code_simp+
  have c: "\<not> list_ex (is_relative_to (resolved ?e ''spaces/x/a.py'')) (allowed_read_roots ?e)"
    "is_relative_to (pe_resolve ?e (join_path (workspace ?e) (py_path ''spaces/x/a.py''))) (workspace ?e)" by code_simp+
  have g: "guarded (pe_resolve ?e (join_path (workspace ?e) (py_path ''spaces/x/a.py''))) (allowed_write_roots ?e)
      = Inr (srv_path [''srv'', ''data'', ''workspace'', ''spaces'', ''x'', ''a.py''])" by code_simp
  show ?thesis using home_prefix_not_doubled [OF h _ s c, of every_dir] g by simp
qed

lemma contexts_agree_witness:
  "roots_for_context (srv_env None (Some ''/sp'')) None (Some ''/sp'')
     = (srv_path [''srv'', ''data'', ''workspace''], srv_path [''sp''])"
proof -
  have e: "pe_override (srv_env None (Some ''/sp'')) = None" "pe_home (srv_env None (Some ''/sp'')) = Some ''/sp''"
    by (simp_all add: srv_env_def)
  have "workspace (srv_env None (Some ''/sp'')) = srv_path [''srv'', ''data'', ''workspace'']"
    "workspace_home (srv_env None (Some ''/sp'')) = srv_path [''sp'']" by code_simp+
  then show ?thesis using contexts_agree [of "srv_env None (Some ''/sp'')"] e by simp
qed

lemma read_and_write_disagree_witness:
  "fst (safe_read_path (srv_env None None) ''data/skills/x.md'' no_dir) = Inr (srv_path [''srv'', ''data'', ''skills'', ''x.md''])
   \<and> fst (safe_write_path (srv_env None None) ''data/skills/x.md'' no_dir)
     = Inr (srv_path [''srv'', ''data'', ''workspace'', ''data'', ''skills'', ''x.md''])"
proof -
  let ?e = "srv_env None None" and ?s = "''data/skills/x.md''"
  have n: "pe_home ?e = None" "pe_override ?e = None" by (simp_all add: srv_env_def)
  have c: "list_ex (is_relative_to (resolved ?e ?s)) (allowed_read_roots ?e)"
    "\<not> list_ex (is_relative_to (resolved ?e ?s)) (allowed_write_roots ?e)" by code_simp+
  let ?w = "pe_resolve ?e (join_path (workspace ?e) (py_path ?s))"
  have w: "is_relative_to ?w (workspace ?e)" by code_simp
  have g: "check_protected (resolved ?e ?s) (allowed_read_roots ?e) = None"
    "check_protected ?w (allowed_write_roots ?e) = None" by code_simp+
  have v: "resolved ?e ?s = srv_path [''srv'', ''data'', ''skills'', ''x.md'']"
    "?w = srv_path [''srv'', ''data'', ''workspace'', ''data'', ''skills'', ''x.md'']" by code_simp+
  show ?thesis using read_and_write_disagree [OF n c refl w g, of no_dir] v by simp
qed

end
