(* ===== verification/Tool_Base.thy ===== *)
theory Tool_Base
  imports Prelude
begin

text \<open>
  What the agent loop, the gate before the executor and the executor share: JSON values, the calls a
  model proposes and the definitions of the tools.  The codec of the \<open>json\<close> module, the hash of
  \<open>hashlib\<close>, \<open>str\<close> of a value and \<open>float\<close> of a text are the record \<open>json_lib\<close>.
\<close>

datatype json =
    JNull
  | JBool bool
  | JInt int
  | JFloat rat
  | JStr string
  | JArr "json list"
  | JObj "(string \<times> json) list"

text \<open>Python's truth value of what \<open>json.loads\<close> returns.\<close>

fun truthy :: "json \<Rightarrow> bool" where
  "truthy JNull = False"
| "truthy (JBool b) = b"
| "truthy (JInt i) = (i \<noteq> 0)"
| "truthy (JFloat r) = (r \<noteq> 0)"
| "truthy (JStr s) = (s \<noteq> [])"
| "truthy (JArr xs) = (xs \<noteq> [])"
| "truthy (JObj kvs) = (kvs \<noteq> [])"

record json_lib =
  jl_loads :: "string \<Rightarrow> json option"
  jl_dumps :: "json \<Rightarrow> string"
  jl_dumps_sorted :: "json \<Rightarrow> string"
  jl_sha :: "string \<Rightarrow> string"
  jl_str :: "json \<Rightarrow> string"
  jl_float :: "string \<Rightarrow> json option"

text \<open>
  The arguments of a proposed call: the text the provider sent, or a value it has parsed already.
\<close>

datatype call_args = Args_Text string | Args_Value json

record tool_call =
  tc_id :: string
  tc_name :: string
  tc_args :: call_args
  tc_rejected :: bool

definition hash_args :: "json_lib \<Rightarrow> call_args \<Rightarrow> string" where
  "hash_args jl a = take 12 (jl_sha jl (case a of
       Args_Text s \<Rightarrow> s
     | Args_Value (JObj kvs) \<Rightarrow> jl_dumps_sorted jl (JObj kvs)
     | Args_Value v \<Rightarrow> jl_str jl v))"

text \<open>The first of the three spellings of a file argument that is not empty.\<close>

definition file_argument :: "(string \<times> json) list \<Rightarrow> json option" where
  "file_argument kvs = find truthy (List.map_filter (map_of kvs) [''path'', ''file_path'', ''file''])"

section \<open>Tools\<close>

record param_spec =
  ps_type :: "string option"
  ps_enum :: "json list"
  ps_item_type :: "string option"

record schema =
  sc_properties :: "(string \<times> param_spec) list"
  sc_required :: "string list"
  sc_additional :: bool

record tool_def =
  td_schema :: "schema option"
  td_timeout :: nat
  td_max_timeout :: int
  td_parallel_safe :: bool
  td_denied_types :: "string set"
  td_safety :: string
  td_long_poll :: bool
  td_idempotent :: bool

record registry =
  rg_tools :: "string \<rightharpoonup> tool_def"
  rg_disabled :: "string set"

definition reg_exists :: "registry \<Rightarrow> string \<Rightarrow> bool" where
  "reg_exists reg n \<longleftrightarrow> rg_tools reg n \<noteq> None"

definition is_idempotent :: "registry \<Rightarrow> string \<Rightarrow> bool" where
  "is_idempotent reg n = (case rg_tools reg n of None \<Rightarrow> True | Some t \<Rightarrow> td_idempotent t)"

definition FILE_TOOLS :: "string list" where
  "FILE_TOOLS = [''file_edit'', ''file_write'', ''file_read'', ''file_append'']"

definition MUTATING_TOOLS :: "string list" where
  "MUTATING_TOOLS = [''file_write'', ''file_edit'', ''multiedit'', ''repl'', ''bash'']"

definition WEB_TOOLS :: "string list" where
  "WEB_TOOLS = [''browse_web'', ''http_get'', ''search_web'']"

definition TOOL_ALIASES :: "(string \<times> string) list" where
  "TOOL_ALIASES = [(''get_worker_output'', ''get_worker_result''), (''worker_get'', ''get_worker_result''),
     (''wait_for_workers'', ''await_workers'')]"

definition SEMANTIC_DEDUP_TOOLS :: "string list" where "SEMANTIC_DEDUP_TOOLS = [''call_model'']"
definition CROSS_ROUND_DEDUP_EXCLUDED :: "string list" where "CROSS_ROUND_DEDUP_EXCLUDED = [''file_read'', ''glob'']"
definition STATE_MUTATING_TOOLS :: "string list" where "STATE_MUTATING_TOOLS = [''file_write'', ''file_edit'', ''multiedit'']"

text \<open>The target of a file tool's call, as the failure counters key it.\<close>

definition call_file_target :: "json_lib \<Rightarrow> tool_call \<Rightarrow> (string \<times> string) option" where
  "call_file_target jl tc =
     (if tc_name tc \<notin> set FILE_TOOLS then None
      else case (case tc_args tc of Args_Text s \<Rightarrow> jl_loads jl (if s = [] then ''{}'' else s) | Args_Value v \<Rightarrow> Some v) of
          Some (JObj kvs) \<Rightarrow> map_option (\<lambda>v. (tc_name tc, jl_str jl v)) (file_argument kvs)
        | _ \<Rightarrow> None)"

text \<open>A codec that reads nothing and a registry without tools, for examples.\<close>

definition plain_lib :: json_lib where
  "plain_lib = \<lparr>jl_loads = (\<lambda>_. None), jl_dumps = (\<lambda>_. []), jl_dumps_sorted = (\<lambda>_. []), jl_sha = (\<lambda>s. s), jl_str = (\<lambda>_. []), jl_float = (\<lambda>_. None)\<rparr>"

definition no_tools :: registry where
  "no_tools = \<lparr>rg_tools = Map.empty, rg_disabled = {}\<rparr>"

definition plain_tool :: tool_def where
  "plain_tool = \<lparr>td_schema = None, td_timeout = 300, td_max_timeout = 0, td_parallel_safe = False, td_denied_types = {},
     td_safety = ''safe'', td_long_poll = False, td_idempotent = True\<rparr>"

end
