(* ===== verification/Stuck.thy ===== *)
theory Stuck
  imports Tool_Base "HOL-Library.Char_ord" "HOL-Library.List_Lexorder"
begin

text \<open>
  The stuck detector of \<open>core/agent.py\<close>: its thirteen signals, what it is told of results, and what
  the loop does with a score.

  Four of the patterns that read free text are the record \<open>text_tests\<close> (no useful result, number of
  falsified fits, the path named in a command, the host of an address).  A type error, where the
  code applies a string operation or a dictionary key to a value of another type, is the result
  \<^const>\<open>None\<close>: nothing between \<open>evaluate\<close> and the end of the turn catches it.
\<close>

section \<open>The detector\<close>

record text_tests =
  tt_low_info :: "string \<Rightarrow> bool"
  tt_falsified :: "string \<Rightarrow> nat"
  tt_path_token :: "string \<Rightarrow> string"
  tt_host :: "string \<Rightarrow> string"

record stuck =
  sk_content :: "string list"
  sk_calls :: "(string list \<times> nat) list"
  sk_epoch :: nat
  sk_bash :: "(string \<times> string) list"
  sk_web :: "(string \<times> string \<times> bool \<times> nat) list"
  sk_domains :: "(string \<times> nat) list"
  sk_repeat :: nat
  sk_flags :: "string set"
  sk_unresolved :: bool
  sk_unresolved_rounds :: nat
  sk_file_failures :: "((string \<times> string) \<times> nat) list"
  sk_tool_failures :: "(string \<times> nat) list"
  sk_reads :: "(json \<times> nat) list"
  sk_falsified :: nat
  sk_hints :: "string list"
  sk_recovery :: nat
  sk_cycles :: "((string list \<times> nat) \<times> nat) list"
  sk_identical :: nat
  sk_force_text :: bool
  sk_loop_break :: bool

definition new_stuck :: stuck where
  "new_stuck = \<lparr>sk_content = [], sk_calls = [], sk_epoch = 0, sk_bash = [], sk_web = [], sk_domains = [],
     sk_repeat = 0, sk_flags = {}, sk_unresolved = False, sk_unresolved_rounds = 0, sk_file_failures = [],
     sk_tool_failures = [], sk_reads = [], sk_falsified = 0, sk_hints = [], sk_recovery = 0, sk_cycles = [],
     sk_identical = 0, sk_force_text = False, sk_loop_break = False\<rparr>"

text \<open>A count in a dictionary, 0 when absent; one more; and a bounded deque.\<close>

definition count_of :: "'k \<Rightarrow> ('k \<times> nat) list \<Rightarrow> nat" where
  "count_of k d = (case map_of d k of None \<Rightarrow> 0 | Some n \<Rightarrow> n)"

definition bump :: "'k \<Rightarrow> ('k \<times> nat) list \<Rightarrow> ('k \<times> nat) list" where
  "bump k d = dict_set k (count_of k d + 1) d"

definition push_max :: "nat \<Rightarrow> 'a \<Rightarrow> 'a list \<Rightarrow> 'a list" where
  "push_max n x q = last_chars n (q @ [x])"

definition LOOP_BREAK_AT :: nat where "LOOP_BREAK_AT = 3"

section \<open>Reading calls\<close>

text \<open>A word character of a pattern, among the characters 0 to 255; the words of a text.\<close>

definition word_char :: "char \<Rightarrow> bool" where
  "word_char c = (let n = (of_char c :: nat) in
     48 \<le> n \<and> n \<le> 57 \<or> 65 \<le> n \<and> n \<le> 90 \<or> n = 95 \<or> 97 \<le> n \<and> n \<le> 122
     \<or> n \<in> {170, 178, 179, 181, 185, 186, 188, 189, 190} \<or> 192 \<le> n \<and> n \<noteq> 215 \<and> n \<noteq> 247)"

fun word_runs :: "string \<Rightarrow> string \<Rightarrow> string list" where
  "word_runs acc [] = (if acc = [] then [] else [rev acc])"
| "word_runs acc (c # s) = (if word_char c then word_runs (c # acc) s
     else if acc = [] then word_runs [] s else rev acc # word_runs [] s)"

definition names_word :: "string list \<Rightarrow> string \<Rightarrow> bool" where
  "names_word ws s \<longleftrightarrow> list_ex (\<lambda>w. w \<in> set ws) (word_runs [] s)"

definition STALLING :: "string list" where
  "STALLING = [''i'' @ [CHR 0x27] @ ''ll now'', ''let me try'', ''i need to'', ''i should'', ''i will'', ''let me '',
     ''i'' @ [CHR 0x27] @ ''m going to'', ''next i'']"

definition is_meta_commentary :: "string \<Rightarrow> bool" where
  "is_meta_commentary s = (let l = py_strip (py_lower s) in list_ex (\<lambda>p. starts_with p l) STALLING \<and> length l < 200)"

text \<open>\<open>json.loads(tc.get("arguments") or "{}")\<close>; a value that is not a text is a type error inside
  the \<open>try\<close>.\<close>

definition parsed_arguments :: "json_lib \<Rightarrow> tool_call \<Rightarrow> json option" where
  "parsed_arguments jl tc = (case tc_args tc of
       Args_Text s \<Rightarrow> jl_loads jl (if s = [] then ''{}'' else s)
     | Args_Value v \<Rightarrow> if truthy v then None else jl_loads jl ''{}'')"

text \<open>\<open>args.get("command") or ""\<close> where a text is needed: the inner \<^const>\<open>None\<close> is the type error.\<close>

definition command_text :: "(string \<times> json) list \<Rightarrow> string option" where
  "command_text kvs = (case map_of kvs ''command'' of None \<Rightarrow> Some []
     | Some v \<Rightarrow> if \<not> truthy v then Some [] else (case v of JStr s \<Rightarrow> Some s | _ \<Rightarrow> None))"

definition is_poll_call :: "json_lib \<Rightarrow> registry \<Rightarrow> tool_call \<Rightarrow> bool option" where
  "is_poll_call jl reg tc =
     (if tc_name tc = ''bash'' then
        (case parsed_arguments jl tc of
           None \<Rightarrow> Some False
         | Some (JObj kvs) \<Rightarrow> map_option (names_word [''sleep'', ''wait'', ''watch'', ''timeout'']) (command_text kvs)
         | Some _ \<Rightarrow> Some False)
      else Some (rg_tools reg (tc_name tc) \<noteq> None \<and> \<not> is_idempotent reg (tc_name tc)))"

text \<open>\<open>any\<close> stops at the first true call, so a later type error is not reached.\<close>

fun any_poll :: "json_lib \<Rightarrow> registry \<Rightarrow> tool_call list \<Rightarrow> bool option" where
  "any_poll jl reg [] = Some False"
| "any_poll jl reg (tc # tcs) = (case is_poll_call jl reg tc of
       None \<Rightarrow> None | Some True \<Rightarrow> Some True | Some False \<Rightarrow> any_poll jl reg tcs)"

definition signature :: "json_lib \<Rightarrow> tool_call list \<Rightarrow> string list" where
  "signature jl tcs = sort (map (\<lambda>tc. tc_name tc @ '':'' @ hash_args jl (tc_args tc)) tcs)"

section \<open>The signals\<close>

text \<open>Each signal adds to the score and updates the detector.\<close>

type_synonym scored = "rat \<times> stuck"

definition flag :: "string \<Rightarrow> rat \<Rightarrow> scored \<Rightarrow> scored" where
  "flag name add = (\<lambda>(score, k). (score + add, k\<lparr>sk_flags := insert name (sk_flags k)\<rparr>))"

definition content_repeat :: "string \<Rightarrow> scored \<Rightarrow> scored" where
  "content_repeat content = (\<lambda>(score, k).
     if content \<noteq> [] \<and> content \<in> set (sk_content k) then flag ''content_repeat'' (5 / 10) (score, k) else (score, k))"

definition tool_cycle :: "json_lib \<Rightarrow> registry \<Rightarrow> tool_call list \<Rightarrow> scored \<Rightarrow> scored option" where
  "tool_cycle jl reg tcs = (\<lambda>(score, k).
     if tcs = [] then Some (score, k)
     else
       let sig = signature jl tcs;
           seen = (sig, sk_epoch k) \<in> set (sk_calls k);
           (score1, k1) = (if seen then flag ''tool_cycle'' (4 / 10) (score, k) else (score, k));
           k2 = k1\<lparr>sk_calls := push_max 10 (sig, sk_epoch k1) (sk_calls k1), sk_identical := 0\<rparr>
       in map_option (\<lambda>poll. (score1,
            if poll then k2
            else let c = bump (sig, sk_epoch k2) (sk_cycles k2)
                 in k2\<lparr>sk_cycles := c, sk_identical := count_of (sig, sk_epoch k2) c\<rparr>)) (any_poll jl reg tcs))"

text \<open>\<open>any(args_hash in f for f in prev_fails)\<close> looks for the hash inside the recorded ones.\<close>

definition error_loop :: "json_lib \<Rightarrow> (string \<Rightarrow> string list) \<Rightarrow> tool_call list \<Rightarrow> scored \<Rightarrow> scored" where
  "error_loop jl failures tcs s0 = foldl (\<lambda>s tc.
     if list_ex (has_sub (hash_args jl (tc_args tc))) (failures (tc_name tc)) then flag ''error_loop'' (4 / 10) s else s) s0 tcs"

definition noop_loop :: "string \<Rightarrow> tool_call list \<Rightarrow> scored \<Rightarrow> scored" where
  "noop_loop content tcs s =
     (if tcs = [] \<and> content \<noteq> [] \<and> is_meta_commentary content then flag ''noop_loop'' (2 / 10) s else s)"

definition hallucinated_tool :: "registry \<Rightarrow> tool_call list \<Rightarrow> scored \<Rightarrow> scored" where
  "hallucinated_tool reg tcs s0 = foldl (\<lambda>s tc.
     if \<not> reg_exists reg (tc_name tc) then flag ''hallucinated_tool'' (3 / 10) s else s) s0 tcs"

definition failure_drift :: "tool_call list \<Rightarrow> scored \<Rightarrow> scored" where
  "failure_drift tcs = (\<lambda>(score, k).
     if sk_unresolved k \<and> tcs \<noteq> [] then
       let k1 = k\<lparr>sk_unresolved_rounds := sk_unresolved_rounds k + 1\<rparr>
       in if sk_unresolved_rounds k1 \<ge> 3 then flag ''failure_drift'' (3 / 10) (score, k1) else (score, k1)
     else (score, k))"

definition file_edit_loop :: "json_lib \<Rightarrow> tool_call list \<Rightarrow> scored \<Rightarrow> scored" where
  "file_edit_loop jl tcs = (\<lambda>(score, k).
     if list_ex (\<lambda>(key, n). n \<ge> 3 \<and> (tcs = [] \<or> key \<in> set (List.map_filter (call_file_target jl) tcs))) (sk_file_failures k)
     then flag ''file_edit_loop'' (4 / 10) (score, k) else (score, k))"

text \<open>Signal 12 counts the passes over a file; the path is a key of a dictionary, so a list or an
  object there is a type error.\<close>

definition hashable :: "json \<Rightarrow> bool" where
  "hashable v = (case v of JArr _ \<Rightarrow> False | JObj _ \<Rightarrow> False | _ \<Rightarrow> True)"

definition READ_WORDS :: "string list" where
  "READ_WORDS = [''cat'', ''sed'', ''grep'', ''head'', ''tail'', ''less'', ''awk'']"

definition read_path :: "json_lib \<Rightarrow> text_tests \<Rightarrow> tool_call \<Rightarrow> json option option" where
  "read_path jl tt tc =
     (if tc_name tc \<notin> {''file_read'', ''grep'', ''bash''} then Some None
      else case parsed_arguments jl tc of
        Some (JObj kvs) \<Rightarrow>
          if tc_name tc = ''bash'' then
            (case command_text kvs of None \<Rightarrow> None
             | Some cmd \<Rightarrow> if names_word READ_WORDS cmd \<and> tt_path_token tt cmd \<noteq> []
                 then Some (Some (JStr (tt_path_token tt cmd))) else Some None)
          else (case find truthy (List.map_filter (map_of kvs) [''path'', ''file'']) of
              None \<Rightarrow> Some None | Some v \<Rightarrow> if hashable v then Some (Some v) else None)
      | _ \<Rightarrow> Some None)"

definition count_read :: "bool \<Rightarrow> json \<Rightarrow> stuck \<Rightarrow> stuck" where
  "count_read rlm p k =
     (let k1 = k\<lparr>sk_reads := bump p (sk_reads k)\<rparr> in
      if count_of p (sk_reads k1) = 5 \<and> ''rlm_hint'' \<notin> sk_flags k1 \<and> rlm
      then k1\<lparr>sk_flags := insert ''rlm_hint'' (sk_flags k1), sk_hints := sk_hints k1 @ [''rlm'']\<rparr> else k1)"

fun big_file_grind :: "json_lib \<Rightarrow> text_tests \<Rightarrow> bool \<Rightarrow> tool_call list \<Rightarrow> stuck \<Rightarrow> stuck option" where
  "big_file_grind jl tt rlm [] k = Some k"
| "big_file_grind jl tt rlm (tc # tcs) k = (case read_path jl tt tc of None \<Rightarrow> None
     | Some None \<Rightarrow> big_file_grind jl tt rlm tcs k
     | Some (Some p) \<Rightarrow> big_file_grind jl tt rlm tcs (count_read rlm p k))"

definition hypothesis_grind :: "stuck \<Rightarrow> stuck" where
  "hypothesis_grind k =
     (if sk_falsified k \<ge> 8 \<and> ''hypothesis_grind_hint'' \<notin> sk_flags k
      then k\<lparr>sk_flags := insert ''hypothesis_grind_hint'' (sk_flags k), sk_hints := sk_hints k @ [''hypothesis'']\<rparr> else k)"

definition tool_failure_loop :: "tool_call list \<Rightarrow> scored \<Rightarrow> scored" where
  "tool_failure_loop tcs = (\<lambda>(score, k).
     if list_ex (\<lambda>(n, c). n \<notin> set FILE_TOOLS \<and> c \<ge> 3 \<and> (tcs = [] \<or> n \<in> set (map tc_name tcs))) (sk_tool_failures k)
     then flag ''tool_failure_loop'' (4 / 10) (score, k) else (score, k))"

definition empty_result_streak :: "scored \<Rightarrow> scored" where
  "empty_result_streak = (\<lambda>(score, k).
     if length (sk_web k) \<ge> 3 \<and> list_all (\<lambda>(_, _, low, _). low) (last_chars 3 (sk_web k))
     then flag ''empty_result_streak'' (3 / 10) (score, k) else (score, k))"

definition bot_wall_streak :: "scored \<Rightarrow> scored" where
  "bot_wall_streak = (\<lambda>(score, k).
     let pages = filter (\<lambda>(n, _). n \<in> {''browse_web'', ''http_get''}) (sk_web k) in
     if length pages \<ge> 3 \<and> list_all (\<lambda>(_, _, _, size'). size' < 800) (last_chars 3 pages)
     then flag ''bot_wall_streak'' (3 / 10) (score, k) else (score, k))"

definition same_domain_repetition :: "scored \<Rightarrow> scored" where
  "same_domain_repetition = (\<lambda>(score, k).
     if list_ex (\<lambda>(_, n). n > 5) (sk_domains k) then flag ''same_domain_repetition'' (2 / 10) (score, k) else (score, k))"

text \<open>The counter of repeats: up over the threshold, else down unless a failure is unresolved.\<close>

definition settle_score :: "string \<Rightarrow> scored \<Rightarrow> (rat \<times> nat) \<times> stuck" where
  "settle_score content = (\<lambda>(score, k).
     let k1 = (if content \<noteq> [] then k\<lparr>sk_content := push_max 5 content (sk_content k)\<rparr> else k);
         k2 = (if score > 3 / 10 then k1\<lparr>sk_repeat := sk_repeat k1 + 1\<rparr>
               else if \<not> sk_unresolved k1 then k1\<lparr>sk_repeat := sk_repeat k1 - 1\<rparr> else k1)
     in ((score, sk_repeat k2), k2))"

definition evaluate ::
    "json_lib \<Rightarrow> text_tests \<Rightarrow> bool \<Rightarrow> registry \<Rightarrow> (string \<Rightarrow> string list) \<Rightarrow> string \<Rightarrow> tool_call list \<Rightarrow> stuck
     \<Rightarrow> ((rat \<times> nat) \<times> stuck) option" where
  "evaluate jl tt rlm reg failures content tcs k =
     (case tool_cycle jl reg tcs (content_repeat content (0, k)) of None \<Rightarrow> None
      | Some s2 \<Rightarrow>
          let (score, k1) = file_edit_loop jl tcs (failure_drift tcs (hallucinated_tool reg tcs
                (noop_loop content tcs (error_loop jl failures tcs s2))))
          in map_option (\<lambda>k2. settle_score content (same_domain_repetition (bot_wall_streak (empty_result_streak
               (tool_failure_loop tcs (score, hypothesis_grind k2)))))) (big_file_grind jl tt rlm tcs k1))"

section \<open>Results\<close>

definition address_of :: "(string \<times> json) list \<Rightarrow> json" where
  "address_of kvs = (case find truthy (List.map_filter (map_of kvs) [''url'', ''href'']) of Some v \<Rightarrow> v | None \<Rightarrow> JStr [])"

definition observe_result ::
    "text_tests \<Rightarrow> string \<Rightarrow> (string \<times> json) list option \<Rightarrow> string \<Rightarrow> bool \<Rightarrow> stuck \<Rightarrow> stuck" where
  "observe_result tt tool kvs content was_error k0 =
     (let k = (if tool \<in> {''repl'', ''bash''} \<and> \<not> was_error then
                 k0\<lparr>sk_falsified := (if tt_falsified tt content \<ge> 2 then sk_falsified k0 + 1 else 0)\<rparr>
               else k0)
      in if tool \<notin> set WEB_TOOLS then k
         else
           let low = (was_error \<or> py_strip content = [] \<or> tt_low_info tt content);
               host = (case kvs of None \<Rightarrow> []
                  | Some o' \<Rightarrow> (case address_of o' of
                      JStr url \<Rightarrow> if has_sub ''://'' url then py_lower (tt_host tt url) else [] | _ \<Rightarrow> []))
           in k\<lparr>sk_domains := (if host = [] then sk_domains k else bump host (sk_domains k)),
                sk_web := push_max 12 (tool, host, low, length content) (sk_web k)\<rparr>)"

text \<open>The key of a file tool's counter, from arguments that are not empty.\<close>

definition failure_key :: "json_lib \<Rightarrow> string \<Rightarrow> (string \<times> json) list \<Rightarrow> (string \<times> string) option" where
  "failure_key jl tool kvs =
     (if tool \<in> set FILE_TOOLS \<and> kvs \<noteq> [] then map_option (\<lambda>v. (tool, jl_str jl v)) (file_argument kvs) else None)"

definition mark_failure :: "json_lib \<Rightarrow> string \<Rightarrow> (string \<times> json) list \<Rightarrow> stuck \<Rightarrow> stuck" where
  "mark_failure jl tool kvs k =
     k\<lparr>sk_unresolved := True, sk_unresolved_rounds := 0,
       sk_tool_failures := (if tool = [] then sk_tool_failures k else bump tool (sk_tool_failures k)),
       sk_file_failures := (case failure_key jl tool kvs of None \<Rightarrow> sk_file_failures k
                            | Some key \<Rightarrow> bump key (sk_file_failures k))\<rparr>"

definition mark_success :: "json_lib \<Rightarrow> string \<Rightarrow> (string \<times> json) list \<Rightarrow> string option \<Rightarrow> stuck \<Rightarrow> stuck" where
  "mark_success jl tool kvs content k =
     (let k1 = (case (tool = ''bash'', content) of
            (True, Some c) \<Rightarrow>
              let key = hash_args jl (Args_Value (JObj kvs)); digest = take 12 (jl_sha jl c) in
              k\<lparr>sk_epoch := (if map_of (sk_bash k) key \<noteq> Some digest then sk_epoch k + 1 else sk_epoch k),
                sk_bash := dict_set key digest (sk_bash k)\<rparr>
          | _ \<Rightarrow> if tool \<in> set MUTATING_TOOLS then k\<lparr>sk_epoch := sk_epoch k + 1\<rparr> else k)
      in k1\<lparr>sk_unresolved := False, sk_unresolved_rounds := 0,
            sk_tool_failures := (if tool = [] then sk_tool_failures k1 else dict_pop tool (sk_tool_failures k1)),
            sk_file_failures := (case failure_key jl tool kvs of None \<Rightarrow> sk_file_failures k1
                                 | Some key \<Rightarrow> dict_pop key (sk_file_failures k1))\<rparr>)"

section \<open>What the loop does with a score\<close>

definition failure_history :: "json_lib \<Rightarrow> stuck \<Rightarrow> tool_call \<Rightarrow> nat" where
  "failure_history jl k tc = (case call_file_target jl tc of
       Some t \<Rightarrow> count_of t (sk_file_failures k) | None \<Rightarrow> count_of (tc_name tc) (sk_tool_failures k))"

definition is_recovery_move :: "json_lib \<Rightarrow> rat \<Rightarrow> tool_call list \<Rightarrow> string list \<Rightarrow> stuck \<Rightarrow> bool" where
  "is_recovery_move jl score tcs active k \<longleftrightarrow>
     tcs \<noteq> [] \<and> \<not> score > 3 / 10 \<and> list_all (\<lambda>tc. tc_name tc \<in> set active) tcs
     \<and> (''ask_user'' \<in> set (map tc_name tcs) \<or> list_all (\<lambda>tc. failure_history jl k tc = 0) tcs)"

datatype stuck_action = Proceed | Nudge_And_Retry | Stop_Loop

datatype stuck_note = Tools_Off nat | Mild_Repetition | Ask_User_Nudge | Change_Approach_Nudge | Final_Notice nat

text \<open>The action, the nudges used, the detector, and the notice written to the transcript.\<close>

definition handle_stuck_signals ::
    "json_lib \<Rightarrow> rat \<Rightarrow> nat \<Rightarrow> tool_call list \<Rightarrow> string list \<Rightarrow> nat \<Rightarrow> nat \<Rightarrow> nat \<Rightarrow> stuck
     \<Rightarrow> (stuck_action \<times> nat) \<times> stuck \<times> stuck_note option" where
  "handle_stuck_signals jl score repeats tcs active used limit recovery_limit k =
     (if \<not> sk_loop_break k \<and> sk_identical k \<ge> LOOP_BREAK_AT \<and> ''ask_user'' \<in> set active then
        ((Nudge_And_Retry, used), k\<lparr>sk_loop_break := True, sk_force_text := True\<rparr>, Some (Tools_Off (sk_identical k)))
      else if repeats < 3 then
        ((Proceed, 0), k, if repeats \<ge> 1 \<and> score > 3 / 10 then Some Mild_Repetition else None)
      else if sk_recovery k < recovery_limit \<and> is_recovery_move jl score tcs active k then
        ((Proceed, used), k\<lparr>sk_recovery := sk_recovery k + 1\<rparr>, None)
      else if used < limit then
        ((Nudge_And_Retry, used + 1), k,
         Some (if ''ask_user'' \<in> set active then Ask_User_Nudge else Change_Approach_Nudge))
      else ((Stop_Loop, used), k, Some (Final_Notice used)))"

text \<open>One round of calls before the gate: the hints queued are written and cleared, then the action.\<close>

definition STUCK_ASK_USER_LIMIT :: nat where "STUCK_ASK_USER_LIMIT = 3"
definition RECOVERY_LIMIT :: nat where "RECOVERY_LIMIT = 2"

definition stuck_round ::
    "json_lib \<Rightarrow> text_tests \<Rightarrow> bool \<Rightarrow> registry \<Rightarrow> (string \<Rightarrow> string list) \<Rightarrow> string \<Rightarrow> tool_call list \<Rightarrow> string list
     \<Rightarrow> nat \<times> stuck \<Rightarrow> (stuck_action \<times> nat \<times> stuck) option" where
  "stuck_round jl tt rlm reg failures content tcs active = (\<lambda>(used, k).
     map_option (\<lambda>((score, repeats), k1).
       let ((action, used'), k2, _) = handle_stuck_signals jl score repeats tcs active used STUCK_ASK_USER_LIMIT
             RECOVERY_LIMIT (k1\<lparr>sk_hints := []\<rparr>)
       in (action, used', k2)) (evaluate jl tt rlm reg failures content tcs k))"

text \<open>A result of the round, as \<open>_record_round_results\<close> reports it to the detector; a command that
  ran and exited with an error is no failure of its tool.\<close>

record tool_outcome =
  to_tool :: string
  to_args :: "(string \<times> json) list"
  to_content :: string
  to_error :: bool
  to_command_failed :: bool

definition record_result :: "json_lib \<Rightarrow> text_tests \<Rightarrow> stuck \<Rightarrow> tool_outcome \<Rightarrow> stuck" where
  "record_result jl tt k r =
     observe_result tt (to_tool r) (Some (to_args r)) (to_content r) (to_error r)
       (if to_error r \<and> \<not> to_command_failed r then mark_failure jl (to_tool r) (to_args r) k
        else mark_success jl (to_tool r) (to_args r) (Some (to_content r)) k)"

end
