(* ===== verification/Stuck_Proofs.thy ===== *)
theory Stuck_Proofs
  imports Stuck
begin

text \<open>
  What holds of the stuck detector: rounds over the threshold are stopped, repetition is counted since
  the last change only, and the two ways in which it goes wrong: a call it cannot read ends the turn,
  and old web results keep scoring against rounds that have left the web.
\<close>

section \<open>The score\<close>

text \<open>What no signal touches, and that no signal lowers the score.\<close>

named_theorems signals
declare flag_def [signals] content_repeat_def [signals] error_loop_def [signals] noop_loop_def [signals]
  hallucinated_tool_def [signals] failure_drift_def [signals] file_edit_loop_def [signals]
  tool_failure_loop_def [signals] empty_result_streak_def [signals] bot_wall_streak_def [signals]
  same_domain_repetition_def [signals]

text \<open>The parts of the detector that the signals before the last leave alone.\<close>

definition kept :: "stuck \<Rightarrow> stuck \<Rightarrow> bool" where
  "kept k k' \<longleftrightarrow> sk_repeat k' = sk_repeat k \<and> sk_web k' = sk_web k \<and> sk_domains k' = sk_domains k
     \<and> sk_loop_break k' = sk_loop_break k \<and> sk_recovery k' = sk_recovery k \<and> sk_epoch k' = sk_epoch k
     \<and> sk_unresolved k' = sk_unresolved k"

definition grows :: "scored \<Rightarrow> scored \<Rightarrow> bool" where
  "grows s s' \<longleftrightarrow> fst s \<le> fst s' \<and> kept (snd s) (snd s')"

lemma grows_refl [simp]: "grows s s"
  by (simp add: grows_def kept_def)

lemma grows_trans: "grows s t \<Longrightarrow> grows t u \<Longrightarrow> grows s u"
  by (auto simp: grows_def kept_def)

lemma kept_trans: "kept k k' \<Longrightarrow> kept k' k'' \<Longrightarrow> kept k k''"
  by (auto simp: kept_def)

lemma grows_flag: "0 \<le> r \<Longrightarrow> grows s (flag n r s)"
  by (auto simp: grows_def kept_def flag_def split: prod.splits)

lemma grows_foldl: "(\<And>s x. grows s (f s x)) \<Longrightarrow> grows s (foldl f s xs)"
proof (induction xs arbitrary: s)
  case (Cons x xs)
  then show ?case using grows_trans [of s "f s x"] by simp
qed simp

lemma grows_signals:
  "grows s (content_repeat content s)" "grows s (error_loop jl fs tcs s)" "grows s (noop_loop content tcs s)"
  "grows s (hallucinated_tool reg tcs s)" "grows s (failure_drift tcs s)" "grows s (file_edit_loop jl tcs s)"
  "grows s (tool_failure_loop tcs s)" "grows s (empty_result_streak s)" "grows s (bot_wall_streak s)"
  "grows s (same_domain_repetition s)"
proof -
  show "grows s (error_loop jl fs tcs s)" "grows s (hallucinated_tool reg tcs s)"
    unfolding error_loop_def hallucinated_tool_def by (auto intro!: grows_foldl grows_flag)
  have "grows (score, k) (flag n r (score, k\<lparr>sk_unresolved_rounds := m\<rparr>))" if "0 \<le> r" for score k n r m
    using that by (simp add: grows_def kept_def flag_def)
  then show "grows s (failure_drift tcs s)"
    by (cases s) (auto simp: failure_drift_def Let_def grows_def kept_def flag_def)
qed (auto simp: content_repeat_def noop_loop_def file_edit_loop_def tool_failure_loop_def empty_result_streak_def
      bot_wall_streak_def same_domain_repetition_def Let_def split: prod.splits intro!: grows_flag)

lemma tool_cycle_grows: "tool_cycle jl reg tcs s = Some s' \<Longrightarrow> grows s s'"
  by (cases s) (auto simp: tool_cycle_def Let_def grows_def kept_def flag_def split: if_splits)

lemma big_file_grind_kept: "big_file_grind jl tt rlm tcs k = Some k' \<Longrightarrow> kept k k'"
proof (induction jl tt rlm tcs k rule: big_file_grind.induct)
  case (2 jl tt rlm tc tcs k)
  have "kept k (count_read rlm p k)" for p by (simp add: count_read_def kept_def Let_def)
  then show ?case using 2 by (auto split: option.splits intro: kept_trans)
qed (simp add: kept_def)

lemma hypothesis_grind_kept: "kept k (hypothesis_grind k)"
  by (simp add: hypothesis_grind_def kept_def)

text \<open>The score that reaches the counter, with the detector as it was apart from the bookkeeping.\<close>

lemma evaluate_settles:
  assumes "evaluate jl tt rlm reg fs content tcs k = Some r"
  shows "\<exists>score k2. r = settle_score content (same_domain_repetition (bot_wall_streak (empty_result_streak (score, k2))))
    \<and> 0 \<le> score \<and> kept k k2"
proof -
  obtain s2 where s2: "tool_cycle jl reg tcs (content_repeat content (0, k)) = Some s2"
    using assms by (auto simp: evaluate_def split: option.splits)
  have g2: "grows (0, k) s2" using tool_cycle_grows [OF s2] grows_signals(1) grows_trans by blast
  obtain score k1 where m: "file_edit_loop jl tcs (failure_drift tcs (hallucinated_tool reg tcs
      (noop_loop content tcs (error_loop jl fs tcs s2)))) = (score, k1)" by (metis surj_pair)
  have g1: "grows (0, k) (score, k1)"
    unfolding m [symmetric] using g2 grows_signals by (meson grows_trans)
  obtain k2 where b: "big_file_grind jl tt rlm tcs k1 = Some k2"
      and r: "r = settle_score content (same_domain_repetition (bot_wall_streak (empty_result_streak
        (tool_failure_loop tcs (score, hypothesis_grind k2)))))"
    using assms by (auto simp: evaluate_def s2 m)
  obtain score' k3 where t: "tool_failure_loop tcs (score, hypothesis_grind k2) = (score', k3)" by (metis surj_pair)
  have "grows (score, hypothesis_grind k2) (score', k3)" unfolding t [symmetric] by (rule grows_signals(7))
  moreover have "kept k k1" "0 \<le> score" using g1 by (auto simp: grows_def)
  moreover have "kept k1 (hypothesis_grind k2)" using big_file_grind_kept [OF b] hypothesis_grind_kept kept_trans by blast
  ultimately have "kept k k3" "0 \<le> score'" by (auto simp: grows_def intro: kept_trans)
  then show ?thesis using r t by auto
qed

section \<open>Rounds over the threshold are stopped\<close>

text \<open>
  A round as it reaches the detector, with the results that come back when it runs.  Rounds follow
  each other until one stops the loop; the score and the action of each are kept.
\<close>

record turn_round =
  tr_failures :: "string \<Rightarrow> string list"
  tr_content :: string
  tr_calls :: "tool_call list"
  tr_active :: "string list"
  tr_results :: "tool_outcome list"

fun play ::
    "json_lib \<Rightarrow> text_tests \<Rightarrow> bool \<Rightarrow> registry \<Rightarrow> turn_round list \<Rightarrow> nat \<times> stuck \<Rightarrow> (rat \<times> stuck_action) list option" where
  "play jl tt rlm reg [] s = Some []"
| "play jl tt rlm reg (r # rs) (used, k) =
     (case evaluate jl tt rlm reg (tr_failures r) (tr_content r) (tr_calls r) k of None \<Rightarrow> None
      | Some ((score, repeats), k1) \<Rightarrow>
         (case handle_stuck_signals jl score repeats (tr_calls r) (tr_active r) used STUCK_ASK_USER_LIMIT RECOVERY_LIMIT
                 (k1\<lparr>sk_hints := []\<rparr>) of
            ((Stop_Loop, _), _, _) \<Rightarrow> Some [(score, Stop_Loop)]
          | ((Proceed, used'), k2, _) \<Rightarrow> map_option (Cons (score, Proceed))
              (play jl tt rlm reg rs (used', foldl (record_result jl tt) k2 (tr_results r)))
          | ((Nudge_And_Retry, used'), k2, _) \<Rightarrow> map_option (Cons (score, Nudge_And_Retry))
              (play jl tt rlm reg rs (used', k2))))"

text \<open>How many rounds over the threshold can still go by.\<close>

definition patience :: "nat \<times> stuck \<Rightarrow> nat" where
  "patience = (\<lambda>(used, k). (if sk_repeat k \<ge> 2 then STUCK_ASK_USER_LIMIT - used else (2 - sk_repeat k) + STUCK_ASK_USER_LIMIT)
     + (if sk_loop_break k then 0 else 1))"

lemma record_result_keeps:
  "sk_repeat (record_result jl tt k r) = sk_repeat k" "sk_loop_break (record_result jl tt k r) = sk_loop_break k"
  "sk_calls (record_result jl tt k r) = sk_calls k" "sk_cycles (record_result jl tt k r) = sk_cycles k"
  by (simp_all add: record_result_def observe_result_def mark_failure_def mark_success_def Let_def
      split: bool.splits option.splits)

lemma record_results_keep:
  "sk_repeat (foldl (record_result jl tt) k rs) = sk_repeat k"
  "sk_loop_break (foldl (record_result jl tt) k rs) = sk_loop_break k"
  by (induction rs arbitrary: k) (simp_all add: record_result_keeps)

lemma settle_high:
  "settle_score content (score, k) = ((sc, repeats), k') \<Longrightarrow> sc > 3 / 10 \<Longrightarrow>
     repeats = sk_repeat k + 1 \<and> sk_repeat k' = sk_repeat k + 1 \<and> sk_loop_break k' = sk_loop_break k"
  by (auto simp: settle_score_def Let_def split: if_splits)

lemma evaluate_high:
  assumes "evaluate jl tt rlm reg fs content tcs k = Some ((score, repeats), k')" "score > 3 / 10"
  shows "repeats = sk_repeat k + 1" "sk_repeat k' = sk_repeat k + 1" "sk_loop_break k' = sk_loop_break k"
proof -
  obtain sc k1 k2 where s: "((score, repeats), k') = settle_score content
      (same_domain_repetition (bot_wall_streak (empty_result_streak (sc, k2))))" and k: "kept k k2"
    using evaluate_settles [OF assms(1)] by blast
  obtain sc3 k3 where m: "same_domain_repetition (bot_wall_streak (empty_result_streak (sc, k2))) = (sc3, k3)"
    by (metis surj_pair)
  have "grows (sc, k2) (sc3, k3)" unfolding m [symmetric] using grows_signals by (meson grows_trans)
  then have "kept k k3" using k by (auto simp: grows_def intro: kept_trans)
  then show "repeats = sk_repeat k + 1" "sk_repeat k' = sk_repeat k + 1" "sk_loop_break k' = sk_loop_break k"
    using settle_high [of content sc3 k3 score repeats k'] s m assms(2) by (auto simp: kept_def)
qed

lemma play_stops:
  assumes "play jl tt rlm reg rs (used, k) = Some out" "\<forall>(score, a) \<in> set out. score > 3 / 10"
    and "length rs > patience (used, k)"
  shows "out \<noteq> [] \<and> snd (last out) = Stop_Loop \<and> length out \<le> Suc (patience (used, k))"
  using assms
proof (induction rs arbitrary: used k out)
  case (Cons r rs)
  obtain score repeats k1 where e: "evaluate jl tt rlm reg (tr_failures r) (tr_content r) (tr_calls r) k = Some ((score, repeats), k1)"
    using Cons.prems(1) by (auto split: option.splits)
  obtain act used' k2 n where h: "handle_stuck_signals jl score repeats (tr_calls r) (tr_active r) used
      STUCK_ASK_USER_LIMIT RECOVERY_LIMIT (k1\<lparr>sk_hints := []\<rparr>) = ((act, used'), k2, n)" by (metis surj_pair)
  show ?case
  proof (cases "act = Stop_Loop")
    case True
    then show ?thesis using Cons.prems(1) by (auto simp: e h)
  next
    case False
    define k3 where "k3 = (if act = Proceed then foldl (record_result jl tt) k2 (tr_results r) else k2)"
    obtain out' where o: "play jl tt rlm reg rs (used', k3) = Some out'" "out = (score, act) # out'"
      using Cons.prems(1) False by (cases act) (auto simp: e h k3_def)
    have high: "score > 3 / 10" using Cons.prems(2) o by simp
    note ev = evaluate_high [OF e high]
    have "patience (used', k2) < patience (used, k)"
      using h False ev high
      by (auto simp: handle_stuck_signals_def patience_def is_recovery_move_def STUCK_ASK_USER_LIMIT_def split: if_splits)
    moreover have "patience (used', k3) = patience (used', k2)"
      by (simp add: k3_def patience_def record_results_keep)
    ultimately have p: "patience (used', k3) < patience (used, k)" by simp
    have "out' \<noteq> [] \<and> snd (last out') = Stop_Loop \<and> length out' \<le> Suc (patience (used', k3))"
      using Cons.IH [OF o(1)] Cons.prems(2,3) o(2) p by simp
    then show ?thesis using o(2) p by auto
  qed
qed simp

text \<open>A loop does not go on for ever. Of any seven rounds in a row whose score is over the
  threshold, whatever came before, whatever the rounds contain and whatever their results are, one
  stops the tool loop, and it is the last that is run.\<close>

theorem stuck_rounds_stop:
  assumes "play jl tt rlm reg rs (used, k) = Some out" "\<forall>(score, a) \<in> set out. score > 3 / 10" "length rs \<ge> 7"
  shows "out \<noteq> [] \<and> snd (last out) = Stop_Loop \<and> length out \<le> 7"
proof -
  have "patience (used, k) \<le> 6" by (auto simp: patience_def STUCK_ASK_USER_LIMIT_def)
  then show ?thesis using play_stops [OF assms(1,2)] assms(3) by fastforce
qed

text \<open>Two tools that do not exist, called seven times.\<close>

definition plain_tests :: text_tests where
  "plain_tests = \<lparr>tt_low_info = (\<lambda>_. False), tt_falsified = (\<lambda>_. 0), tt_path_token = (\<lambda>_. []), tt_host = (\<lambda>_. [])\<rparr>"

definition ghost_round :: turn_round where
  "ghost_round = \<lparr>tr_failures = (\<lambda>_. []), tr_content = [], tr_calls =
     [\<lparr>tc_id = ''1'', tc_name = ''a'', tc_args = Args_Text ''{}'', tc_rejected = False\<rparr>,
      \<lparr>tc_id = ''2'', tc_name = ''b'', tc_args = Args_Text ''{}'', tc_rejected = False\<rparr>],
     tr_active = [''bash''], tr_results = []\<rparr>"

lemma stuck_rounds_stop_witness:
  "\<exists>out. play plain_lib plain_tests False no_tools (replicate 7 ghost_round) (0, new_stuck) = Some out
     \<and> snd (last out) = Stop_Loop \<and> length out \<le> 7"
proof -
  let ?o = "[(6 / 10, Proceed), (1, Proceed), (1, Nudge_And_Retry), (1, Nudge_And_Retry), (1, Nudge_And_Retry), (1, Stop_Loop)]"
  have p: "play plain_lib plain_tests False no_tools (replicate 7 ghost_round) (0, new_stuck) = Some ?o"
    by code_simp
  have "snd (last ?o) = Stop_Loop \<and> length ?o \<le> 7"
    using stuck_rounds_stop [OF p] by simp
  then show ?thesis using p by blast
qed

section \<open>Repetition since the last change\<close>

text \<open>What the detector is shown in a turn, with the log of the call sets it judged.\<close>

datatype event = Judge "string \<Rightarrow> string list" string "tool_call list" | Seen tool_outcome

fun watch ::
    "json_lib \<Rightarrow> text_tests \<Rightarrow> bool \<Rightarrow> registry \<Rightarrow> stuck \<times> (string list \<times> nat) list \<Rightarrow> event \<Rightarrow> stuck \<times> (string list \<times> nat) list" where
  "watch jl tt rlm reg (k, done') (Judge fs content tcs) =
     (case evaluate jl tt rlm reg fs content tcs k of None \<Rightarrow> (k, done')
      | Some (_, k') \<Rightarrow> (k', if tcs = [] \<or> any_poll jl reg tcs = Some True then done' else done' @ [(signature jl tcs, sk_epoch k)]))"
| "watch jl tt rlm reg (k, done') (Seen r) = (record_result jl tt k r, done')"

definition counted :: "stuck \<times> (string list \<times> nat) list \<Rightarrow> bool" where
  "counted = (\<lambda>(k, done'). (\<forall>x. count_of x (sk_cycles k) = count_list done' x)
     \<and> (\<forall>sig e. (sig, e) \<in> set (sk_calls k) \<union> set done' \<longrightarrow> e \<le> sk_epoch k))"

lemma count_bump: "count_of x (bump k d) = count_of x d + (if x = k then 1 else 0)"
  by (simp add: bump_def count_of_def)

lemma set_push_max: "set (push_max n x q) \<subseteq> insert x (set q)"
  using set_drop_subset [of _ "q @ [x]"] by (fastforce simp: push_max_def last_chars_def)

text \<open>Everything after signal 2 leaves the history of calls alone.\<close>

definition same_calls :: "stuck \<Rightarrow> stuck \<Rightarrow> bool" where
  "same_calls k k' \<longleftrightarrow> sk_calls k' = sk_calls k \<and> sk_cycles k' = sk_cycles k \<and> sk_identical k' = sk_identical k
     \<and> sk_epoch k' = sk_epoch k"

lemma same_calls_refl [simp]: "same_calls k k" by (simp add: same_calls_def)

lemma same_calls_trans: "same_calls k k' \<Longrightarrow> same_calls k' k'' \<Longrightarrow> same_calls k k''"
  by (simp add: same_calls_def)

lemma same_calls_flag: "same_calls (snd s) (snd (flag n r s))"
  by (simp add: same_calls_def flag_def split: prod.splits)

lemma same_calls_foldl: "(\<And>s x. same_calls (snd s) (snd (f s x))) \<Longrightarrow> same_calls (snd s) (snd (foldl f s xs))"
proof (induction xs arbitrary: s)
  case (Cons x xs)
  then show ?case using same_calls_trans [of "snd s" "snd (f s x)"] by simp
qed simp

lemma same_calls_signals:
  "same_calls (snd s) (snd (content_repeat content s))" "same_calls (snd s) (snd (error_loop jl fs tcs s))"
  "same_calls (snd s) (snd (noop_loop content tcs s))" "same_calls (snd s) (snd (hallucinated_tool reg tcs s))"
  "same_calls (snd s) (snd (failure_drift tcs s))" "same_calls (snd s) (snd (file_edit_loop jl tcs s))"
  "same_calls (snd s) (snd (tool_failure_loop tcs s))" "same_calls (snd s) (snd (empty_result_streak s))"
  "same_calls (snd s) (snd (bot_wall_streak s))" "same_calls (snd s) (snd (same_domain_repetition s))"
proof -
  show "same_calls (snd s) (snd (error_loop jl fs tcs s))" "same_calls (snd s) (snd (hallucinated_tool reg tcs s))"
    unfolding error_loop_def hallucinated_tool_def by (rule same_calls_foldl, simp add: same_calls_flag)+
  show "same_calls (snd s) (snd (failure_drift tcs s))"
    by (cases s) (auto simp: failure_drift_def Let_def same_calls_def flag_def)
qed (cases s; simp add: signals Let_def same_calls_def)+

lemma big_file_grind_calls: "big_file_grind jl tt rlm tcs k = Some k' \<Longrightarrow> same_calls k k'"
proof (induction jl tt rlm tcs k rule: big_file_grind.induct)
  case (2 jl tt rlm tc tcs k)
  have "same_calls k (count_read rlm p k)" for p by (simp add: count_read_def same_calls_def Let_def)
  then show ?case using 2 by (auto split: option.splits intro: same_calls_trans)
qed simp

lemma settle_calls: "same_calls (snd s) (snd (settle_score content s))"
  by (cases s) (simp add: settle_score_def same_calls_def Let_def)

lemma evaluate_calls:
  assumes "evaluate jl tt rlm reg fs content tcs k = Some (r, k')"
  obtains s2 where "tool_cycle jl reg tcs (content_repeat content (0, k)) = Some s2" "same_calls (snd s2) k'"
proof -
  obtain s2 where s2: "tool_cycle jl reg tcs (content_repeat content (0, k)) = Some s2"
    using assms by (auto simp: evaluate_def split: option.splits)
  obtain score k1 where m: "file_edit_loop jl tcs (failure_drift tcs (hallucinated_tool reg tcs
      (noop_loop content tcs (error_loop jl fs tcs s2)))) = (score, k1)" by (metis surj_pair)
  have 1: "same_calls (snd s2) k1"
    using same_calls_signals same_calls_trans m by (metis (no_types, lifting) snd_conv)
  obtain k2 where b: "big_file_grind jl tt rlm tcs k1 = Some k2"
      and r: "(r, k') = settle_score content (same_domain_repetition (bot_wall_streak (empty_result_streak
        (tool_failure_loop tcs (score, hypothesis_grind k2)))))"
    using assms by (auto simp: evaluate_def s2 m)
  have h: "same_calls k2 (hypothesis_grind k2)" by (simp add: hypothesis_grind_def same_calls_def)
  have "same_calls (hypothesis_grind k2) k'"
    using settle_calls same_calls_signals(7-10) same_calls_trans r by (metis (no_types, lifting) snd_conv)
  then have "same_calls (snd s2) k'"
    using 1 big_file_grind_calls [OF b] h same_calls_trans by blast
  then show thesis using that s2 by blast
qed

lemma tool_cycle_effect:
  assumes "tool_cycle jl reg tcs (score, k) = Some (score', k')"
  shows "sk_epoch k' = sk_epoch k"
    and "set (sk_calls k') \<subseteq> set (sk_calls k) \<union> (if tcs = [] then {} else {(signature jl tcs, sk_epoch k)})"
    and "sk_cycles k' = (if tcs = [] \<or> any_poll jl reg tcs = Some True then sk_cycles k
       else bump (signature jl tcs, sk_epoch k) (sk_cycles k))"
    and "tcs \<noteq> [] \<Longrightarrow> sk_identical k' = (if any_poll jl reg tcs = Some True then 0
       else count_of (signature jl tcs, sk_epoch k) (sk_cycles k'))"
    and "score' = score + (if tcs \<noteq> [] \<and> (signature jl tcs, sk_epoch k) \<in> set (sk_calls k) then 4 / 10 else 0)"
proof -
  let ?x = "(signature jl tcs, sk_epoch k)"
  have "sk_epoch k' = sk_epoch k
    \<and> sk_calls k' = (if tcs = [] then sk_calls k else push_max 10 ?x (sk_calls k))
    \<and> sk_cycles k' = (if tcs = [] \<or> any_poll jl reg tcs = Some True then sk_cycles k else bump ?x (sk_cycles k))
    \<and> (tcs \<noteq> [] \<longrightarrow> sk_identical k' = (if any_poll jl reg tcs = Some True then 0 else count_of ?x (sk_cycles k')))
    \<and> score' = score + (if tcs \<noteq> [] \<and> ?x \<in> set (sk_calls k) then 4 / 10 else 0)"
  proof (cases "tcs = []")
    case False
    then obtain poll where p: "any_poll jl reg tcs = Some poll"
      using assms by (cases "any_poll jl reg tcs") (simp_all add: tool_cycle_def Let_def split: prod.splits)
    show ?thesis using assms False
      by (cases poll; cases "?x \<in> set (sk_calls k)") (simp_all add: tool_cycle_def Let_def flag_def p, auto)
  qed (use assms in \<open>simp add: tool_cycle_def\<close>)
  then show "sk_epoch k' = sk_epoch k"
    "set (sk_calls k') \<subseteq> set (sk_calls k) \<union> (if tcs = [] then {} else {?x})"
    "sk_cycles k' = (if tcs = [] \<or> any_poll jl reg tcs = Some True then sk_cycles k else bump ?x (sk_cycles k))"
    "tcs \<noteq> [] \<Longrightarrow> sk_identical k' = (if any_poll jl reg tcs = Some True then 0 else count_of ?x (sk_cycles k'))"
    "score' = score + (if tcs \<noteq> [] \<and> ?x \<in> set (sk_calls k) then 4 / 10 else 0)"
    using set_push_max [of 10 ?x "sk_calls k"] by simp_all
qed

lemma record_result_epoch: "sk_epoch k \<le> sk_epoch (record_result jl tt k r)"
  by (simp add: record_result_def observe_result_def mark_failure_def mark_success_def Let_def
      split: bool.splits option.splits)

lemma content_repeat_calls:
  "sk_calls (snd (content_repeat content (0, k))) = sk_calls k" "sk_cycles (snd (content_repeat content (0, k))) = sk_cycles k"
  "sk_epoch (snd (content_repeat content (0, k))) = sk_epoch k"
  using same_calls_signals(1) [of "(0, k)" content] by (simp_all add: same_calls_def)

lemma watch_counted: "counted s \<Longrightarrow> counted (watch jl tt rlm reg s ev)"
proof (induction jl tt rlm reg s ev rule: watch.induct)
  case (1 jl tt rlm reg k d fs content tcs)
  show ?case
  proof (cases "evaluate jl tt rlm reg fs content tcs k")
    case (Some r)
    obtain x k' where r: "r = (x, k')" by (cases r)
    obtain s2 where c: "tool_cycle jl reg tcs (content_repeat content (0, k)) = Some s2" and sc: "same_calls (snd s2) k'"
      using evaluate_calls Some r by blast
    obtain sc0 k0 where k0: "content_repeat content (0, k) = (sc0, k0)" by (metis surj_pair)
    have eq: "sk_calls k0 = sk_calls k" "sk_cycles k0 = sk_cycles k" "sk_epoch k0 = sk_epoch k"
      using content_repeat_calls [of content k] k0 by simp_all
    note t = tool_cycle_effect [of jl reg tcs sc0 k0 "fst s2" "snd s2"]
    have "tool_cycle jl reg tcs (sc0, k0) = Some (fst s2, snd s2)" using c k0 by simp
    note t = t [OF this]
    have "\<forall>x. count_of x (sk_cycles k) = count_list d x" "\<forall>sig e. (sig, e) \<in> set (sk_calls k) \<union> set d \<longrightarrow> e \<le> sk_epoch k"
      using "1.prems" by (auto simp: counted_def)
    then show ?thesis
      using t(1-3) sc unfolding counted_def same_calls_def eq
      by (auto simp: Some r count_bump split: if_splits)
  qed (use "1.prems" in simp)
next
  case (2 jl tt rlm reg k d r)
  then show ?case using record_result_epoch [of k jl tt r]
    by (simp add: counted_def record_result_keeps) (meson le_trans)
qed

interpretation watch_machine: invariant_machine "watch jl tt rlm reg" counted for jl tt rlm reg
  by unfold_locales (rule watch_counted)

lemma counted_new: "counted (new_stuck, [])"
  by (simp add: counted_def new_stuck_def count_of_def)

lemma repetition_counted:
  assumes "(k, judged) = foldl (watch jl tt rlm reg) (new_stuck, []) es"
  shows "count_of (sig, e) (sk_cycles k) = count_list judged (sig, e)"
    and "tool \<in> {''file_write'', ''file_edit'', ''multiedit'', ''repl''} \<Longrightarrow>
       tool_cycle jl reg tcs (score, mark_success jl tool kvs content k) = Some (score', k') \<Longrightarrow>
       score' = score \<and> (tcs \<noteq> [] \<longrightarrow> sk_identical k' \<le> 1)"
proof -
  have inv: "counted (k, judged)" unfolding assms by (rule watch_machine.run_inv [OF counted_new])
  then show "count_of (sig, e) (sk_cycles k) = count_list judged (sig, e)" by (simp add: counted_def)
  let ?m = "mark_success jl tool kvs content k"
  assume tool: "tool \<in> {''file_write'', ''file_edit'', ''multiedit'', ''repl''}"
    and t: "tool_cycle jl reg tcs (score, ?m) = Some (score', k')"
  have m: "sk_epoch ?m = Suc (sk_epoch k)" "sk_calls ?m = sk_calls k" "sk_cycles ?m = sk_cycles k"
    using tool by (auto simp: mark_success_def MUTATING_TOOLS_def Let_def)
  have fresh: "(sig, Suc (sk_epoch k)) \<notin> set (sk_calls k)" "(sig, Suc (sk_epoch k)) \<notin> set judged" for sig
    using inv by (fastforce simp: counted_def)+
  have z: "count_of (sig, Suc (sk_epoch k)) (sk_cycles k) = 0" for sig
    using inv fresh(2) by (simp add: counted_def count_list_0_iff)
  note e = tool_cycle_effect [OF t, unfolded m]
  show "score' = score \<and> (tcs \<noteq> [] \<longrightarrow> sk_identical k' \<le> 1)"
    using e(3-5) fresh(1) z by (auto simp: count_bump)
qed

text \<open>Repetition is counted exactly. After any sequence of rounds and results in a turn, the
  counter of a set of calls in an epoch is the number of rounds that sent this set in this epoch,
  polls apart; and an edit, a write or a kernel run that succeeds opens an epoch in which no set of
  calls has been sent: the next round is no cycle and counts as the first, whatever it repeats.\<close>

theorem repetition_counted_since_change:
  assumes "(k, judged) = foldl (watch jl tt rlm reg) (new_stuck, []) es"
  shows "count_of (sig, e) (sk_cycles k) = count_list judged (sig, e)
    \<and> (\<forall>tool kvs content tcs score score' k'. tool \<in> {''file_write'', ''file_edit'', ''multiedit'', ''repl''}
         \<and> tool_cycle jl reg tcs (score, mark_success jl tool kvs content k) = Some (score', k')
         \<longrightarrow> score' = score \<and> (tcs \<noteq> [] \<longrightarrow> sk_identical k' \<le> 1))"
  using repetition_counted [OF assms] by blast

lemma repetition_counted_since_change_witness:
  "count_of (signature plain_lib (tr_calls ghost_round), 0)
     (sk_cycles (fst (watch plain_lib plain_tests False no_tools (new_stuck, []) (Judge (\<lambda>_. []) [] (tr_calls ghost_round))))) = 1
   \<and> (\<exists>k'. tool_cycle plain_lib no_tools [] (0, mark_success plain_lib ''repl'' [] None new_stuck) = Some (0, k'))"
proof -
  let ?e = "Judge (\<lambda>_. []) [] (tr_calls ghost_round)"
  obtain k judged where w: "watch plain_lib plain_tests False no_tools (new_stuck, []) ?e = (k, judged)" by (metis surj_pair)
  have a: "(k, judged) = foldl (watch plain_lib plain_tests False no_tools) (new_stuck, []) [?e]" using w by simp
  have j: "snd (watch plain_lib plain_tests False no_tools (new_stuck, []) ?e) = [(signature plain_lib (tr_calls ghost_round), 0)]"
    by code_simp
  have b: "(new_stuck, []) = foldl (watch plain_lib plain_tests False no_tools) (new_stuck, []) []" by simp
  obtain score' k' where c: "tool_cycle plain_lib no_tools [] (0, mark_success plain_lib ''repl'' [] None new_stuck) = Some (score', k')"
    by (simp add: tool_cycle_def)
  then have "score' = 0"
    using repetition_counted_since_change [OF b] by blast
  then show ?thesis
    using repetition_counted_since_change [OF a, of "signature plain_lib (tr_calls ghost_round)" 0] w j c by simp
qed

text \<open>A repeated call loses the tools. When the same calls, no polls, have been sent twice since
  the last change and are sent again in a session that can ask its user, the round is discarded and
  the next one runs without tools, once a turn.\<close>

theorem third_identical_round_loses_tools:
  assumes "count_of (signature jl tcs, sk_epoch k) (sk_cycles k) \<ge> 2" "tcs \<noteq> []" "any_poll jl reg tcs = Some False"
    and "evaluate jl tt rlm reg fs content tcs k = Some ((score, repeats), k1)"
    and "\<not> sk_loop_break k" "''ask_user'' \<in> set active"
  shows "stuck_round jl tt rlm reg fs content tcs active (used, k)
    = Some (Nudge_And_Retry, used, k1\<lparr>sk_hints := [], sk_loop_break := True, sk_force_text := True\<rparr>)
    \<and> sk_identical k1 \<ge> 3"
proof -
  obtain s2 where c: "tool_cycle jl reg tcs (content_repeat content (0, k)) = Some s2" and sc: "same_calls (snd s2) k1"
    using evaluate_calls assms(4) by blast
  obtain sc0 k0 where k0: "content_repeat content (0, k) = (sc0, k0)" by (metis surj_pair)
  have eq: "sk_cycles k0 = sk_cycles k" "sk_epoch k0 = sk_epoch k"
    using content_repeat_calls [of content k] k0 by simp_all
  have "tool_cycle jl reg tcs (sc0, k0) = Some (fst s2, snd s2)" using c k0 by simp
  note t = tool_cycle_effect [OF this]
  have i: "sk_identical k1 \<ge> 3" using t(3,4) sc assms(1-3) by (simp add: same_calls_def count_bump eq)
  obtain sc k2 where e: "((score, repeats), k1) = settle_score content
      (same_domain_repetition (bot_wall_streak (empty_result_streak (sc, k2))))" and kk: "kept k k2"
    using evaluate_settles [OF assms(4)] by blast
  have "grows (sc, k2) (same_domain_repetition (bot_wall_streak (empty_result_streak (sc, k2))))"
    using grows_signals by (meson grows_trans)
  then have "sk_loop_break k1 = sk_loop_break k"
    using e kk by (cases "same_domain_repetition (bot_wall_streak (empty_result_streak (sc, k2)))")
      (auto simp: settle_score_def Let_def grows_def kept_def split: if_splits)
  then show ?thesis
    using i assms(4-6) by (simp add: stuck_round_def handle_stuck_signals_def LOOP_BREAK_AT_def)
qed

lemma third_identical_round_loses_tools_witness:
  "\<exists>k1. stuck_round plain_lib plain_tests False no_tools (\<lambda>_. []) [] (tr_calls ghost_round) [''ask_user'']
     (0, new_stuck\<lparr>sk_cycles := [((signature plain_lib (tr_calls ghost_round), 0), 2)]\<rparr>) = Some (Nudge_And_Retry, 0, k1)"
proof -
  let ?k = "new_stuck\<lparr>sk_cycles := [((signature plain_lib (tr_calls ghost_round), 0), 2)]\<rparr>"
  have c: "count_of (signature plain_lib (tr_calls ghost_round), sk_epoch ?k) (sk_cycles ?k) \<ge> 2"
    by (simp add: count_of_def new_stuck_def)
  have t: "tr_calls ghost_round \<noteq> []" "any_poll plain_lib no_tools (tr_calls ghost_round) = Some False" by code_simp+
  have "evaluate plain_lib plain_tests False no_tools (\<lambda>_. []) [] (tr_calls ghost_round) ?k \<noteq> None" by code_simp
  then obtain score repeats k1 where e: "evaluate plain_lib plain_tests False no_tools (\<lambda>_. []) [] (tr_calls ghost_round) ?k
      = Some ((score, repeats), k1)" by (metis not_None_eq surj_pair)
  have l: "\<not> sk_loop_break ?k" by (simp add: new_stuck_def)
  show ?thesis using third_identical_round_loses_tools [OF c t e l, of "[''ask_user'']" 0] by auto
qed

section \<open>Where the detector goes wrong\<close>

text \<open>One unreadable call ends the turn. A call of \<open>bash\<close> whose command is not a text, an array
  of words say, makes the detector raise a type error before the gate could refuse the call, and
  nothing catches it.\<close>

theorem unreadable_command_raises:
  assumes "tc \<in> set tcs" "tc_name tc = ''bash''" "parsed_arguments jl tc = Some (JObj kvs)"
    and "map_of kvs ''command'' = Some v" "truthy v" "\<forall>s. v \<noteq> JStr s"
  shows "evaluate jl tt rlm reg fs content tcs k = None"
proof -
  have c: "command_text kvs = None" using assms(4-6) by (cases v) (auto simp: command_text_def)
  have r: "read_path jl tt tc = None" using assms(2,3) by (simp add: read_path_def c)
  have "big_file_grind jl tt rlm tcs k' = None" for k'
    using assms(1)
  proof (induction tcs arbitrary: k')
    case (Cons x xs)
    then show ?case by (cases "x = tc") (auto simp: r split: option.splits)
  qed simp
  then show ?thesis by (auto simp: evaluate_def split: option.splits prod.splits)
qed

lemma unreadable_command_raises_witness:
  "let jl = plain_lib\<lparr>jl_loads := \<lambda>_. Some (JObj [(''command'', JArr [JStr ''ls''])])\<rparr>;
       tc = \<lparr>tc_id = ''1'', tc_name = ''bash'', tc_args = Args_Text ''x'', tc_rejected = False\<rparr>
   in evaluate jl plain_tests False no_tools (\<lambda>_. []) [] [tc] new_stuck = None"
proof -
  let ?jl = "plain_lib\<lparr>jl_loads := \<lambda>_. Some (JObj [(''command'', JArr [JStr ''ls''])])\<rparr>"
  let ?tc = "\<lparr>tc_id = ''1'', tc_name = ''bash'', tc_args = Args_Text ''x'', tc_rejected = False\<rparr>"
  have p: "parsed_arguments ?jl ?tc = Some (JObj [(''command'', JArr [JStr ''ls''])])" by (simp add: parsed_arguments_def)
  show ?thesis
    unfolding Let_def by (rule unreadable_command_raises [of ?tc, OF _ _ p, where v = "JArr [JStr ''ls'']"]) simp_all
qed

text \<open>The two web signals: a host asked for too often and a streak of empty results.\<close>

definition web_spent :: "stuck \<Rightarrow> bool" where
  "web_spent k \<longleftrightarrow> list_ex (\<lambda>(_, n). n > 5) (sk_domains k) \<and> length (sk_web k) \<ge> 3
     \<and> list_all (\<lambda>(_, _, low, _). low) (last_chars 3 (sk_web k))"

lemma web_spent_cong: "sk_domains k' = sk_domains k \<Longrightarrow> sk_web k' = sk_web k \<Longrightarrow> web_spent k' = web_spent k"
  by (simp add: web_spent_def)

lemma web_signals:
  assumes "web_spent k" "0 \<le> sc"
  shows "\<exists>sc' k'. same_domain_repetition (bot_wall_streak (empty_result_streak (sc, k))) = (sc', k') \<and> sc' \<ge> 1 / 2
    \<and> sk_domains k' = sk_domains k \<and> sk_web k' = sk_web k"
proof -
  have a: "empty_result_streak (sc, k) = flag ''empty_result_streak'' (3 / 10) (sc, k)"
    using assms(1) by (simp add: empty_result_streak_def web_spent_def)
  obtain sc1 k1 where b: "bot_wall_streak (empty_result_streak (sc, k)) = (sc1, k1)" by (metis surj_pair)
  have "grows (empty_result_streak (sc, k)) (sc1, k1)" unfolding b [symmetric] by (rule grows_signals)
  then have g: "sc1 \<ge> sc + 3 / 10" "sk_domains k1 = sk_domains k" "sk_web k1 = sk_web k"
    unfolding a by (simp_all add: grows_def kept_def flag_def)
  then have "same_domain_repetition (sc1, k1) = flag ''same_domain_repetition'' (2 / 10) (sc1, k1)"
    using assms(1) by (simp add: same_domain_repetition_def web_spent_def)
  then show ?thesis using b g assms(2) by (simp add: flag_def)
qed

lemma evaluate_web_spent:
  assumes "evaluate jl tt rlm reg fs content tcs k = Some ((score, repeats), k')" "web_spent k"
  shows "score \<ge> 1 / 2 \<and> web_spent k'"
proof -
  obtain sc k2 where e: "((score, repeats), k') = settle_score content
      (same_domain_repetition (bot_wall_streak (empty_result_streak (sc, k2))))" and sc: "0 \<le> sc" and kk: "kept k k2"
    using evaluate_settles [OF assms(1)] by blast
  have w2: "web_spent k2" using assms(2) kk web_spent_cong [of k2 k] by (simp add: kept_def)
  obtain sc' k3 where m: "same_domain_repetition (bot_wall_streak (empty_result_streak (sc, k2))) = (sc', k3)"
      and s: "sc' \<ge> 1 / 2" and same: "sk_domains k3 = sk_domains k2" "sk_web k3 = sk_web k2"
    using web_signals [OF w2 sc] by blast
  have "score = sc' \<and> sk_domains k' = sk_domains k3 \<and> sk_web k' = sk_web k3"
    using e by (simp add: m settle_score_def Let_def split: if_splits)
  then show ?thesis using s same w2 web_spent_cong [of k' k2] by simp
qed

lemma record_result_web:
  assumes "to_tool r \<notin> set WEB_TOOLS"
  shows "sk_web (record_result jl tt k r) = sk_web k" "sk_domains (record_result jl tt k r) = sk_domains k"
  using assms by (simp_all add: record_result_def observe_result_def mark_failure_def mark_success_def Let_def
      split: bool.splits option.splits)

lemma record_results_web:
  "\<forall>r \<in> set rs. to_tool r \<notin> set WEB_TOOLS \<Longrightarrow> web_spent (foldl (record_result jl tt) k rs) = web_spent k"
proof (induction rs arbitrary: k)
  case (Cons r rs)
  have "web_spent (record_result jl tt k r) = web_spent k"
    using Cons.prems by (intro web_spent_cong) (simp_all add: record_result_web)
  then show ?case using Cons by simp
qed simp

lemma play_web_spent:
  assumes "play jl tt rlm reg rs (used, k) = Some out" "web_spent k"
    and "\<forall>r \<in> set rs. \<forall>x \<in> set (tr_results r). to_tool x \<notin> set WEB_TOOLS"
  shows "\<forall>(score, a) \<in> set out. score \<ge> 1 / 2"
  using assms
proof (induction rs arbitrary: used k out)
  case (Cons r rs)
  obtain score repeats k1 where e: "evaluate jl tt rlm reg (tr_failures r) (tr_content r) (tr_calls r) k = Some ((score, repeats), k1)"
    using Cons.prems(1) by (auto split: option.splits)
  obtain act used' k2 n where h: "handle_stuck_signals jl score repeats (tr_calls r) (tr_active r) used
      STUCK_ASK_USER_LIMIT RECOVERY_LIMIT (k1\<lparr>sk_hints := []\<rparr>) = ((act, used'), k2, n)" by (metis surj_pair)
  have w: "score \<ge> 1 / 2" "web_spent k1" using evaluate_web_spent [OF e Cons.prems(2)] by auto
  have "sk_web k2 = sk_web k1 \<and> sk_domains k2 = sk_domains k1"
    using h by (auto simp: handle_stuck_signals_def split: if_splits)
  then have w2: "web_spent k2" using w(2) web_spent_cong by blast
  show ?case
  proof (cases "act = Stop_Loop")
    case True
    then show ?thesis using Cons.prems(1) w(1) by (auto simp: e h)
  next
    case False
    define k3 where "k3 = (if act = Proceed then foldl (record_result jl tt) k2 (tr_results r) else k2)"
    obtain out' where o: "play jl tt rlm reg rs (used', k3) = Some out'" "out = (score, act) # out'"
      using Cons.prems(1) False by (cases act) (auto simp: e h k3_def)
    have "web_spent k3" using w2 Cons.prems(3) by (simp add: k3_def record_results_web)
    then show ?thesis using Cons.IH [OF o(1)] Cons.prems(3) o(2) w(1) by simp
  qed
qed simp

text \<open>Old web results end a turn that has left the web. Once a host has been asked for more than
  five times and the last three web results were empty, every round scores over the threshold, also
  one whose calls all work and touch no web tool; so within seven such rounds the loop is stopped as
  stuck. The scoring of the failure counters was scoped to the round's own calls; that of the web
  signals was not.\<close>

theorem web_streak_ends_turn:
  assumes "web_spent k" "play jl tt rlm reg rs (used, k) = Some out" "length rs \<ge> 7"
    and "\<forall>r \<in> set rs. \<forall>x \<in> set (tr_results r). to_tool x \<notin> set WEB_TOOLS"
  shows "(\<forall>(score, a) \<in> set out. score \<ge> 1 / 2) \<and> snd (last out) = Stop_Loop \<and> length out \<le> 7"
proof -
  note w = play_web_spent [OF assms(2,1,4)]
  have p: "patience (used, k) \<le> 6" by (auto simp: patience_def STUCK_ASK_USER_LIMIT_def)
  have "\<forall>(score, a) \<in> set out. score > 3 / 10" using w by fastforce
  then have "snd (last out) = Stop_Loop \<and> length out \<le> Suc (patience (used, k))"
    using play_stops [OF assms(2)] p assms(3) by simp
  then show ?thesis using w p by auto
qed

text \<open>A worker that writes a new file in each round, without an error.\<close>

definition writer_round :: "string \<Rightarrow> turn_round" where
  "writer_round name = \<lparr>tr_failures = (\<lambda>_. []), tr_content = [], tr_calls =
     [\<lparr>tc_id = name, tc_name = ''file_write'', tc_args = Args_Text name, tc_rejected = False\<rparr>],
     tr_active = [''file_write''],
     tr_results = [\<lparr>to_tool = ''file_write'', to_args = [(''path'', JStr name)], to_content = ''ok'', to_error = False,
                    to_command_failed = False\<rparr>]\<rparr>"

lemma web_streak_ends_turn_witness:
  "let k = new_stuck\<lparr>sk_domains := [(''h'', 6)], sk_web := replicate 3 (''http_get'', ''h'', True, 0)\<rparr>;
       reg = \<lparr>rg_tools = [''file_write'' \<mapsto> \<lparr>td_schema = None, td_timeout = 60, td_max_timeout = 0, td_parallel_safe = False,
          td_denied_types = {}, td_safety = ''caution'', td_long_poll = False, td_idempotent = True\<rparr>], rg_disabled = {}\<rparr>
   in \<exists>out. play plain_lib plain_tests False reg (map writer_round [''a'', ''b'', ''c'', ''d'', ''e'', ''f'', ''g'']) (0, k) = Some out
        \<and> snd (last out) = Stop_Loop \<and> length out \<le> 7"
proof -
  let ?k = "new_stuck\<lparr>sk_domains := [(''h'', 6)], sk_web := replicate 3 (''http_get'', ''h'', True, 0)\<rparr>"
  let ?reg = "\<lparr>rg_tools = [''file_write'' \<mapsto> \<lparr>td_schema = None, td_timeout = 60, td_max_timeout = 0, td_parallel_safe = False,
          td_denied_types = {}, td_safety = ''caution'', td_long_poll = False, td_idempotent = True\<rparr>], rg_disabled = {}\<rparr>"
  let ?rs = "map writer_round [''a'', ''b'', ''c'', ''d'', ''e'', ''f'', ''g'']"
  have w: "web_spent ?k" by code_simp
  have "play plain_lib plain_tests False ?reg ?rs (0, ?k) \<noteq> None" by code_simp
  then obtain out where p: "play plain_lib plain_tests False ?reg ?rs (0, ?k) = Some out" by blast
  have n: "\<forall>r \<in> set ?rs. \<forall>x \<in> set (tr_results r). to_tool x \<notin> set WEB_TOOLS"
    by (simp add: writer_round_def WEB_TOOLS_def)
  have l: "length ?rs \<ge> 7" by simp
  show ?thesis unfolding Let_def using web_streak_ends_turn [OF w p l n] p by blast
qed

end
