(* ===== verification/Tool_Gate.thy ===== *)
theory Tool_Gate
  imports Stuck
begin

text \<open>
  The gate between a model's proposed calls and the executor (\<open>_ToolCallGate\<close> of \<open>core/agent.py\<close>),
  with the validation of arguments against a tool's schema.

  A call is an object that several lists share and that the gate writes to, so calls live in the
  store \<open>ga_calls\<close> and lists hold their numbers.  Messages are the values they interpolate.
\<close>

section \<open>Types of arguments\<close>

definition JSON_TYPES :: "string list" where
  "JSON_TYPES = [''string'', ''integer'', ''number'', ''boolean'', ''array'', ''object'']"

fun accepts :: "string \<Rightarrow> json \<Rightarrow> bool" where
  "accepts t (JStr _) = (t = ''string'')"
| "accepts t (JInt _) = (t \<in> {''integer'', ''number''})"
| "accepts t (JFloat _) = (t = ''number'')"
| "accepts t (JBool _) = (t = ''boolean'')"
| "accepts t (JArr _) = (t = ''array'')"
| "accepts t (JObj _) = (t = ''object'')"
| "accepts t JNull = False"

text \<open>\<open>int(s)\<close> of a text that is digits after its signs: one sign, and the length limit of Python.\<close>

definition ascii_digit :: "char \<Rightarrow> bool" where
  "ascii_digit c \<longleftrightarrow> (let n = (of_char c :: nat) in 48 \<le> n \<and> n \<le> 57)"

definition py_int :: "string \<Rightarrow> int option" where
  "py_int s =
     (let (neg, ds) = (case s of c # cs \<Rightarrow> if c = CHR ''-'' then (True, cs) else if c = CHR ''+'' then (False, cs) else (False, s)
                       | [] \<Rightarrow> (False, []))
      in if ds = [] \<or> \<not> list_all ascii_digit ds \<or> length ds > 4300 then None
         else Some (if neg then - int (undec ds) else int (undec ds)))"

definition coerce_json_type :: "json_lib \<Rightarrow> json \<Rightarrow> string \<Rightarrow> json option" where
  "coerce_json_type jl v expected =
     (case v of
        JStr s \<Rightarrow>
          if expected = ''integer'' then map_option JInt (py_int (py_strip s))
          else if expected = ''number'' then jl_float jl (py_strip s)
          else if expected = ''boolean'' then
            (if py_lower (py_strip s) = ''true'' then Some (JBool True)
             else if py_lower (py_strip s) = ''false'' then Some (JBool False) else None)
          else None
      | JFloat r \<Rightarrow>
          if expected = ''integer'' then (if of_int \<lfloor>r\<rfloor> = r then Some (JInt \<lfloor>r\<rfloor>) else None)
          else if expected = ''string'' then Some (JStr (jl_str jl v)) else None
      | JInt _ \<Rightarrow> if expected = ''string'' then Some (JStr (jl_str jl v)) else None
      | JBool b \<Rightarrow> if expected = ''string'' then Some (JStr (if b then ''true'' else ''false'')) else None
      | _ \<Rightarrow> None)"

text \<open>A value of the type as it is, or coerced; a truth value passes for no number.\<close>

definition fit_type :: "json_lib \<Rightarrow> string \<Rightarrow> json \<Rightarrow> (json \<times> bool) option" where
  "fit_type jl expected v =
     (case v of
        JBool _ \<Rightarrow> if expected \<notin> {''boolean'', ''string''} then None
                   else if accepts expected v then Some (v, False) else map_option (\<lambda>w. (w, True)) (coerce_json_type jl v expected)
      | _ \<Rightarrow> if accepts expected v then Some (v, False) else map_option (\<lambda>w. (w, True)) (coerce_json_type jl v expected))"

text \<open>Python's \<open>==\<close>, numbers by value; containers are compared as they are.\<close>

definition number_of :: "json \<Rightarrow> rat option" where
  "number_of v = (case v of JBool b \<Rightarrow> Some (if b then 1 else 0) | JInt i \<Rightarrow> Some (of_int i) | JFloat r \<Rightarrow> Some r | _ \<Rightarrow> None)"

definition py_eq :: "json \<Rightarrow> json \<Rightarrow> bool" where
  "py_eq a b = (if number_of a \<noteq> None \<or> number_of b \<noteq> None then number_of a = number_of b else a = b)"

datatype type_error =
    Wrong_Type string string json
  | Not_In_Enum string json
  | Bad_Element string string nat json

datatype call_note =
    Aliased string string
  | Ignored_Parameters "string list"
  | Coerced_Types "string list"

fun fit_items :: "json_lib \<Rightarrow> string \<Rightarrow> json list \<Rightarrow> (nat \<times> json) + json list \<times> bool" where
  "fit_items jl t [] = Inr ([], False)"
| "fit_items jl t (v # vs) = (case fit_type jl t v of
       None \<Rightarrow> Inl (0, v)
     | Some (w, c) \<Rightarrow> (case fit_items jl t vs of
         Inl (i, u) \<Rightarrow> Inl (i + 1, u) | Inr (ws, d) \<Rightarrow> Inr (w # ws, c \<or> d)))"

text \<open>
  One argument: the error, the value the dict holds afterwards, and what was coerced.  Values are
  written in place, so an argument that fails its enum stays coerced and later ones are untouched.
\<close>

definition fit_argument :: "json_lib \<Rightarrow> param_spec \<Rightarrow> string \<Rightarrow> json \<Rightarrow> type_error option \<times> json \<times> string list" where
  "fit_argument jl spec key v =
     (case ps_type spec of
        None \<Rightarrow> (None, v, [])
      | Some expected \<Rightarrow>
          if expected \<notin> set JSON_TYPES \<or> v = JNull then (None, v, [])
          else (case fit_type jl expected v of
            None \<Rightarrow> (Some (Wrong_Type key expected v), v, [])
          | Some (w, c) \<Rightarrow>
              if ps_enum spec \<noteq> [] \<and> \<not> list_ex (py_eq w) (ps_enum spec) then (Some (Not_In_Enum key w), w, [])
              else let notes = (if c then [key] else []) in
                (case (expected = ''array'', w, ps_item_type spec) of
                   (True, JArr items, Some t) \<Rightarrow>
                     if t \<notin> set JSON_TYPES then (None, w, notes)
                     else (case fit_items jl t items of
                         Inl (i, u) \<Rightarrow> (Some (Bad_Element key t i u), w, [])
                       | Inr (ws, d) \<Rightarrow> (None, if d then JArr ws else w, notes @ (if d then [key @ ''[]''] else [])))
                 | _ \<Rightarrow> (None, w, notes))))"

fun fit_arguments ::
    "json_lib \<Rightarrow> (string \<times> param_spec) list \<Rightarrow> (string \<times> json) list
      \<Rightarrow> type_error option \<times> (string \<times> json) list \<times> string list" where
  "fit_arguments jl props [] = (None, [], [])"
| "fit_arguments jl props ((k, v) # kvs) =
     (case (case map_of props k of None \<Rightarrow> (None, v, []) | Some spec \<Rightarrow> fit_argument jl spec k v) of
        (Some e, w, _) \<Rightarrow> (Some e, (k, w) # kvs, [])
      | (None, w, n) \<Rightarrow> (case fit_arguments jl props kvs of (e, rest, ns) \<Rightarrow> (e, (k, w) # rest, n @ ns)))"

definition validate_arg_types ::
    "json_lib \<Rightarrow> schema \<Rightarrow> (string \<times> json) list \<Rightarrow> type_error option \<times> (string \<times> json) list \<times> call_note list" where
  "validate_arg_types jl sc args =
     (let props = sc_properties sc in
      if props = [] then (None, args, [])
      else
        let unknown = filter (\<lambda>k. k \<notin> fst ` set props) (map fst args);
            drop_them = (unknown \<noteq> [] \<and> \<not> sc_additional sc);
            known = (if drop_them then filter (\<lambda>(k, _). k \<in> fst ` set props) args else args);
            notes = (if drop_them then [Ignored_Parameters (sort unknown)] else [])
        in (case fit_arguments jl props known of
              (Some e, fitted, _) \<Rightarrow> (Some e, fitted, notes)
            | (None, fitted, coerced) \<Rightarrow> (None, fitted, notes @ (if coerced = [] then [] else [Coerced_Types coerced]))))"

section \<open>The gate's state\<close>

datatype refusal =
    Duplicate_Call
  | Already_Executed nat string
  | Near_Duplicate
  | Use_Tool_Shape
  | Use_Tool_Arguments
  | Unknown_Tool string
  | Malformed_Arguments string
  | Not_An_Object string json
  | Missing_Required string "string list"
  | Type_Mismatch string type_error

datatype gate_event = Intercepted string string | Call_Refused string refusal

record gate =
  ga_calls :: "nat \<Rightarrow> tool_call"
  ga_fresh :: nat
  ga_proposed :: "nat list"
  ga_rejected :: "(nat \<times> refusal) list"
  ga_wrapped :: "(string \<times> nat) list"
  ga_notes :: "(string \<times> call_note list) list"
  ga_cross :: "(string \<times> nat \<times> string) list"
  ga_failures :: "(string \<times> string list) list"
  ga_stuck :: stuck
  ga_events :: "gate_event list"

definition call_of :: "gate \<Rightarrow> nat \<Rightarrow> tool_call" where
  "call_of g i = ga_calls g i"

definition set_call :: "nat \<Rightarrow> tool_call \<Rightarrow> gate \<Rightarrow> gate" where
  "set_call i tc g = g\<lparr>ga_calls := (ga_calls g)(i := tc)\<rparr>"

definition call_key :: "json_lib \<Rightarrow> string \<Rightarrow> call_args \<Rightarrow> string" where
  "call_key jl name args = name @ '':'' @ hash_args jl args"

text \<open>A refused call's arguments as the text of an object.\<close>

definition REJECTED_ARGS_CAP :: nat where "REJECTED_ARGS_CAP = 1000"

definition rejected_call_args :: "json_lib \<Rightarrow> call_args \<Rightarrow> string" where
  "rejected_call_args jl raw =
     (let as_raw = (\<lambda>s. jl_dumps jl (JObj [(''_raw_arguments'', JStr (take REJECTED_ARGS_CAP s))])) in
      case raw of
        Args_Value (JObj kvs) \<Rightarrow> jl_dumps jl (JObj kvs)
      | Args_Value JNull \<Rightarrow> as_raw []
      | Args_Value v \<Rightarrow> as_raw (jl_str jl v)
      | Args_Text s \<Rightarrow> if py_strip s = [] then ''{}''
          else (case jl_loads jl s of Some (JObj _) \<Rightarrow> s | _ \<Rightarrow> as_raw s))"

definition refuse :: "json_lib \<Rightarrow> nat \<Rightarrow> refusal \<Rightarrow> gate \<Rightarrow> gate" where
  "refuse jl i msg g =
     (let tc = call_of g i;
          id' = (if tc_id tc = [] then ''rejected_'' @ dec (length (ga_rejected g)) @ ''_'' @ hash_args jl (tc_args tc)
                 else tc_id tc);
          g1 = set_call i (tc\<lparr>tc_id := id', tc_rejected := True, tc_args := Args_Text (rejected_call_args jl (tc_args tc))\<rparr>) g;
          g2 = (case map_of (ga_wrapped g1) id' of None \<Rightarrow> g1
                | Some w \<Rightarrow> set_call w ((call_of g1 w)\<lparr>tc_rejected := True\<rparr>) g1)
      in g2\<lparr>ga_rejected := ga_rejected g2 @ [(i, msg)]\<rparr>)"

definition add_note :: "nat \<Rightarrow> call_note \<Rightarrow> gate \<Rightarrow> gate" where
  "add_note i n g = (let id' = tc_id (call_of g i) in
     g\<lparr>ga_notes := dict_set id' ((case map_of (ga_notes g) id' of None \<Rightarrow> [] | Some ns \<Rightarrow> ns) @ [n]) (ga_notes g)\<rparr>)"

definition gate_event :: "gate_event \<Rightarrow> gate \<Rightarrow> gate" where
  "gate_event e g = g\<lparr>ga_events := ga_events g @ [e]\<rparr>"

text \<open>A refusal that counts as a failure: the hash is of what the model sent.\<close>

definition reject :: "json_lib \<Rightarrow> nat \<Rightarrow> refusal \<Rightarrow> gate \<Rightarrow> gate" where
  "reject jl i msg g =
     (let tc = call_of g i; n = tc_name tc;
          g1 = g\<lparr>ga_failures := dict_set n ((case map_of (ga_failures g) n of None \<Rightarrow> [] | Some hs \<Rightarrow> hs)
                   @ [hash_args jl (tc_args tc)]) (ga_failures g),
                 ga_stuck := mark_failure jl [] [] (ga_stuck g)\<rparr>
      in refuse jl i msg (gate_event (Call_Refused n msg) g1))"

section \<open>The filters\<close>

text \<open>\<open>use_tool(name, arguments)\<close> becomes a call of the named tool: a copy, the original stays.\<close>

definition use_tool_target :: "json_lib \<Rightarrow> call_args \<Rightarrow> refusal + string \<times> json" where
  "use_tool_target jl raw =
     (let outer = (case raw of
            Args_Text s \<Rightarrow> if s = [] then Some (JObj []) else jl_loads jl s
          | Args_Value v \<Rightarrow> Some (if truthy v then v else JObj []));
          parsed = (case outer of
            Some (JObj o') \<Rightarrow> (case map_of o' ''arguments'' of
                None \<Rightarrow> Some (o', JObj [])
              | Some (JStr t) \<Rightarrow> if py_strip t = [] then Some (o', JObj [])
                  else map_option (\<lambda>v. (o', v)) (jl_loads jl t)
              | Some v \<Rightarrow> Some (o', v))
          | _ \<Rightarrow> None)
      in case parsed of None \<Rightarrow> Inl Use_Tool_Shape
         | Some (o', inner) \<Rightarrow> (case map_of o' ''name'' of
             Some (JStr n) \<Rightarrow>
               if py_strip n = [] \<or> py_strip n = ''use_tool'' then Inl Use_Tool_Shape
               else if \<not> truthy inner then Inr (py_strip n, JObj [])
               else (case inner of JObj _ \<Rightarrow> Inr (py_strip n, inner) | _ \<Rightarrow> Inl Use_Tool_Arguments)
           | _ \<Rightarrow> Inl Use_Tool_Shape))"

definition unwrap_one :: "json_lib \<Rightarrow> nat list \<times> gate \<Rightarrow> nat \<Rightarrow> nat list \<times> gate" where
  "unwrap_one jl = (\<lambda>(out, g) i.
     if py_strip (tc_name (call_of g i)) \<noteq> ''use_tool'' then (out @ [i], g)
     else
       let tc = call_of g i;
           id' = (if tc_id tc = [] then ''use_tool_'' @ dec (length (ga_wrapped g)) @ ''_'' @ hash_args jl (tc_args tc)
                  else tc_id tc);
           g1 = set_call i (tc\<lparr>tc_id := id'\<rparr>) g
       in (case use_tool_target jl (tc_args tc) of
             Inl r \<Rightarrow> (out, reject jl i r g1)
           | Inr (n, inner) \<Rightarrow>
               let j = ga_fresh g1;
                   g2 = set_call j (tc\<lparr>tc_id := id', tc_name := n, tc_args := Args_Text (jl_dumps jl inner)\<rparr>) g1
               in (out @ [j], g2\<lparr>ga_fresh := j + 1, ga_wrapped := dict_set id' i (ga_wrapped g2)\<rparr>)))"

definition unwrap_use_tool :: "json_lib \<Rightarrow> nat list \<Rightarrow> gate \<Rightarrow> nat list \<times> gate" where
  "unwrap_use_tool jl calls g = foldl (unwrap_one jl) ([], g) calls"

definition dedup_one :: "json_lib \<Rightarrow> registry \<Rightarrow> string list \<times> nat list \<times> gate \<Rightarrow> nat \<Rightarrow> string list \<times> nat list \<times> gate" where
  "dedup_one jl reg = (\<lambda>(seen, kept, g) i.
     let tc = call_of g i; key = call_key jl (tc_name tc) (tc_args tc) in
     if key \<in> set seen then (seen, kept, refuse jl i Duplicate_Call g)
     else
       (case map_of (ga_cross g) key of
          Some (r, prior) \<Rightarrow>
            if tc_name tc \<notin> set CROSS_ROUND_DEDUP_EXCLUDED \<and> is_idempotent reg (tc_name tc)
            then (seen @ [key], kept, refuse jl i (Already_Executed r prior) g)
            else (seen @ [key], kept @ [i], g)
        | None \<Rightarrow> (seen @ [key], kept @ [i], g)))"

definition dedup :: "json_lib \<Rightarrow> registry \<Rightarrow> nat list \<Rightarrow> gate \<Rightarrow> nat list \<times> gate" where
  "dedup jl reg calls g = snd (foldl (dedup_one jl reg) ([], [], g) calls)"

text \<open>Near duplicates of \<open>call_model\<close>, the only tool with semantic dedup: the prompt is compared
  without the case of letters and the length of blanks.\<close>

definition parse_args_dict :: "json_lib \<Rightarrow> call_args \<Rightarrow> (string \<times> json) list option" where
  "parse_args_dict jl raw = (case raw of
       Args_Value (JObj kvs) \<Rightarrow> Some kvs
     | Args_Value _ \<Rightarrow> Some []
     | Args_Text s \<Rightarrow> if py_strip s = [] then Some []
         else (case jl_loads jl s of None \<Rightarrow> Some [] | Some (JObj kvs) \<Rightarrow> Some kvs | Some _ \<Rightarrow> None))"

definition text_field :: "string \<Rightarrow> (string \<times> json) list \<Rightarrow> json" where
  "text_field k kvs = (case map_of kvs k of None \<Rightarrow> JStr [] | Some v \<Rightarrow> v)"

definition normalized_prompt :: "json_lib \<Rightarrow> (string \<Rightarrow> string) \<Rightarrow> (string \<times> json) list \<Rightarrow> string" where
  "normalized_prompt jl casefold kvs =
     (let v = text_field ''prompt'' kvs; s = (if truthy v then jl_str jl v else [])
      in casefold (join_with '' '' (py_words s)))"

definition is_near_duplicate_call ::
    "json_lib \<Rightarrow> (string \<Rightarrow> string) \<Rightarrow> (string \<times> json) list \<Rightarrow> (string \<times> json) list \<Rightarrow> bool" where
  "is_near_duplicate_call jl casefold a b \<longleftrightarrow>
     list_all (\<lambda>k. py_eq (text_field k a) (text_field k b)) [''model'', ''image_path'', ''system'']
     \<and> normalized_prompt jl casefold a = normalized_prompt jl casefold b"

text \<open>The calls of one name, in order; a name keeps the place of its first call.\<close>

fun group_by_name :: "gate \<Rightarrow> nat list \<Rightarrow> (string \<times> nat list) list" where
  "group_by_name g [] = []"
| "group_by_name g (i # is) = (let n = tc_name (call_of g i) in
     (n, i # filter (\<lambda>j. tc_name (call_of g j) = n) is)
       # filter (\<lambda>(m, _). m \<noteq> n) (group_by_name g is))"

text \<open>A comparison with a call whose arguments are a list or a scalar raises.\<close>

fun near_duplicate_of ::
    "json_lib \<Rightarrow> (string \<Rightarrow> string) \<Rightarrow> (nat \<Rightarrow> tool_call) \<Rightarrow> nat \<Rightarrow> nat list \<Rightarrow> bool option" where
  "near_duplicate_of jl casefold cs i [] = Some False"
| "near_duplicate_of jl casefold cs i (k # ks) =
     (case (parse_args_dict jl (tc_args (cs i)), parse_args_dict jl (tc_args (cs k))) of
        (Some a, Some b) \<Rightarrow> if is_near_duplicate_call jl casefold a b then Some True else near_duplicate_of jl casefold cs i ks
      | _ \<Rightarrow> None)"

fun semantic_group ::
    "json_lib \<Rightarrow> (string \<Rightarrow> string) \<Rightarrow> nat list \<Rightarrow> nat list \<Rightarrow> gate \<Rightarrow> (nat list \<times> gate) option" where
  "semantic_group jl casefold kept [] g = Some (kept, g)"
| "semantic_group jl casefold kept (i # is) g =
     (case near_duplicate_of jl casefold (ga_calls g) i kept of
        None \<Rightarrow> None
      | Some True \<Rightarrow> semantic_group jl casefold kept is (refuse jl i Near_Duplicate g)
      | Some False \<Rightarrow> semantic_group jl casefold (kept @ [i]) is g)"

fun semantic_groups ::
    "json_lib \<Rightarrow> (string \<Rightarrow> string) \<Rightarrow> (string \<times> nat list) list \<Rightarrow> gate \<Rightarrow> (nat list \<times> gate) option" where
  "semantic_groups jl casefold [] g = Some ([], g)"
| "semantic_groups jl casefold ((n, is) # gs) g =
     (if n \<notin> set SEMANTIC_DEDUP_TOOLS \<or> length is \<le> 1
      then map_option (\<lambda>(out, g'). (is @ out, g')) (semantic_groups jl casefold gs g)
      else (case semantic_group jl casefold [hd is] (tl is) g of
              None \<Rightarrow> None
            | Some (kept, g1) \<Rightarrow> map_option (\<lambda>(out, g'). (kept @ out, g')) (semantic_groups jl casefold gs g1)))"

definition semantic_dedup ::
    "json_lib \<Rightarrow> (string \<Rightarrow> string) \<Rightarrow> nat list \<Rightarrow> gate \<Rightarrow> (nat list \<times> gate) option" where
  "semantic_dedup jl casefold calls g =
     (if length calls \<le> 1 then Some (calls, g) else semantic_groups jl casefold (group_by_name g calls) g)"

text \<open>A known wrong name becomes the tool meant, when the session has that tool; an unknown one is refused.\<close>

definition correct_one :: "json_lib \<Rightarrow> registry \<Rightarrow> string list \<Rightarrow> nat list \<times> gate \<Rightarrow> nat \<Rightarrow> nat list \<times> gate" where
  "correct_one jl reg active = (\<lambda>(out, g) i.
     let n = py_strip (tc_name (call_of g i));
         g1 = set_call i ((call_of g i)\<lparr>tc_name := n\<rparr>) g;
         g2 = (case map_of TOOL_ALIASES n of
                 None \<Rightarrow> g1
               | Some a \<Rightarrow>
                   if reg_exists reg a \<and> a \<notin> rg_disabled reg \<and> a \<in> set active
                   then gate_event (Intercepted a ''aliased'')
                          (add_note i (Aliased n a) (set_call i ((call_of g1 i)\<lparr>tc_name := a\<rparr>) g1))
                   else g1);
         m = tc_name (call_of g2 i)
     in if \<not> reg_exists reg m then (out, reject jl i (Unknown_Tool m) (gate_event (Intercepted m ''rejected'') g2))
        else (out @ [i], g2))"

definition correct_names :: "json_lib \<Rightarrow> registry \<Rightarrow> string list \<Rightarrow> nat list \<Rightarrow> gate \<Rightarrow> nat list \<times> gate" where
  "correct_names jl reg active calls g = foldl (correct_one jl reg active) ([], g) calls"

definition note_action :: "call_note \<Rightarrow> string" where
  "note_action n = (case n of Ignored_Parameters _ \<Rightarrow> ''stripped_params'' | _ \<Rightarrow> ''coerced'')"

text \<open>A dict the provider parsed is the dict that is validated: its changes stay in the call.\<close>

definition store_args :: "nat \<Rightarrow> (string \<times> json) list \<Rightarrow> gate \<Rightarrow> gate" where
  "store_args i kvs g = (let tc = call_of g i in
     case tc_args tc of
       Args_Value (JObj o') \<Rightarrow> if o' = [] then g else set_call i (tc\<lparr>tc_args := Args_Value (JObj kvs)\<rparr>) g
     | _ \<Rightarrow> g)"

definition validate_one ::
    "json_lib \<Rightarrow> registry \<Rightarrow> (nat \<times> (string \<times> json) list) list \<times> gate \<Rightarrow> nat
      \<Rightarrow> (nat \<times> (string \<times> json) list) list \<times> gate" where
  "validate_one jl reg = (\<lambda>(out, g) i.
     let tc = call_of g i; n = tc_name tc;
         parsed = (case tc_args tc of
             Args_Text s \<Rightarrow> if s = [] then Some (JObj []) else jl_loads jl s
           | Args_Value v \<Rightarrow> Some (if truthy v then v else JObj []))
     in (case parsed of
           None \<Rightarrow> (out, reject jl i (Malformed_Arguments n) g)
         | Some (JObj kvs) \<Rightarrow>
             (case Option.bind (rg_tools reg n) td_schema of
                None \<Rightarrow> (out @ [(i, kvs)], g)
              | Some sc \<Rightarrow>
                  let missing = filter (\<lambda>p. p \<notin> fst ` set kvs) (sc_required sc) in
                  if missing \<noteq> [] then (out, reject jl i (Missing_Required n missing) g)
                  else (case validate_arg_types jl sc kvs of (err, fitted, notes) \<Rightarrow>
                    let g1 = store_args i fitted (fold (add_note i) notes g) in
                    (case err of
                       Some e \<Rightarrow> (out, reject jl i (Type_Mismatch n e) (gate_event (Intercepted n ''rejected'') g1))
                     | None \<Rightarrow> (out @ [(i, fitted)],
                         fold (\<lambda>c. gate_event (Intercepted n (note_action c))) notes g1))))
         | Some v \<Rightarrow> (out, reject jl i (Not_An_Object n v) g)))"

definition parse_and_validate ::
    "json_lib \<Rightarrow> registry \<Rightarrow> nat list \<Rightarrow> gate \<Rightarrow> (nat \<times> (string \<times> json) list) list \<times> gate" where
  "parse_and_validate jl reg calls g = foldl (validate_one jl reg) ([], g) calls"

section \<open>A round through the gate\<close>

definition start_round :: "nat list \<Rightarrow> gate \<Rightarrow> gate" where
  "start_round calls g = g\<lparr>ga_notes := [], ga_proposed := calls, ga_rejected := [], ga_wrapped := []\<rparr>"

text \<open>\<open>None\<close> is the exception of the semantic comparison, which nothing in \<open>admit\<close> catches.\<close>

definition admit ::
    "json_lib \<Rightarrow> (string \<Rightarrow> string) \<Rightarrow> registry \<Rightarrow> string list \<Rightarrow> nat list \<Rightarrow> gate
      \<Rightarrow> ((nat \<times> (string \<times> json) list) list \<times> gate) option" where
  "admit jl casefold reg active calls g =
     (let (unwrapped, g1) = unwrap_use_tool jl calls (start_round calls g);
          (unique, g2) = dedup jl reg unwrapped g1
      in (case semantic_dedup jl casefold unique g2 of
            None \<Rightarrow> None
          | Some (distinct_calls, g3) \<Rightarrow>
              (case correct_names jl reg active distinct_calls g3 of (valid, g4) \<Rightarrow>
                 Some (parse_and_validate jl reg valid g4))))"

definition proposed_calls :: "gate \<Rightarrow> tool_call list" where
  "proposed_calls g = map (call_of g) (ga_proposed g)"

text \<open>The rows written after the assistant row: the id each answers and the refusal.\<close>

definition flush_rejections :: "gate \<Rightarrow> (string \<times> refusal) list \<times> gate" where
  "flush_rejections g = (map (\<lambda>(i, m). (tc_id (call_of g i), m)) (ga_rejected g), g\<lparr>ga_rejected := []\<rparr>)"

section \<open>What a later round remembers\<close>

definition invalidate_bash_dedup :: "(string \<times> 'a) list \<Rightarrow> (string \<times> 'a) list" where
  "invalidate_bash_dedup = filter (\<lambda>(k, _). \<not> starts_with ''bash:'' k)"

definition remember_success :: "json_lib \<Rightarrow> string \<Rightarrow> call_args \<Rightarrow> nat \<Rightarrow> string \<Rightarrow> gate \<Rightarrow> gate" where
  "remember_success jl name raw r content g =
     (let key = call_key jl name raw;
          d = (if name \<in> set CROSS_ROUND_DEDUP_EXCLUDED then ga_cross g else dict_set key (r, take 200 content) (ga_cross g))
      in g\<lparr>ga_cross :=
           (if name \<in> set STATE_MUTATING_TOOLS then invalidate_bash_dedup d
            else if name = ''bash'' then filter (\<lambda>(k, _). \<not> (starts_with ''bash:'' k \<and> k \<noteq> key)) d
            else d)\<rparr>)"

end
