(* ===== verification/Tool_Gate_Proofs.thy ===== *)
theory Tool_Gate_Proofs
  imports Tool_Gate "HOL-Library.Multiset"
begin

text \<open>
  What the gate keeps: every proposed call is either admitted or answered by one refusal, admitted
  arguments fit the schema, and a call is refused as executed only when it was.
\<close>

section \<open>The book of a round\<close>

text \<open>\<open>live\<close> are the calls still in the pipeline.  The ids of live and refused calls are those of
  the calls the assistant row shows.\<close>

definition idbag :: "gate \<Rightarrow> nat list \<Rightarrow> string multiset" where
  "idbag g ks = image_mset (\<lambda>k. tc_id (ga_calls g k)) (mset ks)"

lemma idbag_simps [simp]:
  "idbag g [] = {#}" "idbag g (k # ks) = {#tc_id (ga_calls g k)#} + idbag g ks" "idbag g (ks @ ls) = idbag g ks + idbag g ls"
  by (simp_all add: idbag_def)

definition book :: "gate \<Rightarrow> nat list \<Rightarrow> bool" where
  "book g live \<longleftrightarrow>
     (let ids = (\<lambda>k. tc_id (ga_calls g k)); flags = (\<lambda>k. tc_rejected (ga_calls g k)); gone = map fst (ga_rejected g) in
      distinct (live @ gone) \<and> distinct (ga_proposed g)
      \<and> set live \<subseteq> {..<ga_fresh g} \<and> set gone \<subseteq> {..<ga_fresh g} \<and> set (ga_proposed g) \<subseteq> {..<ga_fresh g}
      \<and> (\<forall>k \<in> set live \<union> set gone. ids k = [] \<longrightarrow> k \<in> set (ga_proposed g))
      \<and> idbag g live + idbag g gone = idbag g (ga_proposed g)
      \<and> (\<forall>k \<in> set gone. ids k \<noteq> [] \<and> flags k) \<and> (\<forall>k \<in> set live. \<not> flags k)
      \<and> snd ` set (ga_wrapped g) \<subseteq> {..<ga_fresh g} - set live)"

lemma book_cong:
  assumes "book g live" "ga_fresh g' = ga_fresh g" "ga_proposed g' = ga_proposed g"
    "map fst (ga_rejected g') = map fst (ga_rejected g)" "ga_wrapped g' = ga_wrapped g"
    "\<And>k. tc_id (ga_calls g' k) = tc_id (ga_calls g k)" "\<And>k. tc_rejected (ga_calls g' k) = tc_rejected (ga_calls g k)"
  shows "book g' live"
  using assms by (simp add: book_def Let_def idbag_def)

lemma book_perm:
  assumes "book g xs" "mset ys = mset xs"
  shows "book g ys"
proof -
  have "set ys = set xs" using assms(2) by (rule mset_eq_setD)
  moreover have "distinct ys = distinct xs" using assms(2) by (rule mset_eq_imp_distinct_iff)
  moreover have "idbag g ys = idbag g xs" using assms(2) by (simp add: idbag_def)
  ultimately show ?thesis using assms(1) unfolding book_def Let_def by auto
qed

lemma foldl_live:
  assumes step: "\<And>s i ys. Q (live s @ i # ys) s \<Longrightarrow> Q (live (f s i) @ ys) (f s i)"
  shows "Q (live s @ ys) s \<Longrightarrow> Q (live (foldl f s ys)) (foldl f s ys)"
proof (induction ys arbitrary: s)
  case Nil
  then show ?case by simp
next
  case (Cons i ys)
  show ?case using Cons.IH [OF step [OF Cons.prems]] by simp
qed

section \<open>Refusing\<close>

definition answered_id :: "json_lib \<Rightarrow> nat \<Rightarrow> gate \<Rightarrow> string" where
  "answered_id jl i g = (let tc = call_of g i in
     if tc_id tc = [] then ''rejected_'' @ dec (length (ga_rejected g)) @ ''_'' @ hash_args jl (tc_args tc) else tc_id tc)"

lemma answered_id [simp]: "answered_id jl i g \<noteq> []" "tc_id (ga_calls g i) \<noteq> [] \<Longrightarrow> answered_id jl i g = tc_id (ga_calls g i)"
  by (simp_all add: answered_id_def Let_def call_of_def)

lemma refuse_frame [simp]:
  "ga_fresh (refuse jl i m g) = ga_fresh g" "ga_proposed (refuse jl i m g) = ga_proposed g"
  "ga_wrapped (refuse jl i m g) = ga_wrapped g" "ga_cross (refuse jl i m g) = ga_cross g"
  "ga_notes (refuse jl i m g) = ga_notes g" "ga_rejected (refuse jl i m g) = ga_rejected g @ [(i, m)]"
  "tc_name (ga_calls (refuse jl i m g) k) = tc_name (ga_calls g k)"
  "tc_id (ga_calls (refuse jl i m g) k) = (if k = i then answered_id jl i g else tc_id (ga_calls g k))"
  "tc_rejected (ga_calls (refuse jl i m g) k)
     = (tc_rejected (ga_calls g k) \<or> k = i \<or> map_of (ga_wrapped g) (answered_id jl i g) = Some k)"
  by (auto simp: refuse_def Let_def set_call_def call_of_def answered_id_def split: option.splits)

lemma idbag_same:
  "(\<And>k. k \<in> set ks \<Longrightarrow> tc_id (ga_calls h k) = tc_id (ga_calls g k)) \<Longrightarrow> idbag h ks = idbag g ks"
  by (induction ks) simp_all

lemma idbag_upd:
  "(\<And>k. k \<noteq> i \<Longrightarrow> tc_id (ga_calls h k) = tc_id (ga_calls g k)) \<Longrightarrow> distinct ks \<Longrightarrow> i \<in> set ks
    \<Longrightarrow> idbag h ks + {#tc_id (ga_calls g i)#} = idbag g ks + {#tc_id (ga_calls h i)#}"
proof (induction ks)
  case (Cons a ks)
  show ?case
  proof (cases "a = i")
    case True
    then have "idbag h ks = idbag g ks" using Cons.prems by (intro idbag_same) (metis distinct.simps(2))
    then show ?thesis using True by simp
  next
    case False
    then show ?thesis using Cons by (simp add: add_mset_commute)
  qed
qed simp

text \<open>Refusing a live call moves it to the refused; an id it lacked is given to the proposed call.\<close>

lemma refuse_ids:
  assumes "distinct (xs @ i # ys @ gone)" "distinct ps" "tc_id (ga_calls g i) = [] \<longrightarrow> i \<in> set ps"
    and ms: "idbag g (xs @ i # ys) + idbag g gone = idbag g ps"
  shows "idbag (refuse jl i m g) (xs @ ys) + idbag (refuse jl i m g) (gone @ [i]) = idbag (refuse jl i m g) ps"
proof (cases "tc_id (ga_calls g i) = []")
  case True
  let ?h = "refuse jl i m g"
  have "idbag ?h ps + {#tc_id (ga_calls g i)#} = idbag g ps + {#answered_id jl i g#}"
    using idbag_upd [of i ?h g ps] assms True by simp
  moreover have "idbag ?h xs = idbag g xs" "idbag ?h ys = idbag g ys" "idbag ?h gone = idbag g gone"
    using assms(1) by (intro idbag_same; auto)+
  ultimately have "idbag ?h (xs @ ys) + idbag ?h (gone @ [i]) + {#tc_id (ga_calls g i)#} = idbag ?h ps + {#tc_id (ga_calls g i)#}"
    using ms by (simp add: add.assoc)
  then show ?thesis by (rule add_right_imp_eq)
next
  case False
  then have "idbag (refuse jl i m g) zs = idbag g zs" for zs by (intro idbag_same) simp
  then show ?thesis using ms False by (simp add: ac_simps)
qed

lemma refuse_book:
  assumes "book g (xs @ i # ys)"
  shows "book (refuse jl i m g) (xs @ ys)"
proof -
  let ?gone = "map fst (ga_rejected g)" and ?h = "refuse jl i m g"
  have "idbag ?h (xs @ ys) + idbag ?h (?gone @ [i]) = idbag ?h (ga_proposed g)"
    using assms by (intro refuse_ids) (auto simp: book_def Let_def)
  moreover have "map_of (ga_wrapped g) (answered_id jl i g) \<noteq> Some k" if "k \<in> set (xs @ ys)" for k
  proof
    assume "map_of (ga_wrapped g) (answered_id jl i g) = Some k"
    then have "k \<in> snd ` set (ga_wrapped g)" by (force dest: map_of_SomeD)
    moreover have "snd ` set (ga_wrapped g) \<subseteq> {..<ga_fresh g} - set (xs @ i # ys)" using assms by (simp add: book_def Let_def)
    ultimately show False using that by auto
  qed
  moreover have "\<forall>k \<in> set (xs @ ys). k \<noteq> i" using assms by (auto simp: book_def Let_def)
  ultimately show ?thesis
    using assms unfolding book_def Let_def refuse_frame map_append list.map(2) fst_conv list.map(1)
    by (intro conjI) (auto simp del: idbag_simps)
qed

lemma reject_frame:
  "tc_name (ga_calls (reject jl i m g) k) = tc_name (ga_calls g k)"
  "ga_cross (reject jl i m g) = ga_cross g"
  "ga_rejected (reject jl i m g) = ga_rejected g @ [(i, m)]"
  by (simp_all add: reject_def Let_def gate_event_def)

lemma reject_book: "book g (xs @ i # ys) \<Longrightarrow> book (reject jl i m g) (xs @ ys)"
  unfolding reject_def Let_def
  by (intro refuse_book) (auto simp: gate_event_def elim: book_cong)


lemma set_call_frame [simp]:
  "ga_fresh (set_call i tc g) = ga_fresh g" "ga_proposed (set_call i tc g) = ga_proposed g"
  "ga_wrapped (set_call i tc g) = ga_wrapped g" "ga_rejected (set_call i tc g) = ga_rejected g"
  "ga_calls (set_call i tc g) = (ga_calls g)(i := tc)" "ga_cross (set_call i tc g) = ga_cross g"
  by (simp_all add: set_call_def)

lemma gate_event_frame [simp]:
  "ga_fresh (gate_event e g) = ga_fresh g" "ga_proposed (gate_event e g) = ga_proposed g"
  "ga_wrapped (gate_event e g) = ga_wrapped g" "ga_rejected (gate_event e g) = ga_rejected g"
  "ga_calls (gate_event e g) = ga_calls g" "ga_cross (gate_event e g) = ga_cross g"
  by (simp_all add: gate_event_def)

lemma add_note_frame [simp]:
  "ga_fresh (add_note i n g) = ga_fresh g" "ga_proposed (add_note i n g) = ga_proposed g"
  "ga_wrapped (add_note i n g) = ga_wrapped g" "ga_rejected (add_note i n g) = ga_rejected g"
  "ga_calls (add_note i n g) = ga_calls g" "ga_cross (add_note i n g) = ga_cross g"
  by (simp_all add: add_note_def Let_def)

lemma book_set_call:
  "book g live \<Longrightarrow> tc_id tc = tc_id (ga_calls g i) \<Longrightarrow> tc_rejected tc = tc_rejected (ga_calls g i)
    \<Longrightarrow> book (set_call i tc g) live"
  by (rule book_cong) auto

lemma book_event: "book g live \<Longrightarrow> book (gate_event e g) live"
  by (rule book_cong) auto

lemma book_note: "book g live \<Longrightarrow> book (add_note i n g) live"
  by (rule book_cong) auto

lemma fold_note_book: "book g live \<Longrightarrow> book (fold (add_note i) ns g) live"
  by (induction ns arbitrary: g) (simp_all add: book_note)

lemma fold_event_book: "book g live \<Longrightarrow> book (fold (\<lambda>c. gate_event (e c)) ns g) live"
  by (induction ns arbitrary: g) (simp_all add: book_event)

lemmas book_intros = book_set_call book_event book_note fold_note_book fold_event_book

section \<open>The filters keep the book\<close>

text \<open>The first filter names the calls that have no id and replaces a wrapped call by its copy.\<close>

lemma name_call_book:
  assumes "book g (xs @ i # ys)" "tc_id tc \<noteq> []" "tc_id (ga_calls g i) \<noteq> [] \<Longrightarrow> tc_id tc = tc_id (ga_calls g i)"
    "tc_rejected tc = tc_rejected (ga_calls g i)"
  shows "book (set_call i tc g) (xs @ i # ys)"
proof (cases "tc_id (ga_calls g i) = []")
  case False
  then show ?thesis using assms by (intro book_set_call) auto
next
  case True
  let ?h = "set_call i tc g" and ?gone = "map fst (ga_rejected g)"
  have d: "distinct (xs @ i # ys @ ?gone)" "distinct (ga_proposed g)" "i \<in> set (ga_proposed g)"
    and ms: "idbag g (xs @ i # ys) + idbag g ?gone = idbag g (ga_proposed g)"
    using assms(1) True by (auto simp: book_def Let_def)
  have "idbag ?h (ga_proposed g) + {#tc_id (ga_calls g i)#} = idbag g (ga_proposed g) + {#tc_id tc#}"
    using idbag_upd [of i ?h g "ga_proposed g"] d by simp
  moreover have "idbag ?h xs = idbag g xs" "idbag ?h ys = idbag g ys" "idbag ?h ?gone = idbag g ?gone"
    using d(1) by (intro idbag_same; auto)+
  ultimately have "idbag ?h (xs @ i # ys) + idbag ?h ?gone + {#tc_id (ga_calls g i)#} = idbag ?h (ga_proposed g) + {#tc_id (ga_calls g i)#}"
    using ms by (simp add: add.assoc)
  then have "idbag ?h (xs @ i # ys) + idbag ?h ?gone = idbag ?h (ga_proposed g)" by (rule add_right_imp_eq)
  then show ?thesis
    using assms unfolding book_def Let_def set_call_frame
    by (intro conjI) (auto simp del: idbag_simps)
qed

lemma values_dict_set: "x \<in> snd ` set (dict_set k v d) \<Longrightarrow> x = v \<or> x \<in> snd ` set d"
  by (induction d) (force split: if_splits)+

lemma copy_call_book:
  assumes "book g (xs @ i # ys)" "tc_id (ga_calls g i) \<noteq> []" "tc_id tc = tc_id (ga_calls g i)"
    "tc_rejected tc = tc_rejected (ga_calls g i)"
  shows "book ((set_call (ga_fresh g) tc g)\<lparr>ga_fresh := ga_fresh g + 1, ga_wrapped := dict_set k i (ga_wrapped g)\<rparr>)
           (xs @ ga_fresh g # ys)" (is "book ?h _")
proof -
  let ?gone = "map fst (ga_rejected g)" and ?j = "ga_fresh g"
  have lt: "set (xs @ i # ys) \<subseteq> {..<?j}" "set ?gone \<subseteq> {..<?j}" "set (ga_proposed g) \<subseteq> {..<?j}"
    and ms: "idbag g (xs @ i # ys) + idbag g ?gone = idbag g (ga_proposed g)"
    using assms(1) by (auto simp: book_def Let_def)
  have "idbag ?h zs = idbag g zs" if "set zs \<subseteq> {..<?j}" for zs
    using that by (intro idbag_same) auto
  then have "idbag ?h (xs @ ?j # ys) + idbag ?h ?gone = idbag ?h (ga_proposed g)"
    using ms lt assms(3) by (simp del: set_map)
  moreover have "snd ` set (dict_set k i (ga_wrapped g)) \<subseteq> {..<?j + 1} - set (xs @ ?j # ys)"
  proof
    fix x assume "x \<in> snd ` set (dict_set k i (ga_wrapped g))"
    then have "x = i \<or> x \<in> snd ` set (ga_wrapped g)" by (rule values_dict_set)
    moreover have "snd ` set (ga_wrapped g) \<subseteq> {..<?j} - set (xs @ i # ys)" "distinct (xs @ i # ys)" "i < ?j"
      using assms(1) by (simp_all add: book_def Let_def Int_Un_distrib)
    ultimately show "x \<in> {..<?j + 1} - set (xs @ ?j # ys)" by auto
  qed
  moreover have "distinct (xs @ ?j # ys @ ?gone)" "distinct (ga_proposed g)" "\<forall>k \<in> set (xs @ ?j # ys) \<union> set ?gone. k < ?j + 1"
      "set (ga_proposed g) \<subseteq> {..<?j + 1}"
    using assms(1) by (auto simp: book_def Let_def Int_Un_distrib)
  moreover have "\<forall>k \<in> set (xs @ ?j # ys) \<union> set ?gone. tc_id (ga_calls ?h k) = [] \<longrightarrow> k \<in> set (ga_proposed g)"
    using assms lt by (auto simp: book_def Let_def)
  moreover have "(\<forall>k \<in> set ?gone. tc_id (ga_calls ?h k) \<noteq> [] \<and> tc_rejected (ga_calls ?h k))
      \<and> (\<forall>k \<in> set (xs @ ?j # ys). \<not> tc_rejected (ga_calls ?h k))"
    using assms lt by (auto simp: book_def Let_def)
  ultimately show ?thesis
    unfolding book_def Let_def gate.simps set_call_frame by auto
qed

lemma unwrap_one_book:
  assumes "book (snd s) (fst s @ i # ys)"
  shows "book (snd (unwrap_one jl s i)) (fst (unwrap_one jl s i) @ ys)"
proof (cases s)
  case (Pair out g)
  let ?tc = "ga_calls g i"
  let ?id = "if tc_id ?tc = [] then ''use_tool_'' @ dec (length (ga_wrapped g)) @ ''_'' @ hash_args jl (tc_args ?tc) else tc_id ?tc"
  have b: "book g (out @ i # ys)" using assms Pair by simp
  have named: "book (set_call i (?tc\<lparr>tc_id := ?id\<rparr>) g) (out @ i # ys)"
    by (rule name_call_book [OF b]) auto
  show ?thesis
  proof (cases "py_strip (tc_name ?tc) = ''use_tool''")
    case False
    then show ?thesis using b Pair by (simp add: unwrap_one_def call_of_def)
  next
    case w: True
    show ?thesis
    proof (cases "use_tool_target jl (tc_args ?tc)")
      case (Inl r)
      then show ?thesis using w Pair reject_book [OF named, where m = r]
        by (simp add: unwrap_one_def call_of_def Let_def)
    next
      case (Inr p)
      obtain n inner where p: "p = (n, inner)" by fastforce
      let ?copy = "?tc\<lparr>tc_id := ?id, tc_name := n, tc_args := Args_Text (jl_dumps jl inner)\<rparr>"
      show ?thesis using w Pair Inr p copy_call_book [OF named, where tc = ?copy and k = ?id]
        by (simp add: unwrap_one_def call_of_def Let_def)
    qed
  qed
qed

lemma unwrap_use_tool_book:
  "book g calls \<Longrightarrow> unwrap_use_tool jl calls g = (out, g') \<Longrightarrow> book g' out"
  using foldl_live [where Q = "\<lambda>l s. book (snd s) l" and live = fst and f = "unwrap_one jl" and s = "([], g)" and ys = calls]
    unwrap_one_book
  by (simp add: unwrap_use_tool_def)

lemma dedup_one_book:
  assumes "book (snd (snd s)) (fst (snd s) @ i # ys)"
  shows "book (snd (snd (dedup_one jl reg s i))) (fst (snd (dedup_one jl reg s i)) @ ys)"
proof (cases s)
  case (fields seen kept g)
  then have "book (refuse jl i m g) (kept @ ys)" for m using assms by (intro refuse_book) simp
  then show ?thesis using assms fields
    by (auto simp: dedup_one_def Let_def split: option.splits)
qed

lemma dedup_book: "book g calls \<Longrightarrow> dedup jl reg calls g = (out, g') \<Longrightarrow> book g' out"
  using foldl_live [where Q = "\<lambda>l s. book (snd (snd s)) l" and live = "fst \<circ> snd" and f = "dedup_one jl reg"
      and s = "([], [], g)" and ys = calls] dedup_one_book
  by (auto simp: dedup_def)

lemma correct_one_book:
  assumes "book (snd s) (fst s @ i # ys)"
  shows "book (snd (correct_one jl reg active s i)) (fst (correct_one jl reg active s i) @ ys)"
proof (cases s)
  case (Pair out g)
  then have b: "book g (out @ i # ys)" using assms by simp
  show ?thesis unfolding Pair correct_one_def Let_def prod.case
    by (auto simp: call_of_def b split: option.splits intro!: reject_book book_intros)
qed

lemma correct_names_book:
  "book g calls \<Longrightarrow> correct_names jl reg active calls g = (out, g') \<Longrightarrow> book g' out"
  using foldl_live [where Q = "\<lambda>l s. book (snd s) l" and live = fst and f = "correct_one jl reg active"
      and s = "([], g)" and ys = calls] correct_one_book
  by (simp add: correct_names_def)

lemma store_args_book: "book g live \<Longrightarrow> book (store_args i kvs g) live"
  unfolding store_args_def Let_def
  by (auto simp: call_of_def split: call_args.splits json.splits intro!: book_intros)

lemma validate_one_book:
  assumes "book (snd s) (map fst (fst s) @ i # ys)"
  shows "book (snd (validate_one jl reg s i)) (map fst (fst (validate_one jl reg s i)) @ ys)"
proof (cases s)
  case (Pair out g)
  then have b: "book g (map fst out @ i # ys)" using assms by simp
  show ?thesis unfolding Pair validate_one_def Let_def prod.case
    by (auto simp: call_of_def b split: option.splits json.splits call_args.splits prod.splits
        intro!: reject_book book_intros store_args_book)
qed

lemma parse_and_validate_book:
  "book g calls \<Longrightarrow> parse_and_validate jl reg calls g = (out, g') \<Longrightarrow> book g' (map fst out)"
  using foldl_live [where Q = "\<lambda>l s. book (snd s) l" and live = "map fst \<circ> fst" and f = "validate_one jl reg"
      and s = "([], g)" and ys = calls] validate_one_book
  by (simp add: parse_and_validate_def)


text \<open>The semantic filter reorders, and refuses inside a group.\<close>

lemma semantic_group_book:
  "semantic_group jl casefold kept ks g = Some (out, g') \<Longrightarrow> book g (xs @ kept @ ks @ ys) \<Longrightarrow> book g' (xs @ out @ ys)"
proof (induction ks arbitrary: kept g)
  case Nil
  then show ?case by simp
next
  case (Cons i ks)
  have "book (refuse jl i Near_Duplicate g) (xs @ kept @ ks @ ys)"
    using refuse_book [of g "xs @ kept" i "ks @ ys"] Cons.prems(2) by simp
  then show ?case using Cons by (auto split: option.splits bool.splits)
qed

lemma semantic_groups_book:
  "semantic_groups jl casefold gs g = Some (out, g') \<Longrightarrow> list_all (\<lambda>p. snd p \<noteq> []) gs
    \<Longrightarrow> book g (xs @ concat (map snd gs)) \<Longrightarrow> book g' (xs @ out)"
proof (induction gs arbitrary: g xs out)
  case Nil
  then show ?case by simp
next
  case (Cons p gs)
  obtain n ks where p: "p = (n, ks)" by fastforce
  then obtain k kt where ks: "ks = k # kt" using Cons.prems(2) by (cases ks) auto
  show ?case
  proof (cases "n \<notin> set SEMANTIC_DEDUP_TOOLS \<or> length ks \<le> 1")
    case True
    then show ?thesis using Cons.IH [of g _ "xs @ ks"] Cons.prems p by auto
  next
    case False
    then obtain kept g1 o2 where s: "semantic_group jl casefold [k] kt g = Some (kept, g1)"
        "semantic_groups jl casefold gs g1 = Some (o2, g')" "out = kept @ o2"
      using Cons.prems p ks by (auto split: option.splits)
    have "book g1 (xs @ kept @ concat (map snd gs))"
      by (rule semantic_group_book [OF s(1)]) (use Cons.prems(3) p ks in simp)
    then show ?thesis using Cons.IH [OF s(2), of "xs @ kept"] Cons.prems(2) s(3) by simp
  qed
qed

fun first_names :: "gate \<Rightarrow> nat list \<Rightarrow> string list" where
  "first_names g [] = []"
| "first_names g (i # ks) = tc_name (ga_calls g i) # filter (\<lambda>m. m \<noteq> tc_name (ga_calls g i)) (first_names g ks)"

abbreviation calls_named :: "gate \<Rightarrow> nat list \<Rightarrow> string \<Rightarrow> nat list" where
  "calls_named g ks n \<equiv> filter (\<lambda>j. tc_name (ga_calls g j) = n) ks"

lemma first_names: "distinct (first_names g ks)" "set (first_names g ks) = (\<lambda>j. tc_name (ga_calls g j)) ` set ks"
  by (induction ks) auto

lemma group_by_name: "group_by_name g ks = map (\<lambda>n. (n, calls_named g ks n)) (first_names g ks)"
proof (induction ks)
  case (Cons i ks)
  have "filter (\<lambda>(m, _). m \<noteq> k) (map (\<lambda>n. (n, f n)) ns) = map (\<lambda>n. (n, f n)) (filter (\<lambda>m. m \<noteq> k) ns)"
    for k and f :: "string \<Rightarrow> nat list" and ns
    by (induction ns) auto
  then show ?case using Cons by (auto simp: Let_def call_of_def)
qed simp

lemma concat_by_name:
  "distinct ns \<Longrightarrow> (\<lambda>j. tc_name (ga_calls g j)) ` set ks \<subseteq> set ns
    \<Longrightarrow> mset (concat (map (calls_named g ks) ns)) = mset ks"
proof (induction ns arbitrary: ks)
  case (Cons n ns)
  let ?rest = "filter (\<lambda>j. tc_name (ga_calls g j) \<noteq> n) ks"
  have "map (calls_named g ks) ns = map (calls_named g ?rest) ns"
    using Cons.prems(1) by (auto intro!: filter_cong)
  moreover have "mset (concat (map (calls_named g ?rest) ns)) = mset ?rest"
    using Cons.prems by (intro Cons.IH) auto
  ultimately have "mset (concat (map (calls_named g ks) ns)) = mset ?rest" by (simp only:)
  then show ?case using multiset_partition [of "mset ks" "\<lambda>j. tc_name (ga_calls g j) = n"] by simp
qed simp

lemma group_by_name_perm: "mset (concat (map snd (group_by_name g ks))) = mset ks"
  using concat_by_name [of "first_names g ks" g ks] first_names [of g ks]
  by (simp add: group_by_name comp_def)

lemma group_by_name_ne: "list_all (\<lambda>p. snd p \<noteq> []) (group_by_name g ks)"
  using first_names(2) [of g ks] by (auto simp: group_by_name list_all_iff filter_empty_conv)

lemma semantic_dedup_book:
  assumes "semantic_dedup jl casefold calls g = Some (out, g')" "book g calls"
  shows "book g' out"
proof (cases "length calls \<le> 1")
  case True
  then show ?thesis using assms by (simp add: semantic_dedup_def)
next
  case False
  have "book g (concat (map snd (group_by_name g calls)))"
    using assms(2) group_by_name_perm by (rule book_perm)
  then show ?thesis
    using semantic_groups_book [where xs = "[]", OF _ group_by_name_ne] assms(1) False
    by (simp add: semantic_dedup_def)
qed

lemma start_round_book:
  assumes "distinct calls" "set calls \<subseteq> {..<ga_fresh g}" "\<And>k. k \<in> set calls \<Longrightarrow> \<not> tc_rejected (ga_calls g k)"
  shows "book (start_round calls g) calls"
  using assms by (auto simp: book_def Let_def start_round_def idbag_def)

lemma admit_stages:
  assumes "admit jl casefold reg active calls g = Some (out, g')"
  obtains u g1 v g2 w g3 x g4 where
    "unwrap_use_tool jl calls (start_round calls g) = (u, g1)" "dedup jl reg u g1 = (v, g2)"
    "semantic_dedup jl casefold v g2 = Some (w, g3)" "correct_names jl reg active w g3 = (x, g4)"
    "parse_and_validate jl reg x g4 = (out, g')"
  using assms by (auto simp: admit_def split: prod.splits option.splits)

lemma admit_book:
  assumes "admit jl casefold reg active calls g = Some (out, g')"
    "distinct calls" "set calls \<subseteq> {..<ga_fresh g}" "\<And>k. k \<in> set calls \<Longrightarrow> \<not> tc_rejected (ga_calls g k)"
  shows "book g' (map fst out)"
  using assms(1)
  by (rule admit_stages)
     (metis start_round_book [OF assms(2-4)] unwrap_use_tool_book dedup_book semantic_dedup_book correct_names_book
        parse_and_validate_book)


lemma reject_proposed [simp]: "ga_proposed (reject jl i m g) = ga_proposed g"
  by (simp add: reject_def Let_def gate_event_def)

lemma fold_frame [simp]:
  "ga_calls (fold (add_note i) ns g) = ga_calls g" "ga_proposed (fold (add_note i) ns g) = ga_proposed g"
  "ga_calls (fold (\<lambda>c. gate_event (e c)) ns g) = ga_calls g" "ga_proposed (fold (\<lambda>c. gate_event (e c)) ns g) = ga_proposed g"
  by (induction ns arbitrary: g) simp_all

lemma store_args_frame [simp]:
  "ga_proposed (store_args i kvs g) = ga_proposed g" "tc_name (ga_calls (store_args i kvs g) k) = tc_name (ga_calls g k)"
  by (auto simp: store_args_def Let_def call_of_def split: call_args.splits json.splits)

lemma foldl_keeps: "(\<And>s x. h (f s x) = h s) \<Longrightarrow> h (foldl f s xs) = h s"
  by (induction xs arbitrary: s) simp_all

lemma unwrap_one_proposed: "ga_proposed (snd (unwrap_one jl s i)) = ga_proposed (snd s)"
  by (auto simp: unwrap_one_def Let_def split: prod.splits sum.splits)

lemma dedup_one_proposed: "ga_proposed (snd (snd (dedup_one jl reg s i))) = ga_proposed (snd (snd s))"
  by (auto simp: dedup_one_def Let_def split: prod.splits option.splits)

lemma correct_one_proposed: "ga_proposed (snd (correct_one jl reg active s i)) = ga_proposed (snd s)"
  by (auto simp: correct_one_def Let_def split: prod.splits option.splits)

lemma validate_one_proposed: "ga_proposed (snd (validate_one jl reg s i)) = ga_proposed (snd s)"
  by (auto simp: validate_one_def Let_def split: prod.splits option.splits json.splits call_args.splits)

lemma semantic_group_proposed:
  "semantic_group jl casefold kept ks g = Some (out, g') \<Longrightarrow> ga_proposed g' = ga_proposed g"
  by (induction ks arbitrary: kept g) (auto split: option.splits bool.splits)

lemma semantic_groups_proposed:
  "semantic_groups jl casefold gs g = Some (out, g') \<Longrightarrow> ga_proposed g' = ga_proposed g"
  by (induction gs arbitrary: g out) (auto split: option.splits if_splits simp: semantic_group_proposed)

lemma admit_proposed:
  assumes "admit jl casefold reg active calls g = Some (out, g')"
  shows "ga_proposed g' = calls"
  using assms
proof (rule admit_stages)
  fix u g1 v g2 w g3 x g4
  assume s: "unwrap_use_tool jl calls (start_round calls g) = (u, g1)" "dedup jl reg u g1 = (v, g2)"
    "semantic_dedup jl casefold v g2 = Some (w, g3)" "correct_names jl reg active w g3 = (x, g4)"
    "parse_and_validate jl reg x g4 = (out, g')"
  have "ga_proposed (snd (foldl (unwrap_one jl) ([], start_round calls g) calls)) = ga_proposed (snd ([] :: nat list, start_round calls g))"
    by (rule foldl_keeps [of "\<lambda>s. ga_proposed (snd s)"]) (rule unwrap_one_proposed)
  moreover have "ga_proposed (snd (snd (foldl (dedup_one jl reg) ([], [], g1) u))) = ga_proposed (snd (snd ([] :: string list, [] :: nat list, g1)))"
    by (rule foldl_keeps [of "\<lambda>s. ga_proposed (snd (snd s))"]) (rule dedup_one_proposed)
  moreover have "ga_proposed g3 = ga_proposed g2"
    using s(3) by (auto simp: semantic_dedup_def split: if_splits dest: semantic_groups_proposed)
  moreover have "ga_proposed (snd (foldl (correct_one jl reg active) ([], g3) w)) = ga_proposed (snd ([] :: nat list, g3))"
    by (rule foldl_keeps [of "\<lambda>s. ga_proposed (snd s)"]) (rule correct_one_proposed)
  moreover have "ga_proposed (snd (foldl (validate_one jl reg) ([], g4) x)) = ga_proposed (snd ([] :: (nat \<times> (string \<times> json) list) list, g4))"
    by (rule foldl_keeps [of "\<lambda>s. ga_proposed (snd s)"]) (rule validate_one_proposed)
  ultimately show ?thesis
    using s by (simp add: start_round_def unwrap_use_tool_def dedup_def correct_names_def parse_and_validate_def)
qed

text \<open>C26: every proposed call has one fate: the ids of the calls that go to the executor and of the
  refusal rows are, with their multiplicity, the ids of the assistant row; no id of a refusal is empty,
  and a refused call is marked while an admitted one is not.\<close>

theorem every_call_has_one_fate:
  assumes "admit jl casefold reg active calls g = Some (out, g')"
    "distinct calls" "set calls \<subseteq> {..<ga_fresh g}" "\<forall>k \<in> set calls. \<not> tc_rejected (ga_calls g k)"
  shows "image_mset (\<lambda>(i, _). tc_id (call_of g' i)) (mset out) + image_mset fst (mset (fst (flush_rejections g')))
           = image_mset tc_id (mset (proposed_calls g'))
         \<and> proposed_calls g' = map (call_of g') calls
         \<and> (\<forall>(i, _) \<in> set out. \<not> tc_rejected (call_of g' i))
         \<and> (\<forall>(i, _) \<in> set (ga_rejected g'). tc_id (call_of g' i) \<noteq> [] \<and> tc_rejected (call_of g' i))"
proof -
  have b: "book g' (map fst out)" using admit_book assms by blast
  have "idbag g' (map fst out) + idbag g' (map fst (ga_rejected g')) = idbag g' (ga_proposed g')"
    using b by (simp add: book_def Let_def)
  then have "image_mset (\<lambda>(i, _). tc_id (call_of g' i)) (mset out) + image_mset fst (mset (fst (flush_rejections g')))
           = image_mset tc_id (mset (proposed_calls g'))"
    by (simp add: idbag_def flush_rejections_def proposed_calls_def call_of_def image_mset.compositionality comp_def split_def)
  moreover have "\<forall>(i, _) \<in> set out. \<not> tc_rejected (call_of g' i)"
    and "\<forall>(i, _) \<in> set (ga_rejected g'). tc_id (call_of g' i) \<noteq> [] \<and> tc_rejected (call_of g' i)"
    using b by (auto simp: book_def Let_def call_of_def)
  moreover have "proposed_calls g' = map (call_of g') calls"
    using admit_proposed [OF assms(1)] by (simp add: proposed_calls_def)
  ultimately show ?thesis by blast
qed


definition example_call :: "string \<Rightarrow> string \<Rightarrow> string \<Rightarrow> tool_call" where
  "example_call cid n a = \<lparr>tc_id = cid, tc_name = n, tc_args = Args_Text a, tc_rejected = False\<rparr>"

definition example_gate :: "tool_call list \<Rightarrow> gate" where
  "example_gate cs = \<lparr>ga_calls = (\<lambda>k. if k < length cs then cs ! k else example_call [] [] []), ga_fresh = length cs,
     ga_proposed = [], ga_rejected = [], ga_wrapped = [], ga_notes = [], ga_cross = [], ga_failures = [],
     ga_stuck = new_stuck, ga_events = []\<rparr>"

definition one_tool :: registry where
  "one_tool = \<lparr>rg_tools = [''glob'' \<mapsto> plain_tool], rg_disabled = {}\<rparr>"

text \<open>A known tool twice and an unknown one: the first call runs, the others are answered.\<close>

lemma every_call_has_one_fate_witness:
  "\<exists>out g'. admit plain_lib id one_tool [''glob''] [0, 1, 2]
       (example_gate [example_call ''a'' ''glob'' [], example_call ''b'' ''glob'' [], example_call [] ''zap'' []]) = Some (out, g')
     \<and> image_mset (\<lambda>(i, _). tc_id (call_of g' i)) (mset out) + image_mset fst (mset (fst (flush_rejections g')))
           = image_mset tc_id (mset (proposed_calls g'))
     \<and> length out = 1 \<and> length (ga_rejected g') = 2"
proof -
  let ?g = "example_gate [example_call ''a'' ''glob'' [], example_call ''b'' ''glob'' [], example_call [] ''zap'' []]"
  have r: "(case admit plain_lib id one_tool [''glob''] [0, 1, 2] ?g of None \<Rightarrow> False
      | Some (out, g') \<Rightarrow> length out = 1 \<and> length (ga_rejected g') = 2)"
    by code_simp
  then obtain out g' where a: "admit plain_lib id one_tool [''glob''] [0, 1, 2] ?g = Some (out, g')"
      "length out = 1 \<and> length (ga_rejected g') = 2"
    by (auto split: option.splits)
  have "\<forall>k \<in> set [0, 1, 2]. \<not> tc_rejected (ga_calls ?g k)" "set [0, 1, 2] \<subseteq> {..<ga_fresh ?g}" "distinct [0, 1, 2::nat]"
    by (auto simp: example_gate_def example_call_def nth_Cons split: nat.splits)
  then show ?thesis using every_call_has_one_fate [OF a(1)] a by blast
qed

end
