(* ===== verification/Tool_Gate_Laws.thy ===== *)
theory Tool_Gate_Laws
  imports Tool_Gate_Proofs
begin

text \<open>
  What admitted arguments satisfy, what the memory of a turn holds, and where the filters before the
  executor depart from what the agent asked for.
\<close>

section \<open>Admitted arguments fit the schema\<close>

definition fits :: "param_spec \<Rightarrow> json \<Rightarrow> bool" where
  "fits spec v = (case ps_type spec of
       None \<Rightarrow> True
     | Some t \<Rightarrow> t \<notin> set JSON_TYPES \<or> v = JNull \<or>
         (accepts t v \<and> (ps_enum spec \<noteq> [] \<and> t \<noteq> ''array'' \<longrightarrow> list_ex (py_eq v) (ps_enum spec))
          \<and> (case (v, ps_item_type spec) of
               (JArr vs, Some u) \<Rightarrow> u \<in> set JSON_TYPES \<longrightarrow> list_all (accepts u) vs
             | _ \<Rightarrow> True)))"

definition fits_at :: "(string \<times> param_spec) list \<Rightarrow> string \<times> json \<Rightarrow> bool" where
  "fits_at props p = (case map_of props (fst p) of None \<Rightarrow> True | Some spec \<Rightarrow> fits spec (snd p))"

definition schema_fits :: "schema \<Rightarrow> (string \<times> json) list \<Rightarrow> bool" where
  "schema_fits sc kvs \<longleftrightarrow>
     (\<forall>p \<in> set (sc_required sc). (sc_properties sc = [] \<or> p \<in> fst ` set (sc_properties sc)) \<longrightarrow> p \<in> fst ` set kvs)
     \<and> (sc_properties sc \<noteq> [] \<and> \<not> sc_additional sc \<longrightarrow> fst ` set kvs \<subseteq> fst ` set (sc_properties sc))
     \<and> list_all (fits_at (sc_properties sc)) kvs"

abbreviation floats_are_floats :: "json_lib \<Rightarrow> bool" where
  "floats_are_floats jl \<equiv> \<forall>s. case jl_float jl s of Some v \<Rightarrow> accepts ''number'' v | None \<Rightarrow> True"

lemma coerce_accepts:
  assumes "floats_are_floats jl" "coerce_json_type jl v t = Some w"
  shows "accepts t w"
proof (cases v)
  case (JStr s)
  then show ?thesis using assms(2) spec [OF assms(1), of "py_strip s"]
    by (auto simp: coerce_json_type_def split: if_splits)
qed (use assms(2) in \<open>auto simp: coerce_json_type_def split: if_splits\<close>)

lemma fit_type_accepts: "floats_are_floats jl \<Longrightarrow> fit_type jl t v = Some (w, c) \<Longrightarrow> accepts t w"
  by (auto simp: fit_type_def split: json.splits if_splits dest: coerce_accepts)

lemma fit_items_accepts:
  "floats_are_floats jl \<Longrightarrow> fit_items jl t vs = Inr (ws, d) \<Longrightarrow> list_all (accepts t) ws \<and> (\<not> d \<longrightarrow> ws = vs)"
proof (induction vs arbitrary: ws d)
  case (Cons v vs)
  have same: "fit_type jl t v = Some (w, False) \<Longrightarrow> w = v" for w
    by (auto simp: fit_type_def split: json.splits if_splits)
  obtain w c rest e where r: "fit_type jl t v = Some (w, c)" "fit_items jl t vs = Inr (rest, e)" "ws = w # rest" "d = (c \<or> e)"
    using Cons.prems(2) by (fastforce split: option.splits sum.splits)
  show ?case using Cons.IH [OF Cons.prems(1) r(2)] fit_type_accepts [OF Cons.prems(1) r(1)] r same by auto
qed simp

lemma fit_items_kept: "floats_are_floats jl \<Longrightarrow> fit_items jl t vs = Inr (ws, False) \<Longrightarrow> list_all (accepts t) vs"
  using fit_items_accepts by blast

lemma fit_items_new: "floats_are_floats jl \<Longrightarrow> fit_items jl t vs = Inr (ws, d) \<Longrightarrow> list_all (accepts t) ws"
  using fit_items_accepts by blast

lemma fit_argument_fits:
  assumes "floats_are_floats jl" "fit_argument jl spec k v = (None, w, ns)"
  shows "fits spec w"
proof (cases "ps_type spec")
  case None
  then show ?thesis by (simp add: fits_def)
next
  case (Some t)
  show ?thesis
  proof (cases "t \<notin> set JSON_TYPES \<or> v = JNull")
    case True
    then show ?thesis using assms(2) Some by (auto simp: fit_argument_def fits_def)
  next
    case False
    then obtain u c where u: "fit_type jl t v = Some (u, c)"
      using assms(2) Some by (auto simp: fit_argument_def split: option.splits)
    have a: "accepts t u" using fit_type_accepts [OF assms(1) u] .
    show ?thesis
    proof (cases "\<exists>vs i. u = JArr vs \<and> t = ''array'' \<and> ps_item_type spec = Some i \<and> i \<in> set JSON_TYPES")
      case True
      then obtain vs i where v: "u = JArr vs" "t = ''array''" "ps_item_type spec = Some i" "i \<in> set JSON_TYPES" by blast
      then obtain ws d where "fit_items jl i vs = Inr (ws, d)" "w = (if d then JArr ws else JArr vs)"
        using assms(2) Some False u by (auto simp: fit_argument_def Let_def split: if_splits sum.splits)
      then show ?thesis using v Some fit_items_accepts [OF assms(1)] by (auto simp: fits_def)
    next
      case other: False
      then have "w = u \<and> (ps_enum spec \<noteq> [] \<longrightarrow> list_ex (py_eq u) (ps_enum spec))"
        using assms(2) Some False u a
        by (cases u) (auto simp: fit_argument_def Let_def split: if_splits option.splits)
      then show ?thesis using other a Some by (cases u) (auto simp: fits_def split: option.splits)
    qed
  qed
qed

lemma fit_arguments_fit:
  assumes "floats_are_floats jl"
  shows "fit_arguments jl props kvs = (None, ws, ns)
    \<Longrightarrow> map fst ws = map fst kvs \<and> list_all (fits_at props) ws"
proof (induction kvs arbitrary: ws ns)
  case (Cons p kvs)
  then show ?case
    by (cases p) (auto simp: fits_at_def split: option.splits prod.splits intro: fit_argument_fits [OF assms])
qed simp

lemma validate_fits:
  assumes "floats_are_floats jl" "validate_arg_types jl sc kvs = (None, ws, ns)"
    "filter (\<lambda>p. p \<notin> fst ` set kvs) (sc_required sc) = []"
  shows "schema_fits sc ws"
proof (cases "sc_properties sc = []")
  case True
  then show ?thesis using assms(2,3) by (auto simp: validate_arg_types_def schema_fits_def filter_empty_conv list_all_iff fits_at_def)
next
  case False
  let ?props = "sc_properties sc"
  define drop where "drop \<longleftrightarrow> filter (\<lambda>k. k \<notin> fst ` set ?props) (map fst kvs) \<noteq> [] \<and> \<not> sc_additional sc"
  define known where "known = (if drop then filter (\<lambda>(k, _). k \<in> fst ` set ?props) kvs else kvs)"
  obtain n2 where "fit_arguments jl ?props known = (None, ws, n2)"
    using assms(2) False unfolding validate_arg_types_def Let_def drop_def [symmetric] known_def [symmetric]
    by (auto split: prod.splits option.splits)
  then have f: "map fst ws = map fst known"
      "list_all (fits_at ?props) ws"
    using fit_arguments_fit [OF assms(1)] by blast+
  have keys: "fst ` set ws = fst ` set known" using f(1) by (metis set_map)
  have known: "p \<in> fst ` set known" if p: "p \<in> fst ` set kvs" "p \<in> fst ` set ?props" for p
  proof -
    obtain v where "(p, v) \<in> set kvs" using p(1) by auto
    then have "(p, v) \<in> set known" using p(2) by (simp add: known_def)
    then show ?thesis by (rule image_eqI [rotated]) simp
  qed
  have "p \<in> set (sc_required sc) \<Longrightarrow> p \<in> fst ` set kvs" for p
    using assms(3) by (auto simp: filter_empty_conv)
  then have "\<forall>p \<in> set (sc_required sc). (?props = [] \<or> p \<in> fst ` set ?props) \<longrightarrow> p \<in> fst ` set ws"
    using keys known False by simp
  moreover have "fst ` set known \<subseteq> fst ` set ?props" if na: "\<not> sc_additional sc"
  proof (cases drop)
    case True
    then show ?thesis unfolding known_def by (auto intro: rev_image_eqI)
  next
    case False
    then have "filter (\<lambda>k. k \<notin> fst ` set ?props) (map fst kvs) = []" using na drop_def by blast
    then have "\<forall>k \<in> set (map fst kvs). k \<in> fst ` set ?props" unfolding filter_empty_conv by blast
    then show ?thesis using False unfolding known_def set_map by (simp only: if_False) blast
  qed
  ultimately show ?thesis using f(2) keys by (auto simp only: schema_fits_def)
qed


section \<open>The admitted calls\<close>

lemma correct_one_known:
  assumes "\<forall>j \<in> set (fst s). reg_exists reg (tc_name (ga_calls (snd s) j))" "i \<notin> set (fst s)"
  shows "\<forall>j \<in> set (fst (correct_one jl reg active s i)). reg_exists reg (tc_name (ga_calls (snd (correct_one jl reg active s i)) j))"
  using assms
  by (cases s) (auto simp: correct_one_def Let_def call_of_def reject_frame split: option.splits)

lemma correct_names_known:
  assumes "book g calls" "correct_names jl reg active calls g = (out, g')"
  shows "\<forall>j \<in> set out. reg_exists reg (tc_name (ga_calls g' j))"
proof -
  let ?Q = "\<lambda>l s. book (snd s) l \<and> (\<forall>j \<in> set (fst s). reg_exists reg (tc_name (ga_calls (snd s) j)))"
  have "?Q (fst (foldl (correct_one jl reg active) ([], g) calls)) (foldl (correct_one jl reg active) ([], g) calls)"
  proof (rule foldl_live [where Q = ?Q and live = fst])
    fix s i ys assume q: "?Q (fst s @ i # ys) s"
    then have "i \<notin> set (fst s)" by (simp add: book_def Let_def)
    then show "?Q (fst (correct_one jl reg active s i) @ ys) (correct_one jl reg active s i)"
      using q correct_one_book correct_one_known by blast
  qed (use assms(1) in simp)
  then show ?thesis using assms(2) by (simp add: correct_names_def)
qed

lemma validate_one_names: "tc_name (ga_calls (snd (validate_one jl reg s i)) k) = tc_name (ga_calls (snd s) k)"
  by (auto simp: validate_one_def Let_def reject_frame split: prod.splits option.splits json.splits call_args.splits)

lemma parse_and_validate_names:
  assumes "parse_and_validate jl reg calls g = (out, g')"
  shows "tc_name (ga_calls g' k) = tc_name (ga_calls g k)"
proof -
  have "tc_name (ga_calls (snd (foldl (validate_one jl reg) ([], g) calls)) k)
      = tc_name (ga_calls (snd ([] :: (nat \<times> (string \<times> json) list) list, g)) k)"
    by (rule foldl_keeps [of "\<lambda>s. tc_name (ga_calls (snd s) k)"]) (rule validate_one_names)
  then show ?thesis using assms by (simp add: parse_and_validate_def)
qed

definition schema_of :: "registry \<Rightarrow> string \<Rightarrow> schema option" where
  "schema_of reg n = Option.bind (rg_tools reg n) td_schema"

lemma validate_one_adds:
  assumes "floats_are_floats jl" "(j, kvs) \<in> set (fst (validate_one jl reg s i))"
  shows "(j, kvs) \<in> set (fst s) \<or>
    (j = i \<and> (\<forall>sc. schema_of reg (tc_name (ga_calls (snd s) i)) = Some sc \<longrightarrow> schema_fits sc kvs))"
  using assms(2) validate_fits [OF assms(1)]
  by (cases s) (auto simp: validate_one_def Let_def call_of_def schema_of_def
      split: option.splits json.splits call_args.splits prod.splits if_splits)

lemma parse_and_validate_fits:
  assumes "floats_are_floats jl" "parse_and_validate jl reg calls g = (out, g')" "(j, kvs) \<in> set out"
  shows "j \<in> set calls \<and> (\<forall>sc. schema_of reg (tc_name (ga_calls g j)) = Some sc \<longrightarrow> schema_fits sc kvs)"
proof -
  have "(j, kvs) \<in> set (fst (foldl (validate_one jl reg) s ks)) \<Longrightarrow>
      (j, kvs) \<in> set (fst s) \<or>
      (j \<in> set ks \<and> (\<forall>sc. schema_of reg (tc_name (ga_calls (snd s) j)) = Some sc \<longrightarrow> schema_fits sc kvs))" for s ks
  proof (induction ks arbitrary: s)
    case (Cons k ks)
    then show ?case using validate_one_adds [OF assms(1), of j kvs reg s k] validate_one_names [of jl reg s k j]
      by fastforce
  qed simp
  from this [of "([], g)" calls] show ?thesis using assms(2,3) by (simp add: parse_and_validate_def)
qed

text \<open>C27: what the executor receives is typed. A call the gate admits names a registered tool, carries
  every declared parameter the schema requires, no parameter the schema does not allow, and values of
  the declared types, members of their enums, arrays with elements of the declared type.\<close>

theorem admitted_calls_fit_their_schema:
  assumes "admit jl casefold reg active calls g = Some (out, g')" "(j, kvs) \<in> set out"
    "floats_are_floats jl" "distinct calls" "set calls \<subseteq> {..<ga_fresh g}" "\<forall>k \<in> set calls. \<not> tc_rejected (ga_calls g k)"
  shows "reg_exists reg (tc_name (call_of g' j))
    \<and> (case Option.bind (rg_tools reg (tc_name (call_of g' j))) td_schema of None \<Rightarrow> True | Some sc \<Rightarrow> schema_fits sc kvs)"
  using assms(1)
proof (rule admit_stages)
  fix u g1 v g2 w g3 x g4
  assume s: "unwrap_use_tool jl calls (start_round calls g) = (u, g1)" "dedup jl reg u g1 = (v, g2)"
    "semantic_dedup jl casefold v g2 = Some (w, g3)" "correct_names jl reg active w g3 = (x, g4)"
    "parse_and_validate jl reg x g4 = (out, g')"
  have "book (start_round calls g) calls" using assms(4-6) by (intro start_round_book) auto
  then have "book g3 w" using s(1-3) unwrap_use_tool_book dedup_book semantic_dedup_book by metis
  then have "\<forall>i \<in> set x. reg_exists reg (tc_name (ga_calls g4 i))" using s(4) by (rule correct_names_known)
  then show ?thesis
    using parse_and_validate_fits [OF assms(3) s(5) assms(2)] parse_and_validate_names [OF s(5), of j]
    by (auto simp: call_of_def schema_of_def split: option.splits)
qed


text \<open>A numeric text for an integer, and a parameter the tool does not have.\<close>

definition counting_schema :: schema where
  "counting_schema = \<lparr>sc_properties = [(''n'', \<lparr>ps_type = Some ''integer'', ps_enum = [], ps_item_type = None\<rparr>)],
     sc_required = [''n''], sc_additional = False\<rparr>"

definition counting_tools :: registry where
  "counting_tools = \<lparr>rg_tools = [''count'' \<mapsto> plain_tool\<lparr>td_schema := Some counting_schema\<rparr>], rg_disabled = {}\<rparr>"

definition counting_call :: tool_call where
  "counting_call = \<lparr>tc_id = ''a'', tc_name = ''count'', tc_args = Args_Value (JObj [(''n'', JStr ''7''), (''z'', JNull)]),
     tc_rejected = False\<rparr>"

lemma admitted_calls_fit_their_schema_witness:
  "\<exists>g'. admit plain_lib id counting_tools [''count''] [0] (example_gate [counting_call]) = Some ([(0, [(''n'', JInt 7)])], g')
     \<and> schema_fits counting_schema [(''n'', JInt 7)] \<and> \<not> schema_fits counting_schema [(''n'', JStr ''7'')]"
proof -
  let ?a = "admit plain_lib id counting_tools [''count''] [0] (example_gate [counting_call])"
  have "(case ?a of None \<Rightarrow> False | Some (out, g') \<Rightarrow> out = [(0, [(''n'', JInt 7)])] \<and> tc_name (call_of g' 0) = ''count'')"
    by code_simp
  then obtain g' where a: "?a = Some ([(0, [(''n'', JInt 7)])], g')" "tc_name (call_of g' 0) = ''count''"
    by (auto split: option.splits)
  have "schema_fits counting_schema [(''n'', JInt 7)]"
    using admitted_calls_fit_their_schema [OF a(1), of 0 "[(''n'', JInt 7)]"] a(2)
    by (simp add: counting_tools_def plain_lib_def example_gate_def counting_call_def)
  moreover have "\<not> schema_fits counting_schema [(''n'', JStr ''7'')]" by code_simp
  ultimately show ?thesis using a(1) by blast
qed

section \<open>What a turn remembers\<close>

text \<open>The successes of a turn in order: the tool, its arguments, the round and the result.\<close>

type_synonym success = "string \<times> call_args \<times> nat \<times> string"

definition remember :: "json_lib \<Rightarrow> gate \<Rightarrow> success \<Rightarrow> gate" where
  "remember jl g = (\<lambda>(n, a, r, c). remember_success jl n a r c g)"

lemma map_of_filter_keys: "map_of (filter (\<lambda>(k, _). P k) d) k = (if P k then map_of d k else None)"
  by (induction d) auto

lemma remember_cross:
  "map_of (ga_cross (remember jl g (n, a, r, c))) key =
     (if n \<in> set STATE_MUTATING_TOOLS \<and> starts_with ''bash:'' key then None
      else if n = ''bash'' \<and> starts_with ''bash:'' key \<and> key \<noteq> call_key jl n a then None
      else if n \<notin> set CROSS_ROUND_DEDUP_EXCLUDED \<and> key = call_key jl n a then Some (r, take 200 c)
      else map_of (ga_cross g) key)"
proof -
  have "''bash'' \<notin> set STATE_MUTATING_TOOLS" by (simp add: STATE_MUTATING_TOOLS_def)
  then show ?thesis
    by (auto simp: remember_def remember_success_def Let_def invalidate_bash_dedup_def map_of_filter_keys)
qed


text \<open>A remembered shell result is fresh. Over any sequence of successes from an empty memory, what
  is remembered for a shell command is the result of a success with that command, and since then no
  file was changed and no other shell command ran.\<close>

theorem shell_result_is_fresh:
  assumes "map_of (ga_cross (foldl (remember jl) g hs)) key = Some (r, c)" "ga_cross g = []" "starts_with ''bash:'' key"
  shows "\<exists>pre n a content post. hs = pre @ (n, a, r, content) # post \<and> key = call_key jl n a \<and> c = take 200 content
    \<and> list_all (\<lambda>(n', a', _). n' \<notin> set STATE_MUTATING_TOOLS \<and> (n' = ''bash'' \<longrightarrow> call_key jl n' a' = key)) post"
  using assms(1)
proof (induction hs rule: rev_induct)
  case Nil
  then show ?case using assms(2) by simp
next
  case (snoc h hs)
  obtain n a r' content where h: "h = (n, a, r', content)" by (metis surj_pair)
  let ?last = "n \<notin> set STATE_MUTATING_TOOLS \<and> (n = ''bash'' \<longrightarrow> call_key jl n a = key)"
  have m: "map_of (ga_cross (remember jl (foldl (remember jl) g hs) h)) key = Some (r, c)"
    using snoc.prems by simp
  have l: ?last using m assms(3) unfolding h remember_cross by (auto split: if_splits)
  show ?case
  proof (cases "n \<notin> set CROSS_ROUND_DEDUP_EXCLUDED \<and> key = call_key jl n a")
    case True
    then have "r' = r" "c = take 200 content" using m l unfolding h remember_cross by (auto split: if_splits)
    then have "hs @ [h] = hs @ (n, a, r, content) # [] \<and> key = call_key jl n a \<and> c = take 200 content \<and> list_all P []" for P :: "success \<Rightarrow> bool"
      using True h by simp
    then show ?thesis by blast
  next
    case False
    then have "map_of (ga_cross (foldl (remember jl) g hs)) key = Some (r, c)"
      using m l unfolding h remember_cross by (auto split: if_splits)
    then obtain pre n0 a0 c0 post where i: "hs = pre @ (n0, a0, r, c0) # post" "key = call_key jl n0 a0" "c = take 200 c0"
        "list_all (\<lambda>(n', a', _). n' \<notin> set STATE_MUTATING_TOOLS \<and> (n' = ''bash'' \<longrightarrow> call_key jl n' a' = key)) post"
      using snoc.IH by blast
    have "hs @ [h] = pre @ (n0, a0, r, c0) # (post @ [h])" using i(1) by simp
    moreover have "list_all (\<lambda>(n', a', _). n' \<notin> set STATE_MUTATING_TOOLS \<and> (n' = ''bash'' \<longrightarrow> call_key jl n' a' = key)) (post @ [h])"
      using i(4) l h by simp
    ultimately show ?thesis using i(2,3) by blast
  qed
qed

lemma shell_result_is_fresh_witness:
  "\<exists>pre n a content post. [(''file_edit'', Args_Text ''e'', 1, []), (''bash'', Args_Text ''t'', 2 :: nat, ''ok'')]
       = pre @ (n, a, 2, content) # post \<and> call_key plain_lib ''bash'' (Args_Text ''t'') = call_key plain_lib n a
       \<and> ''ok'' = take 200 content
       \<and> list_all (\<lambda>(n', a', _). n' \<notin> set STATE_MUTATING_TOOLS \<and> (n' = ''bash'' \<longrightarrow> call_key plain_lib n' a' = ''bash:t'')) post"
proof -
  let ?hs = "[(''file_edit'', Args_Text ''e'', 1, []), (''bash'', Args_Text ''t'', 2, ''ok'')]"
  have m: "map_of (ga_cross (foldl (remember plain_lib) (example_gate []) ?hs)) ''bash:t'' = Some (2, ''ok'')" by code_simp
  have k: "call_key plain_lib ''bash'' (Args_Text ''t'') = ''bash:t''" "starts_with ''bash:'' ''bash:t''" by code_simp+
  have "ga_cross (example_gate []) = []" by (simp add: example_gate_def)
  then show ?thesis using shell_result_is_fresh [OF m _ k(2)] unfolding k(1) by blast
qed

text \<open>A revert is refused. When an agent writes a file, writes it differently and writes the first
  version again, with the arguments of the first time, the third call is not run: the gate answers that
  it was executed before, with the first result, although the file has changed since. Only shell
  results leave the memory when a file changes.\<close>

theorem revert_is_refused:
  assumes "n \<in> set STATE_MUTATING_TOOLS" "is_idempotent reg n"
    "call_key jl n a2 \<noteq> call_key jl n a1" "tc_name (ga_calls g i) = n" "tc_args (ga_calls g i) = a1"
  shows "dedup jl reg [i] (foldl (remember jl) g [(n, a1, r1, c1), (n, a2, r2, c2)])
    = ([], refuse jl i (Already_Executed r1 (take 200 c1)) (foldl (remember jl) g [(n, a1, r1, c1), (n, a2, r2, c2)]))"
proof -
  let ?g = "foldl (remember jl) g [(n, a1, r1, c1), (n, a2, r2, c2)]"
  have n: "n \<notin> set CROSS_ROUND_DEDUP_EXCLUDED" "n \<noteq> ''bash''" "\<not> starts_with ''bash:'' (call_key jl n a1)"
    using assms(1) by (auto simp: STATE_MUTATING_TOOLS_def CROSS_ROUND_DEDUP_EXCLUDED_def call_key_def starts_with_def)
  have "map_of (ga_cross ?g) (call_key jl n a1) = Some (r1, take 200 c1)"
    using n assms(3) unfolding foldl.simps remember_cross by auto
  moreover have "ga_calls ?g = ga_calls g" by (simp add: remember_def remember_success_def Let_def)
  ultimately show ?thesis
    using assms(2,4,5) n by (simp add: dedup_def dedup_one_def call_of_def Let_def)
qed

lemma revert_is_refused_witness:
  "fst (dedup plain_lib no_tools [0] (foldl (remember plain_lib) (example_gate [example_call ''c'' ''file_write'' ''one''])
      [(''file_write'', Args_Text ''one'', 1, ''ok''), (''file_write'', Args_Text ''two'', 2, ''ok'')])) = []"
proof -
  have "is_idempotent no_tools ''file_write''" "''file_write'' \<in> set STATE_MUTATING_TOOLS"
    "call_key plain_lib ''file_write'' (Args_Text ''two'') \<noteq> call_key plain_lib ''file_write'' (Args_Text ''one'')"
    by code_simp+
  then show ?thesis
    using revert_is_refused [of "''file_write''" no_tools plain_lib "Args_Text ''two''" "Args_Text ''one''"
        "example_gate [example_call ''c'' ''file_write'' ''one'']" 0 1 "''ok''" 2 "''ok''"]
    by (simp add: example_gate_def example_call_def)
qed


section \<open>The semantic filter\<close>

text \<open>Order is not kept. A round of two or more calls leaves the semantic filter grouped by tool,
  also when none of them is a tool with semantic dedup: a write, a shell command and a second write of
  the same tool reach the executor as write, write, shell.\<close>

theorem semantic_dedup_regroups:
  assumes "2 \<le> length calls" "\<forall>i \<in> set calls. tc_name (ga_calls g i) \<notin> set SEMANTIC_DEDUP_TOOLS"
  shows "semantic_dedup jl casefold calls g =
    Some (concat (map (\<lambda>n. filter (\<lambda>j. tc_name (call_of g j) = n) calls) (first_names g calls)), g)"
proof -
  have "fst ` set gs \<inter> set SEMANTIC_DEDUP_TOOLS = {} \<Longrightarrow> semantic_groups jl casefold gs g = Some (concat (map snd gs), g)" for gs
    by (induction gs) auto
  moreover have "fst ` set (group_by_name g calls) \<inter> set SEMANTIC_DEDUP_TOOLS = {}"
    using assms(2) first_names(2) [of g calls] by (auto simp: group_by_name)
  ultimately show ?thesis
    using assms(1) by (simp add: semantic_dedup_def group_by_name comp_def call_of_def)
qed

lemma semantic_dedup_regroups_witness:
  "semantic_dedup plain_lib id [0, 1, 2]
     (example_gate [example_call ''a'' ''file_write'' ''x'', example_call ''b'' ''bash'' ''y'', example_call ''c'' ''file_write'' ''z''])
   = Some ([0, 2, 1],
     example_gate [example_call ''a'' ''file_write'' ''x'', example_call ''b'' ''bash'' ''y'', example_call ''c'' ''file_write'' ''z''])"
proof -
  let ?g = "example_gate [example_call ''a'' ''file_write'' ''x'', example_call ''b'' ''bash'' ''y'', example_call ''c'' ''file_write'' ''z'']"
  have "concat (map (\<lambda>n. filter (\<lambda>j. tc_name (call_of ?g j) = n) [0, 1, 2]) (first_names ?g [0, 1, 2])) = [0, 2, 1]"
    by code_simp
  then show ?thesis
    using semantic_dedup_regroups [of "[0, 1, 2]" ?g plain_lib id]
    by (simp add: example_gate_def example_call_def SEMANTIC_DEDUP_TOOLS_def)
qed

text \<open>Two \<open>call_model\<close> calls whose different argument texts are JSON but not objects raise in the
  gate: the comparison reads them as dicts, before the check that would have answered each of them
  with an error the model can repair.\<close>

theorem non_objects_raise_in_semantic_dedup:
  assumes "i \<noteq> j" "tc_name (ga_calls g i) = ''call_model''" "tc_name (ga_calls g j) = ''call_model''"
    and "tc_args (ga_calls g i) = Args_Text s" "tc_args (ga_calls g j) = Args_Text t"
    and "py_strip t \<noteq> []" "jl_loads jl t = Some (JArr vs)"
    and "call_key jl ''call_model'' (Args_Text s) \<noteq> call_key jl ''call_model'' (Args_Text t)" "ga_cross g = []"
  shows "admit jl casefold reg active [i, j] g = None"
proof -
  let ?g = "start_round [i, j] g"
  have c: "ga_calls ?g = ga_calls g" "ga_cross ?g = []" by (simp_all add: start_round_def assms)
  have n: "py_strip ''call_model'' \<noteq> ''use_tool''" by code_simp
  have "unwrap_use_tool jl [i, j] ?g = ([i, j], ?g)"
    using assms(2,3) n by (simp add: unwrap_use_tool_def unwrap_one_def call_of_def c)
  moreover have "dedup jl reg [i, j] ?g = ([i, j], ?g)"
    using assms by (simp add: dedup_def dedup_one_def call_of_def c Let_def)
  moreover have "near_duplicate_of jl casefold (ga_calls g) j [i] = None"
    using assms by (auto simp: parse_args_dict_def split: option.splits)
  then have "semantic_dedup jl casefold [i, j] ?g = None"
    using assms by (simp add: semantic_dedup_def call_of_def c Let_def SEMANTIC_DEDUP_TOOLS_def)
  ultimately show ?thesis by (simp add: admit_def)
qed

definition list_lib :: json_lib where
  "list_lib = plain_lib\<lparr>jl_loads := (\<lambda>_. Some (JArr []))\<rparr>"

lemma non_objects_raise_in_semantic_dedup_witness:
  "admit list_lib id no_tools [] [0, 1] (example_gate [example_call ''a'' ''call_model'' ''[]'', example_call ''b'' ''call_model'' ''[ ]'']) = None"
proof -
  have "call_key list_lib ''call_model'' (Args_Text ''[]'') \<noteq> call_key list_lib ''call_model'' (Args_Text ''[ ]'')"
    "py_strip ''[ ]'' \<noteq> []"
    by code_simp+
  then show ?thesis
    using non_objects_raise_in_semantic_dedup [of 0 1
        "example_gate [example_call ''a'' ''call_model'' ''[]'', example_call ''b'' ''call_model'' ''[ ]'']" "''[]''" "''[ ]''" list_lib "[]"]
    by (simp add: example_gate_def example_call_def list_lib_def)
qed

end
