(* ===== verification/Tool_Exec.thy ===== *)
theory Tool_Exec
  imports Tool_Gate
begin

text \<open>
  The executor of \<open>core/tools/executor.py\<close> with \<open>execute_sync\<close> of \<open>core/tools/registry.py\<close>: the policy
  guards before a call, what becomes of a dispatch, how its result is classified and booked, and the
  order of a round.  The bodies of tools are not modelled: what a dispatch comes to is a script.
  Texts of messages end where the source has a dash.
\<close>

section \<open>Results and their classes\<close>

type_synonym metadata = "(string \<times> json) list"

record exec_result =
  er_tool :: string
  er_content :: string
  er_error :: bool
  er_latency :: nat
  er_meta :: metadata

definition meta_flag :: "string \<Rightarrow> metadata \<Rightarrow> bool" where
  "meta_flag k m = (case map_of m k of None \<Rightarrow> False | Some v \<Rightarrow> truthy v)"

definition REFUSAL_MARKER :: string where "REFUSAL_MARKER = ''refused''"
definition UNAVAILABLE_MARKER :: string where "UNAVAILABLE_MARKER = ''unavailable''"
definition UNAVAILABLE_PREFIX :: string where "UNAVAILABLE_PREFIX = ''[unavailable]''"
definition MISS_MARKER :: string where "MISS_MARKER = ''miss''"
definition MISS_PREFIX :: string where "MISS_PREFIX = ''[miss]''"
definition COMMAND_FAILED_MARKER :: string where "COMMAND_FAILED_MARKER = ''command_failed''"
definition OUTCOME_KEY :: string where "OUTCOME_KEY = ''was_error''"

definition REFUSAL_CONTENT_HINTS :: "string list" where
  "REFUSAL_CONTENT_HINTS = [''is not permitted in this scheduled run'', ''is disabled for this retry attempt'',
     ''cannot be used in'', ''requires explicit user approval'', ''The approved scope ('',
     ''is disabled. Enable it in Explorer'']"

definition is_command_failure :: "exec_result \<Rightarrow> bool" where
  "is_command_failure r = meta_flag COMMAND_FAILED_MARKER (er_meta r)"

definition is_miss :: "exec_result \<Rightarrow> bool" where
  "is_miss r \<longleftrightarrow> meta_flag MISS_MARKER (er_meta r) \<or> starts_with MISS_PREFIX (er_content r)"

definition is_unavailable :: "exec_result \<Rightarrow> bool" where
  "is_unavailable r \<longleftrightarrow> meta_flag UNAVAILABLE_MARKER (er_meta r) \<or> starts_with UNAVAILABLE_PREFIX (er_content r)"

definition is_policy_refusal :: "exec_result \<Rightarrow> bool" where
  "is_policy_refusal r \<longleftrightarrow> er_error r \<and> (meta_flag REFUSAL_MARKER (er_meta r)
     \<or> starts_with ''Error:'' (er_content r) \<and> list_ex (\<lambda>h. has_sub h (er_content r)) REFUSAL_CONTENT_HINTS)"

definition is_failure_verdict :: "string \<Rightarrow> bool" where
  "is_failure_verdict s \<longleftrightarrow> list_ex (\<lambda>p. starts_with p s) [''NOT SAVED'', ''NOT UPDATED'', ''NOT DELETED'']
     \<and> \<not> has_sub ''duplicate of'' (take 200 s)"

section \<open>Time limits\<close>

definition DISPATCH_TIMEOUT_GRACE_S :: int where "DISPATCH_TIMEOUT_GRACE_S = 5"
definition QUEUE_WAIT_CEILING_S :: int where "QUEUE_WAIT_CEILING_S = 300"

text \<open>\<open>int(x)\<close> of a value that is not false; the infinite float that overflows is not a value here.\<close>

definition int_text :: "string \<Rightarrow> int option" where
  "int_text s =
     (let t = py_strip s;
          (neg, ds) = (case t of c # cs \<Rightarrow> if c = CHR ''-'' then (True, cs) else if c = CHR ''+'' then (False, cs) else (False, t)
                       | [] \<Rightarrow> (False, []));
          groups = split_on (CHR ''_'') ds
      in if list_ex (\<lambda>g. g = []) groups then None
         else py_int ((if neg then ''-'' else []) @ concat groups))"

definition int_of :: "json \<Rightarrow> int option" where
  "int_of v = (case v of
       JBool b \<Rightarrow> Some (if b then 1 else 0)
     | JInt i \<Rightarrow> Some i
     | JFloat r \<Rightarrow> Some (if 0 \<le> r then \<lfloor>r\<rfloor> else \<lceil>r\<rceil>)
     | JStr s \<Rightarrow> int_text s
     | _ \<Rightarrow> None)"

definition resolve_timeout :: "tool_def \<Rightarrow> (string \<times> json) list \<Rightarrow> int" where
  "resolve_timeout t args =
     (let base = int (td_timeout t); ceiling' = td_max_timeout t in
      if ceiling' \<le> 0 then base + DISPATCH_TIMEOUT_GRACE_S
      else
        let requested = (case map_of args ''timeout'' of None \<Rightarrow> 0
              | Some v \<Rightarrow> if truthy v then (case int_of v of None \<Rightarrow> 0 | Some i \<Rightarrow> i) else 0)
        in if requested \<le> 0 then base + DISPATCH_TIMEOUT_GRACE_S
           else min (max requested base) ceiling' + DISPATCH_TIMEOUT_GRACE_S)"

type_synonym call = "string \<times> (string \<times> json) list"

definition batch_timeout :: "int \<Rightarrow> registry \<Rightarrow> call list \<Rightarrow> nat list \<Rightarrow> int" where
  "batch_timeout tool_timeout reg calls idx =
     (let slowest = foldl (\<lambda>m i. case rg_tools reg (fst (calls ! i)) of None \<Rightarrow> m
            | Some t \<Rightarrow> max m (resolve_timeout t (snd (calls ! i)))) 0 idx
      in QUEUE_WAIT_CEILING_S + max tool_timeout slowest + DISPATCH_TIMEOUT_GRACE_S)"

section \<open>What the executor reads and writes\<close>

record approval =
  ap_scope :: string
  ap_persistent :: bool

record exec_session =
  xs_type :: string
  xs_parent :: string
  xs_allow :: "string list"
  xs_excluded :: "string list"
  xs_approvals :: "(string \<times> approval) list"
  xs_cancel :: bool

record health =
  hm_calls :: nat
  hm_success :: nat
  hm_failure :: nat
  hm_timeout :: nat
  hm_latency :: nat
  hm_error :: string

definition new_health :: health where
  "new_health = \<lparr>hm_calls = 0, hm_success = 0, hm_failure = 0, hm_timeout = 0, hm_latency = 0, hm_error = []\<rparr>"

definition record_success :: "nat \<Rightarrow> health \<Rightarrow> health" where
  "record_success ms h = h\<lparr>hm_calls := hm_calls h + 1, hm_success := hm_success h + 1, hm_latency := hm_latency h + ms\<rparr>"

definition record_failure :: "string \<Rightarrow> nat \<Rightarrow> health \<Rightarrow> health" where
  "record_failure e ms h = h\<lparr>hm_calls := hm_calls h + 1, hm_failure := hm_failure h + 1, hm_latency := hm_latency h + ms, hm_error := e\<rparr>"

definition record_timeout :: "nat \<Rightarrow> health \<Rightarrow> health" where
  "record_timeout ms h = h\<lparr>hm_calls := hm_calls h + 1, hm_timeout := hm_timeout h + 1, hm_latency := hm_latency h + ms, hm_error := ''timeout''\<rparr>"

text \<open>\<open>ex_entered\<close> logs the calls that got into a tool, \<open>ex_credits\<close> the budget floors asked for.\<close>

record exec_state =
  ex_sessions :: "string \<rightharpoonup> exec_session"
  ex_health :: "string \<Rightarrow> health"
  ex_entered :: "(string \<times> (string \<times> json) list) list"
  ex_credits :: "(string \<times> nat) list"

definition session_of :: "exec_state \<Rightarrow> string \<Rightarrow> exec_session option" where
  "session_of st sid = (if sid = [] then None else ex_sessions st sid)"

definition session_cancel_requested :: "exec_state \<Rightarrow> string \<Rightarrow> bool" where
  "session_cancel_requested st sid = (case session_of st sid of None \<Rightarrow> False | Some s \<Rightarrow> xs_cancel s)"

section \<open>Policy\<close>

definition UNATTENDED_TYPES :: "string list" where "UNATTENDED_TYPES = [''cron'', ''canary'']"

definition is_unattended_session :: "exec_state \<Rightarrow> string \<Rightarrow> bool" where
  "is_unattended_session st sid =
     (case session_of st sid of
        None \<Rightarrow> False
      | Some s \<Rightarrow>
          xs_type s \<in> set UNATTENDED_TYPES
          \<or> xs_type s = ''worker'' \<and> xs_parent s \<noteq> []
              \<and> (case ex_sessions st (xs_parent s) of None \<Rightarrow> False | Some p \<Rightarrow> xs_type p \<in> set UNATTENDED_TYPES)
          \<or> xs_allow s \<noteq> [] \<and> ''ask_user'' \<notin> set (xs_allow s))"

text \<open>The arguments a single-use approval does not mention.\<close>

definition scope_text :: "string \<Rightarrow> string" where
  "scope_text s = join_with '' '' (py_words (py_lower s))"

definition uncovered :: "string \<Rightarrow> (string \<times> json) list \<Rightarrow> string list" where
  "uncovered scope args = map fst (filter (\<lambda>(k, v). case v of
       JStr s \<Rightarrow> 4 \<le> length (py_strip s) \<and> \<not> has_sub (scope_text s) (scope_text scope)
     | _ \<Rightarrow> False) args)"

datatype guard =
    Tool_Disabled
  | Retry_Excluded
  | Not_Permitted "string list"
  | Denied_Type string
  | Scope_Uncovered string "string list"
  | Approval_Required

text \<open>The approval of a dangerous call; one that is not persistent is spent here.\<close>

definition spend_approval :: "string \<Rightarrow> string \<Rightarrow> exec_session \<Rightarrow> exec_state \<Rightarrow> exec_state" where
  "spend_approval sid name s st =
     st\<lparr>ex_sessions := (ex_sessions st)(sid \<mapsto> s\<lparr>xs_approvals := dict_pop name (xs_approvals s)\<rparr>)\<rparr>"

definition dangerous_gate ::
    "bool \<Rightarrow> string \<Rightarrow> string \<Rightarrow> (string \<times> json) list \<Rightarrow> exec_state \<Rightarrow> guard option \<times> exec_state" where
  "dangerous_gate auto sid name args st =
     (if auto \<or> is_unattended_session st sid then (None, st)
      else (case session_of st sid of
          None \<Rightarrow> (Some Approval_Required, st)
        | Some s \<Rightarrow> (case map_of (xs_approvals s) name of
            None \<Rightarrow> (Some Approval_Required, st)
          | Some ap \<Rightarrow>
              if ap_persistent ap then (None, st)
              else if uncovered (ap_scope ap) args \<noteq> []
              then (Some (Scope_Uncovered (ap_scope ap) (sort (uncovered (ap_scope ap) args))), st)
              else (None, spend_approval sid name s st))))"

definition policy_guard ::
    "bool \<Rightarrow> registry \<Rightarrow> tool_def \<Rightarrow> string \<Rightarrow> string \<Rightarrow> (string \<times> json) list \<Rightarrow> exec_state \<Rightarrow> guard option \<times> exec_state" where
  "policy_guard auto reg t sid name args st =
     (let s = session_of st sid;
          stype = (case s of None \<Rightarrow> [] | Some x \<Rightarrow> xs_type x);
          excluded = (case s of None \<Rightarrow> [] | Some x \<Rightarrow> xs_excluded x);
          allow = (case s of None \<Rightarrow> [] | Some x \<Rightarrow> xs_allow x)
      in if name \<in> rg_disabled reg then (Some Tool_Disabled, st)
         else if name \<in> set excluded then (Some Retry_Excluded, st)
         else if allow \<noteq> [] \<and> name \<notin> set allow then (Some (Not_Permitted (sort allow)), st)
         else if stype \<noteq> [] \<and> stype \<in> td_denied_types t then (Some (Denied_Type stype), st)
         else if td_safety t = ''dangerous'' then dangerous_gate auto sid name args st
         else (None, st))"

definition quoted :: "string \<Rightarrow> string" where "quoted s = CHR 0x27 # s @ [CHR 0x27]"

definition guard_text :: "string \<Rightarrow> guard \<Rightarrow> string" where
  "guard_text name g = ''Error: '' @ (case g of
       Tool_Disabled \<Rightarrow> ''Tool '' @ quoted name @ '' is disabled. Enable it in Explorer > Tools before use.''
     | Retry_Excluded \<Rightarrow> ''Tool '' @ quoted name @ '' is disabled for this retry attempt''
     | Not_Permitted allow \<Rightarrow> ''Tool '' @ quoted name @ '' is not permitted in this constrained session''
     | Denied_Type t \<Rightarrow> ''Tool '' @ quoted name @ '' cannot be used in '' @ t @ '' sessions.''
     | Scope_Uncovered scope ks \<Rightarrow> ''The approved scope ('' @ quoted scope @ '') does not mention the value(s) of argument(s) ''
         @ join_with '', '' ks @ '' in this call.''
     | Approval_Required \<Rightarrow> ''Tool '' @ quoted name @ '' requires explicit user approval for this specific call.'')"

text \<open>The first four refusals carry the marker; the approval gate's are known by their text.\<close>

definition guard_result :: "string \<Rightarrow> guard \<Rightarrow> exec_result" where
  "guard_result name g = \<lparr>er_tool = name, er_content = guard_text name g, er_error = True, er_latency = 0,
     er_meta = (case g of Scope_Uncovered _ _ \<Rightarrow> [] | Approval_Required \<Rightarrow> [] | _ \<Rightarrow> [(REFUSAL_MARKER, JBool True)])\<rparr>"

section \<open>One call\<close>

text \<open>What the function of a tool does: it returns a text, nothing, or a pair with metadata, or raises;
  a \<open>TypeError\<close> comes with the text of the parameters the function requires.\<close>

datatype returned =
    Ret_Text string
  | Ret_None
  | Ret_Pair "string option" metadata
  | Raise_Type_Error string string
  | Raise_Other string

text \<open>Only parameters the function has are passed, unless it takes any.\<close>

definition call_arguments :: "string list \<times> bool \<Rightarrow> (string \<times> json) list \<Rightarrow> (string \<times> json) list" where
  "call_arguments = (\<lambda>(params, any_kw) args. if any_kw then args else filter (\<lambda>(k, _). k \<in> set params) args)"

definition execute_sync :: "registry \<Rightarrow> string \<Rightarrow> returned \<Rightarrow> string \<times> metadata option" where
  "execute_sync reg name ret =
     (if \<not> reg_exists reg name then (''Error: Unknown tool '' @ quoted name @ ''. Use lookup to find available tools.'', None)
      else if name \<in> rg_disabled reg then (''Error: Tool '' @ quoted name @ '' is currently disabled.'', None)
      else (case ret of
          Ret_Text s \<Rightarrow> (s, None)
        | Ret_None \<Rightarrow> (''Error: Tool '' @ quoted name @ '' returned no output'', None)
        | Ret_Pair None m \<Rightarrow> (''Error: Tool '' @ quoted name @ '' returned no output'', Some m)
        | Ret_Pair (Some s) m \<Rightarrow> (s, Some m)
        | Raise_Type_Error e expected \<Rightarrow>
            (''Error calling '' @ quoted name @ '': '' @ e @ ''. Required parameters: '' @ expected @ ''.'', None)
        | Raise_Other e \<Rightarrow> (''Error: '' @ e, None)))"

definition on_health :: "string \<Rightarrow> (health \<Rightarrow> health) \<Rightarrow> exec_state \<Rightarrow> exec_state" where
  "on_health name f st = st\<lparr>ex_health := (ex_health st)(name := f (ex_health st name))\<rparr>"

text \<open>Classification of what came back: a declared outcome wins over the guess from the text.\<close>

definition settle_return ::
    "string \<Rightarrow> nat \<Rightarrow> string \<times> metadata option \<Rightarrow> exec_state \<Rightarrow> exec_result \<times> exec_state" where
  "settle_return name ms raw st =
     (let result = fst raw;
          meta = (case snd raw of None \<Rightarrow> [] | Some m \<Rightarrow> m);
          unavailable = starts_with UNAVAILABLE_PREFIX result;
          miss = starts_with MISS_PREFIX result;
          command_failed = meta_flag COMMAND_FAILED_MARKER meta;
          was_error = (case map_of meta OUTCOME_KEY of
              Some (JBool b) \<Rightarrow> miss \<or> b
            | _ \<Rightarrow> miss \<or> (\<not> unavailable \<and> (result = [] \<or> starts_with ''Error:'' result \<or> is_failure_verdict result)));
          (meta', st') =
            (if unavailable then (dict_set UNAVAILABLE_MARKER (JBool True) meta, st)
             else if miss then (dict_set MISS_MARKER (JBool True) meta, st)
             else if was_error \<and> \<not> command_failed then (meta, on_health name (record_failure result ms) st)
             else (meta, on_health name (record_success ms) st))
      in (\<lparr>er_tool = name, er_content = result, er_error = was_error, er_latency = ms, er_meta = meta'\<rparr>, st'))"

definition LONG_CALL_CREDIT_THRESHOLD_MS :: nat where "LONG_CALL_CREDIT_THRESHOLD_MS = 30000"
definition LONG_CALL_MIN_REMAINING_S :: nat where "LONG_CALL_MIN_REMAINING_S = 600"

definition credit_long_call :: "string \<Rightarrow> nat \<Rightarrow> exec_state \<Rightarrow> exec_state" where
  "credit_long_call sid ms st =
     (if ms < LONG_CALL_CREDIT_THRESHOLD_MS \<or> sid = [] then st
      else st\<lparr>ex_credits := ex_credits st @ [(sid, LONG_CALL_MIN_REMAINING_S)]\<rparr>)"

text \<open>What becomes of a dispatch: no thread in time, a thread that saw the stop before it entered the
  tool, a return, a timeout, a cancellation (was the tool running), another exception.\<close>

datatype dispatch_end =
    Pool_Saturated
  | Stopped_In_Queue
  | Returned returned
  | Timed_Out
  | Cancelled_Then bool
  | Broke string

definition failed_result :: "string \<Rightarrow> string \<Rightarrow> nat \<Rightarrow> exec_result" where
  "failed_result name text' ms = \<lparr>er_tool = name, er_content = text', er_error = True, er_latency = ms, er_meta = []\<rparr>"

definition dispatch ::
    "registry \<Rightarrow> (string \<Rightarrow> string list \<times> bool) \<Rightarrow> tool_def \<Rightarrow> string \<Rightarrow> string \<Rightarrow> (string \<times> json) list
      \<Rightarrow> dispatch_end \<times> nat \<Rightarrow> exec_state \<Rightarrow> exec_result option \<times> exec_state" where
  "dispatch reg sigs t sid name args = (\<lambda>(ending, ms) st.
     let entered = st\<lparr>ex_entered := ex_entered st @ [(name, call_arguments (sigs name) args)]\<rparr> in
     case ending of
       Pool_Saturated \<Rightarrow>
         (Some (failed_result name (''Error: Tool '' @ quoted name @ '' never started'') ms),
          on_health name (record_timeout ms) st)
     | Stopped_In_Queue \<Rightarrow> (None, st)
     | Returned ret \<Rightarrow>
         (let (r, st1) = settle_return name ms (execute_sync reg name ret) entered in (Some r, credit_long_call sid ms st1))
     | Timed_Out \<Rightarrow>
         (Some (failed_result name (''Error: Tool '' @ quoted name @ '' timed out'') ms),
          credit_long_call sid ms (on_health name (record_timeout ms) entered))
     | Cancelled_Then running \<Rightarrow>
         (None, if running then on_health name (record_failure ''cancelled'' ms) entered else st)
     | Broke e \<Rightarrow> (Some (failed_result name (''Error: '' @ e) ms), on_health name (record_failure e ms) st))"

text \<open>The result is \<^const>\<open>None\<close> when the cancellation is passed on.\<close>

definition execute_single ::
    "bool \<Rightarrow> registry \<Rightarrow> (string \<Rightarrow> string list \<times> bool) \<Rightarrow> string \<Rightarrow> call \<Rightarrow> dispatch_end \<times> nat \<Rightarrow> exec_state
      \<Rightarrow> exec_result option \<times> exec_state" where
  "execute_single auto reg sigs sid = (\<lambda>(name, args) ending st.
     case rg_tools reg name of
       None \<Rightarrow> (Some (failed_result name (''Error: Unknown tool '' @ quoted name
                 @ ''. Use discover_tools to find available tools.'') 0), st)
     | Some t \<Rightarrow> (case policy_guard auto reg t sid name args st of
         (Some g, st1) \<Rightarrow> (Some (guard_result name g), st1)
       | (None, st1) \<Rightarrow> dispatch reg sigs t sid name args ending st1))"

section \<open>A round\<close>

definition parallel_safe :: "registry \<Rightarrow> call \<Rightarrow> bool" where
  "parallel_safe reg c = (case rg_tools reg (fst c) of None \<Rightarrow> False | Some t \<Rightarrow> td_parallel_safe t)"

text \<open>The slots of the results: all are awaited before a cancellation among them is passed on.\<close>

fun run_parallel ::
    "(nat \<Rightarrow> exec_state \<Rightarrow> exec_result option \<times> exec_state) \<Rightarrow> nat list \<Rightarrow> exec_result option list \<times> bool \<times> exec_state
      \<Rightarrow> exec_result option list \<times> bool \<times> exec_state" where
  "run_parallel run [] s = s"
| "run_parallel run (i # is) (rs, stopped, st) =
     (case run i st of
        (None, st') \<Rightarrow> run_parallel run is (rs, True, st')
      | (Some r, st') \<Rightarrow> run_parallel run is (rs[i := Some r], stopped, st'))"

text \<open>The sequential calls, with what a stop does to the session before each.\<close>

fun run_sequential ::
    "(nat \<Rightarrow> exec_state \<Rightarrow> exec_result option \<times> exec_state) \<Rightarrow> (nat \<Rightarrow> exec_state \<Rightarrow> exec_state) \<Rightarrow> string \<Rightarrow> nat list
      \<Rightarrow> exec_result option list \<times> exec_state \<Rightarrow> exec_result option list option \<times> exec_state" where
  "run_sequential run outside' sid [] (rs, st) = (Some rs, st)"
| "run_sequential run outside' sid (i # is) (rs, st) =
     (let st0 = outside' i st in
      if session_cancel_requested st0 sid then (None, st0)
      else (case run i st0 of
          (None, st1) \<Rightarrow> (None, st1)
        | (Some r, st1) \<Rightarrow> run_sequential run outside' sid is (rs[i := Some r], st1)))"

definition execute_tool_round ::
    "bool \<Rightarrow> registry \<Rightarrow> (string \<Rightarrow> string list \<times> bool) \<Rightarrow> string \<Rightarrow> (nat \<Rightarrow> dispatch_end \<times> nat)
      \<Rightarrow> (nat \<Rightarrow> exec_state \<Rightarrow> exec_state) \<Rightarrow> call list \<Rightarrow> exec_state \<Rightarrow> exec_result list option \<times> exec_state" where
  "execute_tool_round auto reg sigs sid endings outside' calls st =
     (let run = (\<lambda>i. execute_single auto reg sigs sid (calls ! i) (endings i));
          par = filter (\<lambda>i. parallel_safe reg (calls ! i)) [0..<length calls];
          seq' = filter (\<lambda>i. \<not> parallel_safe reg (calls ! i)) [0..<length calls];
          (rs, stopped, st1) = run_parallel run par (replicate (length calls) None, False, st)
      in if stopped then (None, st1)
         else (case run_sequential run outside' sid seq' (rs, st1) of
             (None, st2) \<Rightarrow> (None, st2)
           | (Some rs2, st2) \<Rightarrow> (Some (List.map_filter id rs2), st2)))"

section \<open>Large results\<close>

definition BINDING_EXCLUDED :: "string list" where
  "BINDING_EXCLUDED = [''repl'', ''rlm_process'', ''ask_user'', ''notify_user'', ''notify_parent'', ''load_skill'',
     ''read_skill_instructions'', ''read_skill_resource'', ''discover_tools'', ''get_worker_result'', ''get_worker_transcript'']"

definition BIND_HEAD_CHARS :: nat where "BIND_HEAD_CHARS = 2000"
definition BIND_TAIL_CHARS :: nat where "BIND_TAIL_CHARS = 800"

text \<open>Digits in groups of three.\<close>

fun commas_rev :: "string \<Rightarrow> string" where
  "commas_rev (a # b # c # d # ds) = a # b # c # CHR '','' # commas_rev (d # ds)"
| "commas_rev ds = ds"

definition grouped :: "nat \<Rightarrow> string" where "grouped n = rev (commas_rev (rev (dec n)))"

text \<open>\<open>bind\<close> is the kernel: the variable and the file, or an exception.  The ellipses are three dots.\<close>

definition bind_stub :: "string \<Rightarrow> string \<Rightarrow> string \<Rightarrow> string \<Rightarrow> string" where
  "bind_stub content label var path =
     take BIND_HEAD_CHARS content @ [CHR 0x0A] @ ''... ['' @ grouped (length content)
     @ '' chars total ... middle omitted] ...'' @ [CHR 0x0A] @ last_chars BIND_TAIL_CHARS content @ [CHR 0x0A]
     @ ''['' @ label @ '' bound as `'' @ var @ ''` in the session kernel (durable copy: '' @ path
     @ ''). Slice/search it with the repl tool instead of re-reading, e.g. repl(code='' @ [CHR 0x22] @ ''print('' @ var
     @ ''[:1000])'' @ [CHR 0x22] @ '').]''"

definition bind_one :: "nat \<Rightarrow> (string \<times> string) option \<Rightarrow> string \<Rightarrow> exec_result \<Rightarrow> exec_result" where
  "bind_one threshold bound tool r =
     (if tool \<in> set BINDING_EXCLUDED \<or> er_error r \<or> length (er_content r) \<le> threshold then r
      else (case bound of
          None \<Rightarrow> r
        | Some (var, path) \<Rightarrow>
            let label = (if meta_flag ''truncated'' (er_meta r) then ''result preview'' else ''full result'') in
            r\<lparr>er_meta := dict_set ''orig_chars'' (JInt (int (length (er_content r))))
                (dict_set ''payload_path'' (JStr path) (dict_set ''bound_var'' (JStr var) (er_meta r))),
              er_content := bind_stub (er_content r) label var path\<rparr>))"

definition bind_large_results ::
    "bool \<Rightarrow> int \<Rightarrow> string \<Rightarrow> (nat \<Rightarrow> (string \<times> string) option) \<Rightarrow> call list \<Rightarrow> exec_result list \<Rightarrow> exec_result list" where
  "bind_large_results enabled threshold sid binds calls rs =
     (if \<not> enabled \<or> sid = [] \<or> threshold \<le> 0 then rs
      else map (\<lambda>i. if i < length calls then bind_one (nat threshold) (binds i) (fst (calls ! i)) (rs ! i) else rs ! i) [0..<length rs])"

end
