(* ===== verification/Tool_Exec_Proofs.thy ===== *)
theory Tool_Exec_Proofs
  imports Tool_Exec "HOL-Library.Sublist"
begin

text \<open>
  The executor: time limits that do not overtake each other, refusals that leave no trace, approvals
  that are spent once, results in the order of the calls, and books that add up.
\<close>

section \<open>Time limits\<close>

lemma resolve_timeout_ge: "int (td_timeout t) \<le> td_max_timeout t \<or> td_max_timeout t \<le> 0 \<Longrightarrow>
    int (td_timeout t) + DISPATCH_TIMEOUT_GRACE_S \<le> resolve_timeout t args"
  by (auto simp: resolve_timeout_def Let_def)

lemma foldl_max_ge:
  fixes f :: "nat \<Rightarrow> int"
  shows "m \<le> foldl (\<lambda>m i. max m (f i)) m is" "i \<in> set is \<Longrightarrow> f i \<le> foldl (\<lambda>m i. max m (f i)) m is"
proof (induction "is" arbitrary: m)
  case (Cons j js)
  { case 1 show ?case using Cons.IH(1) [of "max m (f j)"] by simp }
  { case 2 then show ?case using Cons.IH(1) [of "max m (f j)"] Cons.IH(2) [of "max m (f j)"] by auto }
qed simp_all

text \<open>The limits do not overtake each other. A call gets its tool's time and the grace, or what it
  asks for between that and the tool's ceiling, never more than the greater of the two and the grace;
  and the backstop of a batch of parallel calls is later than the worst case of each of them, the wait
  for a thread included.\<close>

theorem time_limits_nest:
  assumes "i \<in> set idx" "rg_tools reg (fst (calls ! i)) = Some t"
  shows "resolve_timeout t (snd (calls ! i)) \<le> max (int (td_timeout t)) (td_max_timeout t) + DISPATCH_TIMEOUT_GRACE_S
    \<and> min (int (td_timeout t)) (if td_max_timeout t \<le> 0 then int (td_timeout t) else td_max_timeout t) + DISPATCH_TIMEOUT_GRACE_S
        \<le> resolve_timeout t (snd (calls ! i))
    \<and> QUEUE_WAIT_CEILING_S + resolve_timeout t (snd (calls ! i)) < batch_timeout tool_timeout reg calls idx"
proof -
  let ?f = "\<lambda>i. case rg_tools reg (fst (calls ! i)) of None \<Rightarrow> 0 | Some t \<Rightarrow> resolve_timeout t (snd (calls ! i))"
  have pos: "0 \<le> m \<Longrightarrow> foldl (\<lambda>m i. case rg_tools reg (fst (calls ! i)) of None \<Rightarrow> m
      | Some t \<Rightarrow> max m (resolve_timeout t (snd (calls ! i)))) m idx = foldl (\<lambda>m i. max m (?f i)) m idx" for m
    by (induction idx arbitrary: m) (auto simp: max_absorb1 split: option.splits)
  have "resolve_timeout t (snd (calls ! i)) \<le> foldl (\<lambda>m i. max m (?f i)) 0 idx"
    using foldl_max_ge(2) [OF assms(1), of ?f 0] assms(2) by simp
  then have "QUEUE_WAIT_CEILING_S + resolve_timeout t (snd (calls ! i)) < batch_timeout tool_timeout reg calls idx"
    by (simp add: batch_timeout_def Let_def pos DISPATCH_TIMEOUT_GRACE_S_def)
  moreover have "resolve_timeout t args \<le> max (int (td_timeout t)) (td_max_timeout t) + DISPATCH_TIMEOUT_GRACE_S" for args
    by (auto simp: resolve_timeout_def Let_def)
  moreover have "min (int (td_timeout t)) (if td_max_timeout t \<le> 0 then int (td_timeout t) else td_max_timeout t)
      + DISPATCH_TIMEOUT_GRACE_S \<le> resolve_timeout t args" for args
    by (auto simp: resolve_timeout_def Let_def)
  ultimately show ?thesis by blast
qed

lemma time_limits_nest_witness:
  "QUEUE_WAIT_CEILING_S + resolve_timeout plain_tool [(''timeout'', JInt 900)]
     < batch_timeout 300 (no_tools\<lparr>rg_tools := [''bash'' \<mapsto> plain_tool]\<rparr>) [(''bash'', [(''timeout'', JInt 900)])] [0]"
  using time_limits_nest [of 0 "[0]" "no_tools\<lparr>rg_tools := [''bash'' \<mapsto> plain_tool]\<rparr>" "[(''bash'', [(''timeout'', JInt 900)])]" plain_tool 300]
  by simp

section \<open>Policy\<close>

text \<open>A refusal says so and leaves no trace. A call that a guard refuses is an error that the
  accounting recognizes as a refusal of policy; no tool is entered, no health metric moves, no
  approval is spent.\<close>

theorem refusal_leaves_no_trace:
  assumes "rg_tools reg name = Some t" "policy_guard auto reg t sid name args st = (Some g, st')"
  shows "execute_single auto reg sigs sid (name, args) ending st = (Some (guard_result name g), st)
    \<and> is_policy_refusal (guard_result name g)"
proof -
  have "st' = st" using assms(2)
    by (auto simp: policy_guard_def dangerous_gate_def Let_def split: if_splits option.splits)
  moreover have "is_policy_refusal (guard_result name g)"
  proof (cases g)
    case (Scope_Uncovered scope ks)
    have "starts_with ''Error:'' (guard_text name g)" "has_sub ''The approved scope ('' (guard_text name g)"
      unfolding guard_text_def Scope_Uncovered guard.case by (auto simp: starts_with_def has_sub_iff intro: exI [of _ "''Error: ''"])
    then show ?thesis unfolding is_policy_refusal_def Scope_Uncovered
      by (simp add: guard_result_def REFUSAL_CONTENT_HINTS_def)
  next
    case Approval_Required
    have "starts_with ''Error:'' (guard_text name g)" "has_sub ''requires explicit user approval'' (guard_text name g)"
      unfolding guard_text_def Approval_Required guard.case
       apply (simp add: starts_with_def)
      unfolding has_sub_iff
      by (rule exI [of _ "''Error: '' @ ''Tool '' @ quoted name @ '' ''"], rule exI [of _ "'' for this specific call.''"]) simp
    then show ?thesis unfolding is_policy_refusal_def Approval_Required
      by (simp add: guard_result_def REFUSAL_CONTENT_HINTS_def)
  qed (simp_all add: is_policy_refusal_def guard_result_def meta_flag_def)
  ultimately show ?thesis using assms by (simp add: execute_single_def)
qed

text \<open>A tool a scheduled job may not use.\<close>

definition exec_with :: "(string \<rightharpoonup> exec_session) \<Rightarrow> exec_state" where
  "exec_with ss = \<lparr>ex_sessions = ss, ex_health = (\<lambda>_. new_health), ex_entered = [], ex_credits = []\<rparr>"

definition job_session :: exec_session where
  "job_session = \<lparr>xs_type = ''cron'', xs_parent = [], xs_allow = [''glob''], xs_excluded = [], xs_approvals = [], xs_cancel = False\<rparr>"

lemma refusal_leaves_no_trace_witness:
  "fst (execute_single False (no_tools\<lparr>rg_tools := [''bash'' \<mapsto> plain_tool]\<rparr>) (\<lambda>_. ([], True)) ''s'' (''bash'', []) (Timed_Out, 0)
     (exec_with [''s'' \<mapsto> job_session])) = Some (guard_result ''bash'' (Not_Permitted [''glob'']))"
proof -
  have "policy_guard False (no_tools\<lparr>rg_tools := [''bash'' \<mapsto> plain_tool]\<rparr>) plain_tool ''s'' ''bash'' []
      (exec_with [''s'' \<mapsto> job_session]) = (Some (Not_Permitted [''glob'']), exec_with [''s'' \<mapsto> job_session])"
    by (simp add: policy_guard_def session_of_def exec_with_def job_session_def no_tools_def Let_def)
  then show ?thesis
    using refusal_leaves_no_trace [of "no_tools\<lparr>rg_tools := [''bash'' \<mapsto> plain_tool]\<rparr>" "''bash''" plain_tool] by simp
qed

section \<open>Approvals\<close>

lemma on_health_frame [simp]:
  "ex_sessions (on_health n f st) = ex_sessions st" "ex_entered (on_health n f st) = ex_entered st"
  "ex_health (on_health n f st) m = (if m = n then f (ex_health st n) else ex_health st m)"
  by (simp_all add: on_health_def)

lemma credit_frame [simp]:
  "ex_sessions (credit_long_call sid ms st) = ex_sessions st" "ex_entered (credit_long_call sid ms st) = ex_entered st"
  "ex_health (credit_long_call sid ms st) = ex_health st"
  by (simp_all add: credit_long_call_def)

lemma settle_frame [simp]:
  "ex_sessions (snd (settle_return n ms raw st)) = ex_sessions st"
  "ex_entered (snd (settle_return n ms raw st)) = ex_entered st"
  "er_tool (fst (settle_return n ms raw st)) = n"
  by (simp_all add: settle_return_def Let_def)

lemma dispatch_sessions [simp]: "ex_sessions (snd (dispatch reg sigs t sid name args e st)) = ex_sessions st"
  by (cases "fst e") (simp_all add: dispatch_def Let_def split_def)

lemma dispatch_entered:
  "\<exists>new. ex_entered (snd (dispatch reg sigs t sid name args e st)) = ex_entered st @ new
     \<and> (new = [] \<or> new = [(name, call_arguments (sigs name) args)])"
  by (cases "fst e") (simp_all add: dispatch_def Let_def split_def)

lemma dispatch_tool: "fst (dispatch reg sigs t sid name args e st) = Some r \<Longrightarrow> er_tool r = name"
  by (cases "fst e") (auto simp: dispatch_def Let_def split_def failed_result_def)

lemma spend_frame [simp]:
  "ex_entered (spend_approval sid name s st) = ex_entered st" "ex_health (spend_approval sid name s st) = ex_health st"
  "ex_sessions (spend_approval sid name s st) = (ex_sessions st)(sid \<mapsto> s\<lparr>xs_approvals := dict_pop name (xs_approvals s)\<rparr>)"
  by (simp_all add: spend_approval_def)

lemma dangerous_gate_frame:
  "dangerous_gate auto sid name args st = (g, st') \<Longrightarrow> ex_entered st' = ex_entered st \<and> ex_health st' = ex_health st"
  by (auto simp: dangerous_gate_def split: if_splits option.splits)

lemma policy_guard_frame:
  "policy_guard auto reg t sid name args st = (g, st') \<Longrightarrow> ex_entered st' = ex_entered st \<and> ex_health st' = ex_health st"
  by (auto simp: policy_guard_def Let_def split: if_splits dest: dangerous_gate_frame)

lemma policy_guard_cong:
  assumes "ex_sessions st = ex_sessions st'"
  shows "fst (policy_guard auto reg t sid name args st) = fst (policy_guard auto reg t sid name args st')"
  using assms
  by (auto simp: policy_guard_def dangerous_gate_def is_unattended_session_def session_of_def Let_def split: option.splits)

text \<open>An approval for a single use is good for one call. In an attended session where the user has
  approved a dangerous tool once, a call that enters the tool is covered by what was approved, as far
  as its longer texts go, and the next call of the tool, with whatever arguments, is refused for want
  of an approval; no later step of the call, not even a cancellation, gives it back.\<close>

theorem approval_is_spent:
  assumes "rg_tools reg name = Some t" "td_safety t = ''dangerous''" "\<not> is_unattended_session st sid"
    and "session_of st sid = Some s" "map_of (xs_approvals s) name = Some ap" "\<not> ap_persistent ap"
    and "execute_single False reg sigs sid (name, args) e st = (r, st')" "ex_entered st' \<noteq> ex_entered st"
  shows "uncovered (ap_scope ap) args = []
    \<and> execute_single False reg sigs sid (name, args2) e2 st' = (Some (guard_result name Approval_Required), st')"
proof -
  have sid: "sid \<noteq> []" "ex_sessions st sid = Some s" using assms(4) by (auto simp: session_of_def split: if_splits)
  let ?s' = "s\<lparr>xs_approvals := dict_pop name (xs_approvals s)\<rparr>"
  obtain g st1 where p: "policy_guard False reg t sid name args st = (g, st1)" by fastforce
  have g: "g = None"
  proof (rule ccontr)
    assume "g \<noteq> None"
    then obtain x where "g = Some x" by blast
    then show False using assms(1,7,8) p policy_guard_frame [OF p] by (simp add: execute_single_def)
  qed
  have cov: "uncovered (ap_scope ap) args = []" and st1: "st1 = spend_approval sid name s st"
    and ok: "name \<notin> rg_disabled reg" "name \<notin> set (xs_excluded s)" "xs_allow s = [] \<or> name \<in> set (xs_allow s)"
      "xs_type s = [] \<or> xs_type s \<notin> td_denied_types t"
    using p g assms(2-6) by (auto simp: policy_guard_def dangerous_gate_def Let_def split: if_splits)
  have ss: "ex_sessions st' = (ex_sessions st)(sid \<mapsto> ?s')"
    using assms(1,7) p g st1 dispatch_sessions [of reg sigs t sid name args e st1] by (simp add: execute_single_def)
  have s': "session_of st' sid = Some ?s'" using ss sid(1) by (simp add: session_of_def)
  have "\<not> is_unattended_session st' sid"
    using assms(3,4) sid s' ss by (auto simp: is_unattended_session_def split: option.splits if_splits)
  then have "dangerous_gate False sid name args2 st' = (Some Approval_Required, st')"
    using s' by (simp add: dangerous_gate_def)
  then have "policy_guard False reg t sid name args2 st' = (Some Approval_Required, st')"
    using ok s' assms(2) by (auto simp: policy_guard_def Let_def)
  then show ?thesis using cov assms(1) by (simp add: execute_single_def)
qed

definition remove_tool :: tool_def where "remove_tool = plain_tool\<lparr>td_safety := ''dangerous''\<rparr>"

definition chat_session :: exec_session where
  "chat_session = \<lparr>xs_type = ''chat'', xs_parent = [], xs_allow = [], xs_excluded = [],
     xs_approvals = [(''mcp_remove_server'', \<lparr>ap_scope = ''remove server foobar'', ap_persistent = False\<rparr>)], xs_cancel = False\<rparr>"

abbreviation remove_registry :: registry where
  "remove_registry \<equiv> no_tools\<lparr>rg_tools := [''mcp_remove_server'' \<mapsto> remove_tool]\<rparr>"

lemma approval_is_spent_witness:
  "fst (execute_single False remove_registry (\<lambda>_. ([], True)) ''s'' (''mcp_remove_server'', []) (Timed_Out, 0)
     (snd (execute_single False remove_registry (\<lambda>_. ([], True)) ''s''
       (''mcp_remove_server'', [(''name'', JStr ''foobar'')]) (Cancelled_Then True, 5) (exec_with [''s'' \<mapsto> chat_session]))))
   = Some (guard_result ''mcp_remove_server'' Approval_Required)"
proof -
  let ?st = "exec_with [''s'' \<mapsto> chat_session]" and ?a = "[(''name'', JStr ''foobar'')]"
  obtain r st' where e: "execute_single False remove_registry (\<lambda>_. ([], True)) ''s'' (''mcp_remove_server'', ?a) (Cancelled_Then True, 5) ?st
      = (r, st')" by fastforce
  have "ex_entered (snd (execute_single False remove_registry (\<lambda>_. ([], True)) ''s'' (''mcp_remove_server'', ?a) (Cancelled_Then True, 5) ?st))
      = [(''mcp_remove_server'', ?a)]" by code_simp
  then have en: "ex_entered st' \<noteq> ex_entered ?st" using e by (simp add: exec_with_def)
  have "rg_tools remove_registry ''mcp_remove_server'' = Some remove_tool" "td_safety remove_tool = ''dangerous''"
      "\<not> is_unattended_session ?st ''s''" "session_of ?st ''s'' = Some chat_session"
      "map_of (xs_approvals chat_session) ''mcp_remove_server'' = Some \<lparr>ap_scope = ''remove server foobar'', ap_persistent = False\<rparr>"
    by (simp_all add: remove_tool_def is_unattended_session_def session_of_def exec_with_def chat_session_def UNATTENDED_TYPES_def)
  from approval_is_spent [OF this _ e en, of "[]" "(Timed_Out, 0)"] show ?thesis using e by simp
qed

text \<open>An approval does not cover short values. A single-use approval is held against the text
  arguments of four characters and more only, so for whatever scope it was given, a call whose texts
  are shorter enters the tool: approving \<open>remove server foo\<close> lets the agent remove \<open>bar\<close>.\<close>

theorem short_values_escape_scope:
  assumes "rg_tools reg name = Some t" "td_safety t = ''dangerous''" "name \<notin> rg_disabled reg"
    and "session_of st sid = Some s" "xs_allow s = []" "name \<notin> set (xs_excluded s)" "xs_type s \<notin> td_denied_types t"
    and "name \<in> fst ` set (xs_approvals s)" "\<forall>(k, v) \<in> set args. case v of JStr x \<Rightarrow> length (py_strip x) < 4 | _ \<Rightarrow> True"
  shows "ex_entered (snd (execute_single False reg sigs sid (name, args) (Returned ret, ms) st))
    = ex_entered st @ [(name, call_arguments (sigs name) args)]"
proof -
  obtain ap where ap: "map_of (xs_approvals s) name = Some ap" using assms(8) by (metis map_of_eq_None_iff not_None_eq)
  have "uncovered scope args = []" for scope
    using assms(9) by (fastforce simp: uncovered_def filter_empty_conv split: json.splits)
  then obtain st1 where "policy_guard False reg t sid name args st = (None, st1)" "ex_entered st1 = ex_entered st"
    using assms ap by (cases "is_unattended_session st sid"; cases "ap_persistent ap")
      (auto simp: policy_guard_def dangerous_gate_def Let_def)
  then show ?thesis using assms(1) by (simp add: execute_single_def dispatch_def Let_def split_def)
qed

lemma short_values_escape_scope_witness:
  "ex_entered (snd (execute_single False remove_registry (\<lambda>_. ([], True)) ''s''
     (''mcp_remove_server'', [(''name'', JStr ''bar'')]) (Returned Ret_None, 0) (exec_with [''s'' \<mapsto> chat_session])))
   = [(''mcp_remove_server'', [(''name'', JStr ''bar'')])]"
proof -
  have "length (py_strip ''bar'') < 4" by code_simp
  then show ?thesis
    using short_values_escape_scope [of remove_registry "''mcp_remove_server''" remove_tool "exec_with [''s'' \<mapsto> chat_session]" "''s''"
        chat_session "[(''name'', JStr ''bar'')]" "\<lambda>_. ([], True)" Ret_None 0]
    by (simp add: remove_tool_def plain_tool_def session_of_def exec_with_def chat_session_def no_tools_def call_arguments_def)
qed

section \<open>The order of a round\<close>

lemma run_parallel_slots:
  assumes "run_parallel run ks (rs, stopped, st) = (rs', False, st')" "distinct ks" "\<forall>i \<in> set ks. i < length rs"
  shows "\<not> stopped \<and> length rs' = length rs \<and> (\<forall>j. j \<notin> set ks \<longrightarrow> rs' ! j = rs ! j)
    \<and> (\<forall>i \<in> set ks. \<exists>s0. fst (run i s0) \<noteq> None \<and> rs' ! i = fst (run i s0))"
  using assms
proof (induction ks arbitrary: rs stopped st)
  case (Cons i ks)
  obtain r s1 where r: "run i st = (r, s1)" by fastforce
  show ?case
  proof (cases r)
    case None
    then show ?thesis using Cons.IH [of rs True s1] Cons.prems r by auto
  next
    case (Some x)
    have ih: "\<not> stopped \<and> length rs' = length (rs[i := Some x]) \<and> (\<forall>j. j \<notin> set ks \<longrightarrow> rs' ! j = rs[i := Some x] ! j)
      \<and> (\<forall>k \<in> set ks. \<exists>s0. fst (run k s0) \<noteq> None \<and> rs' ! k = fst (run k s0))"
      using Cons.IH [of "rs[i := Some x]" stopped s1] Cons.prems r Some by simp
    then have "rs' ! i = Some x" using Cons.prems(2,3) by simp
    then have "fst (run i st) \<noteq> None \<and> rs' ! i = fst (run i st)" using r Some by simp
    then show ?thesis using ih by auto
  qed
qed simp

lemma run_sequential_slots:
  assumes "run_sequential run outside' sid ks (rs, st) = (Some rs', st')" "distinct ks" "\<forall>i \<in> set ks. i < length rs"
  shows "length rs' = length rs \<and> (\<forall>j. j \<notin> set ks \<longrightarrow> rs' ! j = rs ! j)
    \<and> (\<forall>i \<in> set ks. \<exists>s0. fst (run i s0) \<noteq> None \<and> rs' ! i = fst (run i s0))"
  using assms
proof (induction ks arbitrary: rs st)
  case (Cons i ks)
  obtain x s1 where x: "run i (outside' i st) = (Some x, s1)" "run_sequential run outside' sid ks (rs[i := Some x], s1) = (Some rs', st')"
    using Cons.prems(1) by (auto simp: Let_def split: if_splits prod.splits option.splits)
  have ih: "length rs' = length (rs[i := Some x]) \<and> (\<forall>j. j \<notin> set ks \<longrightarrow> rs' ! j = rs[i := Some x] ! j)
      \<and> (\<forall>k \<in> set ks. \<exists>s0. fst (run k s0) \<noteq> None \<and> rs' ! k = fst (run k s0))"
    using Cons.IH [OF x(2)] Cons.prems by simp
  then have "rs' ! i = Some x" using Cons.prems(2,3) by simp
  then have "fst (run i (outside' i st)) \<noteq> None \<and> rs' ! i = fst (run i (outside' i st))" using x by simp
  then show ?case using ih by auto
qed simp

text \<open>\<open>logged\<close>: the calls entered by a run of \<open>ks\<close> are some of them, in that order.\<close>

definition logs :: "(nat \<Rightarrow> exec_state \<Rightarrow> exec_result option \<times> exec_state) \<Rightarrow> (nat \<Rightarrow> string \<times> (string \<times> json) list) \<Rightarrow> bool" where
  "logs run entry \<longleftrightarrow> (\<forall>i st. \<exists>new. ex_entered (snd (run i st)) = ex_entered st @ new \<and> (new = [] \<or> new = [entry i]))"

lemma round_slots:
  assumes "run_parallel run (filter P [0..<n]) (replicate n None, False, st) = (rs1, False, st1)"
    "run_sequential run outside' sid (filter (\<lambda>i. \<not> P i) [0..<n]) (rs1, st1) = (Some rs2, st2)"
  shows "length rs2 = n" "\<forall>i < n. \<exists>s0. fst (run i s0) \<noteq> None \<and> rs2 ! i = fst (run i s0)"
proof -
  have a: "length rs1 = n" "\<forall>i \<in> set (filter P [0..<n]). \<exists>s0. fst (run i s0) \<noteq> None \<and> rs1 ! i = fst (run i s0)"
    using run_parallel_slots [OF assms(1)] by auto
  have b: "length rs2 = length rs1" "\<forall>j. j \<notin> set (filter (\<lambda>i. \<not> P i) [0..<n]) \<longrightarrow> rs2 ! j = rs1 ! j"
      "\<forall>i \<in> set (filter (\<lambda>i. \<not> P i) [0..<n]). \<exists>s0. fst (run i s0) \<noteq> None \<and> rs2 ! i = fst (run i s0)"
    using run_sequential_slots [OF assms(2)] a(1) by auto
  show "length rs2 = n" using a(1) b(1) by simp
  show "\<forall>i < n. \<exists>s0. fst (run i s0) \<noteq> None \<and> rs2 ! i = fst (run i s0)"
  proof (intro allI impI)
    fix i assume "i < n"
    then show "\<exists>s0. fst (run i s0) \<noteq> None \<and> rs2 ! i = fst (run i s0)" using a(2) b(2,3) by (cases "P i") auto
  qed
qed

lemma run_parallel_log:
  assumes "logs run entry"
  shows "run_parallel run ks (rs, stopped, st) = (rs', b, st')
    \<Longrightarrow> \<exists>new. ex_entered st' = ex_entered st @ new \<and> subseq new (map entry ks)"
proof (induction ks arbitrary: rs stopped st)
  case (Cons i ks)
  obtain r s1 where r: "run i st = (r, s1)" by fastforce
  obtain n1 where n1: "ex_entered s1 = ex_entered st @ n1" "n1 = [] \<or> n1 = [entry i]"
    using assms r unfolding logs_def by (metis snd_conv)
  have "\<exists>rs1 stopped1. run_parallel run ks (rs1, stopped1, s1) = (rs', b, st')"
    using Cons.prems r by (cases r) auto
  then obtain n2 where n2: "ex_entered st' = ex_entered s1 @ n2" "subseq n2 (map entry ks)"
    using Cons.IH by blast
  have "subseq (n1 @ n2) (map entry (i # ks))" using n1(2) n2(2) by auto
  then show ?case using n1(1) n2(1) by auto
qed auto

lemma run_sequential_log:
  assumes "logs run entry" "\<forall>i st. ex_entered (outside' i st) = ex_entered st"
  shows "run_sequential run outside' sid ks (rs, st) = (r', st')
    \<Longrightarrow> \<exists>new. ex_entered st' = ex_entered st @ new \<and> subseq new (map entry ks)"
proof (induction ks arbitrary: rs st)
  case (Cons i ks)
  show ?case
  proof (cases "session_cancel_requested (outside' i st) sid")
    case True
    then show ?thesis using Cons.prems assms(2) by (auto simp: Let_def)
  next
    case False
    obtain r s1 where r: "run i (outside' i st) = (r, s1)" by fastforce
    obtain n1 where n1: "ex_entered s1 = ex_entered st @ n1" "n1 = [] \<or> n1 = [entry i]"
      using assms r unfolding logs_def by (metis snd_conv)
    show ?thesis
    proof (cases r)
      case None
      then show ?thesis using Cons.prems False r n1 by (auto simp: Let_def)
    next
      case (Some x)
      then obtain n2 where n2: "ex_entered st' = ex_entered s1 @ n2" "subseq n2 (map entry ks)"
        using Cons.IH [of "rs[i := Some x]" s1] Cons.prems False r by (auto simp: Let_def)
      have "subseq (n1 @ n2) (map entry (i # ks))" using n1(2) n2(2) by auto
      then show ?thesis using n1(1) n2(1) by auto
    qed
  qed
qed auto

lemma execute_single_logs:
  "logs (\<lambda>i. execute_single auto reg sigs sid (calls ! i) (endings i)) (\<lambda>i. (fst (calls ! i), call_arguments (sigs (fst (calls ! i))) (snd (calls ! i))))"
proof -
  have "\<exists>new. ex_entered (snd (execute_single auto reg sigs sid c e st)) = ex_entered st @ new
      \<and> (new = [] \<or> new = [(fst c, call_arguments (sigs (fst c)) (snd c))])" for c e st
  proof (cases "rg_tools reg (fst c)")
    case None
    then show ?thesis by (simp add: execute_single_def split_def)
  next
    case (Some t)
    obtain g st1 where p: "policy_guard auto reg t sid (fst c) (snd c) st = (g, st1)" by fastforce
    then show ?thesis using Some policy_guard_frame [OF p] dispatch_entered [of reg sigs t sid "fst c" "snd c" e st1]
      by (cases g) (simp_all add: execute_single_def split_def)
  qed
  then show ?thesis by (simp add: logs_def)
qed

lemma execute_single_tool: "fst (execute_single auto reg sigs sid c e st) = Some r \<Longrightarrow> er_tool r = fst c"
  by (auto simp: execute_single_def split_def failed_result_def guard_result_def dest!: dispatch_tool
      split: option.splits)

lemma map_filter_all: "\<forall>x \<in> set xs. x \<noteq> None \<Longrightarrow> List.map_filter id xs = map the xs"
  by (induction xs) (auto simp: List.map_filter_def)

lemma map_filter_nth: "map (\<lambda>i. f (xs ! i)) (filter (\<lambda>i. P (xs ! i)) [0..<length xs]) = map f (filter P xs)"
  using arg_cong [OF filter_map [of P "(!) xs" "[0..<length xs]"], of "map f"] by (simp add: map_nth comp_def)

text \<open>The results of a round are in the order of its calls. When a round returns, there is one result
  per call, the \<open>i\<close>-th is what the \<open>i\<close>-th call came to and bears its name, whichever calls ran in
  parallel; and the tools are entered in the order of the calls, the parallel-safe ones before all
  others, each at most once, also in a round that is cancelled.\<close>

theorem round_keeps_order:
  assumes "execute_tool_round auto reg sigs sid endings outside' calls st = (out, st')"
    "\<forall>i st. ex_entered (outside' i st) = ex_entered st"
  shows "(case out of None \<Rightarrow> True | Some rs \<Rightarrow> length rs = length calls
        \<and> (\<forall>i < length calls. er_tool (rs ! i) = fst (calls ! i)
             \<and> (\<exists>s0. Some (rs ! i) = fst (execute_single auto reg sigs sid (calls ! i) (endings i) s0))))
    \<and> (\<exists>new. ex_entered st' = ex_entered st @ new
         \<and> subseq new (map (\<lambda>c. (fst c, call_arguments (sigs (fst c)) (snd c)))
             (filter (parallel_safe reg) calls @ filter (\<lambda>c. \<not> parallel_safe reg c) calls)))"
proof -
  let ?run = "\<lambda>i. execute_single auto reg sigs sid (calls ! i) (endings i)"
  let ?entry = "\<lambda>c. (fst c, call_arguments (sigs (fst c)) (snd c))"
  let ?par = "filter (\<lambda>i. parallel_safe reg (calls ! i)) [0..<length calls]"
  let ?seq = "filter (\<lambda>i. \<not> parallel_safe reg (calls ! i)) [0..<length calls]"
  let ?rs0 = "replicate (length calls) None"
  obtain rs1 stopped st1 where p: "run_parallel ?run ?par (?rs0, False, st) = (rs1, stopped, st1)" by (rule prod_cases3)
  obtain n1 where n1: "ex_entered st1 = ex_entered st @ n1" "subseq n1 (map ?entry (filter (parallel_safe reg) calls))"
    using run_parallel_log [OF execute_single_logs p] unfolding map_filter_nth [of ?entry calls "parallel_safe reg"] by blast
  show ?thesis
  proof (cases stopped)
    case True
    then have "out = None" "st' = st1" using assms(1) p by (simp_all add: execute_tool_round_def)
    then show ?thesis using n1 by (auto intro: list_emb_append2)
  next
    case False
    obtain r2 st2 where s: "run_sequential ?run outside' sid ?seq (rs1, st1) = (r2, st2)" by (rule prod.exhaust)
    have st2: "st' = st2" "out = map_option (List.map_filter id) r2"
      using assms(1) p s False by (auto simp: execute_tool_round_def split: option.splits)
    obtain n2 where n2: "ex_entered st2 = ex_entered st1 @ n2"
        "subseq n2 (map ?entry (filter (\<lambda>c. \<not> parallel_safe reg c) calls))"
      using run_sequential_log [OF execute_single_logs assms(2) s]
      unfolding map_filter_nth [of ?entry calls "\<lambda>c. \<not> parallel_safe reg c"] by blast
    have log: "ex_entered st' = ex_entered st @ n1 @ n2 \<and> subseq (n1 @ n2) (map ?entry
             (filter (parallel_safe reg) calls @ filter (\<lambda>c. \<not> parallel_safe reg c) calls))"
      using n1 n2 st2 by (simp add: list_emb_append_mono)
    show ?thesis
    proof (cases r2)
      case None
      then show ?thesis using st2 log by auto
    next
      case (Some rs2)
      have slot: "length rs2 = length calls" "\<forall>i < length calls. \<exists>s0. fst (?run i s0) \<noteq> None \<and> rs2 ! i = fst (?run i s0)"
        using round_slots [of ?run "\<lambda>i. parallel_safe reg (calls ! i)" "length calls" st rs1 st1 outside' sid rs2 st2]
          p False s Some by auto
      have "\<forall>x \<in> set rs2. x \<noteq> None" using slot by (metis in_set_conv_nth)
      then have out: "out = Some (map the rs2)" using st2 Some by (simp add: map_filter_all)
      have "er_tool (map the rs2 ! i) = fst (calls ! i)
          \<and> (\<exists>s0. Some (map the rs2 ! i) = fst (?run i s0))" if "i < length calls" for i
        using slot that execute_single_tool by (metis nth_map option.collapse)
      then show ?thesis using out log slot(1) by auto
    qed
  qed
qed

lemma round_length:
  assumes "execute_tool_round auto reg sigs sid endings outside' calls st = (Some rs, st')" shows "length rs = length calls"
proof -
  let ?run = "\<lambda>i. execute_single auto reg sigs sid (calls ! i) (endings i)"
  obtain rs1 stopped st1 where p: "run_parallel ?run (filter (\<lambda>i. parallel_safe reg (calls ! i)) [0..<length calls])
      (replicate (length calls) None, False, st) = (rs1, stopped, st1)" by (rule prod_cases3)
  obtain r2 st2 where s: "run_sequential ?run outside' sid (filter (\<lambda>i. \<not> parallel_safe reg (calls ! i)) [0..<length calls])
      (rs1, st1) = (r2, st2)" by (rule prod.exhaust)
  obtain rs2 where r: "r2 = Some rs2" "\<not> stopped" "rs = List.map_filter id rs2"
    using assms p s by (auto simp: execute_tool_round_def split: if_splits option.splits)
  have slot: "length rs2 = length calls" "\<forall>i < length calls. \<exists>s0. fst (?run i s0) \<noteq> None \<and> rs2 ! i = fst (?run i s0)"
    using round_slots [of ?run "\<lambda>i. parallel_safe reg (calls ! i)" "length calls" st rs1 st1 outside' sid rs2 st2] p s r by auto
  then have "\<forall>x \<in> set rs2. x \<noteq> None" by (metis in_set_conv_nth)
  then show ?thesis using r(3) slot(1) by (simp add: map_filter_all)
qed

text \<open>A read that may run in parallel after a write that may not: the read is entered first, the
  results keep the order of the calls.\<close>

definition two_tools :: registry where
  "two_tools = \<lparr>rg_tools = [''glob'' \<mapsto> plain_tool\<lparr>td_parallel_safe := True\<rparr>, ''file_write'' \<mapsto> plain_tool], rg_disabled = {}\<rparr>"

lemma round_keeps_order_witness:
  "\<exists>rs st'. execute_tool_round False two_tools (\<lambda>_. ([], True)) [] (\<lambda>_. (Returned (Ret_Text ''ok''), 1)) (\<lambda>_ st. st)
       [(''file_write'', []), (''glob'', [])] (exec_with Map.empty) = (Some rs, st')
     \<and> map er_tool rs = [''file_write'', ''glob''] \<and> map fst (ex_entered st') = [''glob'', ''file_write'']"
proof -
  let ?r = "execute_tool_round False two_tools (\<lambda>_. ([], True)) [] (\<lambda>_. (Returned (Ret_Text ''ok''), 1)) (\<lambda>_ st. st)
       [(''file_write'', []), (''glob'', [])] (exec_with Map.empty)"
  have e: "(case ?r of (None, st') \<Rightarrow> False | (Some rs, st') \<Rightarrow> map fst (ex_entered st') = [''glob'', ''file_write''])"
    by (simp add: execute_tool_round_def upt_rec parallel_safe_def two_tools_def plain_tool_def execute_single_def policy_guard_def
        session_of_def exec_with_def dispatch_def execute_sync_def reg_exists_def settle_return_def call_arguments_def
        session_cancel_requested_def starts_with_def UNAVAILABLE_PREFIX_def MISS_PREFIX_def meta_flag_def is_failure_verdict_def
        credit_long_call_def on_health_def OUTCOME_KEY_def List.map_filter_def Let_def)
  then obtain rs st' where r: "?r = (Some rs, st')" "map fst (ex_entered st') = [''glob'', ''file_write'']"
    by (auto split: prod.splits option.splits)
  have "length rs = 2 \<and> er_tool (rs ! 0) = ''file_write'' \<and> er_tool (rs ! 1) = ''glob''"
    using round_keeps_order [OF r(1)] by simp
  then have "map er_tool rs = [''file_write'', ''glob'']"
    by (intro nth_equalityI) (auto simp: less_Suc_eq numeral_2_eq_2)
  then show ?thesis using r by simp
qed

section \<open>Health\<close>

definition adds_up :: "health \<Rightarrow> bool" where
  "adds_up h \<longleftrightarrow> hm_calls h = hm_success h + hm_failure h + hm_timeout h"

text \<open>What one call may do to a metric: nothing, or one more call of one kind.\<close>

definition booked :: "health \<Rightarrow> health \<Rightarrow> bool" where
  "booked h h' \<longleftrightarrow> h' = h \<or> (\<exists>ms e. h' \<in> {record_success ms h, record_failure e ms h, record_timeout ms h})"

lemma booked_adds_up: "booked h h' \<Longrightarrow> adds_up h \<Longrightarrow> adds_up h' \<and> hm_calls h' \<le> hm_calls h + 1"
  by (auto simp: booked_def adds_up_def record_success_def record_failure_def record_timeout_def)

lemma settle_booked: "booked (ex_health st n) (ex_health (snd (settle_return n ms raw st)) n)"
  and settle_others: "m \<noteq> n \<Longrightarrow> ex_health (snd (settle_return n ms raw st)) m = ex_health st m"
  by (auto simp: settle_return_def Let_def booked_def)

lemma dispatch_booked:
  "booked (ex_health st m) (ex_health (snd (dispatch reg sigs t sid name args e st)) m)
   \<and> (m \<noteq> name \<longrightarrow> ex_health (snd (dispatch reg sigs t sid name args e st)) m = ex_health st m)"
proof (cases "fst e")
  case (Returned x)
  let ?en = "st\<lparr>ex_entered := ex_entered st @ [(name, call_arguments (sigs name) args)]\<rparr>"
  have "booked (ex_health ?en name) (ex_health (snd (settle_return name (snd e) (execute_sync reg name x) ?en)) name)"
    by (rule settle_booked)
  then show ?thesis using Returned settle_others [of m name "snd e" "execute_sync reg name x" ?en]
    by (cases "m = name") (simp_all add: dispatch_def Let_def split_def booked_def)
qed (auto simp: dispatch_def Let_def split_def booked_def)

text \<open>The health of the tools adds up. A call moves no metric but its own tool's, books at most one
  call there, as success, failure or timeout, and the total stays the sum of the three; a call that a
  guard refused, that never entered the tool because of a stop, that found nothing or was unavailable
  by design books nothing.\<close>

theorem health_adds_up:
  assumes "execute_single auto reg sigs sid (name, args) (e, ms) st = (r, st')" "adds_up (ex_health st name)"
  shows "adds_up (ex_health st' name) \<and> hm_calls (ex_health st' name) \<le> hm_calls (ex_health st name) + 1
    \<and> (m \<noteq> name \<longrightarrow> ex_health st' m = ex_health st m)
    \<and> (case r of None \<Rightarrow> e = Stopped_In_Queue \<or> e = Cancelled_Then False \<longrightarrow> ex_health st' = ex_health st
       | Some x \<Rightarrow> is_policy_refusal x \<and> ex_entered st' = ex_entered st \<and> e \<noteq> Pool_Saturated \<and> (\<forall>b. e \<noteq> Broke b)
                     \<longrightarrow> ex_health st' = ex_health st)"
proof (cases "rg_tools reg name")
  case None
  then show ?thesis using assms by (auto simp: execute_single_def)
next
  case (Some t)
  obtain g st1 where p: "policy_guard auto reg t sid name args st = (g, st1)" by fastforce
  note f = policy_guard_frame [OF p]
  show ?thesis
  proof (cases g)
    case (Some x)
    then show ?thesis using assms \<open>rg_tools reg name = Some t\<close> p f by (auto simp: execute_single_def)
  next
    case None
    then have d: "(r, st') = dispatch reg sigs t sid name args (e, ms) st1"
      using assms(1) \<open>rg_tools reg name = Some t\<close> p by (simp add: execute_single_def)
    have b: "booked (ex_health st k) (ex_health st' k)" "k \<noteq> name \<Longrightarrow> ex_health st' k = ex_health st k" for k
      using dispatch_booked [of st1 k reg sigs t sid name args "(e, ms)"] f by (simp_all add: d [symmetric])
    have "case r of None \<Rightarrow> e = Stopped_In_Queue \<or> e = Cancelled_Then False \<longrightarrow> ex_health st' = ex_health st
       | Some x \<Rightarrow> is_policy_refusal x \<and> ex_entered st' = ex_entered st \<and> e \<noteq> Pool_Saturated \<and> (\<forall>b. e \<noteq> Broke b)
                     \<longrightarrow> ex_health st' = ex_health st"
      using d f by (cases e) (auto simp: dispatch_def Let_def split_def split: if_splits)
    then show ?thesis using b booked_adds_up [OF b(1) assms(2)] by blast
  qed
qed

text \<open>A call that a tool's function rejects counts as a success. \<open>execute_sync\<close> turns a \<open>TypeError\<close>
  into a text that begins with \<open>Error calling\<close>, the executor takes for errors what begins with
  \<open>Error:\<close>, so the result is no error, the metric books a success, and the loop remembers the call as
  executed.\<close>

theorem type_error_counts_as_success:
  assumes "rg_tools reg name = Some t" "policy_guard auto reg t sid name args st = (None, st1)"
  shows "\<exists>st'. execute_single auto reg sigs sid (name, args) (Returned (Raise_Type_Error e expected), ms) st
      = (Some \<lparr>er_tool = name, er_content = ''Error calling '' @ quoted name @ '': '' @ e @ ''. Required parameters: '' @ expected @ ''.'',
               er_error = False, er_latency = ms, er_meta = []\<rparr>, st')
    \<and> ex_health st' name = record_success ms (ex_health st name)"
proof -
  have en: "name \<notin> rg_disabled reg" using assms(2) by (auto simp: policy_guard_def Let_def)
  define told where "told = ''Error calling '' @ quoted name @ '': '' @ e @ ''. Required parameters: '' @ expected @ ''.''"
  have s: "execute_sync reg name (Raise_Type_Error e expected) = (told, None)"
    using assms(1) en by (simp add: execute_sync_def reg_exists_def told_def)
  have c: "\<not> starts_with UNAVAILABLE_PREFIX told" "\<not> starts_with MISS_PREFIX told" "\<not> starts_with ''Error:'' told"
    "\<not> is_failure_verdict told" "told \<noteq> []"
    by (simp_all add: told_def starts_with_def UNAVAILABLE_PREFIX_def MISS_PREFIX_def is_failure_verdict_def)
  have settled: "settle_return name ms (told, None) st0
      = (\<lparr>er_tool = name, er_content = told, er_error = False, er_latency = ms, er_meta = []\<rparr>, on_health name (record_success ms) st0)" for st0
    unfolding settle_return_def Let_def fst_conv snd_conv option.case using c by simp
  show ?thesis
    unfolding told_def [symmetric]
    using assms policy_guard_frame [OF assms(2)] by (simp add: execute_single_def dispatch_def Let_def s settled)
qed

lemma type_error_counts_as_success_witness:
  "\<exists>st'. execute_single True two_tools (\<lambda>_. ([], True)) [] (''glob'', []) (Returned (Raise_Type_Error ''e'' ''[]''), 3) (exec_with Map.empty)
      = (Some \<lparr>er_tool = ''glob'', er_content = ''Error calling '' @ quoted ''glob'' @ '': e. Required parameters: [].'',
               er_error = False, er_latency = 3, er_meta = []\<rparr>, st')"
proof -
  have "policy_guard True two_tools (plain_tool\<lparr>td_parallel_safe := True\<rparr>) [] ''glob'' [] (exec_with Map.empty) = (None, exec_with Map.empty)"
    by (simp add: policy_guard_def session_of_def two_tools_def plain_tool_def Let_def)
  then show ?thesis
    using type_error_counts_as_success [of two_tools "''glob''" "plain_tool\<lparr>td_parallel_safe := True\<rparr>" True "[]" "[]" "exec_with Map.empty"
        "exec_with Map.empty" "\<lambda>_. ([], True)" "''e''" "''[]''" 3]
    by (auto simp: two_tools_def)
qed

lemma health_adds_up_witness:
  "adds_up (ex_health (snd (execute_single True two_tools (\<lambda>_. ([], True)) [] (''glob'', []) (Timed_Out, 5) (exec_with Map.empty))) ''glob'')"
proof -
  obtain r st' where e: "execute_single True two_tools (\<lambda>_. ([], True)) [] (''glob'', []) (Timed_Out, 5) (exec_with Map.empty) = (r, st')"
    by fastforce
  have "adds_up (ex_health (exec_with Map.empty) ''glob'')" by (simp add: exec_with_def adds_up_def new_health_def)
  from health_adds_up [OF e this] show ?thesis by (simp add: e)
qed

end
