(* ===== verification/Tool_Dispatch.thy ===== *)
theory Tool_Dispatch
  imports Prelude
begin

text \<open>
  One dispatch of \<open>core/tools/executor.py\<close> as two threads that share a gate and a scope: the pool
  thread that enters the tool, and the dispatcher that waits, gives up, times out or is cancelled.
  A step is what one thread does between two points where the other can act; each operation of
  \<open>_DispatchGate\<close> and \<open>AsyncOpScope\<close> is one step because it holds the lock.
\<close>

section \<open>The gate and the scope\<close>

datatype pool_thread = Queued | Entered | Declined | Finished | Recalled

datatype verdict = Pending | Never_Started_Told | Timeout_Told | Cancel_Passed_On | Result_Told

text \<open>
  \<open>dp_seen\<close> is the event \<open>started\<close>, set on the loop some time after the claim.  \<open>dp_made\<close> and
  \<open>dp_ended\<close> are the futures the tool has registered and those it has unregistered.
\<close>

record dispatch_state =
  dp_cancelled :: bool
  dp_running :: bool
  dp_closed :: bool
  dp_event :: bool
  dp_futures :: "nat list"
  dp_dead :: "nat set"
  dp_made :: "nat set"
  dp_ended :: "nat set"
  dp_thread :: pool_thread
  dp_seen :: bool
  dp_verdict :: verdict
  dp_killed :: bool

definition new_dispatch :: dispatch_state where
  "new_dispatch = \<lparr>dp_cancelled = False, dp_running = False, dp_closed = False, dp_event = False, dp_futures = [],
     dp_dead = {}, dp_made = {}, dp_ended = {}, dp_thread = Queued, dp_seen = False, dp_verdict = Pending, dp_killed = False\<rparr>"

definition claim_for_run :: "dispatch_state \<Rightarrow> bool \<times> dispatch_state" where
  "claim_for_run s = (if dp_cancelled s then (False, s) else (True, s\<lparr>dp_running := True\<rparr>))"

definition gate_cancel :: "dispatch_state \<Rightarrow> bool \<times> dispatch_state" where
  "gate_cancel s = (dp_running s, s\<lparr>dp_cancelled := True\<rparr>)"

definition scope_register :: "nat \<Rightarrow> dispatch_state \<Rightarrow> bool \<times> dispatch_state" where
  "scope_register f s = (let s1 = s\<lparr>dp_made := insert f (dp_made s)\<rparr> in
     if dp_closed s then (False, s1\<lparr>dp_dead := insert f (dp_dead s)\<rparr>)
     else (True, s1\<lparr>dp_futures := dp_futures s @ [f]\<rparr>))"

definition scope_unregister :: "nat \<Rightarrow> dispatch_state \<Rightarrow> dispatch_state" where
  "scope_unregister f s = s\<lparr>dp_futures := remove1 f (dp_futures s), dp_ended := insert f (dp_ended s)\<rparr>"

definition scope_cancel :: "dispatch_state \<Rightarrow> dispatch_state" where
  "scope_cancel s = s\<lparr>dp_closed := True, dp_futures := [], dp_event := True, dp_dead := dp_dead s \<union> set (dp_futures s)\<rparr>"

definition dispatch_cancelled :: "dispatch_state \<Rightarrow> bool" where
  "dispatch_cancelled s \<longleftrightarrow> dp_closed s \<or> dp_event s"

section \<open>Steps\<close>

text \<open>The pool thread at the tool's door: the stop of the session, then the claim.\<close>

definition runner :: "bool \<Rightarrow> dispatch_state \<Rightarrow> dispatch_state" where
  "runner stop s =
     (if stop then s\<lparr>dp_thread := Declined\<rparr>
      else let (ok, s1) = claim_for_run s in s1\<lparr>dp_thread := (if ok then Entered else Declined)\<rparr>)"

text \<open>\<open>fut.cancel()\<close> succeeds only on an item that is still queued, and may lose the race to a dequeue.\<close>

definition recall :: "bool \<Rightarrow> dispatch_state \<Rightarrow> dispatch_state" where
  "recall wins s = (if dp_thread s = Queued \<and> wins then s\<lparr>dp_thread := Recalled\<rparr> else s)"

definition give_up :: "bool \<Rightarrow> dispatch_state \<Rightarrow> dispatch_state" where
  "give_up wins s = (recall wins (scope_cancel (snd (gate_cancel s))))\<lparr>dp_verdict := Never_Started_Told\<rparr>"

definition time_out :: "dispatch_state \<Rightarrow> dispatch_state" where
  "time_out s = (scope_cancel s)\<lparr>dp_killed := True, dp_verdict := Timeout_Told\<rparr>"

definition cancel_dispatch :: "bool \<Rightarrow> dispatch_state \<Rightarrow> dispatch_state" where
  "cancel_dispatch wins s =
     (let (was_running, s1) = gate_cancel s; s2 = recall wins (scope_cancel s1)
      in s2\<lparr>dp_killed := dp_killed s2 \<or> was_running, dp_verdict := Cancel_Passed_On\<rparr>)"

inductive dispatch_step :: "dispatch_state \<Rightarrow> dispatch_state \<Rightarrow> bool" where
  run: "dp_thread s = Queued \<Longrightarrow> dispatch_step s (runner stop s)"
| see: "dp_running s \<Longrightarrow> dispatch_step s (s\<lparr>dp_seen := True\<rparr>)"
| make: "dp_thread s = Entered \<Longrightarrow> f \<notin> dp_made s \<Longrightarrow> dispatch_step s (snd (scope_register f s))"
| end_op: "dp_thread s = Entered \<Longrightarrow> f \<in> dp_made s \<Longrightarrow> dispatch_step s (scope_unregister f s)"
| finish: "dp_thread s = Entered \<Longrightarrow> dispatch_step s (s\<lparr>dp_thread := Finished\<rparr>)"
| saturated: "dp_verdict s = Pending \<Longrightarrow> \<not> dp_seen s \<Longrightarrow> dp_thread s \<notin> {Finished, Declined} \<Longrightarrow>
    dispatch_step s (give_up wins s)"
| timed: "dp_verdict s = Pending \<Longrightarrow> dp_seen s \<Longrightarrow> dp_thread s = Entered \<Longrightarrow> dispatch_step s (time_out s)"
| cancelled: "dp_verdict s = Pending \<Longrightarrow> dispatch_step s (cancel_dispatch wins s)"
| result: "dp_verdict s = Pending \<Longrightarrow> dp_thread s = Finished \<Longrightarrow> dispatch_step s (s\<lparr>dp_verdict := Result_Told\<rparr>)"

inductive reachable :: "dispatch_state \<Rightarrow> bool" where
  start: "reachable new_dispatch"
| next_step: "reachable s \<Longrightarrow> dispatch_step s s' \<Longrightarrow> reachable s'"

lemmas dispatch_defs = runner_def claim_for_run_def gate_cancel_def scope_register_def scope_unregister_def scope_cancel_def
  recall_def give_up_def time_out_def cancel_dispatch_def

section \<open>What holds in every reachable state\<close>

text \<open>The gate agrees with the thread; a cancellation that found the tool not running keeps it out; and
  what the tool left on the event loop is cancelled once the dispatch is over.\<close>

definition dispatch_inv :: "dispatch_state \<Rightarrow> bool" where
  "dispatch_inv s \<longleftrightarrow>
     (dp_running s \<longleftrightarrow> dp_thread s \<in> {Entered, Finished})
     \<and> (dp_verdict s = Cancel_Passed_On \<longrightarrow> dp_cancelled s \<and> dp_closed s \<and> (dp_killed s \<longleftrightarrow> dp_running s))
     \<and> (dp_verdict s = Timeout_Told \<longrightarrow> dp_closed s \<and> dp_killed s)
     \<and> (dp_verdict s = Never_Started_Told \<longrightarrow> dp_cancelled s \<and> dp_closed s)
     \<and> (dp_verdict s = Pending \<longrightarrow> \<not> dp_killed s)
     \<and> (dp_closed s \<longrightarrow> dp_futures s = [] \<and> dp_event s)
     \<and> dp_made s = dp_dead s \<union> dp_ended s \<union> set (dp_futures s)
     \<and> distinct (dp_futures s) \<and> set (dp_futures s) \<inter> dp_ended s = {}"


lemma dispatch_inv_new: "dispatch_inv new_dispatch"
  by (simp add: dispatch_inv_def new_dispatch_def)

lemma dispatch_inv_step: "dispatch_step s s' \<Longrightarrow> dispatch_inv s \<Longrightarrow> dispatch_inv s'"
proof (induction rule: dispatch_step.induct)
  case (run s stop)
  then show ?case by (auto simp: dispatch_inv_def dispatch_defs)
next
  case (see s)
  then show ?case by (simp add: dispatch_inv_def)
next
  case (make s f)
  then show ?case by (auto simp: dispatch_inv_def dispatch_defs Let_def)
next
  case (end_op s f)
  then show ?case by (auto simp: dispatch_inv_def dispatch_defs)
next
  case (finish s)
  then show ?case by (simp add: dispatch_inv_def)
next
  case (saturated s wins)
  then show ?case by (auto simp: dispatch_inv_def dispatch_defs)
next
  case (timed s)
  then show ?case by (auto simp: dispatch_inv_def dispatch_defs)
next
  case (cancelled s wins)
  then show ?case by (auto simp: dispatch_inv_def dispatch_defs Let_def)
next
  case (result s)
  then show ?case by (simp add: dispatch_inv_def)
qed

lemma reachable_inv: "reachable s \<Longrightarrow> dispatch_inv s"
  by (induction rule: reachable.induct) (auto intro: dispatch_inv_new dispatch_inv_step)

text \<open>C29: a stop is final. Whatever the interleaving of the pool thread, the event loop and the
  dispatcher: once a cancellation has been passed on, the tool either had been entered, and then its
  children were killed, or it is never entered.\<close>

theorem cancelled_dispatch_never_enters:
  assumes "reachable s" "dp_verdict s = Cancel_Passed_On"
  shows "(dp_killed s \<longleftrightarrow> dp_thread s \<in> {Entered, Finished})
    \<and> (dispatch_step s s' \<longrightarrow> dp_verdict s' = Cancel_Passed_On \<and> dp_killed s' = dp_killed s)"
proof -
  have i: "dispatch_inv s" using assms(1) by (rule reachable_inv)
  have "dp_verdict s' = Cancel_Passed_On \<and> dp_killed s' = dp_killed s" if st: "dispatch_step s s'"
    using st assms(2) by (cases rule: dispatch_step.cases) (auto simp: dispatch_defs Let_def)
  then show ?thesis using i assms(2) by (auto simp: dispatch_inv_def)
qed

text \<open>A cancellation while the call is queued and the recall loses the race: the thread declines.\<close>

definition cancelled_in_queue :: dispatch_state where
  "cancelled_in_queue = cancel_dispatch False new_dispatch"

lemma reachable_cancelled_in_queue: "reachable cancelled_in_queue"
  unfolding cancelled_in_queue_def by (rule next_step [OF start cancelled]) (simp add: new_dispatch_def)

lemma cancelled_dispatch_never_enters_witness:
  "\<not> dp_killed cancelled_in_queue \<and> dp_verdict (runner False cancelled_in_queue) = Cancel_Passed_On
    \<and> dp_thread (runner False cancelled_in_queue) = Declined"
proof -
  have v: "dp_verdict cancelled_in_queue = Cancel_Passed_On" "dp_thread cancelled_in_queue = Queued"
    "dp_thread (runner False cancelled_in_queue) = Declined"
    by (simp_all add: cancelled_in_queue_def dispatch_defs new_dispatch_def)
  have "dispatch_step cancelled_in_queue (runner False cancelled_in_queue)" by (rule run) (rule v(2))
  then show ?thesis
    using cancelled_dispatch_never_enters [OF reachable_cancelled_in_queue v(1), of "runner False cancelled_in_queue"] v by simp
qed



text \<open>A call that was reported as never started can run to its end. The claim of the pool thread
  and the event that tells the loop of it are two steps; when the queue-wait ceiling falls between
  them, the dispatcher ignores that the gate says the tool is running, reports that the call never
  started, kills nothing, and the tool completes.\<close>

theorem never_started_call_runs:
  "\<exists>s. reachable s \<and> dp_verdict s = Never_Started_Told \<and> dp_thread s = Finished \<and> \<not> dp_killed s"
proof -
  let ?s1 = "runner False new_dispatch"
  let ?s2 = "give_up False ?s1"
  let ?s3 = "?s2\<lparr>dp_thread := Finished\<rparr>"
  have "reachable ?s1" by (rule next_step [OF start run]) (simp add: new_dispatch_def)
  moreover have "dispatch_step ?s1 ?s2" by (rule saturated) (simp_all add: dispatch_defs new_dispatch_def)
  moreover have "dispatch_step ?s2 ?s3" by (rule finish) (simp add: dispatch_defs new_dispatch_def)
  ultimately have "reachable ?s3" by (blast intro: next_step)
  moreover have "dp_verdict ?s3 = Never_Started_Told" "dp_thread ?s3 = Finished" "\<not> dp_killed ?s3"
    by (simp_all add: dispatch_defs new_dispatch_def)
  ultimately show ?thesis by blast
qed

end
