(* ===== verification/Tool_Account.thy ===== *)
theory Tool_Account
  imports Session_State Tool_Exec
begin

text \<open>
  What the agent loop (\<open>core/agent.py\<close>) books for a tool's result: the summaries that reflection and
  synthesis read, the metadata of the transcript row, and the rows of a round that died.
\<close>

section \<open>Accounting of a result\<close>

text \<open>\<open>record_tool_outcome\<close> of \<open>core/agent.py\<close>: one class per result, in the turn's summary and in
  the summary of the attempt.\<close>

definition new_entry :: tool_entry where
  "new_entry = \<lparr>calls = 0, failures = 0, refusals = 0, errors = [], total_latency_ms = 0, refusal_errors = [],
     unavailable = 0, misses = 0, miss_errors = [], command_failures = 0, command_errors = []\<rparr>"

definition new_attempt_entry :: attempt_entry where
  "new_attempt_entry = \<lparr>a_calls = 0, a_failures = 0, a_refusals = 0, a_unavailable = 0, a_command_failures = 0\<rparr>"

definition add_preview :: "nat \<Rightarrow> string \<Rightarrow> string \<Rightarrow> string list \<Rightarrow> string list" where
  "add_preview n empty_text content ps =
     (let p = (if content = [] then empty_text else take n content) in if p \<in> set ps then ps else ps @ [p])"

datatype outcome_class = Refused | By_Design | Missed | Command_Failed | Failed | Fine

definition classify :: "exec_result \<Rightarrow> outcome_class" where
  "classify r =
     (if is_policy_refusal r then Refused else if is_unavailable r then By_Design else if is_miss r then Missed
      else if is_command_failure r then Command_Failed else if er_error r then Failed else Fine)"

definition count_outcome :: "exec_result \<Rightarrow> tool_entry \<Rightarrow> tool_entry" where
  "count_outcome r e =
     (let e1 = e\<lparr>calls := calls e + 1, total_latency_ms := total_latency_ms e + int (er_latency r)\<rparr>; c = er_content r in
      case classify r of
        Refused \<Rightarrow> e1\<lparr>refusals := refusals e1 + 1, refusal_errors := add_preview 300 ''refused'' c (refusal_errors e1)\<rparr>
      | By_Design \<Rightarrow> e1\<lparr>unavailable := unavailable e1 + 1\<rparr>
      | Missed \<Rightarrow> e1\<lparr>misses := misses e1 + 1, miss_errors := add_preview 300 ''miss'' c (miss_errors e1)\<rparr>
      | Command_Failed \<Rightarrow> e1\<lparr>command_failures := command_failures e1 + 1,
            command_errors := add_preview 300 ''non-zero exit'' c (command_errors e1)\<rparr>
      | Failed \<Rightarrow> e1\<lparr>failures := failures e1 + 1, errors := add_preview 500 ''unknown'' c (errors e1)\<rparr>
      | Fine \<Rightarrow> e1)"

definition count_attempt :: "exec_result \<Rightarrow> attempt_entry \<Rightarrow> attempt_entry" where
  "count_attempt r a =
     (let a1 = a\<lparr>a_calls := a_calls a + 1\<rparr> in
      case classify r of
        Refused \<Rightarrow> a1\<lparr>a_refusals := a_refusals a1 + 1\<rparr>
      | By_Design \<Rightarrow> a1\<lparr>a_unavailable := a_unavailable a1 + 1\<rparr>
      | Command_Failed \<Rightarrow> a1\<lparr>a_command_failures := a_command_failures a1 + 1\<rparr>
      | _ \<Rightarrow> if er_error r then a1\<lparr>a_failures := a_failures a1 + 1\<rparr> else a1)"

definition get_or :: "'v \<Rightarrow> 'v option \<Rightarrow> 'v" where
  "get_or d v = (case v of None \<Rightarrow> d | Some x \<Rightarrow> x)"

definition record_tool_outcome :: "turn_state \<Rightarrow> exec_result \<Rightarrow> turn_state" where
  "record_tool_outcome tn r =
     (let n = er_tool r; k = nat (reflect_count tn);
          summary = (tool_summary tn)(n \<mapsto> count_outcome r (get_or new_entry (tool_summary tn n)));
          attempts = tool_summary_attempts tn @ replicate (k + 1 - length (tool_summary_attempts tn)) Map.empty;
          entry = count_attempt r (get_or new_attempt_entry ((attempts ! k) n))
      in tn\<lparr>tool_summary := summary, tool_summary_attempts := attempts[k := (attempts ! k)(n \<mapsto> entry)]\<rparr>)"

text \<open>The metadata of the row, and the rows of a round that died before its results were recorded.\<close>

definition outcome_meta :: "exec_result \<Rightarrow> metadata" where
  "outcome_meta r = [(''was_error'', JBool (er_error r)), (''latency_ms'', JInt (int (er_latency r))), (''tool'', JStr (er_tool r))]
     @ (if is_miss r then [(''miss'', JBool True)] else [])
     @ (if is_unavailable r then [(''unavailable'', JBool True)] else [])
     @ (if is_command_failure r then [(''command_failed'', JBool True)] else [])"

definition stub_unanswered_calls :: "(tool_call \<Rightarrow> bool) \<Rightarrow> tool_call list \<Rightarrow> string list" where
  "stub_unanswered_calls saved tcs = map tc_id (filter (\<lambda>tc. tc_id tc \<noteq> [] \<and> saved tc) tcs)"

end
