(* ===== verification/Tool_Account_Proofs.thy ===== *)
theory Tool_Account_Proofs
  imports Tool_Account Tool_Exec_Proofs
begin

text \<open>
  The summaries of a turn count each result once, in the class that the executor's tests give it; and
  the summary of an attempt counts one class differently.
\<close>

definition of_class :: "string \<Rightarrow> outcome_class \<Rightarrow> exec_result list \<Rightarrow> int" where
  "of_class n c rs = int (length (filter (\<lambda>r. er_tool r = n \<and> classify r = c) rs))"

definition entry_of :: "turn_state \<Rightarrow> string \<Rightarrow> tool_entry" where
  "entry_of tn n = get_or new_entry (tool_summary tn n)"

lemma entry_of_record:
  "entry_of (record_tool_outcome tn r) n = (if n = er_tool r then count_outcome r (entry_of tn n) else entry_of tn n)"
  by (simp add: entry_of_def record_tool_outcome_def Let_def get_or_def)

lemma of_class_snoc:
  "of_class n c (rs @ [r]) = of_class n c rs + (if er_tool r = n \<and> classify r = c then 1 else 0)"
  by (simp add: of_class_def)

text \<open>The summary of a turn counts each result once. After any sequence of results the entry of a
  tool counts its calls, and of them as failures, refusals, unavailable, missed and failed commands
  exactly those that the executor's tests put in that class, so that the classes and the calls without
  an error add up to the calls.\<close>

theorem summary_counts_classes:
  assumes "tool_summary tn n = None"
  shows "let e = entry_of (foldl record_tool_outcome tn rs) n in
     calls e = int (length (filter (\<lambda>r. er_tool r = n) rs))
   \<and> failures e = of_class n Failed rs \<and> refusals e = of_class n Refused rs \<and> unavailable e = of_class n By_Design rs
   \<and> misses e = of_class n Missed rs \<and> command_failures e = of_class n Command_Failed rs
   \<and> calls e = failures e + refusals e + unavailable e + misses e + command_failures e + of_class n Fine rs"
proof -
  have zero: "entry_of tn n = new_entry" using assms by (simp add: entry_of_def get_or_def)
  show ?thesis unfolding Let_def
  proof (induction rs rule: rev_induct)
    case Nil
    then show ?case by (simp add: zero new_entry_def of_class_def)
  next
    case (snoc r rs)
    then show ?case
      by (cases "classify r") (auto simp: entry_of_record of_class_snoc count_outcome_def Let_def)
  qed
qed

lemma summary_counts_classes_witness:
  "calls (entry_of (foldl record_tool_outcome new_turn [guard_result ''bash'' Tool_Disabled]) ''bash'') = 1
   \<and> refusals (entry_of (foldl record_tool_outcome new_turn [guard_result ''bash'' Tool_Disabled]) ''bash'') = 1
   \<and> failures (entry_of (foldl record_tool_outcome new_turn [guard_result ''bash'' Tool_Disabled]) ''bash'') = 0"
proof -
  have c: "classify (guard_result ''bash'' Tool_Disabled) = Refused" "er_tool (guard_result ''bash'' Tool_Disabled) = ''bash''"
    by (simp_all add: classify_def is_policy_refusal_def guard_result_def meta_flag_def)
  have "tool_summary new_turn ''bash'' = None" by (simp add: new_turn_def)
  from summary_counts_classes [OF this, of "[guard_result ''bash'' Tool_Disabled]"] show ?thesis
    using c by (simp add: Let_def of_class_def)
qed

text \<open>In the summary of an attempt a lookup that found nothing is a failure of the tool, although in
  the summary of the turn, for the same result, it is not.\<close>

theorem miss_is_failure_of_attempt:
  assumes "classify r = Missed" "er_error r" "tool_summary_attempts tn = []" "reflect_count tn = 0" "tool_summary tn (er_tool r) = None"
  shows "map_option a_failures (hd (tool_summary_attempts (record_tool_outcome tn r)) (er_tool r)) = Some 1
    \<and> failures (entry_of (record_tool_outcome tn r) (er_tool r)) = 0"
  using assms
  by (simp add: entry_of_record entry_of_def get_or_def count_outcome_def count_attempt_def new_entry_def new_attempt_entry_def
      record_tool_outcome_def Let_def)

definition missed_skill :: exec_result where
  "missed_skill = \<lparr>er_tool = ''load_skill'', er_content = ''[miss] no such skill'', er_error = True, er_latency = 1,
     er_meta = [(''miss'', JBool True)]\<rparr>"

lemma miss_is_failure_of_attempt_witness:
  "map_option a_failures (hd (tool_summary_attempts (record_tool_outcome new_turn missed_skill)) ''load_skill'') = Some 1"
proof -
  have "classify missed_skill = Missed" by code_simp
  then show ?thesis
    using miss_is_failure_of_attempt [of missed_skill new_turn] by (simp add: missed_skill_def new_turn_def)
qed

end
