(* ===== verification/Tool_Registry.thy ===== *)
theory Tool_Registry
  imports Tool_Exec
begin

text \<open>
  The registry of \<open>core/tools/registry.py\<close>: registration with the user's overrides, the two switches and
  their file, the discovery index, and the list of tools a session is shown
  (\<open>core/tools/native.py\<close> and \<open>_resolve_tool_surface\<close> of \<open>core/agent.py\<close>).
\<close>

section \<open>Tables\<close>

definition SYNONYMS :: "(string \<times> string list) list" where
  "SYNONYMS =
    [(''search'', [''web'', ''find'', ''lookup'', ''query'', ''research'', ''internet'', ''google'']),
     (''write'', [''create'', ''save'', ''output'', ''generate'', ''make'']),
     (''edit'', [''modify'', ''replace'', ''change'', ''update'', ''patch'', ''fix'', ''refactor'']),
     (''read'', [''open'', ''load'', ''view'', ''inspect'', ''check'', ''show'', ''get'']),
     (''glob'', [''find'', ''locate'', ''pattern'', ''match'', ''discover'', ''list'']),
     (''grep'', [''regex'', ''codebase'', ''usage'', ''reference'', ''import'', ''definition'', ''pattern'']),
     (''run'', [''execute'', ''shell'', ''command'', ''terminal'', ''bash'', ''process'']),
     (''git'', [''version'', ''commit'', ''diff'', ''vcs'', ''source'', ''repo'', ''branch'']),
     (''parallel'', [''worker'', ''delegate'', ''orchestrate'', ''concurrent'', ''spawn'', ''multi'']),
     (''schedule'', [''cron'', ''recurring'', ''automated'', ''periodic'', ''timer'', ''job'']),
     (''evaluate'', [''test'', ''verify'', ''validate'', ''check'', ''qa'', ''assess'', ''grade'']),
     (''browse'', [''web'', ''browser'', ''playwright'', ''html'', ''render'', ''navigate'', ''console'', ''debug'']),
     (''remember'', [''save'', ''store'', ''note'', ''record'', ''memory'', ''persist'']),
     (''recall'', [''retrieve'', ''fetch'', ''search'', ''find'', ''memory'', ''knowledge'']),
     (''artifact'', [''file'', ''document'', ''output'', ''deliverable'', ''result'', ''product'']),
     (''model'', [''llm'', ''switch'', ''provider'', ''ai'', ''openai'', ''anthropic'', ''claude'', ''gpt'', ''gemini'',
        ''ollama'', ''chat'', ''completion'']),
     (''tool'', [''capability'', ''function'', ''action'', ''utility'']),
     (''mcp'', [''server'', ''integration'', ''connector'', ''external'', ''protocol'', ''plugin'', ''service'']),
     (''rlm'', [''recursive'', ''long context'', ''huge'', ''large'', ''corpus'', ''transcript'', ''summarize'', ''analyze'',
        ''document''])]"

definition TOOL_COOCCURRENCE :: "(string \<times> string list) list" where
  "TOOL_COOCCURRENCE =
    [(''spawn_worker'', [''check_workers'', ''await_workers'', ''get_worker_result'', ''get_worker_transcript'', ''message_worker'',
        ''cancel_worker'']),
     (''check_workers'', [''spawn_worker'', ''await_workers'', ''get_worker_result'', ''get_worker_transcript'', ''message_worker'']),
     (''await_workers'', [''spawn_worker'', ''check_workers'', ''get_worker_result'', ''get_worker_transcript'']),
     (''get_worker_result'', [''spawn_worker'', ''check_workers'', ''await_workers'', ''get_worker_transcript'']),
     (''get_worker_transcript'', [''spawn_worker'', ''check_workers'', ''get_worker_result'']),
     (''message_worker'', [''spawn_worker'', ''check_workers'', ''get_worker_result'']),
     (''rlm_process'', [''file_read'', ''file_write'', ''glob'']),
     (''schedule_job'', [''list_scheduled_jobs'', ''remove_scheduled_job'', ''set_job_state'', ''update_scheduled_job'']),
     (''set_job_state'', [''list_scheduled_jobs'', ''schedule_job'']),
     (''update_scheduled_job'', [''list_scheduled_jobs'', ''schedule_job'']),
     (''file_edit'', [''multiedit'', ''file_read'', ''file_write'']),
     (''multiedit'', [''file_edit'', ''file_read'']),
     (''glob'', [''grep'', ''file_read'']),
     (''grep'', [''glob'', ''file_read'']),
     (''remember'', [''recall'']),
     (''recall'', [''remember'']),
     (''search_web'', [''http_get'', ''browse_web'']),
     (''http_get'', [''search_web'', ''browse_web'']),
     (''browse_web'', [''search_web'', ''http_get'']),
     (''mcp_list_servers'', [''mcp_add_server'', ''mcp_reload_server'', ''mcp_remove_server'']),
     (''mcp_add_server'', [''mcp_list_servers'', ''mcp_reload_server'']),
     (''mcp_reload_server'', [''mcp_list_servers''])]"

definition NATIVE_TOOLS :: "string list" where
  "NATIVE_TOOLS =
    [''ask_user'', ''await_workers'', ''bash'', ''browse_web'', ''call_model'', ''check_workers'', ''deep_recall'',
     ''file_edit'', ''file_read'', ''file_write'', ''get_worker_result'', ''glob'', ''goal_complete'',
     ''goal_status'', ''grep'', ''http_get'', ''job_kill'', ''job_start'', ''job_status'', ''job_tail'',
     ''load_skill'', ''lookup'', ''multiedit'', ''notify_user'', ''recall'', ''remember'', ''repl'',
     ''search_sessions'', ''search_web'', ''session_read'', ''spawn_worker'', ''use_tool'', ''view_image'']"

section \<open>The registry\<close>

record full_tool = tool_def +
  ft_name :: string
  ft_description :: string
  ft_category :: string
  ft_tags :: "string list"
  ft_params :: "string list"
  ft_source :: string

record index_entry =
  ix_name :: string
  ix_category :: string
  ix_name_tokens :: "string set"
  ix_desc_tokens :: "string set"
  ix_tag_tokens :: "string set"
  ix_param_tokens :: "string set"

text \<open>\<open>tr_file\<close> is what \<open>tools.json\<close> holds; \<^const>\<open>None\<close> when it is missing or cannot be read.\<close>

record tool_registry =
  tr_tools :: "(string \<times> full_tool) list"
  tr_disabled :: "string list"
  tr_overrides :: "(string \<times> string) list"
  tr_metrics :: "(string \<times> health) list"
  tr_index :: "(string \<times> index_entry) list"
  tr_file :: "(string list \<times> (string \<times> string) list) option"

definition new_registry :: tool_registry where
  "new_registry = \<lparr>tr_tools = [], tr_disabled = [], tr_overrides = [], tr_metrics = [], tr_index = [], tr_file = None\<rparr>"

text \<open>What the gate and the executor see of it.\<close>

definition view :: "tool_registry \<Rightarrow> registry" where
  "view R = \<lparr>rg_tools = (\<lambda>n. map_option tool_def.truncate (map_of (tr_tools R) n)), rg_disabled = set (tr_disabled R)\<rparr>"

definition register_tool :: "full_tool \<Rightarrow> tool_registry \<Rightarrow> tool_registry" where
  "register_tool t R =
     (let n = ft_name t; t1 = (case map_of (tr_overrides R) n of None \<Rightarrow> t | Some l \<Rightarrow> t\<lparr>td_safety := l\<rparr>) in
      R\<lparr>tr_tools := dict_set n t1 (tr_tools R),
        tr_metrics := (if n \<in> fst ` set (tr_metrics R) then tr_metrics R else tr_metrics R @ [(n, new_health)])\<rparr>)"

definition unregister :: "string \<Rightarrow> tool_registry \<Rightarrow> bool \<times> tool_registry" where
  "unregister n R = (n \<in> fst ` set (tr_tools R), R\<lparr>tr_tools := dict_pop n (tr_tools R)\<rparr>)"

definition exists_tool :: "string \<Rightarrow> tool_registry \<Rightarrow> bool" where
  "exists_tool n R \<longleftrightarrow> n \<in> fst ` set (tr_tools R)"

definition is_disabled :: "string \<Rightarrow> tool_registry \<Rightarrow> bool" where
  "is_disabled n R \<longleftrightarrow> n \<in> set (tr_disabled R)"

definition enabled_tools :: "tool_registry \<Rightarrow> full_tool list" where
  "enabled_tools R = filter (\<lambda>t. \<not> is_disabled (ft_name t) R) (map snd (tr_tools R))"

text \<open>The schemas, by the names of their tools.\<close>

definition get_schemas :: "string list option \<Rightarrow> tool_registry \<Rightarrow> string list" where
  "get_schemas names R = (case names of
       Some ns \<Rightarrow> filter (\<lambda>n. exists_tool n R \<and> \<not> is_disabled n R) ns
     | None \<Rightarrow> sort (map ft_name (enabled_tools R)))"

section \<open>Switches and their file\<close>

definition save_config :: "tool_registry \<Rightarrow> tool_registry" where
  "save_config R = R\<lparr>tr_file := Some (sort (tr_disabled R), sort_key fst (tr_overrides R))\<rparr>"

definition disable :: "string \<Rightarrow> tool_registry \<Rightarrow> tool_registry" where
  "disable n R = save_config (R\<lparr>tr_disabled := (if n \<in> set (tr_disabled R) then tr_disabled R else tr_disabled R @ [n])\<rparr>)"

definition enable :: "string \<Rightarrow> tool_registry \<Rightarrow> tool_registry" where
  "enable n R = save_config (R\<lparr>tr_disabled := filter (\<lambda>m. m \<noteq> n) (tr_disabled R)\<rparr>)"

definition VALID_SAFETY_LEVELS :: "string list" where
  "VALID_SAFETY_LEVELS = [''safe'', ''caution'', ''dangerous'']"

definition put_safety :: "string \<Rightarrow> string \<Rightarrow> tool_registry \<Rightarrow> tool_registry" where
  "put_safety n l R = (case map_of (tr_tools R) n of None \<Rightarrow> R | Some t \<Rightarrow> R\<lparr>tr_tools := dict_set n (t\<lparr>td_safety := l\<rparr>) (tr_tools R)\<rparr>)"

datatype safety_error = Invalid_Level string | Unknown_Name string

definition set_safety_level :: "string \<Rightarrow> string \<Rightarrow> tool_registry \<Rightarrow> safety_error + tool_registry" where
  "set_safety_level n l R =
     (if l \<notin> set VALID_SAFETY_LEVELS then Inl (Invalid_Level l)
      else if \<not> exists_tool n R then Inl (Unknown_Name n)
      else Inr (save_config ((put_safety n l R)\<lparr>tr_overrides := dict_set n l (tr_overrides R)\<rparr>)))"

definition load_override :: "tool_registry \<Rightarrow> string \<times> string \<Rightarrow> tool_registry" where
  "load_override R = (\<lambda>(n, l). if l \<notin> set VALID_SAFETY_LEVELS then R
     else put_safety n l (R\<lparr>tr_overrides := dict_set n l (tr_overrides R)\<rparr>))"

definition load_config :: "tool_registry \<Rightarrow> tool_registry" where
  "load_config R = (case tr_file R of
       None \<Rightarrow> R
     | Some (off, levels) \<Rightarrow> foldl load_override (R\<lparr>tr_disabled := remdups off\<rparr>) levels)"

section \<open>Discovery\<close>

definition letter :: "char \<Rightarrow> bool" where
  "letter c \<longleftrightarrow> (let n = (of_char c :: nat) in 65 \<le> n \<and> n \<le> 90 \<or> 97 \<le> n \<and> n \<le> 122)"

text \<open>The maximal runs of letters.\<close>

fun letter_runs :: "string \<Rightarrow> string \<Rightarrow> string list" where
  "letter_runs acc [] = (if acc = [] then [] else [acc])"
| "letter_runs acc (c # cs) = (if letter c then letter_runs (acc @ [c]) cs
     else (if acc = [] then [] else [acc]) @ letter_runs [] cs)"

definition tokenize :: "string \<Rightarrow> string set" where
  "tokenize s = set (map py_lower (filter (\<lambda>w. 2 < length w) (letter_runs [] s)))"

definition expand_synonyms :: "string set \<Rightarrow> string set" where
  "expand_synonyms tokens = tokens \<union>
     \<Union> (set (map (\<lambda>(key, syns). if (\<exists>t \<in> tokens. t = key \<or> t \<in> set syns) then insert key (set syns) else {}) SYNONYMS))"

definition index_tool :: "full_tool \<Rightarrow> index_entry" where
  "index_tool t = \<lparr>ix_name = ft_name t, ix_category = ft_category t,
     ix_name_tokens = tokenize (map (\<lambda>c. if c = CHR ''_'' then CHR '' '' else c) (ft_name t)),
     ix_desc_tokens = tokenize (ft_description t), ix_tag_tokens = set (map py_lower (ft_tags t)),
     ix_param_tokens = set (map py_lower (ft_params t))\<rparr>"

definition rebuild_index :: "tool_registry \<Rightarrow> tool_registry" where
  "rebuild_index R = R\<lparr>tr_index := map (\<lambda>(n, t). (n, index_tool t)) (tr_tools R)\<rparr>"

definition match_score :: "string set \<Rightarrow> index_entry \<Rightarrow> rat" where
  "match_score q e = of_nat (card (q \<inter> ix_name_tokens e)) * 3 + of_nat (card (q \<inter> ix_tag_tokens e)) * 2
     + of_nat (card (q \<inter> ix_desc_tokens e)) + of_nat (card (q \<inter> ix_param_tokens e)) / 2"

definition cooccurring :: "string \<Rightarrow> string list" where
  "cooccurring n = (case map_of TOOL_COOCCURRENCE n of None \<Rightarrow> [] | Some ns \<Rightarrow> ns)"

text \<open>A hit brings its siblings that are in the index; no name twice.\<close>

definition add_hit :: "(string \<times> index_entry) list \<Rightarrow> string list \<Rightarrow> string \<Rightarrow> string list" where
  "add_hit ix found n =
     (if n \<in> set found then found
      else foldl (\<lambda>acc co. if co \<notin> set acc \<and> co \<in> fst ` set ix then acc @ [co] else acc) (found @ [n]) (cooccurring n))"

definition search_index :: "(string \<times> index_entry) list \<Rightarrow> string \<Rightarrow> string option \<Rightarrow> nat \<Rightarrow> string list" where
  "search_index ix query cat limit =
     (let q = expand_synonyms (tokenize query);
          pool = filter (\<lambda>e. (case cat of None \<Rightarrow> True | Some c \<Rightarrow> c = [] \<or> ix_category e = c)) (map snd ix);
          scored = filter (\<lambda>(e, s). 0 < s) (map (\<lambda>e. (e, match_score q e)) pool);
          ranked = sort_key (\<lambda>(e, s). - s) scored
      in take limit (foldl (add_hit ix) [] (map (\<lambda>(e, s). ix_name e) (take limit ranked))))"

definition discover :: "string \<Rightarrow> string option \<Rightarrow> nat \<Rightarrow> tool_registry \<Rightarrow> string list" where
  "discover query cat limit R = filter (\<lambda>n. \<not> is_disabled n R) (search_index (tr_index R) query cat limit)"

definition expand_cooccurrence :: "string set \<Rightarrow> tool_registry \<Rightarrow> string set" where
  "expand_cooccurrence names R = names \<union>
     (\<Union>n \<in> names. set (filter (\<lambda>m. exists_tool m R \<and> \<not> is_disabled m R) (cooccurring n)))"

section \<open>The tools a session is shown\<close>

definition frozen_surface :: "string list \<Rightarrow> string list \<Rightarrow> tool_registry \<Rightarrow> string list" where
  "frozen_surface allow excluded R =
     sort (remdups (filter (\<lambda>n. exists_tool n R \<and> \<not> is_disabled n R \<and> n \<notin> set excluded) (if allow \<noteq> [] then allow else NATIVE_TOOLS)))"

definition catalog_names :: "tool_registry \<Rightarrow> string list" where
  "catalog_names R = sort (filter (\<lambda>n. n \<notin> set NATIVE_TOOLS) (map ft_name (enabled_tools R)))"

text \<open>\<open>report\<close> holds the tools scout proposed, \<^const>\<open>None\<close> without a report.\<close>

definition resolve_tool_surface ::
    "bool \<Rightarrow> bool \<Rightarrow> string list option \<Rightarrow> string list \<Rightarrow> string list \<Rightarrow> string list \<Rightarrow> tool_registry \<Rightarrow> string list" where
  "resolve_tool_surface first_turn_only gates_on report prior allow excluded R =
     (if first_turn_only then frozen_surface allow excluded R
      else (case report of
          None \<Rightarrow>
            (let names = filter (\<lambda>t. ft_source t = ''mcp'' \<longrightarrow> ft_name t \<in> set prior) (enabled_tools R)
             in sort (remdups (filter (\<lambda>n. allow \<noteq> [] \<longrightarrow> n \<in> set allow) (map ft_name names))))
        | Some proposed \<Rightarrow>
            (let builtin = map ft_name (filter (\<lambda>t. ft_source t = ''builtin'') (enabled_tools R));
                 gates = (if gates_on \<and> exists_tool ''list_gates'' R \<and> \<not> is_disabled ''list_gates'' R then [''list_gates''] else []);
                 kept = filter (\<lambda>n. exists_tool n R \<and> \<not> is_disabled n R) prior;
                 base = proposed @ builtin @ gates @ kept;
                 active = expand_cooccurrence (set base) R
             in sorted_list_of_set (Set.filter (\<lambda>n. (allow \<noteq> [] \<longrightarrow> n \<in> set allow) \<and> n \<notin> set excluded) active))))"

text \<open>A result of \<open>discover_tools\<close> widens the list within the turn; \<open>found\<close> are the names in bold.\<close>

definition expand_from_discovery :: "string list \<Rightarrow> tool_registry \<Rightarrow> string list \<Rightarrow> string list" where
  "expand_from_discovery found R active =
     foldl (\<lambda>acc n. if exists_tool n R \<and> \<not> is_disabled n R \<and> n \<notin> set acc then insort n acc else acc) active found"

end
