(* ===== verification/Tool_Registry_Proofs.thy ===== *)
theory Tool_Registry_Proofs
  imports Tool_Registry Tool_Exec_Proofs
begin

text \<open>
  The registry: a user's override outranks the code whenever the tool registers, the settings survive
  a restart, and what a session is shown agrees with what the executor lets it call.
\<close>

section \<open>Overrides and metrics\<close>

datatype registry_op =
    Register full_tool
  | Unregister string
  | Disable string
  | Enable string
  | Set_Safety string string
  | Load

fun registry_step :: "tool_registry \<Rightarrow> registry_op \<Rightarrow> tool_registry" where
  "registry_step R (Register t) = register_tool t R"
| "registry_step R (Unregister n) = snd (unregister n R)"
| "registry_step R (Disable n) = disable n R"
| "registry_step R (Enable n) = enable n R"
| "registry_step R (Set_Safety n l) = (case set_safety_level n l R of Inl _ \<Rightarrow> R | Inr R' \<Rightarrow> R')"
| "registry_step R Load = load_config R"

text \<open>Each tool is filed under its name, has a metric, and has the safety level the user chose.\<close>

definition registry_ok :: "tool_registry \<Rightarrow> bool" where
  "registry_ok R \<longleftrightarrow>
     (\<forall>n t. map_of (tr_tools R) n = Some t \<longrightarrow> ft_name t = n \<and> n \<in> fst ` set (tr_metrics R)
        \<and> (\<forall>l. map_of (tr_overrides R) n = Some l \<longrightarrow> td_safety t = l))
     \<and> (\<forall>n l. map_of (tr_overrides R) n = Some l \<longrightarrow> l \<in> set VALID_SAFETY_LEVELS)
     \<and> distinct (map fst (tr_overrides R))"

lemma registry_ok_new: "registry_ok new_registry"
  by (simp add: registry_ok_def new_registry_def)

lemma put_safety_frame [simp]:
  "tr_overrides (put_safety n l R) = tr_overrides R" "tr_metrics (put_safety n l R) = tr_metrics R"
  "tr_disabled (put_safety n l R) = tr_disabled R" "tr_file (put_safety n l R) = tr_file R"
  by (simp_all add: put_safety_def split: option.splits)

lemma map_of_put_safety:
  "map_of (tr_tools (put_safety n l R)) m = (if m = n then map_option (td_safety_update (\<lambda>_. l)) (map_of (tr_tools R) n)
     else map_of (tr_tools R) m)"
  by (auto simp: put_safety_def split: option.splits)

lemma put_override_ok:
  assumes "registry_ok R" "l \<in> set VALID_SAFETY_LEVELS"
  shows "registry_ok (put_safety n l (R\<lparr>tr_overrides := dict_set n l (tr_overrides R)\<rparr>))"
  using assms unfolding registry_ok_def
  by (auto simp: map_of_put_safety distinct_dict_set split: if_splits)

lemma load_override_ok: "registry_ok R \<Longrightarrow> registry_ok (load_override R kl)"
  by (cases kl) (auto simp: load_override_def intro: put_override_ok)

lemma registry_ok_save [simp]: "registry_ok (save_config R) = registry_ok R"
  by (simp add: registry_ok_def save_config_def)

lemma registry_ok_step: "registry_ok R \<Longrightarrow> registry_ok (registry_step R op')"
proof (cases op')
  case (Register t)
  assume "registry_ok R"
  then show ?thesis unfolding Register
    by (auto simp: registry_ok_def register_tool_def Let_def split: option.splits if_splits)
next
  case (Unregister n)
  assume "registry_ok R"
  then show ?thesis unfolding Unregister by (auto simp: registry_ok_def unregister_def split: if_splits)
next
  case (Set_Safety n l)
  assume ok: "registry_ok R"
  let ?Q = "(put_safety n l R)\<lparr>tr_overrides := dict_set n l (tr_overrides R)\<rparr>"
  have swap: "?Q = put_safety n l (R\<lparr>tr_overrides := dict_set n l (tr_overrides R)\<rparr>)"
    by (simp add: put_safety_def split: option.splits)
  have "registry_ok (save_config ?Q)" if "l \<in> set VALID_SAFETY_LEVELS"
    using put_override_ok [OF ok that, of n] unfolding swap [symmetric] registry_ok_save .
  then show ?thesis using ok unfolding Set_Safety by (simp add: set_safety_level_def)
next
  case Load
  assume ok: "registry_ok R"
  have "registry_ok (foldl load_override Q ls)" if "registry_ok Q" for Q ls
    using that by (induction ls arbitrary: Q) (simp_all add: load_override_ok)
  moreover have "registry_ok (R\<lparr>tr_disabled := d\<rparr>)" for d using ok by (simp add: registry_ok_def)
  ultimately show ?thesis using ok unfolding Load by (simp add: load_config_def split: option.splits)
qed (simp_all add: registry_ok_def disable_def enable_def save_config_def)

interpretation registry_machine: invariant_machine registry_step registry_ok
  by unfold_locales (rule registry_ok_step)

text \<open>The user's choice outranks the code. Over every sequence of registrations, removals, switches,
  safety settings and loads of the file, a registered tool has the safety level the user last chose for
  its name, whenever it registered, every such level is valid, and each tool has a health metric, so
  the executor's look-ups of metrics cannot fail.\<close>

theorem override_outranks_code:
  "case map_of (tr_tools (foldl registry_step new_registry ops)) n of
     None \<Rightarrow> True
   | Some t \<Rightarrow> n \<in> fst ` set (tr_metrics (foldl registry_step new_registry ops))
       \<and> (case map_of (tr_overrides (foldl registry_step new_registry ops)) n of
            None \<Rightarrow> True | Some l \<Rightarrow> td_safety t = l \<and> l \<in> set VALID_SAFETY_LEVELS)"
proof -
  have "registry_ok (foldl registry_step new_registry ops)" by (rule registry_machine.run_inv [OF registry_ok_new])
  then show ?thesis by (auto simp: registry_ok_def split: option.splits)
qed

section \<open>Restart\<close>

text \<open>The level a list of saved levels leaves a name with.\<close>

definition saved_level :: "(string \<times> string) list \<Rightarrow> string \<Rightarrow> string option" where
  "saved_level ls n = map_of (rev (filter (\<lambda>(_, l). l \<in> set VALID_SAFETY_LEVELS) ls)) n"

definition with_level :: "string option \<Rightarrow> full_tool \<Rightarrow> full_tool" where
  "with_level l t = (case l of None \<Rightarrow> t | Some x \<Rightarrow> t\<lparr>td_safety := x\<rparr>)"

lemma load_overrides:
  "map_of (tr_overrides (foldl load_override R ls)) n
     = (case saved_level ls n of None \<Rightarrow> map_of (tr_overrides R) n | Some l \<Rightarrow> Some l)
   \<and> map_of (tr_tools (foldl load_override R ls)) n = map_option (with_level (saved_level ls n)) (map_of (tr_tools R) n)
   \<and> tr_disabled (foldl load_override R ls) = tr_disabled R"
proof (induction ls rule: rev_induct)
  case Nil
  then show ?case by (cases "map_of (tr_tools R) n") (simp_all add: saved_level_def with_level_def)
next
  case (snoc kl ls)
  obtain k l where kl: "kl = (k, l)" by fastforce
  have s: "saved_level (ls @ [kl]) n = (if l \<in> set VALID_SAFETY_LEVELS \<and> n = k then Some l else saved_level ls n)"
    by (auto simp: saved_level_def kl)
  show ?case using snoc unfolding s
    by (auto simp: kl load_override_def map_of_put_safety with_level_def option.map_comp comp_def split: option.splits)
qed

lemma saved_level_sorted:
  assumes "registry_ok R" shows "saved_level (sort_key fst (tr_overrides R)) = map_of (tr_overrides R)"
proof -
  let ?ls = "sort_key fst (tr_overrides R)"
  have d: "distinct (map fst ?ls)" "distinct (map fst (tr_overrides R))"
    using assms by (auto simp: registry_ok_def distinct_map)
  have "l \<in> set VALID_SAFETY_LEVELS" if "(k, l) \<in> set ?ls" for k l
  proof -
    have "map_of (tr_overrides R) k = Some l" using that d(2) by (simp add: map_of_is_SomeI)
    then show ?thesis using assms unfolding registry_ok_def by blast
  qed
  then have "filter (\<lambda>(_, l). l \<in> set VALID_SAFETY_LEVELS) ?ls = ?ls" by (auto intro: filter_True)
  moreover have "map_of (rev ?ls) = map_of (tr_overrides R)"
    using d by (subst map_of_inject_set) (simp_all add: rev_map [symmetric])
  ultimately show ?thesis by (simp add: saved_level_def fun_eq_iff)
qed

lemma register_all:
  assumes "distinct (map ft_name ts)"
  shows "map_of (tr_tools (foldl (\<lambda>R t. register_tool t R) R ts)) n
     = (case find (\<lambda>t. ft_name t = n) ts of
          None \<Rightarrow> map_of (tr_tools R) n | Some t \<Rightarrow> Some (with_level (map_of (tr_overrides R) n) t))
   \<and> tr_overrides (foldl (\<lambda>R t. register_tool t R) R ts) = tr_overrides R
   \<and> tr_disabled (foldl (\<lambda>R t. register_tool t R) R ts) = tr_disabled R
   \<and> tr_file (foldl (\<lambda>R t. register_tool t R) R ts) = tr_file R"
  using assms
proof (induction ts rule: rev_induct)
  case (snoc t ts)
  have f: "find (\<lambda>t. ft_name t = n) (ts @ [t]) = (case find (\<lambda>t. ft_name t = n) ts of
      None \<Rightarrow> if ft_name t = n then Some t else None | Some x \<Rightarrow> Some x)" for n
    by (induction ts) auto
  have none: "ft_name t = n \<Longrightarrow> find (\<lambda>t. ft_name t = n) ts = None"
    using snoc.prems by (simp add: find_None_iff) (metis imageI)
  show ?case using snoc none
    by (auto simp: f register_tool_def Let_def with_level_def split: option.splits)
qed simp

text \<open>C31: the settings survive a restart. After any operations, a fresh process that registers the same
  tools and reads the saved file has the same disabled tools, and each tool it registers has the
  level the user chose or else the code's own; and it makes no difference whether the tools register
  before the file is read or after, as those of remote servers do.\<close>

theorem settings_survive_restart:
  assumes "distinct (map ft_name ts)"
  shows "let R = save_config (foldl registry_step new_registry ops);
       early = load_config (foldl (\<lambda>R t. register_tool t R) (new_registry\<lparr>tr_file := tr_file R\<rparr>) ts);
       late = foldl (\<lambda>R t. register_tool t R) (load_config (new_registry\<lparr>tr_file := tr_file R\<rparr>)) ts
     in set (tr_disabled early) = set (tr_disabled R) \<and> set (tr_disabled late) = set (tr_disabled R)
      \<and> map_of (tr_tools early) n = map_of (tr_tools late) n
      \<and> map_of (tr_tools late) n = map_option (with_level (map_of (tr_overrides R) n)) (find (\<lambda>t. ft_name t = n) ts)"
proof -
  define R where "R = foldl registry_step new_registry ops"
  have ok: "registry_ok R" unfolding R_def by (rule registry_machine.run_inv [OF registry_ok_new])
  let ?ls = "sort_key fst (tr_overrides R)"
  have saved: "saved_level ?ls = map_of (tr_overrides R)" by (rule saved_level_sorted [OF ok])
  have none: "tr_tools new_registry = []" "tr_overrides new_registry = []"
    by (simp_all add: new_registry_def)
  show ?thesis unfolding R_def [symmetric]
    using register_all [OF assms] load_overrides [of _ ?ls] saved
    by (auto simp: save_config_def load_config_def none with_level_def split: option.splits)
qed

definition glob_tool :: full_tool where
  "glob_tool = \<lparr>td_schema = None, td_timeout = 300, td_max_timeout = 0, td_parallel_safe = True, td_denied_types = {},
      td_safety = ''safe'', td_long_poll = False, td_idempotent = True,
      ft_name = ''glob'', ft_description = ''Find files'', ft_category = ''files'', ft_tags = [], ft_params = [],
      ft_source = ''builtin''\<rparr>"

lemma settings_survive_restart_witness:
  "let R = save_config (foldl registry_step new_registry [Register glob_tool, Set_Safety ''glob'' ''caution'', Unregister ''glob''])
   in map_of (tr_tools (foldl (\<lambda>R t. register_tool t R) (load_config (new_registry\<lparr>tr_file := tr_file R\<rparr>)) [glob_tool])) ''glob''
      = Some (glob_tool\<lparr>td_safety := ''caution''\<rparr>)"
proof -
  let ?R = "save_config (foldl registry_step new_registry [Register glob_tool, Set_Safety ''glob'' ''caution'', Unregister ''glob''])"
  have "map_of (tr_overrides ?R) ''glob'' = Some ''caution''" by code_simp
  then show ?thesis
    using settings_survive_restart [of "[glob_tool]" "[Register glob_tool, Set_Safety ''glob'' ''caution'', Unregister ''glob'']" "''glob''"]
    by (simp add: Let_def with_level_def) (simp add: glob_tool_def full_tool.defs)
qed

section \<open>The tools a session is shown\<close>

lemma surface_in_guards:
  assumes "n \<in> set (resolve_tool_surface first_turn_only gates_on report prior allow excluded R)"
  shows "(allow \<noteq> [] \<longrightarrow> n \<in> set allow) \<and> (first_turn_only \<or> report \<noteq> None \<longrightarrow> n \<notin> set excluded)"
  using assms by (auto simp: resolve_tool_surface_def frozen_surface_def expand_cooccurrence_def Let_def
      split: if_splits option.splits)

text \<open>What a session is shown, it may call. A tool among the schemas of a turn is registered and enabled, and the
  executor, under the same session, refuses it neither as disabled nor for the job's allow-list, nor,
  when the list is frozen or scout reported, for reflect's exclusions.\<close>

theorem shown_tools_pass_the_guards:
  assumes "n \<in> set (get_schemas (Some (resolve_tool_surface first_turn_only gates_on report prior (xs_allow s) (xs_excluded s) R)) R)"
    and "session_of st sid = Some s"
  shows "\<exists>t. rg_tools (view R) n = Some t
      \<and> fst (policy_guard auto (view R) t sid n args st) \<notin> {Some Tool_Disabled, Some (Not_Permitted (sort (xs_allow s)))}
      \<and> (first_turn_only \<or> report \<noteq> None \<longrightarrow> fst (policy_guard auto (view R) t sid n args st) \<noteq> Some Retry_Excluded)"
proof -
  have n: "exists_tool n R" "\<not> is_disabled n R"
      "n \<in> set (resolve_tool_surface first_turn_only gates_on report prior (xs_allow s) (xs_excluded s) R)"
    using assms(1) by (simp_all add: get_schemas_def)
  obtain t where t: "map_of (tr_tools R) n = Some t" using n(1) by (auto simp: exists_tool_def dest: weak_map_of_SomeI)
  have d: "dangerous_gate auto sid n args st = (g, st') \<Longrightarrow>
      g \<noteq> Some Tool_Disabled \<and> g \<noteq> Some Retry_Excluded \<and> (\<forall>a. g \<noteq> Some (Not_Permitted a))" for g st'
    by (auto simp: dangerous_gate_def split: if_splits option.splits)
  obtain g st' where g: "dangerous_gate auto sid n args st = (g, st')" by fastforce
  show ?thesis
    using surface_in_guards [OF n(3)] n(2) t assms(2) d [OF g] g
    by (auto simp: view_def policy_guard_def is_disabled_def Let_def)
qed

lemma shown_tools_pass_the_guards_witness:
  "\<exists>t. rg_tools (view (register_tool glob_tool new_registry)) ''glob'' = Some t
     \<and> fst (policy_guard False (view (register_tool glob_tool new_registry)) t ''s'' ''glob'' [] (exec_with [''s'' \<mapsto> job_session]))
          \<noteq> Some Tool_Disabled"
proof -
  have "''glob'' \<in> set (get_schemas (Some (resolve_tool_surface True False None [] (xs_allow job_session) (xs_excluded job_session)
      (register_tool glob_tool new_registry))) (register_tool glob_tool new_registry))" by code_simp
  then show ?thesis
    using shown_tools_pass_the_guards [of "''glob''" True False None "[]" job_session "register_tool glob_tool new_registry"
        "exec_with [''s'' \<mapsto> job_session]" "''s''"]
    by (auto simp: session_of_def exec_with_def)
qed

text \<open>Without a report the exclusions are not subtracted: an enabled builtin that reflect took away for this
  attempt is offered, and refused when called.\<close>

theorem excluded_tools_offered_without_report:
  assumes "t \<in> set (enabled_tools R)" "ft_name t = n" "ft_source t \<noteq> ''mcp''" "n \<in> set excluded"
  shows "n \<in> set (resolve_tool_surface False gates_on None prior [] excluded R)"
  using assms by (auto simp: resolve_tool_surface_def Let_def)

text \<open>A result of discovery widens the list past the job's allow-list, to a tool the executor then refuses.\<close>

theorem discovery_escapes_allow_list:
  assumes "exists_tool n R" "\<not> is_disabled n R" "n \<notin> set (xs_allow s)" "xs_allow s \<noteq> []" "n \<notin> set (xs_excluded s)"
    and "session_of st sid = Some s"
  shows "n \<in> set (expand_from_discovery [n] R active)
    \<and> fst (policy_guard auto (view R) t sid n args st) = Some (Not_Permitted (sort (xs_allow s)))"
  using assms by (auto simp: expand_from_discovery_def view_def policy_guard_def is_disabled_def set_insort_key Let_def)

end
