(* ===== verification/Turn_Loop.thy ===== *)
theory Turn_Loop
  imports Tool_Account Tool_Registry
begin

text \<open>
  The tool loop of a turn: \<open>run_agent\<close> of \<open>core/agent.py\<close> with its gates, the budget of rounds and its
  renewal, the compaction budget, the answer to each kind of reply, and the round of tools, composed
  of the stuck detector, the gate before the executor, the executor and the accounting.

  What the world does in one pass of the loop is a record \<open>round_world\<close>: the flags other tasks set, the
  sizes the compiler reports, what the compactor and the model do.  Three patterns over free text are
  among them.  The catalog of models is fixed during a turn.  The texts of notices are constructors;
  the decorations of a tool row (notes of the gate, hints, local times) are not kept.
\<close>

section \<open>The budget of compactions\<close>

record compaction_ctl =
  cc_attempts :: nat
  cc_before :: "nat option"
  cc_awaiting :: bool
  cc_stalled :: bool
  cc_refused :: bool
  cc_announced :: bool

definition new_compaction :: compaction_ctl where
  "new_compaction = \<lparr>cc_attempts = 0, cc_before = None, cc_awaiting = False, cc_stalled = False, cc_refused = False,
     cc_announced = False\<rparr>"

definition ATTEMPT_LIMIT :: nat where "ATTEMPT_LIMIT = 3"

definition exhausted :: "compaction_ctl \<Rightarrow> bool" where
  "exhausted c \<longleftrightarrow> ATTEMPT_LIMIT \<le> cc_attempts c"

definition can_help_with_overflow :: "compaction_ctl \<Rightarrow> bool" where
  "can_help_with_overflow c \<longleftrightarrow> \<not> (exhausted c \<or> cc_stalled c)"

definition announce_floor :: "compaction_ctl \<Rightarrow> bool \<times> compaction_ctl" where
  "announce_floor c = (\<not> cc_announced c, c\<lparr>cc_announced := True\<rparr>)"

definition observe_tokens :: "nat \<Rightarrow> compaction_ctl \<Rightarrow> compaction_ctl" where
  "observe_tokens n c = (case cc_before c of
       Some b \<Rightarrow> if cc_awaiting c then c\<lparr>cc_awaiting := False, cc_stalled := (19 * b \<le> 20 * n)\<rparr> else c
     | None \<Rightarrow> c)"

text \<open>What the compactor came to: a summary, nothing it may summarize, or a summary it rejected.\<close>

datatype compaction_end = Compacted | Nothing_To_Summarize | Not_Compacted

definition run_compaction :: "nat \<Rightarrow> compaction_end \<Rightarrow> compaction_ctl \<Rightarrow> compaction_ctl" where
  "run_compaction tokens how c =
     c\<lparr>cc_before := Some tokens, cc_awaiting := True, cc_stalled := False, cc_refused := (how = Nothing_To_Summarize),
       cc_attempts := (if how = Nothing_To_Summarize then cc_attempts c else cc_attempts c + 1)\<rparr>"

section \<open>The state of a turn\<close>

datatype turn_note =
    Renewed nat nat
  | Cut_Off
  | Unbacked_Action
  | Unsourced "string list"
  | Announced_Work nat nat
  | Amended_Message
  | Out_Of_Time bool
  | Stuck_Notice stuck_note
  | Capability_Hint string

datatype turn_row =
    Said string "tool_call list"
  | Said_Partial string
  | Asked_And_Waiting
  | Answered string string
  | Told turn_note
  | Model_Divider string string

datatype turn_event =
    Budget_Exceeded string
  | Round_Renewal nat nat
  | Context_Compacting string
  | Trim_Floor
  | Context_Full
  | Partial_Saved
  | Budget_Cut
  | Stream_Error string
  | Length_Continuation nat nat
  | Consumed "nat list"
  | Forced_Followup nat nat
  | Late_Correction
  | Tool_Start string
  | Tool_Called string bool
  | Model_Changed string string
  | Stream_Done

record turn_env =
  te_json :: json_lib
  te_tests :: text_tests
  te_casefold :: "string \<Rightarrow> string"
  te_bold :: "string \<Rightarrow> string list"
  te_rlm :: bool
  te_registry :: tool_registry
  te_sigs :: "string \<Rightarrow> string list \<times> bool"
  te_auto :: bool
  te_sid :: string
  te_first_turn_only :: bool
  te_kernel :: bool
  te_bind_threshold :: int
  te_max_rounds :: nat
  te_renewals :: nat
  te_goals :: bool
  te_followups :: bool
  te_followup_cap :: nat
  te_default_model :: string
  te_fallback_model :: string
  te_resolve :: "string \<Rightarrow> string"
  te_model_budget :: "string \<Rightarrow> nat option"
  te_context_budget :: nat
  te_critical :: rat

datatype stream_end =
    Overflowed
  | Failed_Stream string string
  | Replied string "tool_call list" bool

text \<open>\<open>rw_reply_*\<close> is read when a reply without tool calls is judged, \<open>rw_after_*\<close> after the tools.\<close>

record round_world =
  rw_cancel :: bool
  rw_goal :: bool
  rw_exceeded :: "string option"
  rw_paused :: bool
  rw_cancel_resumed :: bool
  rw_cancel_renewal :: bool
  rw_errored :: bool
  rw_pending :: bool
  rw_exceeded_renewal :: "string option"
  rw_override :: string
  rw_budget :: "nat option"
  rw_tokens :: nat
  rw_needs_compaction :: bool
  rw_critical :: compaction_end
  rw_proactive :: compaction_end
  rw_overflow :: compaction_end
  rw_stream :: stream_end
  rw_fell_over :: bool
  rw_override_after :: string
  rw_live_goal :: bool
  rw_delivered :: "nat list"
  rw_acknowledged :: bool
  rw_salvaged :: "(string \<times> tool_call list) option"
  rw_claims_action :: bool
  rw_bad_refs :: "string list"
  rw_future_work :: bool
  rw_reply_cancel :: bool
  rw_amended :: bool
  rw_endings :: "nat \<Rightarrow> dispatch_end \<times> nat"
  rw_outside :: "nat \<Rightarrow> exec_state \<Rightarrow> exec_state"
  rw_binds :: "nat \<Rightarrow> (string \<times> string) option"
  rw_saved :: "tool_call \<Rightarrow> bool"
  rw_after_cancel :: bool
  rw_after_input :: bool
  rw_after_workers :: bool

text \<open>\<open>tl_requests\<close> logs the requests to models: which model, and whether tools were offered.\<close>

record turn_loop =
  tl_round :: nat
  tl_spent :: nat
  tl_did_tools :: bool
  tl_window_tools :: bool
  tl_granted :: nat
  tl_continuations :: nat
  tl_action_checked :: bool
  tl_sources_checked :: bool
  tl_followed_up :: nat
  tl_followup_pending :: bool
  tl_rereads :: nat
  tl_nudges :: nat
  tl_forced :: bool
  tl_break_round :: bool
  tl_tools_on :: bool
  tl_content :: string
  tl_calls :: "tool_call list"
  tl_fallback :: bool
  tl_model :: string
  tl_compaction :: compaction_ctl
  tl_active :: "string list"
  tl_gate :: gate
  tl_exec :: exec_state
  tl_turn :: turn_state
  tl_reason :: "string option"
  tl_error :: "string option"
  tl_rows :: "turn_row list"
  tl_events :: "turn_event list"
  tl_requests :: "(string \<times> bool) list"

definition add_rows :: "turn_row list \<Rightarrow> turn_loop \<Rightarrow> turn_loop" where
  "add_rows rs s = s\<lparr>tl_rows := tl_rows s @ rs\<rparr>"

definition emit_turn :: "turn_event list \<Rightarrow> turn_loop \<Rightarrow> turn_loop" where
  "emit_turn es s = s\<lparr>tl_events := tl_events s @ es\<rparr>"

definition end_as :: "string \<Rightarrow> turn_loop \<Rightarrow> turn_loop" where
  "end_as why s = s\<lparr>tl_reason := Some why\<rparr>"

definition spend_round :: "turn_loop \<Rightarrow> turn_loop" where
  "spend_round s = s\<lparr>tl_content := [], tl_calls := [], tl_round := tl_round s + 1, tl_spent := tl_spent s + 1\<rparr>"

text \<open>What a part of a pass decides: go on with the next part, start the next pass, leave the loop for
  the final answer, return, or die of an exception.\<close>

datatype step_end = Go turn_loop | Again turn_loop | Leave turn_loop | Return turn_loop | Died turn_loop

fun and_then :: "step_end \<Rightarrow> (turn_loop \<Rightarrow> step_end) \<Rightarrow> step_end" where
  "and_then (Go s) f = f s"
| "and_then (Again s) f = Again s"
| "and_then (Leave s) f = Leave s"
| "and_then (Return s) f = Return s"
| "and_then (Died s) f = Died s"

section \<open>Before the request\<close>

definition pre_round_gate :: "turn_env \<Rightarrow> round_world \<Rightarrow> turn_loop \<Rightarrow> step_end" where
  "pre_round_gate e w s =
     (if rw_cancel w then Return (end_as ''cancelled'' s)
      else (case (if te_goals e \<and> rw_goal w \<and> 0 < tl_spent s \<and> tl_spent s mod 3 = 0 then rw_exceeded w else None) of
          Some why \<Rightarrow> Leave (end_as ''budget_exhausted'' (emit_turn [Budget_Exceeded why] s))
        | None \<Rightarrow> if rw_paused w \<and> rw_cancel_resumed w then Return (end_as ''cancelled'' s) else Go s))"

datatype renewal_refusal =
    Not_Authorized
  | Cancel_Requested
  | Turn_Errored
  | No_Progress
  | User_Waiting
  | Goal_Spent string

definition round_renewal_refusal :: "turn_env \<Rightarrow> round_world \<Rightarrow> stuck \<Rightarrow> renewal_refusal option" where
  "round_renewal_refusal e w k =
     (if rw_cancel_renewal w then Some Cancel_Requested
      else if rw_errored w then Some Turn_Errored
      else if sk_repeat k \<ge> 3 then Some No_Progress
      else if rw_pending w then Some User_Waiting
      else if te_goals e \<and> rw_goal w then map_option Goal_Spent (rw_exceeded_renewal w)
      else None)"

definition grant_round_renewal :: "turn_env \<Rightarrow> turn_loop \<Rightarrow> turn_loop" where
  "grant_round_renewal e s = (let n = tl_granted s + 1 in
     emit_turn [Round_Renewal n (te_renewals e)] (add_rows [Told (Renewed n (te_renewals e))]
       (s\<lparr>tl_granted := n, tl_round := 0, tl_window_tools := False\<rparr>)))"

definition renewal :: "turn_env \<Rightarrow> round_world \<Rightarrow> turn_loop \<Rightarrow> step_end" where
  "renewal e w s =
     (if te_max_rounds e - 1 \<le> tl_round s \<and> tl_window_tools s
         \<and> (if tl_granted s < te_renewals e then round_renewal_refusal e w (ga_stuck (tl_gate s)) else Some Not_Authorized) = None
      then Again (grant_round_renewal e s)
      else Go s)"

definition resolve_effective_model :: "turn_env \<Rightarrow> bool \<Rightarrow> string \<Rightarrow> string" where
  "resolve_effective_model e on_fallback override =
     te_resolve e (if on_fallback \<and> te_fallback_model e \<noteq> [] then te_fallback_model e
       else if override \<noteq> [] then override else te_default_model e)"

definition choose_round_model :: "turn_env \<Rightarrow> round_world \<Rightarrow> turn_loop \<Rightarrow> step_end" where
  "choose_round_model e w s =
     (let m = resolve_effective_model e (tl_fallback s) (rw_override w) in
      if m = tl_model s then Go s
      else Go ((if tl_fallback s then s
                else emit_turn [Model_Changed (tl_model s) m] (add_rows [Model_Divider (tl_model s) m] s))\<lparr>tl_model := m\<rparr>))"

definition effective_budget :: "turn_env \<Rightarrow> round_world \<Rightarrow> turn_loop \<Rightarrow> nat" where
  "effective_budget e w s = (case rw_budget w of
       Some b \<Rightarrow> if b \<noteq> 0 then b else (case te_model_budget e (tl_model s) of Some m \<Rightarrow> if m \<noteq> 0 then m else te_context_budget e
           | None \<Rightarrow> te_context_budget e)
     | None \<Rightarrow> (case te_model_budget e (tl_model s) of Some m \<Rightarrow> if m \<noteq> 0 then m else te_context_budget e
           | None \<Rightarrow> te_context_budget e))"

definition critical :: "turn_env \<Rightarrow> round_world \<Rightarrow> turn_loop \<Rightarrow> bool" where
  "critical e w s \<longleftrightarrow> te_critical e < of_nat (rw_tokens w) / of_nat (max (effective_budget e w s) 1)"

definition compact_now :: "string \<Rightarrow> nat \<Rightarrow> compaction_end \<Rightarrow> turn_loop \<Rightarrow> turn_loop" where
  "compact_now reason tokens how s =
     emit_turn [Context_Compacting reason] (s\<lparr>tl_compaction := run_compaction tokens how (tl_compaction s)\<rparr>)"

text \<open>A context over the threshold: compact, ride on the trim when there is nothing to summarize, or
  end the turn.\<close>

definition may_compact :: "compaction_ctl \<Rightarrow> bool" where
  "may_compact c \<longleftrightarrow> \<not> exhausted c \<and> \<not> cc_stalled c \<and> \<not> cc_refused c"

definition relieve :: "round_world \<Rightarrow> turn_loop \<Rightarrow> turn_loop" where
  "relieve w s = (if may_compact (tl_compaction s) then compact_now ''critical_threshold'' (rw_tokens w) (rw_critical w) s else s)"

definition ride_trim :: "turn_loop \<Rightarrow> turn_loop" where
  "ride_trim s = (let (first, c) = announce_floor (tl_compaction s); s1 = s\<lparr>tl_compaction := c\<rparr>
     in if first then emit_turn [Trim_Floor] s1 else s1)"

definition measure_context :: "round_world \<Rightarrow> turn_loop \<Rightarrow> turn_loop" where
  "measure_context w s = s\<lparr>tl_compaction := observe_tokens (rw_tokens w) (tl_compaction s)\<rparr>"

definition check_context :: "turn_env \<Rightarrow> round_world \<Rightarrow> turn_loop \<Rightarrow> step_end" where
  "check_context e w s0 =
     (let s = measure_context w s0 in
      if \<not> critical e w s then Go s
      else if may_compact (tl_compaction s) \<and> rw_critical w = Compacted then Again (relieve w s)
      else if cc_refused (tl_compaction (relieve w s)) then Go (ride_trim (relieve w s))
      else Leave (end_as ''compaction_failed'' (emit_turn [Context_Full] (relieve w s))))"

definition compact_early :: "round_world \<Rightarrow> turn_loop \<Rightarrow> step_end" where
  "compact_early w s =
     (let c = tl_compaction s in
      Go (if rw_needs_compaction w \<and> cc_attempts c = 0 \<and> \<not> cc_refused c
          then compact_now [] (rw_tokens w) (rw_proactive w) s else s))"

section \<open>The request\<close>

definition set_stuck :: "(stuck \<Rightarrow> stuck) \<Rightarrow> turn_loop \<Rightarrow> turn_loop" where
  "set_stuck f s = s\<lparr>tl_gate := (tl_gate s)\<lparr>ga_stuck := f (ga_stuck (tl_gate s))\<rparr>\<rparr>"

text \<open>Tools are withheld on the last round of the window and on a round that breaks a loop; the flag of
  the detector is taken down before the request.\<close>

definition send_request :: "turn_env \<Rightarrow> round_world \<Rightarrow> turn_loop \<Rightarrow> step_end" where
  "send_request e w s =
     (let forced = (tl_round s = te_max_rounds e - 1); brk = sk_force_text (ga_stuck (tl_gate s)); on = (\<not> forced \<and> \<not> brk);
          m = (if tl_fallback s then te_fallback_model e else tl_model s)
      in Go ((set_stuck (sk_force_text_update (\<lambda>_. False)) s)
           \<lparr>tl_forced := forced, tl_break_round := brk, tl_tools_on := on,
            tl_requests := tl_requests s @ [(m, on)], tl_fallback := tl_fallback s \<or> rw_fell_over w\<rparr>))"

definition end_turn_on_stream_error :: "string \<Rightarrow> string \<Rightarrow> bool \<Rightarrow> turn_loop \<Rightarrow> turn_loop" where
  "end_turn_on_stream_error err partial goal s =
     (let s1 = (if partial = [] then s else emit_turn [Partial_Saved] (add_rows [Said_Partial partial] s)) in
      if has_sub ''exceeded the'' err \<and> has_sub ''LLM time limit'' err
      then emit_turn [Budget_Cut] (end_as ''budget_exhausted'' (add_rows [Told (Out_Of_Time goal)] s1))
      else emit_turn [Stream_Error err] (end_as ''error'' (s1\<lparr>tl_error := Some err\<rparr>)))"

definition acknowledge_delivery :: "round_world \<Rightarrow> turn_loop \<Rightarrow> turn_loop" where
  "acknowledge_delivery w s =
     (if rw_delivered w = [] \<or> \<not> rw_acknowledged w then s else emit_turn [Consumed (rw_delivered w)] s)"

text \<open>An overflow comes back to the loop only while the compactor can help; else it is an error.\<close>

definition take_outcome :: "turn_env \<Rightarrow> round_world \<Rightarrow> turn_loop \<Rightarrow> step_end" where
  "take_outcome e w s = (case rw_stream w of
       Overflowed \<Rightarrow>
         if \<not> can_help_with_overflow (tl_compaction s)
         then Return (end_turn_on_stream_error ''context overflow'' [] (rw_live_goal w) s)
         else if resolve_effective_model e (tl_fallback s) (rw_override_after w) \<noteq> tl_model s then Again s
         else Again (compact_now ''api_overflow'' (rw_tokens w) (rw_overflow w) s)
     | Failed_Stream err partial \<Rightarrow> Return (end_turn_on_stream_error err partial (rw_live_goal w) s)
     | Replied content tcs clipped \<Rightarrow> Go ((acknowledge_delivery w s)\<lparr>tl_content := content, tl_calls := tcs\<rparr>))"

definition LENGTH_CONTINUATION_LIMIT :: nat where "LENGTH_CONTINUATION_LIMIT = 2"

definition continue_cut_reply :: "round_world \<Rightarrow> turn_loop \<Rightarrow> step_end" where
  "continue_cut_reply w s =
     (if (case rw_stream w of Replied _ _ clipped \<Rightarrow> clipped | _ \<Rightarrow> False) \<and> tl_calls s = [] \<and> tl_content s \<noteq> []
         \<and> tl_continuations s < LENGTH_CONTINUATION_LIMIT
      then (let n = tl_continuations s + 1 in
        Again (spend_round (emit_turn [Length_Continuation n LENGTH_CONTINUATION_LIMIT]
          (add_rows [Said (tl_content s) [], Told Cut_Off] (s\<lparr>tl_continuations := n\<rparr>)))))
      else Go s)"

definition salvage_calls :: "round_world \<Rightarrow> turn_loop \<Rightarrow> step_end" where
  "salvage_calls w s =
     (if tl_calls s = [] \<and> tl_content s \<noteq> [] \<and> tl_tools_on s
      then (case rw_salvaged w of None \<Rightarrow> Go s | Some (c, tcs) \<Rightarrow> Go (s\<lparr>tl_content := c, tl_calls := tcs\<rparr>))
      else Go s)"

section \<open>A reply without tool calls\<close>

definition FINAL_ANSWER_REREAD_LIMIT :: nat where "FINAL_ANSWER_REREAD_LIMIT = 1"

text \<open>Three kinds of reply are sent back once: a claim that something was done when no tool ran, a source
  nothing returned, and an announcement of more work.  An answer to a message that was amended
  meanwhile is read again; every other one ends the turn.\<close>

definition judge_reply :: "turn_env \<Rightarrow> round_world \<Rightarrow> turn_loop \<Rightarrow> step_end" where
  "judge_reply e w s0 =
     (let s = s0\<lparr>tl_followup_pending := False\<rparr>; c = tl_content s; early = (tl_round s + 2 < te_max_rounds e) in
      if \<not> tl_action_checked s \<and> c \<noteq> [] \<and> early \<and> \<not> rw_reply_cancel w \<and> \<not> tl_did_tools s \<and> rw_claims_action w
      then Again (spend_round (add_rows [Said c [], Told Unbacked_Action] (s\<lparr>tl_action_checked := True\<rparr>)))
      else if \<not> tl_sources_checked s \<and> c \<noteq> [] \<and> tl_tools_on s \<and> get_schemas (Some (tl_active s)) (te_registry e) \<noteq> []
           \<and> early \<and> \<not> rw_reply_cancel w \<and> rw_bad_refs w \<noteq> []
      then Again (spend_round (add_rows [Said c [], Told (Unsourced (rw_bad_refs w))] (s\<lparr>tl_sources_checked := True\<rparr>)))
      else if te_followups e \<and> tl_followed_up s < te_followup_cap e \<and> early \<and> \<not> rw_reply_cancel w \<and> c \<noteq> [] \<and> rw_future_work w
      then (let n = tl_followed_up s + 1 in
        Again (spend_round (emit_turn [Forced_Followup n (te_followup_cap e)]
          (add_rows [Said c [], Told (Announced_Work n (te_followup_cap e))] (s\<lparr>tl_followed_up := n, tl_followup_pending := True\<rparr>)))))
      else
        let s1 = emit_turn [Stream_Done] (if c \<noteq> [] then add_rows [Said c []] s else s) in
        if rw_amended w \<and> tl_rereads s < FINAL_ANSWER_REREAD_LIMIT \<and> \<not> rw_reply_cancel w
        then Again (emit_turn [Late_Correction] (add_rows [Told Amended_Message]
               (s1\<lparr>tl_rereads := tl_rereads s + 1, tl_content := [], tl_calls := []\<rparr>)))
        else Return (end_as (if tl_break_round s then ''stuck_loop'' else if tl_forced s then ''round_ceiling'' else ''complete'') s1))"

section \<open>A round of tools\<close>

text \<open>The calls of a reply enter the store of the gate as new ones.\<close>

definition load_calls :: "tool_call list \<Rightarrow> gate \<Rightarrow> nat list \<times> gate" where
  "load_calls tcs g = (let n = ga_fresh g; new = [n..<n + length tcs] in
     (new, g\<lparr>ga_calls := (\<lambda>i. if n \<le> i \<and> i < n + length tcs then (tcs ! (i - n))\<lparr>tc_rejected := False\<rparr> else ga_calls g i),
             ga_fresh := n + length tcs\<rparr>))"

definition failures_of :: "gate \<Rightarrow> string \<Rightarrow> string list" where
  "failures_of g n = get_or [] (map_of (ga_failures g) n)"

text \<open>The detector's verdict on the round, with the hints it queued and the notice it wrote.\<close>

definition check_stuck :: "turn_env \<Rightarrow> turn_loop \<Rightarrow> step_end" where
  "check_stuck e s0 =
     (let s = s0\<lparr>tl_did_tools := True, tl_window_tools := True, tl_followup_pending := False\<rparr>; g = tl_gate s; tcs = tl_calls s in
      case evaluate (te_json e) (te_tests e) (te_rlm e) (view (te_registry e)) (failures_of g) (tl_content s) tcs (ga_stuck g) of
        None \<Rightarrow> Died s
      | Some ((score, repeats), k1) \<Rightarrow>
          (let ((action, used), k2, notice) = handle_stuck_signals (te_json e) score repeats tcs (tl_active s) (tl_nudges s)
                 STUCK_ASK_USER_LIMIT RECOVERY_LIMIT (k1\<lparr>sk_hints := []\<rparr>);
               s1 = add_rows (map (\<lambda>h. Told (Capability_Hint h)) (sk_hints k1)
                      @ (case notice of None \<Rightarrow> [] | Some x \<Rightarrow> [Told (Stuck_Notice x)]))
                      ((set_stuck (\<lambda>_. k2) s)\<lparr>tl_nudges := used\<rparr>)
           in case action of
                Proceed \<Rightarrow> Go s1
              | Nudge_And_Retry \<Rightarrow> Again (s1\<lparr>tl_content := [], tl_calls := []\<rparr>)
              | Stop_Loop \<Rightarrow> Leave (end_as ''stuck_loop'' s1)))"

text \<open>One result: its row, its event, the detector, the memory of the gate, the summaries, and the list
  of tools when it is a discovery.\<close>

definition record_round_result :: "turn_env \<Rightarrow> turn_loop \<Rightarrow> (nat \<times> (string \<times> json) list) \<times> exec_result \<Rightarrow> turn_loop" where
  "record_round_result e s = (\<lambda>((i, args), r).
     (let g = tl_gate s; tc = call_of g i; failed = (er_error r \<and> \<not> is_command_failure r);
          k = record_result (te_json e) (te_tests e) (ga_stuck g)
                \<lparr>to_tool = er_tool r, to_args = args, to_content = er_content r, to_error = er_error r,
                 to_command_failed = is_command_failure r\<rparr>;
          g1 = g\<lparr>ga_stuck := k,
                 ga_failures := (if failed then dict_set (er_tool r) (failures_of g (er_tool r) @ [hash_args (te_json e) (tc_args tc)])
                    (ga_failures g) else ga_failures g)\<rparr>;
          g2 = (if \<not> er_error r then remember_success (te_json e) (er_tool r) (tc_args tc) (tl_round s) (er_content r) g1 else g1);
          act = (if er_tool r = ''discover_tools'' \<and> \<not> er_error r \<and> \<not> te_first_turn_only e
                 then expand_from_discovery (te_bold e (er_content r)) (te_registry e) (tl_active s) else tl_active s)
      in emit_turn [Tool_Called (er_tool r) (er_error r)] (add_rows [Answered (tc_id tc) (er_content r)]
           (s\<lparr>tl_gate := g2, tl_turn := record_tool_outcome (tl_turn s) r, tl_active := act\<rparr>))))"

text \<open>Admission, the assistant row with every proposed call, the refusals, the calls that run.  When the
  round dies its unanswered calls get a row each.\<close>

definition refusal_text :: string where "refusal_text = ''Error: refused''"
definition aborted_text :: string where "aborted_text = ''Error: tool call cancelled before it returned.''"

definition run_tools :: "turn_env \<Rightarrow> round_world \<Rightarrow> turn_loop \<Rightarrow> step_end" where
  "run_tools e w s =
     (let (new, g0) = load_calls (tl_calls s) (tl_gate s) in
      case admit (te_json e) (te_casefold e) (view (te_registry e)) (tl_active s) new g0 of
        None \<Rightarrow> Died s
      | Some (parsed, g1) \<Rightarrow>
          (let (refused, g2) = flush_rejections g1;
               s1 = add_rows (Said (tl_content s) (proposed_calls g1) # map (\<lambda>(i, _). Answered i refusal_text) refused) (s\<lparr>tl_gate := g2\<rparr>);
               run = map (\<lambda>(i, args). (tc_name (call_of g2 i), args)) parsed;
               s2 = emit_turn (map (\<lambda>c. Tool_Start (fst c)) run) s1;
               (out, x) = (if parsed = [] then (Some [], tl_exec s) else
                  execute_tool_round (te_auto e) (view (te_registry e)) (te_sigs e) (te_sid e) (rw_endings w) (rw_outside w) run (tl_exec s))
           in case out of
                None \<Rightarrow> Died (add_rows (map (\<lambda>i. Answered i aborted_text)
                          (stub_unanswered_calls (rw_saved w) (map (\<lambda>(i, _). call_of g2 i) parsed))) (s2\<lparr>tl_exec := x\<rparr>))
              | Some rs \<Rightarrow> Go (foldl (record_round_result e) (s2\<lparr>tl_exec := x\<rparr>)
                    (zip parsed (bind_large_results (te_kernel e) (te_bind_threshold e) (te_sid e) (rw_binds w) run rs)))))"

definition post_round_gate :: "round_world \<Rightarrow> turn_loop \<Rightarrow> step_end" where
  "post_round_gate w s =
     (if rw_after_cancel w then Return (end_as ''cancelled'' s)
      else if rw_after_input w then Return (end_as ''complete'' (emit_turn [Stream_Done] (add_rows [Asked_And_Waiting] s)))
      else if rw_after_workers w then Return (end_as ''complete'' (emit_turn [Stream_Done] s))
      else Again (spend_round s))"

section \<open>The loop\<close>

definition loop_round :: "turn_env \<Rightarrow> round_world \<Rightarrow> turn_loop \<Rightarrow> step_end" where
  "loop_round e w s =
     and_then (and_then (and_then (and_then (and_then (and_then (and_then (and_then (and_then
       (pre_round_gate e w s)
       (renewal e w)) (choose_round_model e w)) (check_context e w)) (compact_early w)) (send_request e w))
       (take_outcome e w)) (continue_cut_reply w)) (salvage_calls w))
       (\<lambda>s1. if tl_calls s1 = [] then judge_reply e w s1
             else and_then (and_then (check_stuck e s1) (run_tools e w)) (post_round_gate w))"

text \<open>\<^const>\<open>None\<close>: the fuel did not suffice.  \<open>worlds\<close> is what happens in each pass.\<close>

fun run_loop :: "turn_env \<Rightarrow> (nat \<Rightarrow> round_world) \<Rightarrow> nat \<Rightarrow> nat \<Rightarrow> turn_loop \<Rightarrow> step_end option" where
  "run_loop e worlds 0 i s = None"
| "run_loop e worlds (Suc fuel) i s =
     (if te_max_rounds e \<le> tl_round s then Some (Leave s)
      else (case loop_round e (worlds i) s of
          Again s' \<Rightarrow> run_loop e worlds fuel (i + 1) s'
        | r \<Rightarrow> Some r))"

text \<open>The final answer: one request without tools, when the loop was left after work.\<close>

definition final_answer :: "turn_env \<Rightarrow> string \<Rightarrow> stream_end \<Rightarrow> turn_loop \<Rightarrow> turn_loop" where
  "final_answer e override how s0 =
     (let s = s0\<lparr>tl_reason := (case tl_reason s0 of None \<Rightarrow> Some ''round_ceiling'' | r \<Rightarrow> r),
                tl_model := resolve_effective_model e (tl_fallback s0) override\<rparr>
      in if tl_did_tools s \<and> tl_reason s \<noteq> Some ''compaction_failed''
         then (let s1 = s\<lparr>tl_requests := tl_requests s @ [(if tl_fallback s \<and> te_fallback_model e \<noteq> [] then te_fallback_model e else tl_model s, False)]\<rparr>;
                   say = (\<lambda>c s. if c \<noteq> [] then add_rows [Said c []] s else s);
                   fail' = (\<lambda>err c s. emit_turn [Stream_Error err, Stream_Done]
                      (end_as ''error'' ((say c s)\<lparr>tl_error := Some err\<rparr>)))
               in case how of
                    Overflowed \<Rightarrow> fail' ''context overflow'' [] s1
                  | Failed_Stream err partial \<Rightarrow> fail' err partial s1
                  | Replied c _ _ \<Rightarrow> emit_turn [Stream_Done] (say c s1))
         else emit_turn [Stream_Done] s)"

text \<open>\<^const>\<open>None\<close> also when the turn dies of an exception.\<close>

definition run_agent :: "turn_env \<Rightarrow> (nat \<Rightarrow> round_world) \<Rightarrow> string \<Rightarrow> stream_end \<Rightarrow> nat \<Rightarrow> turn_loop \<Rightarrow> turn_loop option" where
  "run_agent e worlds override how fuel s =
     (case run_loop e worlds fuel 0 s of
        Some (Return s') \<Rightarrow> Some s'
      | Some (Leave s') \<Rightarrow> Some (final_answer e override how s')
      | _ \<Rightarrow> None)"

end
