(* ===== verification/Turn_Loop_Proofs.thy ===== *)
theory Turn_Loop_Proofs
  imports Turn_Loop Stuck_Proofs Tool_Gate_Proofs Tool_Exec_Proofs
begin

text \<open>
  The tool loop of a turn: it ends, within its budgets of rounds and compactions; its end is classified
  and an answer counts as complete only when tools were on offer; and each round leaves the transcript
  paired.
\<close>

section \<open>Reasoning about the parts of a pass\<close>

lemmas turn_defs = add_rows_def emit_turn_def end_as_def set_stuck_def compact_now_def run_compaction_def
  acknowledge_delivery_def spend_round_def

text \<open>\<open>P\<close> holds when the pass goes on, \<open>Q\<close> when it ends.\<close>

fun step_ok :: "(turn_loop \<Rightarrow> bool) \<Rightarrow> (step_end \<Rightarrow> bool) \<Rightarrow> step_end \<Rightarrow> bool" where
  "step_ok P Q (Go s) = P s"
| "step_ok P Q r = Q r"

lemma step_ok_then: "step_ok P Q r \<Longrightarrow> (\<And>s. P s \<Longrightarrow> step_ok P' Q (f s)) \<Longrightarrow> step_ok P' Q (and_then r f)"
  by (cases r) auto

lemma step_ok_if: "(b \<Longrightarrow> step_ok P Q x) \<Longrightarrow> (\<not> b \<Longrightarrow> step_ok P Q y) \<Longrightarrow> step_ok P Q (if b then x else y)"
  by simp

fun state_of :: "step_end \<Rightarrow> turn_loop" where
  "state_of (Go s) = s"
| "state_of (Again s) = s"
| "state_of (Leave s) = s"
| "state_of (Return s) = s"
| "state_of (Died s) = s"

text \<open>What the round of tools and its accounting leave alone.\<close>

definition same_course :: "turn_loop \<Rightarrow> turn_loop \<Rightarrow> bool" where
  "same_course s s' \<longleftrightarrow>
     tl_round s' = tl_round s \<and> tl_spent s' = tl_spent s \<and> tl_granted s' = tl_granted s \<and> tl_compaction s' = tl_compaction s
     \<and> tl_rereads s' = tl_rereads s \<and> tl_continuations s' = tl_continuations s \<and> tl_followed_up s' = tl_followed_up s
     \<and> tl_fallback s' = tl_fallback s \<and> tl_model s' = tl_model s \<and> tl_forced s' = tl_forced s \<and> tl_break_round s' = tl_break_round s
     \<and> tl_tools_on s' = tl_tools_on s \<and> tl_requests s' = tl_requests s \<and> tl_reason s' = tl_reason s \<and> tl_error s' = tl_error s
     \<and> tl_calls s' = tl_calls s \<and> tl_did_tools s' = tl_did_tools s"

lemma same_course_refl [simp]: "same_course s s"
  by (simp add: same_course_def)

lemma same_course_trans: "same_course s t \<Longrightarrow> same_course t u \<Longrightarrow> same_course s u"
  by (simp add: same_course_def)

lemma record_round_result_course: "same_course s (record_round_result e s x)"
  by (simp add: record_round_result_def same_course_def turn_defs Let_def split_def)

lemma record_all_course: "same_course s (foldl (record_round_result e) s xs)"
  by (induction xs arbitrary: s) (auto intro: same_course_trans record_round_result_course)

lemma run_tools_course: "same_course s (state_of (run_tools e w s)) \<and> (\<exists>t. run_tools e w s = Go t \<or> run_tools e w s = Died t)"
proof -
  obtain new g0 where l: "load_calls (tl_calls s) (tl_gate s) = (new, g0)" by fastforce
  show ?thesis
  proof (cases "admit (te_json e) (te_casefold e) (view (te_registry e)) (tl_active s) new g0")
    case None
    then show ?thesis by (simp add: run_tools_def l)
  next
    case (Some pg)
    obtain parsed g1 where pg: "pg = (parsed, g1)" by fastforce
    obtain refused g2 where fl: "flush_rejections g1 = (refused, g2)" by fastforce
    have c: "same_course s (foldl (record_round_result e) t xs)" if "same_course s t" for t xs
      using that record_all_course same_course_trans by blast
    show ?thesis
      by (auto simp: run_tools_def l Some pg fl Let_def split: prod.splits option.splits intro!: c)
         (simp_all add: same_course_def turn_defs)
  qed
qed

section \<open>The budgets\<close>

text \<open>Every window but the last costs one round less than its size, the round it would have been forced
  to close with.\<close>

definition loop_inv :: "turn_env \<Rightarrow> turn_loop \<Rightarrow> bool" where
  "loop_inv e s \<longleftrightarrow>
     tl_spent s = tl_granted s * (te_max_rounds e - 1) + tl_round s \<and> tl_granted s \<le> te_renewals e
     \<and> cc_attempts (tl_compaction s) \<le> ATTEMPT_LIMIT \<and> tl_rereads s \<le> FINAL_ANSWER_REREAD_LIMIT
     \<and> tl_continuations s \<le> LENGTH_CONTINUATION_LIMIT \<and> tl_followed_up s \<le> te_followup_cap e
     \<and> tl_round s \<le> te_max_rounds e
     \<and> (cc_awaiting (tl_compaction s) \<longrightarrow> cc_before (tl_compaction s) \<noteq> None)"

abbreviation going :: "turn_env \<Rightarrow> turn_loop \<Rightarrow> bool" where
  "going e s \<equiv> loop_inv e s \<and> tl_round s < te_max_rounds e"

abbreviation held :: "turn_env \<Rightarrow> step_end \<Rightarrow> bool" where
  "held e r \<equiv> loop_inv e (state_of r)"

lemma loop_inv_course: "same_course s t \<Longrightarrow> loop_inv e t = loop_inv e s"
  by (simp add: same_course_def loop_inv_def)

lemma pre_round_gate_inv: "going e s \<Longrightarrow> step_ok (going e) (held e) (pre_round_gate e w s)"
  by (auto simp: pre_round_gate_def loop_inv_def turn_defs split: option.splits)

lemma renewal_inv: "going e s \<Longrightarrow> step_ok (going e) (held e) (renewal e w s)"
  by (auto simp: renewal_def grant_round_renewal_def loop_inv_def turn_defs Let_def split: if_splits)

lemma choose_round_model_inv: "going e s \<Longrightarrow> step_ok (going e) (held e) (choose_round_model e w s)"
  by (auto simp: choose_round_model_def loop_inv_def turn_defs Let_def)

lemma measure_context_inv: "loop_inv e s \<Longrightarrow> loop_inv e (measure_context w s)"
  by (cases "cc_before (tl_compaction s)") (auto simp: measure_context_def loop_inv_def observe_tokens_def)

lemma relieve_inv: "loop_inv e s \<Longrightarrow> loop_inv e (relieve w s)"
  by (auto simp: relieve_def loop_inv_def turn_defs may_compact_def exhausted_def ATTEMPT_LIMIT_def)

lemma ride_trim_inv: "loop_inv e (ride_trim s) = loop_inv e s"
  by (simp add: ride_trim_def loop_inv_def turn_defs announce_floor_def Let_def)

lemma check_context_rounds:
  "tl_round (measure_context w s) = tl_round s" "tl_round (relieve w s) = tl_round s" "tl_round (ride_trim s) = tl_round s"
  by (simp_all add: measure_context_def relieve_def ride_trim_def turn_defs announce_floor_def Let_def)

lemma check_context_inv:
  assumes "going e s" shows "step_ok (going e) (held e) (check_context e w s)"
proof -
  have m: "loop_inv e (measure_context w s)" using assms measure_context_inv by simp
  have "loop_inv e (end_as r (emit_turn es t)) = loop_inv e t" for r es t by (simp add: loop_inv_def turn_defs)
  then show ?thesis
    unfolding check_context_def Let_def
    using assms m relieve_inv [OF m] by (intro step_ok_if) (simp_all add: ride_trim_inv check_context_rounds)
qed

lemma compact_early_inv: "going e s \<Longrightarrow> step_ok (going e) (held e) (compact_early w s)"
  by (auto simp: compact_early_def loop_inv_def turn_defs Let_def ATTEMPT_LIMIT_def)

lemma send_request_inv: "going e s \<Longrightarrow> step_ok (going e) (held e) (send_request e w s)"
  by (auto simp: send_request_def loop_inv_def turn_defs Let_def)

lemma loop_inv_notes [simp]:
  "loop_inv e (add_rows rs s) = loop_inv e s" "loop_inv e (emit_turn es s) = loop_inv e s" "loop_inv e (end_as r s) = loop_inv e s"
  "loop_inv e (s\<lparr>tl_error := x\<rparr>) = loop_inv e s" "loop_inv e (s\<lparr>tl_content := c, tl_calls := tcs\<rparr>) = loop_inv e s"
  by (simp_all add: loop_inv_def turn_defs)

lemma round_notes [simp]:
  "tl_round (add_rows rs s) = tl_round s" "tl_round (emit_turn es s) = tl_round s" "tl_round (end_as r s) = tl_round s"
  by (simp_all add: turn_defs)

lemma compact_now_inv: "loop_inv e s \<Longrightarrow> \<not> exhausted (tl_compaction s) \<Longrightarrow> loop_inv e (compact_now r n how s)"
  by (simp add: compact_now_def) (simp add: loop_inv_def run_compaction_def exhausted_def ATTEMPT_LIMIT_def)

lemma stream_error_inv: "loop_inv e (end_turn_on_stream_error err p goal s) = loop_inv e s"
  by (simp add: end_turn_on_stream_error_def Let_def)

lemma acknowledge_inv: "loop_inv e (acknowledge_delivery w s) = loop_inv e s" "tl_round (acknowledge_delivery w s) = tl_round s"
  by (simp_all add: acknowledge_delivery_def)

lemma take_outcome_inv: "going e s \<Longrightarrow> step_ok (going e) (held e) (take_outcome e w s)"
  by (cases "rw_stream w")
     (simp_all add: take_outcome_def stream_error_inv compact_now_inv acknowledge_inv can_help_with_overflow_def)

lemma continue_cut_reply_inv: "going e s \<Longrightarrow> step_ok (going e) (held e) (continue_cut_reply w s)"
  by (auto simp: continue_cut_reply_def loop_inv_def turn_defs Let_def)

lemma salvage_calls_inv: "going e s \<Longrightarrow> step_ok (going e) (held e) (salvage_calls w s)"
  by (auto simp: salvage_calls_def loop_inv_def split: option.splits)

lemma judge_reply_inv: "going e s \<Longrightarrow> step_ok (going e) (held e) (judge_reply e w s)"
  unfolding judge_reply_def Let_def
  by (intro step_ok_if; simp only: step_ok.simps state_of.simps; auto simp: loop_inv_def turn_defs FINAL_ANSWER_REREAD_LIMIT_def)

lemma check_stuck_inv: "going e s \<Longrightarrow> step_ok (going e) (held e) (check_stuck e s)"
  by (auto simp: check_stuck_def loop_inv_def turn_defs Let_def split: option.splits prod.splits stuck_action.splits)

lemma run_tools_inv: "going e s \<Longrightarrow> step_ok (going e) (held e) (run_tools e w s)"
  using run_tools_course [of s e w] by (auto simp: loop_inv_course) (auto simp: same_course_def)

lemma post_round_gate_inv: "going e s \<Longrightarrow> step_ok (going e) (held e) (post_round_gate w s)"
  by (auto simp: post_round_gate_def loop_inv_def turn_defs)

lemmas phases_inv = pre_round_gate_inv renewal_inv choose_round_model_inv check_context_inv compact_early_inv send_request_inv
  take_outcome_inv continue_cut_reply_inv salvage_calls_inv judge_reply_inv check_stuck_inv run_tools_inv post_round_gate_inv

lemma step_ok_held: "step_ok (going e) (held e) r \<Longrightarrow> held e r"
  by (cases r) auto

lemma going_then:
  "step_ok (going e) (held e) r \<Longrightarrow> (\<And>s. going e s \<Longrightarrow> step_ok (going e) (held e) (f s)) \<Longrightarrow>
    step_ok (going e) (held e) (and_then r f)"
  by (rule step_ok_then)

lemma loop_round_inv: "going e s \<Longrightarrow> held e (loop_round e w s)"
  unfolding loop_round_def
  by (rule step_ok_held) (auto intro!: going_then phases_inv simp del: step_ok.simps)

lemma loop_round_not_Go: "loop_round e w s \<noteq> Go t"
proof -
  have j: "judge_reply e w s1 \<noteq> Go t" "post_round_gate w s1 \<noteq> Go t" for s1
    by (simp_all add: judge_reply_def post_round_gate_def Let_def)
  have a: "\<lbrakk>\<And>s. f s \<noteq> Go t\<rbrakk> \<Longrightarrow> and_then r f \<noteq> Go t" for r f by (cases r) auto
  show ?thesis unfolding loop_round_def by (intro a) (auto simp: j intro!: a)
qed

lemma run_loop_inv: "run_loop e ws fuel i s = Some r \<Longrightarrow> loop_inv e s \<Longrightarrow> held e r"
proof (induction fuel arbitrary: i s)
  case (Suc fuel)
  show ?case
  proof (cases "te_max_rounds e \<le> tl_round s")
    case False
    then have "held e (loop_round e (ws i) s)" using Suc.prems(2) loop_round_inv by simp
    then show ?thesis using Suc False by (cases "loop_round e (ws i) s") auto
  qed (use Suc.prems in auto)
qed simp

text \<open>The state in which \<open>run_agent\<close> enters the loop; the session's part of it is arbitrary.\<close>

definition fresh_turn :: "turn_loop \<Rightarrow> bool" where
  "fresh_turn s \<longleftrightarrow> tl_round s = 0 \<and> tl_spent s = 0 \<and> tl_granted s = 0 \<and> tl_continuations s = 0 \<and> tl_followed_up s = 0
     \<and> tl_rereads s = 0 \<and> tl_nudges s = 0 \<and> \<not> tl_fallback s \<and> tl_compaction s = new_compaction \<and> tl_reason s = None
     \<and> tl_error s = None \<and> \<not> tl_did_tools s \<and> tl_requests s = []"

lemma fresh_loop_inv: "fresh_turn s \<Longrightarrow> loop_inv e s"
  by (simp add: fresh_turn_def loop_inv_def new_compaction_def)

lemma final_answer_course [simp]:
  "tl_spent (final_answer e ov how s) = tl_spent s" "tl_granted (final_answer e ov how s) = tl_granted s"
  "tl_compaction (final_answer e ov how s) = tl_compaction s" "tl_rereads (final_answer e ov how s) = tl_rereads s"
  "tl_continuations (final_answer e ov how s) = tl_continuations s" "tl_round (final_answer e ov how s) = tl_round s"
  by (simp_all add: final_answer_def turn_defs Let_def split: stream_end.splits)

text \<open>C23: a turn stays within its budgets. Whatever the model, the compactor and the user do, a turn grants
  no more renewals than it is authorized to, spends exactly one round less than its window for each
  and in all at most the last window's size more, compacts at most three times, continues a clipped
  answer at most twice and reads an amended message again at most once.\<close>

theorem turn_stays_in_budget:
  assumes "fresh_turn s" "run_agent e ws ov how fuel s = Some s'"
  shows "tl_granted s' \<le> te_renewals e
    \<and> tl_spent s' = tl_granted s' * (te_max_rounds e - 1) + tl_round s'
    \<and> tl_spent s' \<le> te_renewals e * (te_max_rounds e - 1) + te_max_rounds e
    \<and> cc_attempts (tl_compaction s') \<le> 3 \<and> tl_continuations s' \<le> 2 \<and> tl_rereads s' \<le> 1"
proof -
  obtain r where r: "run_loop e ws fuel 0 s = Some r" using assms(2) by (auto simp: run_agent_def split: option.splits)
  have "held e r" by (rule run_loop_inv [OF r fresh_loop_inv [OF assms(1)]])
  then have c: "tl_granted s' \<le> te_renewals e" "tl_spent s' = tl_granted s' * (te_max_rounds e - 1) + tl_round s'"
      "tl_round s' \<le> te_max_rounds e" "cc_attempts (tl_compaction s') \<le> 3" "tl_continuations s' \<le> 2" "tl_rereads s' \<le> 1"
    using assms(2) r by (auto simp: run_agent_def loop_inv_def ATTEMPT_LIMIT_def LENGTH_CONTINUATION_LIMIT_def
        FINAL_ANSWER_REREAD_LIMIT_def split: step_end.splits)
  have "tl_granted s' * (te_max_rounds e - 1) \<le> te_renewals e * (te_max_rounds e - 1)" using c(1) by simp
  with c show ?thesis by linarith
qed

section \<open>A turn ends\<close>

text \<open>After a refusal of the compactor that has not been measured yet, the size it was called with.\<close>

definition unmeasured :: "compaction_ctl \<Rightarrow> bool" where
  "unmeasured c \<longleftrightarrow> cc_awaiting c \<and> cc_refused c"

definition size_before :: "compaction_ctl \<Rightarrow> nat" where
  "size_before c = get_or 0 (cc_before c)"

definition turn_order :: "turn_env \<Rightarrow> (turn_loop \<times> turn_loop) set" where
  "turn_order e = measures [\<lambda>s. te_renewals e - tl_granted s, \<lambda>s. te_max_rounds e - tl_round s,
     \<lambda>s. if tl_fallback s then 0 else 1, \<lambda>s. FINAL_ANSWER_REREAD_LIMIT - tl_rereads s,
     \<lambda>s. if sk_loop_break (ga_stuck (tl_gate s)) then 0 else 1, \<lambda>s. STUCK_ASK_USER_LIMIT - tl_nudges s,
     \<lambda>s. ATTEMPT_LIMIT - cc_attempts (tl_compaction s), \<lambda>s. if unmeasured (tl_compaction s) then 0 else 1,
     \<lambda>s. size_before (tl_compaction s)]"

lemma wf_turn_order: "wf (turn_order e)"
  by (simp add: turn_order_def)

text \<open>What the parts of a pass that go on have kept of its first state \<open>s\<close>; \<open>shrunk\<close> is what the
  measurement of an unmeasured refusal has shown.\<close>

definition kept_course :: "turn_loop \<Rightarrow> turn_loop \<Rightarrow> bool" where
  "kept_course s t \<longleftrightarrow> tl_granted t = tl_granted s \<and> tl_round t = tl_round s \<and> tl_rereads t = tl_rereads s \<and> tl_nudges t = tl_nudges s
     \<and> sk_loop_break (ga_stuck (tl_gate t)) = sk_loop_break (ga_stuck (tl_gate s))"

definition shrunk :: "round_world \<Rightarrow> turn_loop \<Rightarrow> turn_loop \<Rightarrow> bool" where
  "shrunk w s t \<longleftrightarrow> cc_attempts (tl_compaction s) \<le> cc_attempts (tl_compaction t)
     \<and> (cc_attempts (tl_compaction t) = cc_attempts (tl_compaction s) \<longrightarrow> \<not> unmeasured (tl_compaction s)
         \<or> cc_refused (tl_compaction t) \<and> (cc_stalled (tl_compaction t) \<or> rw_tokens w < size_before (tl_compaction s)))"

definition before_check :: "turn_loop \<Rightarrow> turn_loop \<Rightarrow> bool" where
  "before_check s t \<longleftrightarrow> kept_course s t \<and> tl_fallback t = tl_fallback s \<and> tl_compaction t = tl_compaction s"

definition before_send :: "turn_env \<Rightarrow> round_world \<Rightarrow> turn_loop \<Rightarrow> turn_loop \<Rightarrow> bool" where
  "before_send e w s t \<longleftrightarrow> kept_course s t \<and> tl_fallback t = tl_fallback s \<and> shrunk w s t
     \<and> tl_model t = resolve_effective_model e (tl_fallback s) (rw_override w)"

definition after_send :: "turn_env \<Rightarrow> round_world \<Rightarrow> turn_loop \<Rightarrow> turn_loop \<Rightarrow> bool" where
  "after_send e w s t \<longleftrightarrow> kept_course s t \<and> (tl_fallback s \<longrightarrow> tl_fallback t) \<and> shrunk w s t
     \<and> tl_model t = resolve_effective_model e (tl_fallback s) (rw_override w)"

fun descends :: "turn_env \<Rightarrow> turn_loop \<Rightarrow> step_end \<Rightarrow> bool" where
  "descends e s (Again t) = ((t, s) \<in> turn_order e)"
| "descends e s _ = True"

lemma pre_round_gate_descends: "step_ok (before_check s) (descends e s) (pre_round_gate e w s)"
  by (auto simp: pre_round_gate_def before_check_def kept_course_def turn_defs split: option.splits)

lemma renewal_descends: "before_check s t \<Longrightarrow> step_ok (before_check s) (descends e s) (renewal e w t)"
  by (auto simp: renewal_def grant_round_renewal_def before_check_def kept_course_def turn_order_def turn_defs Let_def
      split: if_splits)

definition model_chosen :: "turn_env \<Rightarrow> round_world \<Rightarrow> turn_loop \<Rightarrow> turn_loop \<Rightarrow> bool" where
  "model_chosen e w s t \<longleftrightarrow> before_check s t \<and> tl_model t = resolve_effective_model e (tl_fallback s) (rw_override w)"

lemma choose_round_model_descends:
  "before_check s t \<Longrightarrow> step_ok (model_chosen e w s) (descends e s) (choose_round_model e w t)"
  by (auto simp: choose_round_model_def model_chosen_def before_check_def kept_course_def turn_defs Let_def)

lemma order_compacted:
  "kept_course s t \<Longrightarrow> tl_fallback s \<longrightarrow> tl_fallback t \<Longrightarrow> cc_attempts (tl_compaction s) < cc_attempts (tl_compaction t) \<Longrightarrow>
    cc_attempts (tl_compaction s) < ATTEMPT_LIMIT \<Longrightarrow> (t, s) \<in> turn_order e"
  by (auto simp: turn_order_def kept_course_def)

lemma order_refused:
  "kept_course s t \<Longrightarrow> tl_fallback s \<longrightarrow> tl_fallback t \<Longrightarrow> cc_attempts (tl_compaction t) = cc_attempts (tl_compaction s) \<Longrightarrow>
    unmeasured (tl_compaction t) \<Longrightarrow> \<not> unmeasured (tl_compaction s) \<or> size_before (tl_compaction t) < size_before (tl_compaction s) \<Longrightarrow>
    (t, s) \<in> turn_order e"
  by (auto simp: turn_order_def kept_course_def)

lemma order_failover: "kept_course s t \<Longrightarrow> \<not> tl_fallback s \<Longrightarrow> tl_fallback t \<Longrightarrow> (t, s) \<in> turn_order e"
  by (auto simp: turn_order_def kept_course_def)

lemma observe_tokens_frame:
  "cc_attempts (observe_tokens n c) = cc_attempts c" "cc_refused (observe_tokens n c) = cc_refused c"
  by (auto simp: observe_tokens_def split: option.splits)

lemma observe_measures:
  "unmeasured c \<Longrightarrow> cc_before c \<noteq> None \<Longrightarrow> cc_stalled (observe_tokens n c) \<or> n < size_before c"
  by (auto simp: observe_tokens_def unmeasured_def size_before_def get_or_def)

lemma measure_context_frame:
  "tl_compaction (measure_context w s) = observe_tokens (rw_tokens w) (tl_compaction s)" "kept_course s (measure_context w s)"
  "tl_fallback (measure_context w s) = tl_fallback s" "tl_model (measure_context w s) = tl_model s"
  by (simp_all add: measure_context_def kept_course_def)

lemma relieve_frame:
  "tl_compaction (relieve w s) = (if may_compact (tl_compaction s) then run_compaction (rw_tokens w) (rw_critical w) (tl_compaction s)
     else tl_compaction s)"
  "kept_course s (relieve w s)" "tl_fallback (relieve w s) = tl_fallback s" "tl_model (relieve w s) = tl_model s"
  by (simp_all add: relieve_def kept_course_def compact_now_def emit_turn_def)

lemma ride_trim_frame:
  "tl_compaction (ride_trim s) = (tl_compaction s)\<lparr>cc_announced := True\<rparr>"
  "kept_course s (ride_trim s)" "tl_fallback (ride_trim s) = tl_fallback s" "tl_model (ride_trim s) = tl_model s"
  by (simp_all add: ride_trim_def kept_course_def announce_floor_def emit_turn_def Let_def)

lemma kept_course_trans: "kept_course s t \<Longrightarrow> kept_course t u \<Longrightarrow> kept_course s u"
  by (simp add: kept_course_def)

lemma check_context_descends:
  assumes "model_chosen e w s t" "loop_inv e s"
  shows "step_ok (before_send e w s) (descends e s) (check_context e w t)"
proof -
  let ?c = "observe_tokens (rw_tokens w) (tl_compaction s)" and ?u = "measure_context w t"
  have t: "tl_compaction t = tl_compaction s" "kept_course s t" "tl_fallback t = tl_fallback s"
      "tl_model t = resolve_effective_model e (tl_fallback s) (rw_override w)"
    using assms(1) by (auto simp: model_chosen_def before_check_def)
  have u: "tl_compaction ?u = ?c" "kept_course s ?u" "tl_fallback ?u = tl_fallback s" "tl_model ?u = tl_model t"
    using t measure_context_frame kept_course_trans by (metis, blast, metis, metis)
  have r: "kept_course s (relieve w ?u)" "kept_course s (ride_trim (relieve w ?u))"
    using u(2) relieve_frame(2) ride_trim_frame(2) kept_course_trans by blast+
  have m: "unmeasured (tl_compaction s) \<Longrightarrow> cc_refused ?c \<and> (cc_stalled ?c \<or> rw_tokens w < size_before (tl_compaction s))"
    using observe_measures [of "tl_compaction s"] assms(2) by (auto simp: observe_tokens_frame loop_inv_def unmeasured_def)
  have 1: "before_send e w s ?u"
    using u t m by (simp add: before_send_def shrunk_def observe_tokens_frame)
  have 2: "descends e s (Again (relieve w ?u))" if "may_compact ?c" "rw_critical w = Compacted"
    unfolding descends.simps
    by (rule order_compacted [OF r(1)])
       (use that u in \<open>simp_all add: relieve_frame run_compaction_def observe_tokens_frame may_compact_def exhausted_def\<close>)
  have 3: "before_send e w s (ride_trim (relieve w ?u))"
    using r(2) u t m by (auto simp: before_send_def shrunk_def ride_trim_frame relieve_frame run_compaction_def observe_tokens_frame may_compact_def)
  show ?thesis
    unfolding check_context_def Let_def u(1)
    by (intro step_ok_if) (use 1 2 3 in simp_all)
qed

lemma compact_early_descends:
  assumes "before_send e w s t"
  shows "step_ok (before_send e w s) (descends e s) (compact_early w t)"
proof -
  let ?u = "compact_now [] (rw_tokens w) (rw_proactive w) t"
  have u: "kept_course t ?u" "tl_fallback ?u = tl_fallback t" "tl_model ?u = tl_model t"
      "tl_compaction ?u = run_compaction (rw_tokens w) (rw_proactive w) (tl_compaction t)"
    by (simp_all add: compact_now_def emit_turn_def kept_course_def)
  have "before_send e w s ?u" if "\<not> cc_refused (tl_compaction t)"
    using assms that u kept_course_trans [of s t ?u]
    by (auto simp: before_send_def shrunk_def run_compaction_def)
  then show ?thesis using assms by (simp add: compact_early_def Let_def)
qed

lemma send_request_descends: "before_send e w s t \<Longrightarrow> step_ok (after_send e w s) (descends e s) (send_request e w t)"
  by (simp add: send_request_def Let_def before_send_def after_send_def kept_course_def shrunk_def set_stuck_def)

lemma kept_course_notes [simp]:
  "kept_course s (add_rows rs t) = kept_course s t" "kept_course s (emit_turn es t) = kept_course s t"
  "kept_course s (t\<lparr>tl_content := c, tl_calls := tcs\<rparr>) = kept_course s t"
  by (simp_all add: kept_course_def turn_defs)

lemma take_outcome_descends:
  assumes "after_send e w s t" "rw_override_after w = rw_override w"
  shows "step_ok (after_send e w s) (descends e s) (take_outcome e w t)"
proof (cases "rw_stream w")
  case Overflowed
  have t: "kept_course s t" "tl_fallback s \<longrightarrow> tl_fallback t" "shrunk w s t"
      "tl_model t = resolve_effective_model e (tl_fallback s) (rw_override w)"
    using assms(1) by (simp_all add: after_send_def)
  let ?c = "tl_compaction t" and ?u = "compact_now ''api_overflow'' (rw_tokens w) (rw_overflow w) t"
  have u: "kept_course s ?u" "tl_fallback ?u = tl_fallback t" "tl_compaction ?u = run_compaction (rw_tokens w) (rw_overflow w) ?c"
    using t(1) by (simp_all add: compact_now_def emit_turn_def kept_course_def)
  have "(t, s) \<in> turn_order e" if "resolve_effective_model e (tl_fallback t) (rw_override_after w) \<noteq> tl_model t"
  proof (rule order_failover [OF t(1)])
    show "\<not> tl_fallback s" using that t assms(2) by (cases "tl_fallback s") simp_all
    then show "tl_fallback t" using that t assms(2) by (cases "tl_fallback t") simp_all
  qed
  moreover have "(?u, s) \<in> turn_order e" if h: "can_help_with_overflow ?c"
  proof (cases "cc_attempts (tl_compaction ?u) = cc_attempts (tl_compaction s)")
    case True
    have a: "cc_attempts ?c = cc_attempts (tl_compaction s)" "rw_overflow w = Nothing_To_Summarize"
      using True t(3) u(3) by (auto simp: run_compaction_def shrunk_def split: if_splits)
    have "\<not> unmeasured (tl_compaction s) \<or> rw_tokens w < size_before (tl_compaction s)"
      using t(3) a(1) h by (auto simp: shrunk_def can_help_with_overflow_def)
    then show ?thesis
      using u a t(2) by (intro order_refused) (auto simp: run_compaction_def unmeasured_def size_before_def get_or_def)
  next
    case False
    have "cc_attempts (tl_compaction s) < cc_attempts (tl_compaction ?u)"
      using False t(3) u(3) by (auto simp: run_compaction_def shrunk_def split: if_splits)
    moreover have "cc_attempts (tl_compaction s) < ATTEMPT_LIMIT"
      using t(3) h by (auto simp: shrunk_def can_help_with_overflow_def exhausted_def)
    ultimately show ?thesis using u t(2) by (intro order_compacted) auto
  qed
  ultimately show ?thesis using Overflowed by (simp add: take_outcome_def)
next
  case (Replied c tcs clipped)
  have "after_send e w s ((acknowledge_delivery w t)\<lparr>tl_content := c, tl_calls := tcs\<rparr>)"
    using assms(1) by (simp add: after_send_def shrunk_def acknowledge_delivery_def emit_turn_def kept_course_def)
  then show ?thesis using Replied by (simp add: take_outcome_def)
qed (simp add: take_outcome_def)

lemma order_spent: "kept_course s t \<Longrightarrow> tl_round s < te_max_rounds e \<Longrightarrow> tl_granted u = tl_granted t \<Longrightarrow>
    tl_round u = tl_round t + 1 \<Longrightarrow> (u, s) \<in> turn_order e"
  unfolding turn_order_def kept_course_def by (rule measures_lesseq, simp, rule measures_less, simp)

lemma spend_round_course [simp]: "tl_granted (spend_round s) = tl_granted s" "tl_round (spend_round s) = tl_round s + 1"
  by (simp_all add: spend_round_def)

lemma granted_notes [simp]: "tl_granted (add_rows rs s) = tl_granted s" "tl_granted (emit_turn es s) = tl_granted s"
  by (simp_all add: turn_defs)

lemma continue_cut_reply_cases:
  "continue_cut_reply w t = Go t \<or>
     (\<exists>u. continue_cut_reply w t = Again (spend_round u) \<and> tl_granted u = tl_granted t \<and> tl_round u = tl_round t)"
proof (cases "continue_cut_reply w t = Go t")
  case False
  let ?n = "tl_continuations t + 1"
  let ?u = "emit_turn [Length_Continuation ?n LENGTH_CONTINUATION_LIMIT]
      (add_rows [Said (tl_content t) [], Told Cut_Off] (t\<lparr>tl_continuations := ?n\<rparr>))"
  have "continue_cut_reply w t = Again (spend_round ?u)"
    using False unfolding continue_cut_reply_def Let_def by presburger
  moreover have "tl_granted ?u = tl_granted t" "tl_round ?u = tl_round t" by simp_all
  ultimately show ?thesis by blast
qed simp

lemma continue_cut_reply_descends:
  assumes "after_send e w s t" "tl_round s < te_max_rounds e"
  shows "step_ok (after_send e w s) (descends e s) (continue_cut_reply w t)"
proof -
  have "kept_course s t" using assms(1) by (simp add: after_send_def)
  then have "(spend_round u, s) \<in> turn_order e" if "tl_granted u = tl_granted t" "tl_round u = tl_round t" for u
    using that assms(2) order_spent [of s t] by simp
  then show ?thesis using continue_cut_reply_cases [of w t] assms(1) by auto
qed

lemma salvage_calls_descends: "after_send e w s t \<Longrightarrow> step_ok (after_send e w s) (descends e s) (salvage_calls w t)"
  by (auto simp: salvage_calls_def after_send_def shrunk_def split: option.splits)

lemma judge_reply_descends:
  assumes "after_send e w s t" "tl_round s < te_max_rounds e"
  shows "step_ok (after_send e w s) (descends e s) (judge_reply e w t)"
proof -
  have k: "kept_course s t" "tl_fallback s \<longrightarrow> tl_fallback t" using assms(1) by (simp_all add: after_send_def)
  have spent: "descends e s (Again (spend_round u))" if "tl_granted u = tl_granted t" "tl_round u = tl_round t" for u
    unfolding descends.simps by (rule order_spent [OF k(1) assms(2)]) (use that in simp_all)
  have again: "descends e s (Again u)" if "kept_course s (u\<lparr>tl_rereads := tl_rereads t\<rparr>)" "tl_rereads u = tl_rereads t + 1"
      "tl_rereads t < FINAL_ANSWER_REREAD_LIMIT" "tl_fallback u = tl_fallback t" for u
    using that k by (auto simp: turn_order_def kept_course_def)
  show ?thesis
    unfolding judge_reply_def Let_def
    by (intro step_ok_if; simp only: step_ok.simps descends.simps(2-);
        (rule spent again)?; use k(1) in \<open>simp add: kept_course_def turn_defs\<close>)
qed

lemma evaluate_loop_break:
  assumes "evaluate jl tt rlm reg fs content tcs k = Some ((score, repeats), k')"
  shows "sk_loop_break k' = sk_loop_break k"
proof -
  obtain sc k2 where s: "((score, repeats), k') = settle_score content
      (same_domain_repetition (bot_wall_streak (empty_result_streak (sc, k2))))" and k: "kept k k2"
    using evaluate_settles [OF assms] by blast
  obtain sc3 k3 where m: "same_domain_repetition (bot_wall_streak (empty_result_streak (sc, k2))) = (sc3, k3)"
    by (metis surj_pair)
  have "grows (sc, k2) (sc3, k3)" unfolding m [symmetric] using grows_signals by (meson grows_trans)
  then have "kept k k3" using k by (auto simp: grows_def intro: kept_trans)
  moreover have "sk_loop_break k' = sk_loop_break k3" using s m by (auto simp: settle_score_def Let_def split: if_splits)
  ultimately show ?thesis by (simp add: kept_def)
qed

lemma order_nudged:
  assumes "kept_course s t" "tl_fallback s \<longrightarrow> tl_fallback u" "tl_granted u = tl_granted t" "tl_round u = tl_round t"
    "tl_rereads u = tl_rereads t"
    "\<not> sk_loop_break (ga_stuck (tl_gate t)) \<and> sk_loop_break (ga_stuck (tl_gate u))
     \<or> sk_loop_break (ga_stuck (tl_gate u)) = sk_loop_break (ga_stuck (tl_gate t)) \<and> tl_nudges t < STUCK_ASK_USER_LIMIT
         \<and> tl_nudges u = tl_nudges t + 1"
  shows "(u, s) \<in> turn_order e"
  using assms by (auto simp: turn_order_def kept_course_def)

lemma handle_nudges:
  assumes "handle_stuck_signals jl score repeats tcs active used limit rl k = ((Nudge_And_Retry, used'), k', x)"
  shows "\<not> sk_loop_break k \<and> sk_loop_break k' \<or> sk_loop_break k' = sk_loop_break k \<and> used < limit \<and> used' = used + 1"
  using assms by (auto simp: handle_stuck_signals_def split: if_splits)

lemma check_stuck_descends:
  assumes "after_send e w s t"
  shows "step_ok (\<lambda>u. tl_granted u = tl_granted t \<and> tl_round u = tl_round t) (descends e s) (check_stuck e t)"
proof (cases "evaluate (te_json e) (te_tests e) (te_rlm e) (view (te_registry e)) (failures_of (tl_gate t)) (tl_content t)
    (tl_calls t) (ga_stuck (tl_gate t))")
  case None
  then show ?thesis by (simp add: check_stuck_def)
next
  case (Some x)
  obtain score repeats k1 where x: "x = ((score, repeats), k1)" by (metis surj_pair)
  obtain action used k2 note' where h: "handle_stuck_signals (te_json e) score repeats (tl_calls t) (tl_active t) (tl_nudges t)
      STUCK_ASK_USER_LIMIT RECOVERY_LIMIT (k1\<lparr>sk_hints := []\<rparr>) = ((action, used), k2, note')" by (metis surj_pair)
  have k: "sk_loop_break k1 = sk_loop_break (ga_stuck (tl_gate t))" using evaluate_loop_break Some x by blast
  have c: "kept_course s t" "tl_fallback s \<longrightarrow> tl_fallback t" using assms by (simp_all add: after_send_def)
  show ?thesis
  proof (cases action)
    case Nudge_And_Retry
    have n: "\<not> sk_loop_break (ga_stuck (tl_gate t)) \<and> sk_loop_break k2
        \<or> sk_loop_break k2 = sk_loop_break (ga_stuck (tl_gate t)) \<and> tl_nudges t < STUCK_ASK_USER_LIMIT \<and> used = tl_nudges t + 1"
      using handle_nudges [OF h [unfolded Nudge_And_Retry]] k by simp
    then show ?thesis
      using Some x h Nudge_And_Retry c(2)
      by (auto simp: check_stuck_def Let_def set_stuck_def add_rows_def intro!: order_nudged [OF c(1)])
  qed (use Some x h in \<open>simp_all add: check_stuck_def Let_def set_stuck_def\<close>)
qed

lemma tools_descend:
  assumes "kept_course s t" "tl_round s < te_max_rounds e" "tl_granted u = tl_granted t \<and> tl_round u = tl_round t"
  shows "descends e s (and_then (run_tools e w u) (post_round_gate w))"
proof -
  consider (go) v where "run_tools e w u = Go v" | (died) v where "run_tools e w u = Died v" using run_tools_course by blast
  then show ?thesis
  proof cases
    case go
    have "same_course u v" using run_tools_course [of u e w] go by simp
    then have "tl_granted v = tl_granted t" "tl_round v = tl_round t" using assms(3) by (simp_all add: same_course_def)
    then have "(spend_round v, s) \<in> turn_order e" using order_spent [OF assms(1,2)] by simp
    then show ?thesis using go by (simp add: post_round_gate_def)
  qed simp
qed

lemma loop_round_descends:
  assumes "going e s" "rw_override_after w = rw_override w"
  shows "descends e s (loop_round e w s)"
proof -
  have r: "tl_round s < te_max_rounds e" and i: "loop_inv e s" using assms(1) by simp_all
  have last: "step_ok (\<lambda>_. True) (descends e s) (if tl_calls t = [] then judge_reply e w t
      else and_then (and_then (check_stuck e t) (run_tools e w)) (post_round_gate w))" if t: "after_send e w s t" for t
  proof -
    have k: "kept_course s t" using t by (simp add: after_send_def)
    have d: "descends e s (and_then (and_then (check_stuck e t) (run_tools e w)) (post_round_gate w))"
      using check_stuck_descends [OF t] tools_descend [OF k r] by (cases "check_stuck e t") simp_all
    have j: "step_ok (\<lambda>_. True) (descends e s) (judge_reply e w t)"
      using judge_reply_descends [OF t r] by (cases "judge_reply e w t") simp_all
    have "descends e s x \<Longrightarrow> step_ok (\<lambda>_. True) (descends e s) x" for x by (cases x) simp_all
    then show ?thesis using d j by simp
  qed
  have "step_ok (\<lambda>_. True) (descends e s) (loop_round e w s)"
    unfolding loop_round_def
    by (rule step_ok_then [OF step_ok_then [OF step_ok_then [OF step_ok_then [OF step_ok_then [OF step_ok_then
          [OF step_ok_then [OF step_ok_then [OF step_ok_then [OF
          pre_round_gate_descends
          renewal_descends] choose_round_model_descends] check_context_descends [OF _ i]] compact_early_descends]
          send_request_descends] take_outcome_descends [OF _ assms(2)]] continue_cut_reply_descends [OF _ r]]
          salvage_calls_descends] last])
  then show ?thesis by (cases "loop_round e w s") simp_all
qed


section \<open>How a turn ends\<close>

definition END_REASONS :: "string set" where
  "END_REASONS = {''complete'', ''cancelled'', ''budget_exhausted'', ''compaction_failed'', ''stuck_loop'', ''round_ceiling'', ''error''}"

definition open_turn :: "turn_loop \<Rightarrow> bool" where
  "open_turn s \<longleftrightarrow> tl_reason s = None \<and> tl_error s = None"

definition asked :: "turn_loop \<Rightarrow> bool" where
  "asked s \<longleftrightarrow> open_turn s \<and> tl_requests s \<noteq> [] \<and> snd (last (tl_requests s)) = tl_tools_on s
     \<and> tl_tools_on s = (\<not> tl_forced s \<and> \<not> tl_break_round s)"

definition asked_tools :: "turn_loop \<Rightarrow> bool" where
  "asked_tools s \<longleftrightarrow> asked s \<and> tl_calls s \<noteq> []"

text \<open>An end with its reason; an answer that is complete was given with tools on offer.\<close>

definition classified :: "turn_loop \<Rightarrow> bool" where
  "classified s \<longleftrightarrow> (\<exists>r \<in> END_REASONS. tl_reason s = Some r \<and> (r = ''error'' \<longleftrightarrow> tl_error s \<noteq> None)
     \<and> (r = ''complete'' \<longrightarrow> tl_calls s \<noteq> [] \<or> tl_requests s \<noteq> [] \<and> snd (last (tl_requests s))))"

fun well_ended :: "step_end \<Rightarrow> bool" where
  "well_ended (Go s) = open_turn s"
| "well_ended (Again s) = open_turn s"
| "well_ended (Leave s) = (tl_error s = None \<and> tl_reason s \<in> {None, Some ''budget_exhausted'', Some ''compaction_failed'', Some ''stuck_loop''})"
| "well_ended (Return s) = classified s"
| "well_ended (Died s) = True"

lemma reason_in: "''complete'' \<in> END_REASONS" "''cancelled'' \<in> END_REASONS" "''budget_exhausted'' \<in> END_REASONS"
  "''stuck_loop'' \<in> END_REASONS" "''round_ceiling'' \<in> END_REASONS" "''error'' \<in> END_REASONS" "''compaction_failed'' \<in> END_REASONS"
  by (simp_all add: END_REASONS_def)

lemma classified_end: "tl_error s = None \<Longrightarrow> r \<in> END_REASONS \<Longrightarrow> r \<noteq> ''error'' \<Longrightarrow>
    (r = ''complete'' \<Longrightarrow> tl_calls s \<noteq> [] \<or> tl_requests s \<noteq> [] \<and> snd (last (tl_requests s))) \<Longrightarrow> classified (end_as r s)"
  by (auto simp: classified_def end_as_def)

lemma open_turn_notes [simp]:
  "open_turn (add_rows rs s) = open_turn s" "open_turn (emit_turn es s) = open_turn s" "open_turn (spend_round s) = open_turn s"
  "open_turn (compact_now r n how s) = open_turn s" "open_turn (measure_context w s) = open_turn s" "open_turn (relieve w s) = open_turn s"
  "open_turn (ride_trim s) = open_turn s" "open_turn (acknowledge_delivery w s) = open_turn s"
  "open_turn (grant_round_renewal e s) = open_turn s" "open_turn (set_stuck f s) = open_turn s"
  "open_turn (s\<lparr>tl_model := m\<rparr>) = open_turn s"
  by (simp_all add: open_turn_def turn_defs measure_context_def relieve_def ride_trim_def announce_floor_def
      grant_round_renewal_def Let_def)

lemma notes_error [simp]: "tl_error (add_rows rs s) = tl_error s" "tl_error (emit_turn es s) = tl_error s" "tl_error (end_as r s) = tl_error s"
  "tl_reason (add_rows rs s) = tl_reason s" "tl_reason (emit_turn es s) = tl_reason s" "tl_reason (end_as r s) = Some r"
  "tl_error (relieve w s) = tl_error s" "tl_error (measure_context w s) = tl_error s"
  by (simp_all add: turn_defs relieve_def measure_context_def)

lemma pre_round_gate_ends: "open_turn s \<Longrightarrow> step_ok open_turn well_ended (pre_round_gate e w s)"
  unfolding pre_round_gate_def
  by (intro step_ok_if) (auto simp: open_turn_def reason_in intro!: classified_end split: option.splits)

lemma renewal_ends: "open_turn s \<Longrightarrow> step_ok open_turn well_ended (renewal e w s)"
  by (simp add: renewal_def)

lemma choose_round_model_ends: "open_turn s \<Longrightarrow> step_ok open_turn well_ended (choose_round_model e w s)"
  by (simp add: choose_round_model_def Let_def)

lemma check_context_ends: "open_turn s \<Longrightarrow> step_ok open_turn well_ended (check_context e w s)"
  unfolding check_context_def Let_def by (intro step_ok_if) (simp_all, simp add: open_turn_def)

lemma compact_early_ends: "open_turn s \<Longrightarrow> step_ok open_turn well_ended (compact_early w s)"
  by (simp add: compact_early_def Let_def)

lemma send_request_ends: "open_turn s \<Longrightarrow> step_ok asked well_ended (send_request e w s)"
  by (simp add: send_request_def asked_def open_turn_def set_stuck_def Let_def)

lemma asked_notes [simp]:
  "asked (s\<lparr>tl_content := c, tl_calls := tcs\<rparr>) = asked s" "asked (acknowledge_delivery w s) = asked s"
  "asked (add_rows rs s) = asked s" "asked (emit_turn es s) = asked s"
  by (simp_all add: asked_def open_turn_def turn_defs)

lemma stream_error_ends: "open_turn s \<Longrightarrow> classified (end_turn_on_stream_error err p g s)"
  by (auto simp: end_turn_on_stream_error_def open_turn_def classified_def reason_in Let_def turn_defs)

lemma take_outcome_ends: "asked s \<Longrightarrow> step_ok asked well_ended (take_outcome e w s)"
  by (cases "rw_stream w") (simp_all add: take_outcome_def stream_error_ends, simp_all add: asked_def stream_error_ends)

lemma continue_cut_reply_ends: "asked s \<Longrightarrow> step_ok asked well_ended (continue_cut_reply w s)"
  unfolding continue_cut_reply_def Let_def by (intro step_ok_if) (simp_all, simp add: asked_def open_turn_def)

lemma salvage_calls_ends: "asked s \<Longrightarrow> step_ok asked well_ended (salvage_calls w s)"
  by (auto simp: salvage_calls_def split: option.splits)

lemma answered_ends:
  assumes "asked s" "t = emit_turn es s \<or> t = emit_turn es (add_rows rs s)"
  shows "classified (end_as (if tl_break_round s then ''stuck_loop'' else if tl_forced s then ''round_ceiling'' else ''complete'') t)"
proof -
  have "tl_error t = None" "tl_requests t = tl_requests s" using assms by (auto simp: asked_def open_turn_def turn_defs)
  then show ?thesis using assms(1) by (intro classified_end) (auto simp: reason_in asked_def split: if_splits)
qed

lemma asked_pending [simp]: "asked (s\<lparr>tl_followup_pending := b\<rparr>) = asked s"
  by (simp add: asked_def open_turn_def)

lemma judge_reply_ends:
  assumes "asked s" shows "step_ok asked well_ended (judge_reply e w s)"
proof -
  let ?s = "s\<lparr>tl_followup_pending := False\<rparr>"
  have o: "tl_reason s = None" "tl_error s = None" using assms by (simp_all add: asked_def open_turn_def)
  let ?t = "emit_turn [Stream_Done] (if tl_content ?s \<noteq> [] then add_rows [Said (tl_content ?s) []] ?s else ?s)"
  have "asked ?s" using assms by simp
  moreover have "?t = emit_turn [Stream_Done] ?s \<or> ?t = emit_turn [Stream_Done] (add_rows [Said (tl_content ?s) []] ?s)"
    by (cases "tl_content ?s = []") (simp_all only: if_True if_False simp_thms)
  ultimately have "classified (end_as (if tl_break_round ?s then ''stuck_loop'' else if tl_forced ?s then ''round_ceiling'' else ''complete'') ?t)"
    by (rule answered_ends)
  then show ?thesis
    unfolding judge_reply_def Let_def
    using o by (intro step_ok_if; simp only: step_ok.simps well_ended.simps open_turn_notes)
       (simp_all add: open_turn_def)
qed

lemma check_stuck_ends: "asked_tools s \<Longrightarrow> step_ok asked_tools well_ended (check_stuck e s)"
  by (auto simp: check_stuck_def asked_tools_def asked_def open_turn_def turn_defs Let_def split: option.splits prod.splits stuck_action.splits)

lemma run_tools_ends:
  assumes "asked_tools s" shows "step_ok asked_tools well_ended (run_tools e w s)"
proof -
  consider (go) v where "run_tools e w s = Go v" | (died) v where "run_tools e w s = Died v" using run_tools_course by blast
  then show ?thesis
  proof cases
    case go
    then have "same_course s v" using run_tools_course [of s e w] by simp
    then show ?thesis using assms go by (simp add: same_course_def asked_tools_def asked_def open_turn_def)
  qed simp
qed

lemma post_round_gate_ends: "asked_tools s \<Longrightarrow> step_ok asked well_ended (post_round_gate w s)"
  unfolding post_round_gate_def
  by (intro step_ok_if; simp only: step_ok.simps well_ended.simps open_turn_notes;
      (rule classified_end)?; simp add: asked_tools_def asked_def open_turn_def reason_in; simp add: turn_defs)

lemma loop_round_ends:
  assumes "open_turn s" shows "well_ended (loop_round e w s)"
proof -
  have last: "step_ok asked well_ended (if tl_calls t = [] then judge_reply e w t
      else and_then (and_then (check_stuck e t) (run_tools e w)) (post_round_gate w))" if t: "asked t" for t
  proof (cases "tl_calls t = []")
    case False
    then have "asked_tools t" using t by (simp add: asked_tools_def)
    then show ?thesis
      using False step_ok_then [OF step_ok_then [OF check_stuck_ends run_tools_ends] post_round_gate_ends] by simp
  qed (simp add: judge_reply_ends [OF t])
  have "step_ok asked well_ended (loop_round e w s)"
    unfolding loop_round_def
    by (rule step_ok_then [OF step_ok_then [OF step_ok_then [OF step_ok_then [OF step_ok_then [OF step_ok_then
          [OF step_ok_then [OF step_ok_then [OF step_ok_then [OF
          pre_round_gate_ends [OF assms] renewal_ends] choose_round_model_ends] check_context_ends] compact_early_ends]
          send_request_ends] take_outcome_ends] continue_cut_reply_ends] salvage_calls_ends] last])
  then show ?thesis by (cases "loop_round e w s") (simp_all add: asked_def)
qed

lemma run_loop_ends: "run_loop e ws fuel i s = Some r \<Longrightarrow> open_turn s \<Longrightarrow> well_ended r"
proof (induction fuel arbitrary: i s)
  case (Suc fuel)
  show ?case
  proof (cases "te_max_rounds e \<le> tl_round s")
    case False
    then show ?thesis using Suc loop_round_ends [OF Suc.prems(2), of e "ws i"] by (cases "loop_round e (ws i) s") auto
  qed (use Suc.prems in \<open>auto simp: open_turn_def\<close>)
qed simp

lemma final_answer_ends:
  assumes "tl_error s = None" "tl_reason s \<in> {None, Some ''budget_exhausted'', Some ''compaction_failed'', Some ''stuck_loop''}"
  shows "classified (final_answer e ov how s)"
  using assms
  by (cases how) (auto simp: final_answer_def Let_def turn_defs classified_def END_REASONS_def)

text \<open>Every turn's end is classified. A turn that comes back has one of the seven reasons; it is an error
  exactly when the session carries one; and it counts as complete only if its last request offered the
  model tools and was answered in prose, or if the tools it called suspended it. A reply that the
  harness forced by taking the tools away is never filed as complete.\<close>

theorem turn_end_is_classified:
  assumes "fresh_turn s" "run_agent e ws ov how fuel s = Some s'"
  shows "\<exists>r \<in> END_REASONS. tl_reason s' = Some r \<and> (r = ''error'' \<longleftrightarrow> tl_error s' \<noteq> None)
     \<and> (r = ''complete'' \<longrightarrow> tl_calls s' \<noteq> [] \<or> tl_requests s' \<noteq> [] \<and> snd (last (tl_requests s')))"
proof -
  have "open_turn s" using assms(1) by (simp add: fresh_turn_def open_turn_def)
  then have "classified s'"
    using assms(2) run_loop_ends [of e ws fuel 0 s] final_answer_ends
    by (auto simp: run_agent_def split: option.splits step_end.splits)
  then show ?thesis by (simp add: classified_def)
qed

section \<open>The transcript of a round\<close>

definition answered_ids :: "turn_row list \<Rightarrow> string list" where
  "answered_ids rs = List.map_filter (\<lambda>r. case r of Answered i _ \<Rightarrow> Some i | _ \<Rightarrow> None) rs"

lemma answered_ids_simps [simp]:
  "answered_ids [] = []" "answered_ids (Answered i c # rs) = i # answered_ids rs"
  "answered_ids (rs @ qs) = answered_ids rs @ answered_ids qs"
  "answered_ids (map (\<lambda>x. Answered (f x) (g x)) xs) = map f xs"
  by (simp_all add: answered_ids_def map_filter_def comp_def)

lemma record_one_gate [simp]: "ga_calls (tl_gate (record_round_result e s x)) = ga_calls (tl_gate s)"
  by (simp add: record_round_result_def remember_success_def turn_defs Let_def split_def)

lemma record_one_rows: "tl_rows (record_round_result e s x)
    = tl_rows s @ [Answered (tc_id (call_of (tl_gate s) (fst (fst x)))) (er_content (snd x))]"
  by (simp add: record_round_result_def turn_defs Let_def split_def)

lemma record_all_rows: "tl_rows (foldl (record_round_result e) s xs)
    = tl_rows s @ map (\<lambda>x. Answered (tc_id (call_of (tl_gate s) (fst (fst x)))) (er_content (snd x))) xs"
proof (induction xs arbitrary: s)
  case (Cons x xs)
  have "call_of (tl_gate (record_round_result e s x)) = call_of (tl_gate s)" by (simp add: call_of_def fun_eq_iff)
  then show ?case using Cons by (simp add: record_one_rows)
qed simp

lemma bind_large_length [simp]: "length (bind_large_results en th sid binds tcs rs) = length rs"
  by (simp add: bind_large_results_def)

lemma load_calls_new:
  assumes "load_calls tcs g = (new, g0)"
  shows "distinct new" "set new \<subseteq> {..<ga_fresh g0}" "\<And>k. k \<in> set new \<Longrightarrow> \<not> tc_rejected (ga_calls g0 k)" "length new = length tcs"
  using assms by (auto simp: load_calls_def Let_def)

text \<open>Each round leaves the transcript paired. Whether its calls are refused, executed or cut off by a
  stop, a round of tools that writes its assistant row writes one row with every call the model proposed
  and after it only answers, and each id of a proposed call is answered as often as it was proposed, as
  long as the store takes the rows of a round that died.\<close>

theorem round_answers_every_call:
  assumes "run_tools e w s = Go t \<or> run_tools e w s = Died t" "tl_rows t \<noteq> tl_rows s" "rw_saved w = (\<lambda>_. True)" "i \<noteq> []"
  shows "\<exists>tcs new. tl_rows t = tl_rows s @ Said (tl_content s) tcs # new \<and> length tcs = length (tl_calls s)
    \<and> list_all (\<lambda>r. \<exists>j c. r = Answered j c) new
    \<and> count (mset (answered_ids new)) i = count (mset (map tc_id tcs)) i"
proof -
  obtain new g0 where l: "load_calls (tl_calls s) (tl_gate s) = (new, g0)" by fastforce
  obtain parsed g1 where a: "admit (te_json e) (te_casefold e) (view (te_registry e)) (tl_active s) new g0 = Some (parsed, g1)"
    using assms(1,2) l by (cases "admit (te_json e) (te_casefold e) (view (te_registry e)) (tl_active s) new g0")
      (auto simp: run_tools_def)
  note n = load_calls_new [OF l]
  have b: "book g1 (map fst parsed)" using admit_book [OF a n(1,2)] n(3) by blast
  have pr: "proposed_calls g1 = map (call_of g1) new" using admit_proposed [OF a] by (simp add: proposed_calls_def)
  define g2 where "g2 = g1\<lparr>ga_rejected := []\<rparr>"
  have c2: "call_of g2 = call_of g1" by (simp add: g2_def call_of_def fun_eq_iff)
  let ?ref = "map (\<lambda>(k, m). (tc_id (call_of g1 k), m)) (ga_rejected g1)"
  let ?run = "map (\<lambda>(k, args). (tc_name (call_of g2 k), args)) parsed"
  have fl: "flush_rejections g1 = (?ref, g2)" by (simp add: flush_rejections_def g2_def)
  have bag: "mset (map (\<lambda>x. tc_id (call_of g1 (fst x))) parsed) + mset (map fst ?ref) = mset (map tc_id (proposed_calls g1))"
    using b by (simp add: book_def Let_def idbag_def proposed_calls_def call_of_def image_mset.compositionality comp_def split_def)
  let ?said = "Said (tl_content s) (proposed_calls g1)" and ?refrows = "map (\<lambda>(k, _). Answered k refusal_text) ?ref"
  have refids: "answered_ids ?refrows = map fst ?ref" by (simp add: split_def comp_def)
  have refall: "list_all (\<lambda>r. \<exists>j c. r = Answered j c) ?refrows" by (auto simp: list_all_iff)
  obtain out x where ex: "(if parsed = [] then (Some [], tl_exec s) else
      execute_tool_round (te_auto e) (view (te_registry e)) (te_sigs e) (te_sid e) (rw_endings w) (rw_outside w) ?run (tl_exec s)) = (out, x)"
    by fastforce
  let ?s2 = "(emit_turn (map (\<lambda>c. Tool_Start (fst c)) ?run) (add_rows (?said # ?refrows) (s\<lparr>tl_gate := g2\<rparr>)))\<lparr>tl_exec := x\<rparr>"
  have s2: "tl_rows ?s2 = tl_rows s @ ?said # ?refrows" "tl_gate ?s2 = g2" by (simp_all add: turn_defs)
  have "\<exists>tail. tl_rows t = tl_rows s @ ?said # ?refrows @ tail \<and> list_all (\<lambda>r. \<exists>j c. r = Answered j c) tail
      \<and> count (mset (answered_ids tail)) i = count (mset (map (\<lambda>x. tc_id (call_of g1 (fst x))) parsed)) i"
  proof (cases out)
    case None
    let ?stub = "stub_unanswered_calls (rw_saved w) (map (\<lambda>(k, _). call_of g2 k) parsed)"
    have "run_tools e w s = Died (add_rows (map (\<lambda>k. Answered k aborted_text) ?stub) ?s2)"
      unfolding run_tools_def l prod.case a option.case fl Let_def ex None by simp
    then have "tl_rows t = tl_rows s @ ?said # ?refrows @ map (\<lambda>k. Answered k aborted_text) ?stub"
      using assms(1) s2 by (auto simp: add_rows_def)
    moreover have "answered_ids (map (\<lambda>k. Answered k aborted_text) ?stub) = ?stub"
      using answered_ids_simps(4) [of "\<lambda>k. k" "\<lambda>_. aborted_text" ?stub] by simp
    moreover have "count (mset ?stub) i = count (mset (map (\<lambda>x. tc_id (call_of g1 (fst x))) parsed)) i"
      using assms(3,4) by (induction parsed) (auto simp: stub_unanswered_calls_def c2)
    ultimately show ?thesis by (intro exI [of _ "map (\<lambda>k. Answered k aborted_text) ?stub"]) (simp add: list_all_iff)
  next
    case (Some rs)
    let ?rs = "bind_large_results (te_kernel e) (te_bind_threshold e) (te_sid e) (rw_binds w) ?run rs"
    have len: "length ?rs = length parsed"
    proof (cases "parsed = []")
      case False
      then have "execute_tool_round (te_auto e) (view (te_registry e)) (te_sigs e) (te_sid e) (rw_endings w) (rw_outside w) ?run (tl_exec s)
          = (Some rs, x)" using ex Some by simp
      from round_length [OF this] show ?thesis by simp
    qed (use ex Some in simp)
    have "run_tools e w s = Go (foldl (record_round_result e) ?s2 (zip parsed ?rs))"
      unfolding run_tools_def l prod.case a option.case fl Let_def ex Some by simp
    then have "t = foldl (record_round_result e) ?s2 (zip parsed ?rs)" using assms(1) by auto
    then have r: "tl_rows t = tl_rows s @ ?said # ?refrows @
        map (\<lambda>x. Answered (tc_id (call_of g1 (fst (fst x)))) (er_content (snd x))) (zip parsed ?rs)"
      using record_all_rows [of e ?s2 "zip parsed ?rs"] s2 c2 by simp
    have "map (\<lambda>x. tc_id (call_of g1 (fst (fst x)))) (zip parsed ?rs) = map (\<lambda>x. tc_id (call_of g1 (fst x))) (map fst (zip parsed ?rs))"
      by simp
    also have "map fst (zip parsed ?rs) = parsed" using len by simp
    finally show ?thesis using r
      by (intro exI [of _ "map (\<lambda>x. Answered (tc_id (call_of g1 (fst (fst x)))) (er_content (snd x))) (zip parsed ?rs)"])
         (simp add: list_all_iff)
  qed
  then obtain tail where tail: "tl_rows t = tl_rows s @ ?said # ?refrows @ tail" "list_all (\<lambda>r. \<exists>j c. r = Answered j c) tail"
      "count (mset (answered_ids tail)) i = count (mset (map (\<lambda>x. tc_id (call_of g1 (fst x))) parsed)) i" by blast
  have "count (mset (answered_ids (?refrows @ tail))) i = count (mset (map tc_id (proposed_calls g1))) i"
    using tail(3) refids unfolding bag [symmetric] by simp
  then show ?thesis
    using tail refall pr n(4) by (intro exI [of _ "proposed_calls g1"] exI [of _ "?refrows @ tail"]) simp
qed

section \<open>Where the loop forgets\<close>

text \<open>The round that breaks a loop is lost to an overflow. The flag that withholds the tools is taken down
  before the request; when the provider rejects that request as too long, the retried round offers the
  tools again and no longer counts as one that breaks a loop.\<close>

theorem overflow_rearms_tools:
  assumes "sk_force_text (ga_stuck (tl_gate s))" "rw_stream w = Overflowed" "can_help_with_overflow (tl_compaction s)"
    "Suc (tl_round s) < te_max_rounds e"
  shows "\<exists>t u. and_then (send_request e w s) (take_outcome e w) = Again t \<and> tl_rows t = tl_rows s
    \<and> send_request e w' t = Go u \<and> tl_tools_on u \<and> \<not> tl_break_round u"
  using assms by (auto simp: send_request_def take_outcome_def turn_defs Let_def)

text \<open>A round whose calls the stuck detector discards has executed nothing, and still counts as the tool work
  that pays for a renewal.\<close>

theorem renewal_without_work:
  assumes "check_stuck e s = Again t" "tl_granted s < te_renewals e" "te_max_rounds e - 1 \<le> tl_round s"
    "round_renewal_refusal e w (ga_stuck (tl_gate t)) = None"
  shows "tl_exec t = tl_exec s \<and> (\<exists>u. renewal e w t = Again u \<and> tl_round u = 0)"
proof -
  have "tl_exec t = tl_exec s \<and> tl_window_tools t \<and> tl_granted t = tl_granted s \<and> tl_round t = tl_round s"
    using assms(1) by (auto simp: check_stuck_def Let_def set_stuck_def add_rows_def end_as_def
        split: option.splits prod.splits stuck_action.splits)
  then show ?thesis using assms(2-4) by (simp add: renewal_def grant_round_renewal_def turn_defs Let_def)
qed

section \<open>Examples\<close>

definition quiet_world :: round_world where
  "quiet_world = \<lparr>rw_cancel = False, rw_goal = False, rw_exceeded = None, rw_paused = False, rw_cancel_resumed = False,
     rw_cancel_renewal = False, rw_errored = False, rw_pending = False, rw_exceeded_renewal = None, rw_override = [],
     rw_budget = None, rw_tokens = 10, rw_needs_compaction = False, rw_critical = Compacted, rw_proactive = Compacted,
     rw_overflow = Compacted, rw_stream = Replied ''done'' [] False, rw_fell_over = False, rw_override_after = [],
     rw_live_goal = False, rw_delivered = [], rw_acknowledged = True, rw_salvaged = None, rw_claims_action = False, rw_bad_refs = [],
     rw_future_work = False, rw_reply_cancel = False, rw_amended = False, rw_endings = (\<lambda>_. (Timed_Out, 0)),
     rw_outside = (\<lambda>_ x. x), rw_binds = (\<lambda>_. None), rw_saved = (\<lambda>_. True), rw_after_cancel = False, rw_after_input = False,
     rw_after_workers = False\<rparr>"

definition demo_registry :: tool_registry where
  "demo_registry = new_registry\<lparr>tr_tools := [(''glob'',
     \<lparr>td_schema = None, td_timeout = 300, td_max_timeout = 0, td_parallel_safe = False, td_denied_types = {},
      td_safety = ''safe'', td_long_poll = False, td_idempotent = True, ft_name = ''glob'', ft_description = [],
      ft_category = [], ft_tags = [], ft_params = [], ft_source = ''builtin''\<rparr>)]\<rparr>"

lemma view_demo: "view demo_registry = one_tool"
  by (simp add: view_def demo_registry_def new_registry_def one_tool_def plain_tool_def tool_def.defs fun_eq_iff)

definition demo_env :: turn_env where
  "demo_env = \<lparr>te_json = plain_lib, te_tests = plain_tests, te_casefold = id, te_bold = (\<lambda>_. []), te_rlm = False,
     te_registry = demo_registry, te_sigs = (\<lambda>_. ([], True)), te_auto = True, te_sid = ''s'', te_first_turn_only = True,
     te_kernel = False, te_bind_threshold = 0, te_max_rounds = 5, te_renewals = 1, te_goals = False, te_followups = False,
     te_followup_cap = 0, te_default_model = ''m'', te_fallback_model = [], te_resolve = id, te_model_budget = (\<lambda>_. None),
     te_context_budget = 100, te_critical = 9 / 10\<rparr>"

definition demo_turn :: turn_loop where
  "demo_turn = \<lparr>tl_round = 0, tl_spent = 0, tl_did_tools = False, tl_window_tools = False, tl_granted = 0, tl_continuations = 0,
     tl_action_checked = False, tl_sources_checked = False, tl_followed_up = 0, tl_followup_pending = False, tl_rereads = 0,
     tl_nudges = 0, tl_forced = False, tl_break_round = False, tl_tools_on = False, tl_content = [], tl_calls = [],
     tl_fallback = False, tl_model = ''m'', tl_compaction = new_compaction, tl_active = [], tl_gate = example_gate [],
     tl_exec = exec_with Map.empty, tl_turn = new_turn, tl_reason = None, tl_error = None, tl_rows = [], tl_events = [],
     tl_requests = []\<rparr>"

lemma demo_fresh: "fresh_turn demo_turn"
  by (simp add: fresh_turn_def demo_turn_def)

lemmas demo_defs = quiet_world_def demo_env_def demo_turn_def new_compaction_def example_gate_def new_stuck_def

lemma demo_answer:
  "\<exists>s'. run_agent demo_env (\<lambda>_. quiet_world) [] Overflowed 1 demo_turn = Some s' \<and> tl_reason s' = Some ''complete''
     \<and> tl_spent s' = 0 \<and> tl_requests s' = [(''m'', True)]"
  by (simp add: run_agent_def loop_round_def pre_round_gate_def renewal_def choose_round_model_def resolve_effective_model_def
      check_context_def measure_context_def observe_tokens_def critical_def effective_budget_def compact_early_def send_request_def
      take_outcome_def continue_cut_reply_def salvage_calls_def judge_reply_def turn_defs Let_def demo_defs)

lemma turn_stays_in_budget_witness:
  "\<exists>s'. run_agent demo_env (\<lambda>_. quiet_world) [] Overflowed 1 demo_turn = Some s' \<and> tl_spent s' \<le> 9
     \<and> cc_attempts (tl_compaction s') \<le> 3"
proof -
  obtain s' where r: "run_agent demo_env (\<lambda>_. quiet_world) [] Overflowed 1 demo_turn = Some s'" using demo_answer by blast
  from turn_stays_in_budget [OF demo_fresh r] r show ?thesis by (simp add: demo_env_def)
qed


lemma turn_end_is_classified_witness:
  "\<exists>s' r. run_agent demo_env (\<lambda>_. quiet_world) [] Overflowed 1 demo_turn = Some s' \<and> tl_reason s' = Some r \<and> r \<in> END_REASONS"
proof -
  obtain s' where r: "run_agent demo_env (\<lambda>_. quiet_world) [] Overflowed 1 demo_turn = Some s'" using demo_answer by blast
  from turn_end_is_classified [OF demo_fresh r] r show ?thesis by blast
qed

lemma overflow_rearms_tools_witness:
  "\<exists>t u. and_then (send_request demo_env (quiet_world\<lparr>rw_stream := Overflowed\<rparr>) (set_stuck (sk_force_text_update (\<lambda>_. True)) demo_turn))
       (take_outcome demo_env (quiet_world\<lparr>rw_stream := Overflowed\<rparr>)) = Again t
     \<and> send_request demo_env quiet_world t = Go u \<and> tl_tools_on u"
proof -
  let ?s = "set_stuck (sk_force_text_update (\<lambda>_. True)) demo_turn"
  have h: "sk_force_text (ga_stuck (tl_gate ?s))" "can_help_with_overflow (tl_compaction ?s)" "Suc (tl_round ?s) < te_max_rounds demo_env"
    by (simp_all add: set_stuck_def demo_defs can_help_with_overflow_def exhausted_def ATTEMPT_LIMIT_def)
  have o: "rw_stream (quiet_world\<lparr>rw_stream := Overflowed\<rparr>) = Overflowed" by simp
  from overflow_rearms_tools [OF h(1) o h(2,3), of quiet_world] show ?thesis by blast
qed

lemma round_answers_every_call_witness:
  "\<exists>t tcs new. run_tools demo_env quiet_world (demo_turn\<lparr>tl_calls := [example_call ''7'' ''zap'' []]\<rparr>) = Go t
     \<and> tl_rows t = Said [] tcs # new \<and> count (mset (answered_ids new)) ''7'' = count (mset (map tc_id tcs)) ''7''"
proof -
  let ?s = "demo_turn\<lparr>tl_calls := [example_call ''7'' ''zap'' []]\<rparr>"
  let ?g = "example_gate [example_call ''7'' ''zap'' []]"
  have l: "load_calls [example_call ''7'' ''zap'' []] (example_gate []) = ([0], ?g)"
    by (auto simp: load_calls_def example_gate_def example_call_def fun_eq_iff)
  have "case admit plain_lib id one_tool [] [0] ?g of None \<Rightarrow> False | Some (out, g') \<Rightarrow> out = []" by code_simp
  then obtain g' where a: "admit plain_lib id one_tool [] [0] ?g = Some ([], g')" by (auto split: option.splits)
  have e: "te_json demo_env = plain_lib" "te_casefold demo_env = id" "te_registry demo_env = demo_registry"
      "tl_active ?s = []" "tl_gate ?s = example_gate []" "tl_calls ?s = [example_call ''7'' ''zap'' []]"
    by (simp_all add: demo_env_def demo_turn_def)
  obtain t where t: "run_tools demo_env quiet_world ?s = Go t" "tl_rows t \<noteq> []"
    using a l by (simp add: run_tools_def e view_demo split_def flush_rejections_def turn_defs)
  have "tl_rows t \<noteq> tl_rows ?s" "rw_saved quiet_world = (\<lambda>_. True)" using t(2) by (simp_all add: demo_turn_def quiet_world_def)
  then show ?thesis
    using round_answers_every_call [of demo_env quiet_world ?s t "''7''"] t by (auto simp: demo_turn_def)
qed

end
