(* ===== verification/Context_Compiler.thy ===== *)
theory Context_Compiler
  imports Compaction "HOL-Library.Product_Lexorder"
begin

text \<open>
  \<open>core/context/compiler.py\<close>: one request to the model, assembled from the rows of the session.
  The budget is divided, the compacted and the foreign rows are left out, the others are put in the
  order of their turns, turned into chat messages, trimmed to the history's share and framed by the
  notice of what was trimmed, the briefing of the turn and the volatile tail.  Then the forms that a
  provider asks for.  The token count is \<open>core/context/tokens.py\<close>.

  The texts of the prompt and of the notice, the tokenizer and the reader of a JSON array of content
  blocks are fields of the record \<open>compile_env\<close>.  The memo of the counts is not represented: it
  returns what it was given for the same message.  Sizes in a request are integers, since a budget
  may be smaller than its costs.
\<close>

section \<open>Messages\<close>

text \<open>The blocks of a content list.  A \<open>Media_Block\<close> holds what the data URL is built from; a
  \<open>Cached_Block\<close> is a text with a mark of the provider's cache.\<close>

record media =
  me_path :: string
  me_mime :: string
  me_data :: string

datatype block = Text_Block string | Media_Block media | Cached_Block string

datatype body = Plain string | Parts "block list"

record entry =
  en_role :: string
  en_body :: body
  en_call_id :: string
  en_calls :: "call list"
  en_db_id :: "nat option"
  en_pending :: bool
  en_pinned :: bool
  en_turn_user :: bool

text \<open>A message that the compiler itself writes has no row.\<close>

definition own_entry :: "string \<Rightarrow> string \<Rightarrow> entry" where
  "own_entry r t = \<lparr>en_role = r, en_body = Plain t, en_call_id = [], en_calls = [], en_db_id = None, en_pending = False,
     en_pinned = True, en_turn_user = False\<rparr>"

section \<open>Token counts\<close>

definition CODE_PREFIXES :: "string list" where
  "CODE_PREFIXES = [''{'', ''['', ''def '', ''class '', ''import '', ''from '', ''async '', ''function '', ''const '', ''let '', ''var '',
     ''<'', ''CREATE '', ''SELECT '']"

definition count_heuristic :: "string \<Rightarrow> nat" where
  "count_heuristic t =
     (if t = [] then 0
      else if list_ex (\<lambda>p. starts_with p (take 200 t)) CODE_PREFIXES then length t * 10 div 33
      else length t div 4)"

text \<open>\<open>enc\<close> is the tokenizer of the library, when it could be loaded.\<close>

definition count_text :: "(string \<Rightarrow> nat) option \<Rightarrow> string \<Rightarrow> nat" where
  "count_text enc t = (if t = [] then 0 else case enc of Some f \<Rightarrow> f t | None \<Rightarrow> count_heuristic t)"

fun count_block :: "(string \<Rightarrow> nat) \<Rightarrow> block \<Rightarrow> nat" where
  "count_block cnt (Text_Block t) = cnt t"
| "count_block cnt (Cached_Block t) = cnt t"
| "count_block cnt (Media_Block m) = 85"

definition call_text :: "call \<Rightarrow> string" where
  "call_text c = (if c_arguments c = [] then ''{}'' else c_arguments c)"

definition count_message :: "(string \<Rightarrow> nat) \<Rightarrow> entry \<Rightarrow> nat" where
  "count_message cnt m =
     4 + (case en_body m of Plain t \<Rightarrow> cnt t | Parts bs \<Rightarrow> sum_list (map (count_block cnt) bs))
       + sum_list (map (\<lambda>c. cnt (c_name c) + cnt (call_text c)) (en_calls m))"

definition count_messages :: "(string \<Rightarrow> nat) \<Rightarrow> entry list \<Rightarrow> nat" where
  "count_messages cnt ms = sum_list (map (count_message cnt) ms)"

section \<open>Attachments\<close>

text \<open>The names in the marks \<open>[attached: name ...]\<close> of a text: the first word after the colon, where a
  closing bracket follows somewhere.\<close>

definition ATTACHED :: string where "ATTACHED = ''[attached:''"

definition attached_at :: "string \<Rightarrow> (string \<times> string) option" where
  "attached_at s =
     (if \<not> starts_with ATTACHED s then None
      else let t = py_lstrip (drop (length ATTACHED) s); w = takeWhile (\<lambda>c. \<not> py_space c \<and> c \<noteq> CHR '']'') t in
        if w = [] \<or> CHR '']'' \<notin> set t then None
        else Some (w, drop 1 (dropWhile (\<lambda>c. c \<noteq> CHR '']'') t)))"

lemma attached_at_shorter: "attached_at s = Some (w, r) \<Longrightarrow> length r < length s"
proof -
  assume a: "attached_at s = Some (w, r)"
  let ?t = "py_lstrip (drop (length ATTACHED) s)"
  have r: "r = drop 1 (dropWhile (\<lambda>c. c \<noteq> CHR '']'') ?t)" and p: "starts_with ATTACHED s"
    using a by (auto simp: attached_at_def Let_def split: if_splits)
  have "length r \<le> length ?t" using length_dropWhile_le [of "\<lambda>c. c \<noteq> CHR '']''" ?t] by (simp add: r)
  also have "\<dots> \<le> length (drop (length ATTACHED) s)" 
    unfolding py_lstrip_def by (rule length_dropWhile_le)
  also have "\<dots> < length s" using starts_with_length [OF p] by (simp add: ATTACHED_def)
  finally show ?thesis .
qed

function attached_words :: "string \<Rightarrow> string list" where
  "attached_words s =
     (case s of [] \<Rightarrow> []
      | c # cs \<Rightarrow> (case attached_at s of Some (w, r) \<Rightarrow> w # attached_words r | None \<Rightarrow> attached_words cs))"
  by pat_completeness auto
termination
  by (relation "measure length") (auto dest: attached_at_shorter)

declare attached_words.simps [simp del]

definition extract_attached_filenames :: "string \<Rightarrow> string list" where
  "extract_attached_filenames s = map (\<lambda>w. rev (dropWhile (\<lambda>c. c = CHR '','') (rev w))) (attached_words s)"

text \<open>What the file system says of a name: where a contained, existing file lies, its times and size, its
  bytes.  The extension decides on the kind.\<close>

record attach_world =
  aw_mime :: "string \<Rightarrow> string option"
  aw_source :: "string \<Rightarrow> string option"
  aw_stat :: "string \<Rightarrow> (nat \<times> nat) option"
  aw_read :: "string \<Rightarrow> string option"

definition b64_len :: "string \<Rightarrow> nat" where
  "b64_len d = 4 * ((length d + 2) div 3)"

type_synonym attach_cache = "((string \<times> nat \<times> nat) \<times> media) list"

definition ATTACH_CACHE_MAX :: nat where "ATTACH_CACHE_MAX = 8"

definition projected_size :: "nat \<Rightarrow> nat" where
  "projected_size n = n * 134 div 100"

text \<open>One name: the block it gives, if any, and the cache.\<close>

definition attach_one :: "attach_world \<Rightarrow> nat \<Rightarrow> nat \<Rightarrow> attach_cache \<Rightarrow> string \<Rightarrow> media option \<times> attach_cache" where
  "attach_one w budget spent cache fname =
     (case aw_mime w fname of
        None \<Rightarrow> (None, cache)
      | Some mime \<Rightarrow> (case aw_source w fname of
          None \<Rightarrow> (None, cache)
        | Some src \<Rightarrow> (case aw_stat w src of
            None \<Rightarrow> (None, cache)
          | Some (mtime, size') \<Rightarrow> (case map_of cache (src, mtime, size') of
              Some b \<Rightarrow> (if spent + b64_len (me_data b) > budget then None else Some b, cache)
            | None \<Rightarrow>
                if spent + projected_size size' > budget then (None, cache)
                else (case aw_read w src of
                    None \<Rightarrow> (None, cache)
                  | Some d \<Rightarrow>
                      let b = \<lparr>me_path = src, me_mime = mime, me_data = d\<rparr> in
                      (Some b, dict_set (src, mtime, size') b (if length cache \<ge> ATTACH_CACHE_MAX then [] else cache)))))))"

fun attach_all :: "attach_world \<Rightarrow> nat \<Rightarrow> nat \<Rightarrow> attach_cache \<Rightarrow> string list \<Rightarrow> media list \<times> nat \<times> attach_cache" where
  "attach_all w budget spent cache [] = ([], spent, cache)"
| "attach_all w budget spent cache (f # fs) =
     (let (r, cache') = attach_one w budget spent cache f in
      case r of
        None \<Rightarrow> attach_all w budget spent cache' fs
      | Some b \<Rightarrow> (let (bs, n, c) = attach_all w budget (spent + b64_len (me_data b)) cache' fs in (b # bs, n, c)))"

definition expand_attachments :: "attach_world \<Rightarrow> nat \<Rightarrow> attach_cache \<Rightarrow> string \<Rightarrow> block list \<times> nat \<times> attach_cache" where
  "expand_attachments w budget cache t =
     (let (bs, n, c) = attach_all w budget 0 cache (extract_attached_filenames t) in (Text_Block t # map Media_Block bs, n, c))"

section \<open>Rows of old sessions\<close>

text \<open>A content that older versions stored as a JSON array of blocks.\<close>

datatype legacy_block = Legacy_Text string | Legacy_Media string string | Legacy_Object | Legacy_Value string

fun legacy_part :: "legacy_block \<Rightarrow> string list" where
  "legacy_part (Legacy_Text t) = [t]"
| "legacy_part (Legacy_Media kind name) = [''['' @ kind @ '': '' @ name @ '']'']"
| "legacy_part Legacy_Object = []"
| "legacy_part (Legacy_Value s) = [s]"

definition opens_like_blocks :: "string \<Rightarrow> bool" where
  "opens_like_blocks s = (case py_lstrip s of
       c # r \<Rightarrow> c = CHR ''['' \<and> starts_with ''{'' (py_lstrip r) | [] \<Rightarrow> False)"

definition legacy_multimodal_to_text :: "(string \<Rightarrow> legacy_block list option) \<Rightarrow> string \<Rightarrow> string" where
  "legacy_multimodal_to_text parse s =
     (if opens_like_blocks s
      then (case parse s of Some bs \<Rightarrow> join_with [nl] (concat (map legacy_part bs)) | None \<Rightarrow> s)
      else s)"

section \<open>Which rows a turn sees\<close>

definition row_id :: "msg \<Rightarrow> nat" where
  "row_id m = (case m_id m of Some i \<Rightarrow> i | None \<Rightarrow> 0)"

definition is_injected :: "msg \<Rightarrow> bool" where
  "is_injected m = (case m_meta m of Some d \<Rightarrow> md_injected d | None \<Rightarrow> False)"

definition delivery_pending :: "msg \<Rightarrow> bool" where
  "delivery_pending m \<longleftrightarrow> role m = ''user'' \<and> (case m_meta m of Some d \<Rightarrow> md_pending d | None \<Rightarrow> False)"

text \<open>A notice of the harness belongs to one turn.  An owner that is no number is only read, and found
  unreadable, when there is a turn to compare it with.\<close>

definition is_stale_ephemeral :: "nat option \<Rightarrow> msg \<Rightarrow> bool" where
  "is_stale_ephemeral turn m \<longleftrightarrow> role m = ''system'' \<and>
     (case m_meta m of None \<Rightarrow> False
      | Some d \<Rightarrow> (case md_ephemeral d of
          No_Value \<Rightarrow> False
        | Bad_Value \<Rightarrow> turn = None
        | Int_Value own \<Rightarrow> turn = None \<or> turn \<noteq> Some own))"

text \<open>The summary of the last compaction marker and the row it reaches; a boundary beyond the last row is
  taken for corrupt.\<close>

definition last_marker :: "msg list \<Rightarrow> msg option" where
  "last_marker raw = find (\<lambda>m. role m = ''compaction'') (rev raw)"

definition compacted_up_to :: "msg list \<Rightarrow> nat" where
  "compacted_up_to raw =
     (let b = (case last_marker raw of None \<Rightarrow> 0 | Some m \<Rightarrow> (case up_to m of Some u \<Rightarrow> u | None \<Rightarrow> 0)) in
      if 0 < b \<and> raw \<noteq> [] \<and> Max (set (map row_id raw)) < b then 0 else b)"

definition queued_for_later :: "nat option \<Rightarrow> msg \<Rightarrow> bool" where
  "queued_for_later turn m \<longleftrightarrow>
     (case turn of Some t \<Rightarrow> role m = ''user'' \<and> t < row_id m \<and> \<not> is_injected m | None \<Rightarrow> False)"

definition in_history :: "nat option \<Rightarrow> nat \<Rightarrow> msg \<Rightarrow> bool" where
  "in_history turn reached m \<longleftrightarrow>
     role m \<notin> set MARKER_ROLES
     \<and> (reached < row_id m \<or> delivery_pending m)
     \<and> \<not> queued_for_later turn m
     \<and> \<not> is_stale_ephemeral turn m"

text \<open>The user row a row belongs to.\<close>

definition parent_id :: "msg \<Rightarrow> nat" where
  "parent_id m = (case m_meta m of Some d \<Rightarrow> (case md_parent d of Int_Value p \<Rightarrow> p | _ \<Rightarrow> row_id m) | None \<Rightarrow> row_id m)"

definition history_rows :: "nat option \<Rightarrow> msg list \<Rightarrow> msg list" where
  "history_rows turn raw =
     sort_key (\<lambda>m. (parent_id m, row_id m)) (filter (in_history turn (compacted_up_to raw)) raw)"

section \<open>The settings and the texts of a request\<close>

text \<open>A dropped group, for the notice.  The messages stand for the snapshots that the code takes of them.\<close>

datatype group_kind = User_Drop | Group_Drop | Orphan_Drop | Other_Drop

record dropped =
  dg_kind :: group_kind
  dg_msgs :: "entry list"

text \<open>A line of the notice: the ids, a quote and whether it was cut.\<close>

datatype notice_line =
    User_Line "nat option" string bool
  | Group_Line "nat list" "string list" nat
  | Row_Line string "nat option" string bool

record notice_entry =
  ne_kind :: group_kind
  ne_ids :: "nat list"
  ne_line :: notice_line

record notice =
  nt_total :: nat
  nt_kept :: "notice_line list"
  nt_elided :: nat
  nt_span :: "(nat \<times> nat) option"

record compile_env =
  cx_count :: "string \<Rightarrow> nat"
  cx_static_parts :: "string list"
  cx_scout_report :: string
  cx_goal :: string
  cx_scout_once :: bool
  cx_tail :: string
  cx_tools :: string
  cx_budget :: int
  cx_max_output :: int
  cx_threshold :: rat
  cx_pressure :: rat
  cx_keep_recent :: nat
  cx_min_chars :: nat
  cx_stub :: "msg \<Rightarrow> string"
  cx_media :: bool
  cx_expand :: "string \<Rightarrow> block list"
  cx_parse :: "string \<Rightarrow> legacy_block list option"
  cx_notice_text :: "notice \<Rightarrow> string"
  cx_turn :: "nat option"

section \<open>From rows to messages\<close>

definition view_rows :: "compile_env \<Rightarrow> msg list \<Rightarrow> msg list" where
  "view_rows e h =
     exclude_orphans
       (if of_nat (sum_list (map (length \<circ> content) h)) > of_int (cx_budget e) * 4 * cx_pressure e
        then apply_view_pruning (cx_stub e) (cx_keep_recent e) (cx_min_chars e) h
        else h)"

definition is_media :: "block \<Rightarrow> bool" where
  "is_media b = (case b of Media_Block m \<Rightarrow> True | _ \<Rightarrow> False)"

definition message_body :: "compile_env \<Rightarrow> bool \<Rightarrow> msg \<Rightarrow> body" where
  "message_body e latest m =
     (let t = legacy_multimodal_to_text (cx_parse e) (content m) in
      if latest \<and> role m = ''user'' \<and> cx_media e \<and> list_ex is_media (cx_expand e t) then Parts (cx_expand e t) else Plain t)"

definition turn_root :: "compile_env \<Rightarrow> msg \<Rightarrow> bool" where
  "turn_root e m \<longleftrightarrow> cx_turn e \<noteq> None \<and> m_id m = cx_turn e \<and> role m = ''user''"

definition to_entry :: "compile_env \<Rightarrow> bool \<Rightarrow> msg \<Rightarrow> entry" where
  "to_entry e latest m =
     \<lparr>en_role = role m, en_body = message_body e latest m,
      en_call_id = (if tool_call_id m = ''None'' then [] else tool_call_id m),
      en_calls = (if role m = ''assistant'' then tool_calls m else []),
      en_db_id = m_id m, en_pending = delivery_pending m,
      en_pinned = (delivery_pending m \<or> turn_root e m), en_turn_user = turn_root e m\<rparr>"

text \<open>Only the last user message of the history has its attachments expanded.\<close>

definition to_entries :: "compile_env \<Rightarrow> msg list \<Rightarrow> entry list" where
  "to_entries e h =
     (let last_user = last_index (\<lambda>m. role m = ''user'') h in
      map (\<lambda>(i, m). to_entry e (last_user = Some i) m) (zip [0..<length h] h))"

section \<open>Trimming\<close>

text \<open>The prefixes that mark a row as worth keeping.\<close>

definition is_pinned :: "entry \<Rightarrow> bool" where
  "is_pinned m \<longleftrightarrow> en_role m = ''system'' \<or> en_pinned m
     \<or> (case en_body m of
          Plain t \<Rightarrow> starts_with ''[Context was reset'' t \<or> starts_with ''[User answered'' t
        | Parts bs \<Rightarrow> False)"

definition drop_kind :: "entry \<Rightarrow> group_kind" where
  "drop_kind m = (if en_role m = ''user'' then User_Drop else if en_role m = ''tool'' then Orphan_Drop else Other_Drop)"

definition is_tool_entry :: "entry \<Rightarrow> bool" where
  "is_tool_entry m \<longleftrightarrow> en_role m = ''tool''"

definition over :: "(entry \<Rightarrow> nat) \<Rightarrow> int \<Rightarrow> entry list \<Rightarrow> bool" where
  "over tok budget ms \<longleftrightarrow> budget < int (sum_list (map tok ms))"

text \<open>Phase B.  \<open>kept\<close> are the messages before the index of the loop.\<close>

function drop_groups :: "(entry \<Rightarrow> nat) \<Rightarrow> int \<Rightarrow> entry list \<Rightarrow> entry list \<Rightarrow> entry list \<times> dropped list" where
  "drop_groups tok budget kept [] = (kept, [])"
| "drop_groups tok budget kept (m # ms) =
     (if \<not> over tok budget (kept @ m # ms) then (kept @ m # ms, [])
      else if is_pinned m then drop_groups tok budget (kept @ [m]) ms
      else if en_role m = ''assistant'' \<and> en_calls m \<noteq> [] then
        (let (r, gs) = drop_groups tok budget kept (dropWhile is_tool_entry ms) in
         (r, \<lparr>dg_kind = Group_Drop, dg_msgs = m # takeWhile is_tool_entry ms\<rparr> # gs))
      else
        (let (r, gs) = drop_groups tok budget kept ms in (r, \<lparr>dg_kind = drop_kind m, dg_msgs = [m]\<rparr> # gs)))"
  by pat_completeness auto
termination
  by (relation "measure (\<lambda>(_, _, _, ms). length ms)") (auto simp: le_imp_less_Suc length_dropWhile_le)

text \<open>Phase C, the last resort: only the hard pins count.\<close>

fun drop_soft :: "(entry \<Rightarrow> nat) \<Rightarrow> int \<Rightarrow> entry list \<Rightarrow> entry list \<Rightarrow> entry list \<times> dropped list" where
  "drop_soft tok budget kept [] = (kept, [])"
| "drop_soft tok budget kept (m # ms) =
     (if \<not> over tok budget (kept @ m # ms) then (kept @ m # ms, [])
      else if en_role m = ''system'' \<or> en_pinned m then drop_soft tok budget (kept @ [m]) ms
      else (let (r, gs) = drop_soft tok budget kept ms in (r, \<lparr>dg_kind = drop_kind m, dg_msgs = [m]\<rparr> # gs)))"

text \<open>Everything behind the head of the list; the head is the system prompt.\<close>

definition trim_history :: "(entry \<Rightarrow> nat) \<Rightarrow> int \<Rightarrow> entry list \<Rightarrow> entry list \<times> nat \<times> dropped list" where
  "trim_history tok budget ms =
     (let (r1, g1) = drop_groups tok budget [] (tl ms); (r2, g2) = drop_soft tok budget [] r1 in
      (hd ms # r2, sum_list (map (length \<circ> dg_msgs) (g1 @ g2)), g1 @ g2))"

section \<open>The notice of what was trimmed\<close>

definition NOTICE_MAX_ENTRIES :: nat where "NOTICE_MAX_ENTRIES = 40"
definition ASSISTANT_PREVIEW_CHARS :: nat where "ASSISTANT_PREVIEW_CHARS = 500"
definition OTHER_PREVIEW_CHARS :: nat where "OTHER_PREVIEW_CHARS = 80"

definition body_text :: "body \<Rightarrow> string" where
  "body_text b = (case b of
       Plain t \<Rightarrow> t
     | Parts bs \<Rightarrow> join_with '' '' (concat (map (\<lambda>b. case b of Text_Block t \<Rightarrow> [t] | Cached_Block t \<Rightarrow> [t] | Media_Block m \<Rightarrow> []) bs)))"

definition one_line :: "string \<Rightarrow> string" where
  "one_line t = map (\<lambda>c. if c = nl then CHR '' '' else c) t"

definition entry_ids :: "entry list \<Rightarrow> nat list" where
  "entry_ids ms = concat (map (\<lambda>m. case en_db_id m of Some i \<Rightarrow> [i] | None \<Rightarrow> []) ms)"

definition row_line :: "entry \<Rightarrow> notice_line" where
  "row_line m =
     (let t = body_text (en_body m); preview = py_strip (one_line (take 500 t));
          q = take (if en_role m = ''assistant'' then ASSISTANT_PREVIEW_CHARS else OTHER_PREVIEW_CHARS) preview in
      Row_Line (en_role m) (en_db_id m) q (length q < length t))"

definition notice_entries_of :: "dropped \<Rightarrow> notice_entry list" where
  "notice_entries_of g =
     (case dg_msgs g of
        [] \<Rightarrow> []
      | m # ms \<Rightarrow>
          let ids = entry_ids (m # ms) in
          (case dg_kind g of
             User_Drop \<Rightarrow>
               (let t = body_text (en_body m) in
                [\<lparr>ne_kind = User_Drop, ne_ids = ids, ne_line = User_Line (en_db_id m) (one_line (take 500 t)) (500 < length t)\<rparr>])
           | Group_Drop \<Rightarrow>
               [\<lparr>ne_kind = Group_Drop, ne_ids = ids,
                 ne_line = Group_Line ids (filter (\<lambda>n. n \<noteq> []) (map c_name (en_calls m)))
                   (sum_list (map (length \<circ> body_text \<circ> en_body) (m # ms)))\<rparr>]
           | k \<Rightarrow> map (\<lambda>x. \<lparr>ne_kind = k, ne_ids = entry_ids [x], ne_line = row_line x\<rparr>) (m # ms)))"

definition kept_positions :: "notice_entry list \<Rightarrow> nat list" where
  "kept_positions es =
     (let users = filter (\<lambda>i. ne_kind (es ! i) = User_Drop) [0..<length es];
          others = filter (\<lambda>i. ne_kind (es ! i) \<noteq> User_Drop) [0..<length es];
          room = max (NOTICE_MAX_ENTRIES - length users) 4 in
      take NOTICE_MAX_ENTRIES users @ last_chars room others)"

definition bound_notice_entries :: "notice_entry list \<Rightarrow> notice_entry list \<times> notice_entry list" where
  "bound_notice_entries es =
     (if length es \<le> NOTICE_MAX_ENTRIES then (es, [])
      else let keep = kept_positions es in
        (map (\<lambda>i. es ! i) (filter (\<lambda>i. i \<in> set keep) [0..<length es]),
         map (\<lambda>i. es ! i) (filter (\<lambda>i. i \<notin> set keep) [0..<length es])))"

definition trim_notice :: "dropped list \<Rightarrow> notice" where
  "trim_notice gs =
     (let (kept, elided) = bound_notice_entries (concat (map notice_entries_of gs)); ids = concat (map ne_ids elided) in
      \<lparr>nt_total = sum_list (map (length \<circ> dg_msgs) gs), nt_kept = map ne_line kept, nt_elided = length elided,
       nt_span = (if ids = [] then None else Some (Min (set ids), Max (set ids)))\<rparr>)"

section \<open>The budget\<close>

definition HISTORY_BUDGET_FLOOR :: int where "HISTORY_BUDGET_FLOOR = 4000"
definition MIN_OUTPUT_TOKENS :: int where "MIN_OUTPUT_TOKENS = 1024"
definition SAFETY_MARGIN :: int where "SAFETY_MARGIN = 2000"

text \<open>The share of the history and what remains for the output; nothing when not even the floors fit.\<close>

definition history_share :: "int \<Rightarrow> int \<Rightarrow> int \<Rightarrow> (int \<times> int) option" where
  "history_share budget max_output fixed =
     (let h = budget - max_output - fixed in
      if h < HISTORY_BUDGET_FLOOR then
        (let out = budget - fixed - HISTORY_BUDGET_FLOOR in
         if out < MIN_OUTPUT_TOKENS then None else Some (HISTORY_BUDGET_FLOOR, out))
      else Some (h, max_output))"

section \<open>The request\<close>

definition paragraphs :: "string list \<Rightarrow> string" where
  "paragraphs ps = join_with [nl, nl] ps"

definition present :: "string list \<Rightarrow> string list" where
  "present ps = filter (\<lambda>p. p \<noteq> []) ps"

definition turn_briefing :: "compile_env \<Rightarrow> string" where
  "turn_briefing e = (if cx_scout_once e then paragraphs (present [cx_scout_report e, cx_goal e]) else [])"

definition system_prompt :: "compile_env \<Rightarrow> string" where
  "system_prompt e =
     paragraphs (cx_static_parts e @ (if cx_scout_once e then [] else present [cx_scout_report e, cx_goal e]))"

definition static_prefix_chars :: "compile_env \<Rightarrow> nat" where
  "static_prefix_chars e = length (paragraphs (cx_static_parts e))"

definition system_tokens :: "compile_env \<Rightarrow> nat" where
  "system_tokens e = cx_count e (system_prompt e) + cx_count e (cx_tail e)
     + (if turn_briefing e = [] then 0 else cx_count e (turn_briefing e))"

definition tool_tokens :: "compile_env \<Rightarrow> nat" where
  "tool_tokens e = (if cx_tools e = [] then 0 else cx_count e (cx_tools e))"

definition fixed_cost :: "compile_env \<Rightarrow> int" where
  "fixed_cost e = int (system_tokens e) + int (tool_tokens e) + SAFETY_MARGIN"

definition SUMMARY_HEAD :: string where "SUMMARY_HEAD = ''[Previous conversation summary]'' @ [nl]"
definition BRIEFING_HEAD :: string where "BRIEFING_HEAD = ''[TURN BRIEFING, from the harness]'' @ [nl]"

definition summary_entries :: "msg list \<Rightarrow> entry list" where
  "summary_entries raw = (case last_marker raw of
       Some m \<Rightarrow> if content m = [] then [] else [own_entry ''system'' (SUMMARY_HEAD @ content m)]
     | None \<Rightarrow> [])"

definition insert_at :: "nat \<Rightarrow> 'a \<Rightarrow> 'a list \<Rightarrow> 'a list" where
  "insert_at i x xs = take i xs @ x # drop i xs"

text \<open>The list before it is trimmed: the system prompt, the summary, the history.\<close>

definition full_request :: "compile_env \<Rightarrow> msg list \<Rightarrow> entry list" where
  "full_request e raw =
     own_entry ''system'' (system_prompt e) # summary_entries raw @ to_entries e (view_rows e (history_rows (cx_turn e) raw))"

definition fit_history :: "compile_env \<Rightarrow> int \<Rightarrow> entry list \<Rightarrow> entry list \<times> nat \<times> dropped list" where
  "fit_history e share ms =
     (if share < int (count_messages (cx_count e) (tl ms)) then trim_history (count_message (cx_count e)) share ms
      else (ms, 0, []))"

definition place_notice :: "compile_env \<Rightarrow> bool \<Rightarrow> dropped list \<Rightarrow> entry list \<Rightarrow> entry list \<times> nat" where
  "place_notice e marked gs ms =
     (let t = (if gs = [] then [] else cx_notice_text e (trim_notice gs)); n = own_entry ''system'' t in
      if t = [] then (ms, 0)
      else (insert_at (if marked \<and> 2 \<le> length ms then 2 else 1) n ms, count_message (cx_count e) n))"

definition place_briefing :: "compile_env \<Rightarrow> entry list \<Rightarrow> entry list" where
  "place_briefing e ms =
     (if turn_briefing e = [] then ms
      else insert_at (case first_index_from 0 en_turn_user ms of Some i \<Rightarrow> i + 1 | None \<Rightarrow> length ms)
             (own_entry ''user'' (BRIEFING_HEAD @ turn_briefing e)) ms)"

definition strip_private :: "entry \<Rightarrow> entry" where
  "strip_private m = m\<lparr>en_db_id := None, en_pending := False, en_pinned := False, en_turn_user := False\<rparr>"

record payload =
  pl_messages :: "entry list"
  pl_token_count :: nat
  pl_history_budget :: int
  pl_needs_compaction :: bool
  pl_has_summary :: bool
  pl_history_tokens :: nat
  pl_included :: nat
  pl_trimmed :: nat
  pl_static_prefix :: nat
  pl_max_output :: int
  pl_delivered :: "nat list"

text \<open>The messages of the request, with their private fields.\<close>

definition framed :: "compile_env \<Rightarrow> msg list \<Rightarrow> int \<Rightarrow> entry list \<times> nat \<times> nat" where
  "framed e raw share =
     (let (ms, n, gs) = fit_history e share (full_request e raw);
          tokens = count_messages (cx_count e) (tl ms);
          (ms', extra) = place_notice e (last_marker raw \<noteq> None) gs ms in
      (place_briefing e ms' @ [own_entry ''system'' (cx_tail e)], n, tokens + extra))"

definition compile_context :: "compile_env \<Rightarrow> msg list \<Rightarrow> payload option" where
  "compile_context e raw =
     (case history_share (cx_budget e) (cx_max_output e) (fixed_cost e) of
        None \<Rightarrow> None
      | Some (share, out) \<Rightarrow>
          let (ms, trimmed, tokens) = framed e raw share in
          Some \<lparr>pl_messages = map strip_private ms,
                pl_token_count = system_tokens e + tokens + tool_tokens e,
                pl_history_budget = share,
                pl_needs_compaction = (int tokens > \<lfloor>of_int share * cx_threshold e\<rfloor>),
                pl_has_summary = (last_marker raw \<noteq> None),
                pl_history_tokens = tokens,
                pl_included = length ms - 1,
                pl_trimmed = trimmed,
                pl_static_prefix = static_prefix_chars e,
                pl_max_output = out,
                pl_delivered = entry_ids (filter en_pending ms)\<rparr>)"

section \<open>What a provider asks for\<close>

definition OPENAI_ROLES :: "string list" where
  "OPENAI_ROLES = [''system'', ''user'', ''assistant'', ''tool'']"

text \<open>A call without an id is named by its position.\<close>

definition fix_calls :: "call list \<Rightarrow> call list" where
  "fix_calls cs = map (\<lambda>(i, c). c\<lparr>c_id := (if c_id c = [] then ''call_'' @ dec i @ ''_'' @ dec i else c_id c), c_arguments := call_text c\<rparr>)
     (zip [0..<length cs] cs)"

fun normalize_from :: "bool \<Rightarrow> string set \<Rightarrow> entry list \<Rightarrow> entry list" where
  "normalize_from seen ids [] = []"
| "normalize_from seen ids (m # ms) =
     (if en_role m \<notin> set OPENAI_ROLES then normalize_from seen ids ms
      else if en_role m = ''system'' then
        (if seen then m\<lparr>en_role := ''user''\<rparr> else m) # normalize_from True ids ms
      else if en_role m = ''assistant'' then
        (let m' = m\<lparr>en_calls := fix_calls (en_calls m)\<rparr> in
         m' # normalize_from seen (ids \<union> c_id ` set (en_calls m')) ms)
      else if en_role m = ''tool'' \<and> en_call_id m \<noteq> [] \<and> en_call_id m \<notin> ids then normalize_from seen ids ms
      else m # normalize_from seen ids ms)"

definition normalize_for_openrouter :: "entry list \<Rightarrow> entry list" where
  "normalize_for_openrouter ms = normalize_from False {} ms"

definition is_cached :: "block \<Rightarrow> bool" where
  "is_cached b = (case b of Cached_Block t \<Rightarrow> True | _ \<Rightarrow> False)"

definition flat_text :: "block list \<Rightarrow> string" where
  "flat_text bs = concat (map (\<lambda>b. case b of Text_Block t \<Rightarrow> t | Cached_Block t \<Rightarrow> t | Media_Block m \<Rightarrow> []) bs)"

definition split_head :: "string \<Rightarrow> nat \<Rightarrow> block list" where
  "split_head t n = Cached_Block (take n t) # (if py_strip (drop n t) = [] then [] else [Cached_Block (drop n t)])"

definition attach_cache_breakpoints :: "bool \<Rightarrow> string \<Rightarrow> string \<Rightarrow> nat \<Rightarrow> entry list \<Rightarrow> entry list" where
  "attach_cache_breakpoints enabled model provider n ms =
     (case ms of [] \<Rightarrow> []
      | h # rest \<Rightarrow>
          let eligible = (enabled \<and> provider = ''openrouter'' \<and> starts_with ''anthropic/'' model \<and> en_role h = ''system'') in
          (case en_body h of
             Parts bs \<Rightarrow> if list_ex is_cached bs \<and> \<not> eligible then h\<lparr>en_body := Plain (flat_text bs)\<rparr> # rest else ms
           | Plain t \<Rightarrow> if \<not> eligible \<or> n = 0 \<or> length t < n then ms else h\<lparr>en_body := Parts (split_head t n)\<rparr> # rest))"

end
