(* ===== verification/Context_Compiler_Proofs.thy ===== *)
theory Context_Compiler_Proofs
  imports Context_Compiler Compaction_Proofs "HOL-Library.Multiset" "HOL-Library.Sublist"
begin

text \<open>
  What a compiled request guarantees: it fits the window or nothing more can go, the request of the
  user and the pending corrections are in it, the rows reported as delivered are those in it, and
  trimming takes a call and its results together; and where it does not.
\<close>

section \<open>Trimming\<close>

definition hard :: "entry \<Rightarrow> bool" where
  "hard m \<longleftrightarrow> en_role m = ''system'' \<or> en_pinned m"

lemma hard_pinned: "hard m \<Longrightarrow> is_pinned m"
  by (auto simp: hard_def is_pinned_def)

lemma tool_span: "takeWhile p xs @ dropWhile p xs = xs" by simp

lemma drop_groups_hard:
  "\<forall>m \<in> set ms. is_tool_entry m \<longrightarrow> \<not> hard m \<Longrightarrow>
   filter hard (fst (drop_groups tok b kept ms)) = filter hard (kept @ ms)"
proof (induction tok b kept ms rule: drop_groups.induct)
  case (2 tok b kept m ms)
  have f: "filter hard ms = filter hard (dropWhile is_tool_entry ms)"
  proof -
    have "filter hard (takeWhile is_tool_entry ms) = []"
      using "2.prems" by (auto simp: filter_empty_conv dest: set_takeWhileD)
    then show ?thesis by (metis append_Nil filter_append tool_span)
  qed
  have d: "\<forall>x \<in> set (dropWhile is_tool_entry ms). is_tool_entry x \<longrightarrow> \<not> hard x"
    using "2.prems" by (auto dest: set_dropWhileD)
  show ?case
    using 2 d f hard_pinned [of m] by (auto simp: Let_def split_beta)
qed simp

lemma drop_soft_hard: "filter hard (fst (drop_soft tok b kept ms)) = filter hard (kept @ ms)"
  by (induction tok b kept ms rule: drop_soft.induct) (auto simp: Let_def split_beta hard_def)

lemma drop_groups_over:
  "over tok b (fst (drop_groups tok b kept ms)) \<Longrightarrow> list_all is_pinned kept \<Longrightarrow>
   list_all is_pinned (fst (drop_groups tok b kept ms))"
  by (induction tok b kept ms rule: drop_groups.induct) (auto simp: Let_def split_beta split: if_splits)

lemma drop_soft_over:
  "over tok b (fst (drop_soft tok b kept ms)) \<Longrightarrow> list_all hard kept \<Longrightarrow>
   list_all hard (fst (drop_soft tok b kept ms))"
  by (induction tok b kept ms rule: drop_soft.induct) (auto simp: Let_def split_beta hard_def split: if_splits)

definition lost :: "dropped list \<Rightarrow> entry list" where
  "lost gs = concat (map dg_msgs gs)"

lemma drop_groups_mset:
  "mset (fst (drop_groups tok b kept ms)) + mset (lost (snd (drop_groups tok b kept ms))) = mset (kept @ ms)"
proof (induction tok b kept ms rule: drop_groups.induct)
  case (2 tok b kept m ms)
  have "mset ms = mset (takeWhile is_tool_entry ms) + mset (dropWhile is_tool_entry ms)"
    by (metis mset_append tool_span)
  with 2 show ?case by (auto simp: Let_def split_beta lost_def)
qed (simp add: lost_def)

lemma drop_soft_mset:
  "mset (fst (drop_soft tok b kept ms)) + mset (lost (snd (drop_soft tok b kept ms))) = mset (kept @ ms)"
  by (induction tok b kept ms rule: drop_soft.induct) (auto simp: Let_def split_beta lost_def)

lemma subseq_mid: "subseq r (k @ b) \<Longrightarrow> subseq r (k @ a @ b)"
  by (meson subseq_order.dual_order.trans list_emb_append_mono subseq_order.order_refl list_emb_append2)

lemma drop_groups_subseq: "subseq (fst (drop_groups tok b kept ms)) (kept @ ms)"
proof (induction tok b kept ms rule: drop_groups.induct)
  case (2 tok b kept m ms)
  have a: "subseq r (kept @ dropWhile is_tool_entry ms) \<Longrightarrow> subseq r (kept @ m # ms)" for r
    using subseq_mid [of r kept "dropWhile is_tool_entry ms" "m # takeWhile is_tool_entry ms"] by simp
  have c: "subseq r (kept @ ms) \<Longrightarrow> subseq r (kept @ m # ms)" for r
    using subseq_mid [of r kept ms "[m]"] by simp
  show ?case using 2 a c by (auto simp: Let_def split_beta)
qed simp

lemma drop_soft_subseq: "subseq (fst (drop_soft tok b kept ms)) (kept @ ms)"
proof (induction tok b kept ms rule: drop_soft.induct)
  case (2 tok b kept m ms)
  have c: "subseq r (kept @ ms) \<Longrightarrow> subseq r (kept @ m # ms)" for r
    using subseq_mid [of r kept ms "[m]"] by simp
  show ?case using 2 c by (auto simp: Let_def split_beta)
qed simp

lemma length_lost: "sum_list (map (length \<circ> dg_msgs) gs) = length (lost gs)"
  by (induction gs) (simp_all add: lost_def)

lemma trim_parts:
  assumes "trim_history tok b (h # ms) = (r, n, gs)"
  obtains r1 g1 r2 g2 where "drop_groups tok b [] ms = (r1, g1)" "drop_soft tok b [] r1 = (r2, g2)"
    "r = h # r2" "gs = g1 @ g2" "n = length (lost gs)"
  using assms by (auto simp: trim_history_def length_lost Let_def split: prod.splits simp del: map_append sum_list_append)

text \<open>Trimming loses no more than it must and says what. What is left of the history are messages of it in
  their order, and with those it names as dropped they are all of the history; the count is theirs.
  Every message of the harness and every pin is left, and what is left fits the budget unless nothing
  else is left.\<close>

lemma trimming_keeps:
  assumes "trim_history tok b (h # ms) = (r, n, gs)" "\<forall>m \<in> set ms. is_tool_entry m \<longrightarrow> \<not> hard m"
  shows "\<exists>r2. r = h # r2 \<and> subseq r2 ms \<and> mset r2 + mset (lost gs) = mset ms \<and> n = length (lost gs)
    \<and> filter hard r2 = filter hard ms \<and> (over tok b r2 \<longrightarrow> list_all hard r2)"
proof -
  from assms(1) obtain r1 g1 r2 g2 where p: "drop_groups tok b [] ms = (r1, g1)" "drop_soft tok b [] r1 = (r2, g2)"
    "r = h # r2" "gs = g1 @ g2" "n = length (lost gs)" by (rule trim_parts)
  have s: "subseq r2 r1" "subseq r1 ms" and m: "mset r2 + mset (lost g2) = mset r1" "mset r1 + mset (lost g1) = mset ms"
    and f: "filter hard r2 = filter hard r1" "filter hard r1 = filter hard ms" "over tok b r2 \<longrightarrow> list_all hard r2"
    using drop_soft_subseq [of tok b "[]" r1] drop_groups_subseq [of tok b "[]" ms] drop_soft_mset [of tok b "[]" r1]
      drop_groups_mset [of tok b "[]" ms] drop_soft_hard [of tok b "[]" r1] drop_groups_hard [OF assms(2), of tok b "[]"]
      drop_soft_over [of tok b "[]" r1] p(1,2) by simp_all
  have "mset r2 + mset (lost gs) = mset ms" using m p(4) by (simp add: lost_def add.commute add.left_commute flip: m(2))
  then show ?thesis using s f p(3,5) by (intro exI [of _ r2]) (auto intro: subseq_order.order_trans)
qed

section \<open>From the rows to the request\<close>

lemma pruned_rows:
  "list_all2 (\<lambda>m m'. role m' = role m \<and> m_id m' = m_id m \<and> m_meta m' = m_meta m \<and> (role m \<noteq> ''tool'' \<longrightarrow> m' = m)) h
     (apply_view_pruning stub k c h)"
proof (cases "length h \<le> k")
  case True
  then show ?thesis by (simp add: apply_view_pruning_def list.rel_refl)
next
  case False
  then show ?thesis
    by (auto simp: apply_view_pruning_def list_all2_conv_all_nth prune_row_def)
qed

lemma pruned_others: "filter (\<lambda>m. \<not> is_tool m) (apply_view_pruning stub k c h) = filter (\<lambda>m. \<not> is_tool m) h"
proof -
  have "list_all2 (\<lambda>m m'. role m' = role m \<and> m_id m' = m_id m \<and> m_meta m' = m_meta m \<and> (role m \<noteq> ''tool'' \<longrightarrow> m' = m)) h g \<Longrightarrow>
    filter (\<lambda>m. \<not> is_tool m) g = filter (\<lambda>m. \<not> is_tool m) h" for g
    by (induction rule: list_all2_induct) (auto simp: is_tool_def)
  then show ?thesis using pruned_rows by blast
qed

lemma orphan_view_others: "filter (\<lambda>m. \<not> is_tool m) (exclude_orphans h) = filter (\<lambda>m. \<not> is_tool m) h"
proof -
  have "filter (\<lambda>m. \<not> is_tool m) (filter (\<lambda>m. \<not> orphan A m) h) = filter (\<lambda>m. \<not> is_tool m) h" for A
    by (auto simp: orphan_def is_tool_def intro: filter_cong)
  then show ?thesis by (simp add: exclude_orphans_def repair_unanswered_tool_calls_def repair_other_rows)
qed

text \<open>The views touch nothing but the results of tools.\<close>

lemma view_others: "filter (\<lambda>m. \<not> is_tool m) (view_rows e h) = filter (\<lambda>m. \<not> is_tool m) h"
  by (simp add: view_rows_def orphan_view_others pruned_others)

lemma user_not_tool: "role m = ''user'' \<Longrightarrow> \<not> is_tool m"
  by (simp add: is_tool_def)

lemma view_filter:
  assumes "\<And>m. P m \<Longrightarrow> \<not> is_tool m"
  shows "filter P (view_rows e h) = filter P h"
proof -
  have "filter P g = filter P (filter (\<lambda>m. \<not> is_tool m) g)" for g using assms by (auto intro: filter_cong)
  then show ?thesis by (metis view_others)
qed

lemma to_entry_fields [simp]:
  "en_role (to_entry e l m) = role m" "en_db_id (to_entry e l m) = m_id m" "en_pending (to_entry e l m) = delivery_pending m"
  "en_turn_user (to_entry e l m) = turn_root e m" "en_pinned (to_entry e l m) = (delivery_pending m \<or> turn_root e m)"
  by (simp_all add: to_entry_def)

lemma to_entries_filter:
  assumes "\<And>l m. P (to_entry e l m) = Q m"
  shows "\<exists>ls. length ls = length (filter Q h) \<and> filter P (to_entries e h) = map (\<lambda>(l, m). to_entry e l m) (zip ls (filter Q h))"
proof -
  have "\<exists>ls. length ls = length (filter Q g) \<and> filter P (map (\<lambda>(i, m). to_entry e (last_index (\<lambda>m. role m = ''user'') h = Some i) m) (zip is g))
     = map (\<lambda>(l, m). to_entry e l m) (zip ls (filter Q g))" if "length is = length g" for "is" :: "nat list" and g
    using that
  proof (induction "is" g rule: list_induct2)
    case (Cons i "is" m g)
    then obtain ls where "length ls = length (filter Q g)" "filter P (map (\<lambda>(i, m). to_entry e (last_index (\<lambda>m. role m = ''user'') h = Some i) m) (zip is g))
      = map (\<lambda>(l, m). to_entry e l m) (zip ls (filter Q g))" by blast
    then show ?case
      by (intro exI [of _ "if Q m then (last_index (\<lambda>m. role m = ''user'') h = Some i) # ls else ls"]) (simp add: assms)
  qed simp
  then show ?thesis unfolding to_entries_def Let_def by simp
qed

lemma own_fields [simp]:
  "en_role (own_entry r t) = r" "en_body (own_entry r t) = Plain t" "en_pending (own_entry r t) = False"
  "en_pinned (own_entry r t)" "en_db_id (own_entry r t) = None" "en_turn_user (own_entry r t) = False"
  "en_calls (own_entry r t) = []" "en_call_id (own_entry r t) = []"
  by (simp_all add: own_entry_def)

lemma summary_not_tool: "m \<in> set (summary_entries raw) \<Longrightarrow> en_role m = ''system'' \<and> \<not> en_pending m \<and> \<not> en_turn_user m"
  by (auto simp: summary_entries_def split: option.splits if_splits)

lemma request_tools_soft: "\<forall>m \<in> set (tl (full_request e raw)). is_tool_entry m \<longrightarrow> \<not> hard m"
  by (auto simp: full_request_def to_entries_def is_tool_entry_def hard_def delivery_pending_def turn_root_def
      dest: summary_not_tool set_zip_rightD)

lemma full_request_Cons: "full_request e raw = own_entry ''system'' (system_prompt e) # tl (full_request e raw)"
  by (simp add: full_request_def)

text \<open>Fitting the history changes nothing about the hard pins.\<close>

lemma fit_history_keeps:
  assumes "fit_history e share (full_request e raw) = (ms, n, gs)"
  shows "hd ms = own_entry ''system'' (system_prompt e) \<and> ms \<noteq> [] \<and> filter hard (tl ms) = filter hard (tl (full_request e raw))
    \<and> subseq (tl ms) (tl (full_request e raw))
    \<and> (share < int (count_messages (cx_count e) (tl ms)) \<longrightarrow> list_all hard (tl ms))"
proof (cases "share < int (count_messages (cx_count e) (tl (full_request e raw)))")
  case True
  then have "trim_history (count_message (cx_count e)) share (full_request e raw) = (ms, n, gs)"
    using assms by (simp add: fit_history_def)
  then have t: "trim_history (count_message (cx_count e)) share
      (own_entry ''system'' (system_prompt e) # tl (full_request e raw)) = (ms, n, gs)"
    using full_request_Cons [of e raw] by metis
  obtain r2 where "ms = own_entry ''system'' (system_prompt e) # r2" "subseq r2 (tl (full_request e raw))"
    "filter hard r2 = filter hard (tl (full_request e raw))" "over (count_message (cx_count e)) share r2 \<longrightarrow> list_all hard r2"
    using trimming_keeps [OF t request_tools_soft] by blast
  then show ?thesis by (simp add: over_def count_messages_def)
next
  case False
  then show ?thesis using assms by (auto simp: fit_history_def full_request_def)
qed

text \<open>What marks hard pins survives fitting; what the compiler writes itself is marked by nothing.\<close>

lemma fit_history_filter:
  assumes "fit_history e share (full_request e raw) = (ms, n, gs)" "\<forall>x \<in> set (tl (full_request e raw)). P x \<longrightarrow> hard x"
  shows "filter P (tl ms) = filter P (tl (full_request e raw))"
proof -
  note k = fit_history_keeps [OF assms(1)]
  have r: "filter P xs = filter P (filter hard xs)" if "\<forall>x \<in> set xs. P x \<longrightarrow> hard x" for xs
    using that by (induction xs) auto
  have "set (tl ms) \<subseteq> set (tl (full_request e raw))" using k by (auto elim: list_emb_set)
  then have "\<forall>x \<in> set (tl ms). P x \<longrightarrow> hard x" using assms(2) by blast
  then show ?thesis using r [of "tl ms"] r [OF assms(2)] k by simp
qed

lemma insert_at_filter: "\<not> P x \<Longrightarrow> filter P (insert_at i x xs) = filter P xs"
  unfolding insert_at_def by (metis append_take_drop_id filter.simps(2) filter_append)

lemma insert_at_set [simp]: "set (insert_at i x xs) = insert x (set xs)"
proof -
  have "set xs = set (take i xs) \<union> set (drop i xs)" by (metis append_take_drop_id set_append)
  then show ?thesis by (auto simp: insert_at_def)
qed

lemma hd_insert_at: "xs \<noteq> [] \<Longrightarrow> 0 < i \<Longrightarrow> hd (insert_at i x xs) = hd xs \<and> insert_at i x xs \<noteq> []"
  by (cases xs; cases i) (auto simp: insert_at_def)

lemma place_notice_filter:
  "\<not> P (own_entry ''system'' (cx_notice_text e (trim_notice gs))) \<Longrightarrow> filter P (fst (place_notice e b gs ms)) = filter P ms"
  by (simp add: place_notice_def Let_def insert_at_filter)

lemma place_notice_hd: "ms \<noteq> [] \<Longrightarrow> hd (fst (place_notice e b gs ms)) = hd ms \<and> fst (place_notice e b gs ms) \<noteq> []"
  by (simp add: place_notice_def Let_def hd_insert_at)

lemma framed_parts:
  assumes "framed e raw share = (ms, n, tokens)"
  obtains ms1 gs ms2 extra where "fit_history e share (full_request e raw) = (ms1, n, gs)"
    "place_notice e (last_marker raw \<noteq> None) gs ms1 = (ms2, extra)"
    "ms = place_briefing e ms2 @ [own_entry ''system'' (cx_tail e)]"
    "tokens = count_messages (cx_count e) (tl ms1) + extra"
  using assms by (auto simp: framed_def Let_def split: prod.splits)

lemma compile_parts:
  assumes "compile_context e raw = Some p"
  obtains share out ms trimmed tokens where
    "history_share (cx_budget e) (cx_max_output e) (fixed_cost e) = Some (share, out)"
    "framed e raw share = (ms, trimmed, tokens)" "pl_messages p = map strip_private ms"
    "pl_token_count p = system_tokens e + tokens + tool_tokens e" "pl_history_tokens p = tokens"
    "pl_history_budget p = share" "pl_max_output p = out" "pl_delivered p = entry_ids (filter en_pending ms)"
  using assms by (auto simp: compile_context_def Let_def split: option.splits prod.splits)

lemma framed_filter:
  assumes "framed e raw share = (ms, n, tokens)" "\<And>r t. \<not> P (own_entry r t)"
    "\<forall>x \<in> set (tl (full_request e raw)). P x \<longrightarrow> hard x"
  shows "filter P ms = filter P (tl (full_request e raw))"
proof -
  from assms(1) obtain ms1 gs ms2 extra where f: "fit_history e share (full_request e raw) = (ms1, n, gs)"
    "place_notice e (last_marker raw \<noteq> None) gs ms1 = (ms2, extra)"
    "ms = place_briefing e ms2 @ [own_entry ''system'' (cx_tail e)]" by (rule framed_parts)
  have "filter P ms = filter P ms2" by (simp add: f(3) assms(2) place_briefing_def insert_at_filter)
  also have "\<dots> = filter P ms1"
    using place_notice_filter [of P e gs "last_marker raw \<noteq> None" ms1] f(2) assms(2) by simp
  also have "\<dots> = filter P (tl ms1)" using fit_history_keeps [OF f(1)] assms(2) by (cases ms1) auto
  finally show ?thesis using fit_history_filter [OF f(1) assms(3)] by simp
qed

lemma history_filter:
  assumes "\<And>m. Q m \<Longrightarrow> \<not> is_tool m" "\<And>l m. P (to_entry e l m) = Q m" "\<And>r t. \<not> P (own_entry r t)"
  shows "\<exists>ls. length ls = length (filter Q (history_rows (cx_turn e) raw)) \<and>
    filter P (tl (full_request e raw)) = map (\<lambda>(l, m). to_entry e l m) (zip ls (filter Q (history_rows (cx_turn e) raw)))"
proof -
  have "filter P (summary_entries raw) = []"
    by (auto simp: summary_entries_def assms(3) split: option.splits)
  then show ?thesis
    using to_entries_filter [where P = P and Q = Q, OF assms(2), of "view_rows e (history_rows (cx_turn e) raw)"]
    by (simp add: full_request_def view_filter [OF assms(1)])
qed

definition shows_row :: "compile_env \<Rightarrow> msg \<Rightarrow> entry \<Rightarrow> bool" where
  "shows_row e m x \<longleftrightarrow> en_role x = role m \<and> en_body x \<in>
     (let t = legacy_multimodal_to_text (cx_parse e) (content m) in {Plain t, Parts (cx_expand e t)})"

lemma shows_to_entry [simp]: "shows_row e m (strip_private (to_entry e l m))"
  by (simp add: shows_row_def to_entry_def message_body_def strip_private_def Let_def)

lemma shown_rows: "length ls = length rows \<Longrightarrow>
   list_all2 (shows_row e) rows (map strip_private (map (\<lambda>(l, m). to_entry e l m) (zip ls rows)))"
  by (induction ls rows rule: list_induct2) auto

lemma shown_ids: "length ls = length rows \<Longrightarrow>
   entry_ids (map (\<lambda>(l, m). to_entry e l m) (zip ls rows)) = concat (map (\<lambda>m. case m_id m of Some i \<Rightarrow> [i] | None \<Rightarrow> []) rows)"
  by (induction ls rows rule: list_induct2) (auto simp: entry_ids_def)

lemma pending_rows: "set (filter delivery_pending (history_rows turn raw)) =
    {m \<in> set raw. delivery_pending m \<and> \<not> queued_for_later turn m}"
  by (auto simp: history_rows_def in_history_def delivery_pending_def is_stale_ephemeral_def MARKER_ROLES_def)

lemma turn_rows:
  assumes "cx_turn e = Some t" "m \<in> set raw" "m_id m = Some t" "role m = ''user''" "compacted_up_to raw < t" "distinct (map m_id raw)"
  shows "set (filter (turn_root e) (history_rows (cx_turn e) raw)) = {m}"
proof -
  have "in_history (cx_turn e) (compacted_up_to raw) m"
    using assms(1-5) by (simp add: in_history_def MARKER_ROLES_def row_id_def queued_for_later_def is_stale_ephemeral_def)
  then have "m \<in> set (filter (turn_root e) (history_rows (cx_turn e) raw))"
    using assms(1-4) by (simp add: history_rows_def turn_root_def)
  moreover have "x = m" if "x \<in> set (filter (turn_root e) (history_rows (cx_turn e) raw))" for x
  proof -
    have "inj_on m_id (set raw)" using assms(6) by (simp add: distinct_map)
    then show ?thesis using that assms(1-3) by (simp add: history_rows_def turn_root_def inj_on_def)
  qed
  ultimately show ?thesis by blast
qed

lemma briefing_follows_root:
  assumes "filter en_turn_user ms \<noteq> []"
  obtains a x b where "ms = a @ x # b" "en_turn_user x"
    "place_briefing e ms = a @ x # (if turn_briefing e = [] then [] else [own_entry ''user'' (BRIEFING_HEAD @ turn_briefing e)]) @ b"
proof -
  from assms obtain x where "x \<in> set ms" "en_turn_user x" by (auto simp: filter_empty_conv)
  then obtain i where i: "first_index_from 0 en_turn_user ms = Some i" "i < length ms" "en_turn_user (ms ! i)"
    using first_index_found [of x ms en_turn_user] by blast
  have s: "ms = take i ms @ ms ! i # drop (Suc i) ms" using i(2) by (simp add: id_take_nth_drop)
  show thesis
  proof (rule that [OF s i(3)])
    show "place_briefing e ms = take i ms @ ms ! i # (if turn_briefing e = [] then []
        else [own_entry ''user'' (BRIEFING_HEAD @ turn_briefing e)]) @ drop (Suc i) ms"
    proof (cases "turn_briefing e = []")
      case True
      then have "place_briefing e ms = ms" by (simp add: place_briefing_def)
      then have "place_briefing e ms = take i ms @ ms ! i # [] @ drop (Suc i) ms" using s by (metis append_Nil)
      then show ?thesis using True by simp
    next
      case False
      then show ?thesis using i(1,2) by (simp add: place_briefing_def insert_at_def take_Suc_conv_app_nth)
    qed
  qed
qed

section \<open>What the request holds\<close>

text \<open>What is reported as delivered was delivered. The ids that a request reports as delivered are those of
  the pending rows that are not waiting for a later turn, in the order of the history, and each of these
  rows stands in the request with the role of the user and its full text, however tight the budget and
  however far the transcript is compacted.\<close>

theorem delivered_rows_are_shown:
  assumes "compile_context e raw = Some p"
  shows "\<exists>rows shown. set rows = {m \<in> set raw. delivery_pending m \<and> \<not> queued_for_later (cx_turn e) m}
    \<and> pl_delivered p = concat (map (\<lambda>m. case m_id m of Some i \<Rightarrow> [i] | None \<Rightarrow> []) rows)
    \<and> subseq shown (pl_messages p) \<and> list_all2 (shows_row e) rows shown"
proof -
  obtain share out ms trimmed tokens where c: "framed e raw share = (ms, trimmed, tokens)" "pl_messages p = map strip_private ms"
    "pl_delivered p = entry_ids (filter en_pending ms)" using assms by (rule compile_parts)
  let ?rows = "filter delivery_pending (history_rows (cx_turn e) raw)"
  have "\<forall>x \<in> set (tl (full_request e raw)). en_pending x \<longrightarrow> hard x"
    by (auto simp: full_request_def to_entries_def hard_def dest: summary_not_tool)
  then have f: "filter en_pending ms = filter en_pending (tl (full_request e raw))"
    by (intro framed_filter [OF c(1)]) simp_all
  obtain ls where l: "length ls = length ?rows"
    "filter en_pending (tl (full_request e raw)) = map (\<lambda>(l, m). to_entry e l m) (zip ls ?rows)"
    using history_filter [of delivery_pending en_pending e raw] by (auto simp: delivery_pending_def is_tool_def)
  have "subseq (map strip_private (filter en_pending ms)) (pl_messages p)"
    by (simp add: c(2) subseq_map)
  then show ?thesis using pending_rows shown_rows [OF l(1)] shown_ids [OF l(1)] c(3) l(2) f
    by (intro exI [of _ ?rows] exI [of _ "map strip_private (filter en_pending ms)"]) simp
qed

text \<open>C6: the request of the user is never lost. The user row of the turn, when no compaction reaches it, stands
  in the request with its full text, whatever is trimmed; the briefing of the turn follows it at once;
  the system prompt is first and the volatile tail last.\<close>

theorem turn_request_survives:
  assumes "compile_context e raw = Some p" "cx_turn e = Some t" "m \<in> set raw" "m_id m = Some t" "role m = ''user''"
    "compacted_up_to raw < t" "distinct (map m_id raw)"
  shows "\<exists>a x b. pl_messages p = a @ x # (if turn_briefing e = [] then [] else
        [strip_private (own_entry ''user'' (BRIEFING_HEAD @ turn_briefing e))]) @ b @ [strip_private (own_entry ''system'' (cx_tail e))]
    \<and> shows_row e m x \<and> hd (pl_messages p) = strip_private (own_entry ''system'' (system_prompt e))"
proof -
  obtain share out ms trimmed tokens where c: "framed e raw share = (ms, trimmed, tokens)" "pl_messages p = map strip_private ms"
    using assms(1) by (rule compile_parts)
  from c(1) obtain ms1 gs ms2 extra where f: "fit_history e share (full_request e raw) = (ms1, trimmed, gs)"
    "place_notice e (last_marker raw \<noteq> None) gs ms1 = (ms2, extra)"
    "ms = place_briefing e ms2 @ [own_entry ''system'' (cx_tail e)]" by (rule framed_parts)
  let ?rows = "filter (turn_root e) (history_rows (cx_turn e) raw)"
  have rows: "set ?rows = {m}" by (rule turn_rows [OF assms(2-7)])
  have hardened: "\<forall>x \<in> set (tl (full_request e raw)). en_turn_user x \<longrightarrow> hard x"
    by (auto simp: full_request_def to_entries_def hard_def dest: summary_not_tool)
  have "filter en_turn_user ms = filter en_turn_user (tl (full_request e raw))"
    by (intro framed_filter [OF c(1)]) (simp_all add: hardened)
  moreover have "filter en_turn_user ms = filter en_turn_user ms2"
    by (simp add: f(3) place_briefing_def insert_at_filter)
  moreover obtain ls where l: "length ls = length ?rows"
    "filter en_turn_user (tl (full_request e raw)) = map (\<lambda>(l, m). to_entry e l m) (zip ls ?rows)"
    using history_filter [of "turn_root e" en_turn_user e raw] by (auto simp: turn_root_def is_tool_def)
  ultimately have roots: "filter en_turn_user ms2 = map (\<lambda>(l, m). to_entry e l m) (zip ls ?rows)" by simp
  moreover have "?rows \<noteq> []" using rows by (cases ?rows) auto
  ultimately have "filter en_turn_user ms2 \<noteq> []" using l(1) by (cases ls) auto
  then obtain a x b where x: "ms2 = a @ x # b" "en_turn_user x"
    "place_briefing e ms2 = a @ x # (if turn_briefing e = [] then [] else [own_entry ''user'' (BRIEFING_HEAD @ turn_briefing e)]) @ b"
    by (rule briefing_follows_root)
  then have "x \<in> set (filter en_turn_user ms2)" by simp
  then obtain l0 where "x = to_entry e l0 m" using roots rows by (auto dest: set_zip_rightD)
  then have "shows_row e m (strip_private x)" by simp
  moreover have "hd (pl_messages p) = strip_private (own_entry ''system'' (system_prompt e))"
    using fit_history_keeps [OF f(1)] place_notice_hd [of ms1 e "last_marker raw \<noteq> None" gs] f(2)
    by (auto simp: c(2) f(3) place_briefing_def hd_append hd_map hd_insert_at split: option.splits)
  ultimately show ?thesis using x(3)
    by (intro exI [of _ "map strip_private a"] exI [of _ "strip_private x"] exI [of _ "map strip_private b"])
      (simp add: c(2) f(3))
qed

lemma request_users:
  assumes "x \<in> set (tl (full_request e raw))" "en_role x = ''user''"
  obtains l m where "x = to_entry e l m" "m \<in> set raw" "in_history (cx_turn e) (compacted_up_to raw) m" "role m = ''user''"
proof -
  have "x \<notin> set (summary_entries raw)" using assms(2) summary_not_tool [of x raw] by auto
  then obtain l m where m: "x = to_entry e l m" "m \<in> set (view_rows e (history_rows (cx_turn e) raw))"
    using assms(1) by (auto simp: full_request_def to_entries_def dest: set_zip_rightD)
  then have "m \<in> set (filter (\<lambda>m. \<not> is_tool m) (view_rows e (history_rows (cx_turn e) raw)))"
    using assms(2) by (simp add: is_tool_def)
  then have "m \<in> set (history_rows (cx_turn e) raw)" unfolding view_others by simp
  then show thesis using m(1) assms(2) by (intro that) (simp_all add: history_rows_def)
qed

text \<open>A turn does not answer ahead. Every user message of a request is the briefing or shows a user row of
  the session that is not queued for a later turn, and that no compaction has folded unless its delivery
  is still pending.\<close>

theorem no_early_answer:
  assumes "compile_context e raw = Some p" "x \<in> set (pl_messages p)" "en_role x = ''user''"
  shows "x = strip_private (own_entry ''user'' (BRIEFING_HEAD @ turn_briefing e))
    \<or> (\<exists>m \<in> set raw. shows_row e m x \<and> role m = ''user'' \<and> \<not> queued_for_later (cx_turn e) m
        \<and> (compacted_up_to raw < row_id m \<or> delivery_pending m))"
proof -
  obtain share out ms trimmed tokens where c: "framed e raw share = (ms, trimmed, tokens)" "pl_messages p = map strip_private ms"
    using assms(1) by (rule compile_parts)
  from c(1) obtain ms1 gs ms2 extra where f: "fit_history e share (full_request e raw) = (ms1, trimmed, gs)"
    "place_notice e (last_marker raw \<noteq> None) gs ms1 = (ms2, extra)"
    "ms = place_briefing e ms2 @ [own_entry ''system'' (cx_tail e)]" by (rule framed_parts)
  obtain y where y: "y \<in> set ms" "x = strip_private y" "en_role y = ''user''"
    using assms(2,3) c(2) by (auto simp: strip_private_def)
  have sub: "set (tl ms1) \<subseteq> set (tl (full_request e raw))" and h: "hd ms1 = own_entry ''system'' (system_prompt e)" "ms1 \<noteq> []"
    using fit_history_keeps [OF f(1)] by (auto elim: list_emb_set)
  have "set ms2 \<subseteq> insert (own_entry ''system'' (cx_notice_text e (trim_notice gs))) (set ms1)"
    using f(2) by (auto simp: place_notice_def Let_def split: if_splits)
  moreover have "set ms1 = insert (own_entry ''system'' (system_prompt e)) (set (tl ms1))" using h by (cases ms1) auto
  ultimately have "y = own_entry ''user'' (BRIEFING_HEAD @ turn_briefing e) \<or> y \<in> set (tl (full_request e raw))"
    using y sub by (auto simp: f(3) place_briefing_def split: if_splits)
  then show ?thesis
  proof
    assume "y \<in> set (tl (full_request e raw))"
    then obtain l m where "y = to_entry e l m" "m \<in> set raw" "in_history (cx_turn e) (compacted_up_to raw) m" "role m = ''user''"
      using y(3) by (rule request_users)
    then show ?thesis using y(2) by (intro disjI2 bexI [of _ m]) (auto simp: in_history_def)
  qed (simp add: y(2))
qed

section \<open>The budget\<close>

lemma history_share_Some:
  assumes "history_share budget max_output fixed = Some (share, out)"
  shows "fixed + share + out = budget \<and> HISTORY_BUDGET_FLOOR \<le> share \<and> out \<le> max_output
    \<and> (out = max_output \<or> MIN_OUTPUT_TOKENS \<le> out)"
  using assms by (auto simp: history_share_def Let_def split: if_splits)

lemma subseq_insert_at: "subseq xs (insert_at i x xs)"
proof -
  have "subseq (take i xs @ drop i xs) (take i xs @ [x] @ drop i xs)" by (rule subseq_mid) (rule subseq_order.order_refl)
  then show ?thesis by (simp add: insert_at_def)
qed


section \<open>Calls and their results\<close>

text \<open>Every result follows its call, with nothing but other results between.\<close>

fun rounds_whole :: "string set \<Rightarrow> entry list \<Rightarrow> bool" where
  "rounds_whole ids [] \<longleftrightarrow> True"
| "rounds_whole ids (m # ms) \<longleftrightarrow>
     (if is_tool_entry m then (en_call_id m = [] \<or> en_call_id m \<in> ids) \<and> rounds_whole ids ms
      else rounds_whole (if en_role m = ''assistant'' then c_id ` set (en_calls m) else {}) ms)"

fun open_ids :: "string set \<Rightarrow> entry list \<Rightarrow> string set" where
  "open_ids ids [] = ids"
| "open_ids ids (m # ms) =
     open_ids (if is_tool_entry m then ids else if en_role m = ''assistant'' then c_id ` set (en_calls m) else {}) ms"

lemma rounds_append: "rounds_whole ids (xs @ ys) \<longleftrightarrow> rounds_whole ids xs \<and> rounds_whole (open_ids ids xs) ys"
  by (induction xs arbitrary: ids) auto

lemma rounds_mono: "rounds_whole ids ms \<Longrightarrow> ids \<subseteq> ids' \<Longrightarrow> rounds_whole ids' ms"
proof (induction ms arbitrary: ids ids')
  case (Cons m ms)
  then show ?case by (cases "is_tool_entry m") auto
qed simp

lemma rounds_after_tools: "rounds_whole ids ms \<Longrightarrow> rounds_whole ids' (dropWhile is_tool_entry ms)"
proof (induction ms)
  case (Cons m ms)
  then show ?case by (cases "is_tool_entry m") auto
qed simp

lemma rounds_drop_one:
  assumes "rounds_whole ids (m # ms)" "en_role m \<noteq> ''assistant'' \<or> en_calls m = []"
  shows "rounds_whole ids ms"
proof (cases "is_tool_entry m")
  case True
  then show ?thesis using assms(1) by simp
next
  case False
  then have "rounds_whole {} ms" using assms by (cases "en_role m = ''assistant''") auto
  then show ?thesis by (rule rounds_mono) simp
qed

lemma drop_groups_rounds:
  "rounds_whole {} (kept @ ms) \<Longrightarrow> rounds_whole {} (fst (drop_groups tok b kept ms))"
proof (induction tok b kept ms rule: drop_groups.induct)
  case (2 tok b kept m ms)
  have one: "rounds_whole {} (kept @ ms)" if "en_role m \<noteq> ''assistant'' \<or> en_calls m = []"
    using "2.prems" that rounds_drop_one [of "open_ids {} kept" m ms]
    by (simp add: rounds_append del: rounds_whole.simps)
  have group: "rounds_whole {} (kept @ dropWhile is_tool_entry ms)" if "en_role m = ''assistant''"
  proof -
    have "\<not> is_tool_entry m" using that by (simp add: is_tool_entry_def)
    then have "rounds_whole (c_id ` set (en_calls m)) ms" "rounds_whole {} kept"
      using "2.prems" that by (simp_all add: rounds_append)
    then show ?thesis using rounds_after_tools by (auto simp: rounds_append)
  qed
  show ?case
  proof (cases "over tok b (kept @ m # ms) \<and> \<not> is_pinned m")
    case True
    then show ?thesis
      using 2 one group by (cases "en_role m = ''assistant'' \<and> en_calls m \<noteq> []") (auto simp: Let_def split_beta)
  next
    case False
    then show ?thesis using 2 by auto
  qed
qed simp

lemma drop_soft_rounds:
  "rounds_whole {} (kept @ ms) \<Longrightarrow> \<forall>m \<in> set ms. en_role m = ''assistant'' \<longrightarrow> en_calls m = [] \<Longrightarrow>
   rounds_whole {} (fst (drop_soft tok b kept ms))"
proof (induction tok b kept ms rule: drop_soft.induct)
  case (2 tok b kept m ms)
  have one: "rounds_whole {} (kept @ ms)"
    using "2.prems" rounds_drop_one [of "open_ids {} kept" m ms] by (auto simp: rounds_append simp del: rounds_whole.simps)
  show ?case
    using 2 one by (auto simp: Let_def split_beta simp del: rounds_whole.simps)
qed simp


text \<open>A correction splits a round. A correction of the user that arrives while a tool runs stands between the
  call and its result, and the trim then takes the call alone: whenever dropping it makes the rest fit, the
  result stays in the request as an answer to nothing.\<close>

theorem trimming_splits_steered_round:
  assumes "en_role a = ''assistant''" "en_calls a \<noteq> []" "\<not> is_pinned a" "en_role u = ''user''" "en_role t = ''tool''"
    "int (tok u) + int (tok t) \<le> b" "b < int (tok a) + int (tok u) + int (tok t)"
  shows "trim_history tok b [h, a, u, t] = ([h, u, t], 1, [\<lparr>dg_kind = Group_Drop, dg_msgs = [a]\<rparr>])"
proof -
  have "is_tool_entry t" "\<not> is_tool_entry u" using assms by (simp_all add: is_tool_entry_def)
  then show ?thesis using assms by (simp add: trim_history_def over_def Let_def)
qed

section \<open>The forms for a provider\<close>

lemma normalize_systems: "seen \<Longrightarrow> x \<in> set (normalize_from seen ids ms) \<Longrightarrow> en_role x \<noteq> ''system''"
  by (induction seen ids ms rule: normalize_from.induct) (auto simp: Let_def split: if_splits)

text \<open>The ids that some assistant row before a position offers.\<close>

fun answers_known :: "string set \<Rightarrow> entry list \<Rightarrow> bool" where
  "answers_known ids [] \<longleftrightarrow> True"
| "answers_known ids (m # ms) \<longleftrightarrow>
     (en_role m = ''tool'' \<longrightarrow> en_call_id m = [] \<or> en_call_id m \<in> ids)
     \<and> answers_known (if en_role m = ''assistant'' then ids \<union> c_id ` set (en_calls m) else ids) ms"

lemma normalize_answers: "answers_known ids (normalize_from seen ids ms)"
  by (induction seen ids ms rule: normalize_from.induct) (auto simp: Let_def)

lemma normalize_bodies:
  "\<forall>m \<in> set ms. en_role m \<in> set OPENAI_ROLES \<Longrightarrow> \<forall>m \<in> set ms. en_role m \<noteq> ''tool'' \<Longrightarrow>
   map en_body (normalize_from seen ids ms) = map en_body ms"
  by (induction seen ids ms rule: normalize_from.induct) (auto simp: Let_def)

lemma normalize_call_ids:
  "x \<in> set (normalize_from seen ids ms) \<Longrightarrow> en_role x = ''assistant'' \<Longrightarrow> c \<in> set (en_calls x) \<Longrightarrow> c_id c \<noteq> []"
  by (induction seen ids ms rule: normalize_from.induct) (auto simp: Let_def fix_calls_def split: if_splits)

lemma normalize_texts:
  "m \<in> set ms \<Longrightarrow> en_role m \<in> {''system'', ''user'', ''assistant''} \<Longrightarrow>
   \<exists>x \<in> set (normalize_from seen ids ms). en_body x = en_body m"
  by (induction seen ids ms rule: normalize_from.induct) (auto simp: Let_def OPENAI_ROLES_def)

text \<open>What a strict provider gets is well formed and complete. At most the first system message keeps its
  role, every result answers a call before it, every call has an id, and the text of every other
  message is there, the notices and the summary of the harness too.\<close>

theorem provider_form_is_strict:
  "(\<forall>xs x y ys. normalize_for_openrouter ms = xs @ x # ys \<and> en_role x = ''system'' \<and> y \<in> set ys \<longrightarrow> en_role y \<noteq> ''system'')
   \<and> answers_known {} (normalize_for_openrouter ms)
   \<and> (\<forall>x \<in> set (normalize_for_openrouter ms). en_role x = ''assistant'' \<longrightarrow> (\<forall>c \<in> set (en_calls x). c_id c \<noteq> []))
   \<and> (\<forall>m \<in> set ms. en_role m \<in> {''system'', ''user'', ''assistant''} \<longrightarrow>
        (\<exists>x \<in> set (normalize_for_openrouter ms). en_body x = en_body m))"
proof -
  have one: "en_role y \<noteq> ''system''"
    if "normalize_from seen ids ms = xs @ x # ys" "en_role x = ''system''" "y \<in> set ys" for seen ids xs x y ys
    using that
  proof (induction seen ids ms arbitrary: xs rule: normalize_from.induct)
    case (2 seen ids m ms)
    show ?case
    proof (cases "en_role m = ''system''")
      case True
      then show ?thesis
        using 2 normalize_systems [of True y ids ms] normalize_systems [of True x ids ms]
        by (cases xs) (auto simp: OPENAI_ROLES_def split: if_splits)
    next
      case False
      then show ?thesis using 2 by (cases xs) (auto simp: Let_def split: if_splits)
    qed
  qed simp
  show ?thesis unfolding normalize_for_openrouter_def
    using one normalize_answers normalize_call_ids normalize_texts by blast
qed

text \<open>The marks of the cache are lossless. A request that was marked for one provider and is then sent to
  another has its system prompt back in one piece, at most trailing white space short.\<close>

theorem breakpoints_are_lossless:
  assumes "en_body h = Plain t" "provider' \<noteq> ''openrouter'' \<or> \<not> starts_with ''anthropic/'' model'"
  shows "\<exists>t' w. attach_cache_breakpoints on' model' provider' n' (attach_cache_breakpoints on model provider n (h # rest))
      = h\<lparr>en_body := Plain t'\<rparr> # rest \<and> t = t' @ w \<and> py_strip w = []"
proof -
  let ?marked = "on \<and> provider = ''openrouter'' \<and> starts_with ''anthropic/'' model \<and> en_role h = ''system'' \<and> n \<noteq> 0 \<and> n \<le> length t"
  have same: "h\<lparr>en_body := Plain t\<rparr> = h" using assms(1) by (metis entry.surjective entry.update_convs(2) entry.select_convs(2))
  show ?thesis
  proof (cases ?marked)
    case True
    let ?t = "if py_strip (drop n t) = [] then take n t else t"
    have "attach_cache_breakpoints on' model' provider' n' (attach_cache_breakpoints on model provider n (h # rest))
        = h\<lparr>en_body := Plain ?t\<rparr> # rest"
      using True assms by (auto simp: attach_cache_breakpoints_def split_head_def flat_text_def is_cached_def Let_def)
    moreover have "\<exists>w. t = ?t @ w \<and> py_strip w = []"
      by (cases "py_strip (drop n t) = []")
        (auto intro: exI [of _ "drop n t"] simp: py_strip_def py_lstrip_def py_rstrip_def)
    ultimately show ?thesis by blast
  next
    case False
    then have "attach_cache_breakpoints on model provider n (h # rest) = h # rest"
      using assms(1) by (auto simp: attach_cache_breakpoints_def Let_def)
    moreover have "attach_cache_breakpoints on' model' provider' n' (h # rest) = h # rest"
      using assms by (auto simp: attach_cache_breakpoints_def Let_def)
    ultimately show ?thesis using same by (intro exI [of _ t] exI [of _ "[]"]) (simp add: py_strip_def py_lstrip_def py_rstrip_def)
  qed
qed

section \<open>Examples\<close>

definition demo_compile :: compile_env where
  "demo_compile = \<lparr>cx_count = length, cx_static_parts = [''sys''], cx_scout_report = [], cx_goal = [], cx_scout_once = True,
     cx_tail = ''tail'', cx_tools = [], cx_budget = 10000, cx_max_output = 2000, cx_threshold = 1/2, cx_pressure = 1/2,
     cx_keep_recent = 30, cx_min_chars = 2000, cx_stub = (\<lambda>_. ''stub''), cx_media = False, cx_expand = (\<lambda>t. [Text_Block t]),
     cx_parse = (\<lambda>_. None), cx_notice_text = (\<lambda>_. ''notice''), cx_turn = Some 5\<rparr>"

definition demo_ask :: msg where "demo_ask = row 5 ''user'' ''ask''"

definition demo_steer :: msg where
  "demo_steer = (row 6 ''user'' ''stop'')\<lparr>m_meta := Some \<lparr>md_injected = True, md_pending = True, md_ephemeral = No_Value,
     md_parent = Int_Value 5\<rparr>\<rparr>"

lemmas demo_facts = demo_compile_def demo_ask_def demo_steer_def row_def row_id_def delivery_pending_def is_injected_def
  queued_for_later_def compacted_up_to_def last_marker_def

lemma demo_compiles: "\<exists>p. compile_context demo_compile raw = Some p"
  by (simp add: compile_context_def history_share_def fixed_cost_def system_tokens_def tool_tokens_def turn_briefing_def
      system_prompt_def paragraphs_def present_def demo_compile_def HISTORY_BUDGET_FLOOR_def SAFETY_MARGIN_def split_beta Let_def)

lemma delivered_rows_are_shown_witness:
  "\<exists>p x. compile_context demo_compile [demo_ask, demo_steer] = Some p \<and> 6 \<in> set (pl_delivered p)
     \<and> x \<in> set (pl_messages p) \<and> shows_row demo_compile demo_steer x"
proof -
  obtain p where p: "compile_context demo_compile [demo_ask, demo_steer] = Some p" using demo_compiles by blast
  then obtain rows shown where r: "set rows = {m \<in> set [demo_ask, demo_steer]. delivery_pending m \<and> \<not> queued_for_later (cx_turn demo_compile) m}"
    "pl_delivered p = concat (map (\<lambda>m. case m_id m of Some i \<Rightarrow> [i] | None \<Rightarrow> []) rows)"
    "subseq shown (pl_messages p)" "list_all2 (shows_row demo_compile) rows shown"
    using delivered_rows_are_shown by blast
  have s: "demo_steer \<in> set rows" unfolding r(1) by (simp add: demo_facts)
  then obtain x where "x \<in> set shown" "shows_row demo_compile demo_steer x"
    using r(4) by (metis list_all2_conv_all_nth in_set_conv_nth)
  moreover have "6 \<in> set (pl_delivered p)" unfolding r(2) using s by (auto simp: demo_steer_def row_def intro!: bexI [of _ demo_steer])
  ultimately show ?thesis using p r(3) by (blast elim: list_emb_set)
qed

lemma turn_request_survives_witness:
  "\<exists>p x. compile_context demo_compile [demo_ask, demo_steer] = Some p \<and> x \<in> set (pl_messages p) \<and> shows_row demo_compile demo_ask x"
proof -
  obtain p where p: "compile_context demo_compile [demo_ask, demo_steer] = Some p" using demo_compiles by blast
  have "\<exists>a x b. pl_messages p = a @ x # (if turn_briefing demo_compile = [] then [] else
        [strip_private (own_entry ''user'' (BRIEFING_HEAD @ turn_briefing demo_compile))]) @ b
          @ [strip_private (own_entry ''system'' (cx_tail demo_compile))]
    \<and> shows_row demo_compile demo_ask x \<and> hd (pl_messages p) = strip_private (own_entry ''system'' (system_prompt demo_compile))"
    by (rule turn_request_survives [OF p, where t = 5]) (simp_all add: demo_facts)
  then show ?thesis using p by auto
qed

lemma demo_view: "view_rows demo_compile (history_rows (Some 5) [demo_ask]) = [demo_ask]"
  by (simp add: history_rows_def in_history_def is_stale_ephemeral_def MARKER_ROLES_def view_rows_def exclude_orphans_def orphan_def
      repair_unanswered_tool_calls_def demo_facts)

lemma demo_asks: "role demo_ask = ''user''" "m_id demo_ask = Some 5"
  by (simp_all add: demo_ask_def row_def)

lemma demo_request:
  "compile_context demo_compile [demo_ask] = Some p \<Longrightarrow> strip_private (to_entry demo_compile True demo_ask) \<in> set (pl_messages p)"
proof -
  have t: "cx_turn demo_compile = Some 5" by (simp add: demo_compile_def)
  have v: "to_entries demo_compile [demo_ask] = [to_entry demo_compile True demo_ask]"
    by (simp add: to_entries_def last_index_def demo_ask_def row_def Let_def)
  assume "compile_context demo_compile [demo_ask] = Some p"
  then obtain share out ms trimmed tokens where c:
    "history_share (cx_budget demo_compile) (cx_max_output demo_compile) (fixed_cost demo_compile) = Some (share, out)"
    "framed demo_compile [demo_ask] share = (ms, trimmed, tokens)" "pl_messages p = map strip_private ms" by (rule compile_parts)
  from c(2) obtain ms1 gs ms2 extra where f: "fit_history demo_compile share (full_request demo_compile [demo_ask]) = (ms1, trimmed, gs)"
    "place_notice demo_compile (last_marker [demo_ask] \<noteq> None) gs ms1 = (ms2, extra)"
    "ms = place_briefing demo_compile ms2 @ [own_entry ''system'' (cx_tail demo_compile)]" by (rule framed_parts)
  have "filter en_turn_user ms = filter en_turn_user (tl (full_request demo_compile [demo_ask]))"
    by (intro framed_filter [OF c(2)]) (auto simp: full_request_def to_entries_def hard_def dest: summary_not_tool)
  also have "\<dots> = [to_entry demo_compile True demo_ask]"
    by (simp add: full_request_def t demo_view v summary_entries_def last_marker_def turn_root_def demo_asks)
  finally have "to_entry demo_compile True demo_ask \<in> set ms" 
    by (metis filter_is_subset in_mono list.set_intros(1))
  then show ?thesis using c(3) by simp
qed

lemma no_early_answer_witness:
  "\<exists>p x. compile_context demo_compile [demo_ask] = Some p \<and> x \<in> set (pl_messages p) \<and> shows_row demo_compile demo_ask x"
proof -
  obtain p where p: "compile_context demo_compile [demo_ask] = Some p" using demo_compiles by blast
  let ?x = "strip_private (to_entry demo_compile True demo_ask)"
  have "?x = strip_private (own_entry ''user'' (BRIEFING_HEAD @ turn_briefing demo_compile))
    \<or> (\<exists>m \<in> set [demo_ask]. shows_row demo_compile m ?x \<and> role m = ''user'' \<and> \<not> queued_for_later (cx_turn demo_compile) m
        \<and> (compacted_up_to [demo_ask] < row_id m \<or> delivery_pending m))"
    by (rule no_early_answer [OF p demo_request [OF p]]) (simp add: strip_private_def demo_ask_def row_def)
  moreover have "?x \<noteq> strip_private (own_entry ''user'' (BRIEFING_HEAD @ turn_briefing demo_compile))"
    by (simp add: strip_private_def to_entry_def message_body_def own_entry_def BRIEFING_HEAD_def demo_ask_def row_def
        legacy_multimodal_to_text_def opens_like_blocks_def py_lstrip_def py_space_def demo_compile_def Let_def)
  ultimately show ?thesis using p demo_request [OF p] by auto
qed


definition demo_call_entry :: entry where
  "demo_call_entry = (own_entry ''assistant'' [])\<lparr>en_pinned := False,
     en_calls := [\<lparr>c_id = ''c1'', c_name = ''bash'', c_arguments = ''{}'', c_rejected = False\<rparr>]\<rparr>"

definition demo_result_entry :: entry where
  "demo_result_entry = (own_entry ''tool'' ''ok'')\<lparr>en_pinned := False, en_call_id := ''c1''\<rparr>"

definition demo_user_entry :: entry where
  "demo_user_entry = (own_entry ''user'' ''stop'')\<lparr>en_pinned := False\<rparr>"

lemmas demo_entries = demo_call_entry_def demo_result_entry_def demo_user_entry_def own_entry_def


lemma trimming_splits_steered_round_witness:
  "trim_history (\<lambda>_. 5) 12 [own_entry ''system'' ''p'', demo_call_entry, demo_user_entry, demo_result_entry]
     = ([own_entry ''system'' ''p'', demo_user_entry, demo_result_entry], 1, [\<lparr>dg_kind = Group_Drop, dg_msgs = [demo_call_entry]\<rparr>])"
  by (rule trimming_splits_steered_round) (simp_all add: demo_entries is_pinned_def starts_with_def)

lemma breakpoints_are_lossless_witness:
  "\<exists>t' w. attach_cache_breakpoints True ''llama'' ''ollama'' 3
        (attach_cache_breakpoints True ''anthropic/x'' ''openrouter'' 3 [own_entry ''system'' ''abcdef''])
      = [(own_entry ''system'' ''abcdef'')\<lparr>en_body := Plain t'\<rparr>] \<and> ''abcdef'' = t' @ w \<and> py_strip w = []"
  by (rule breakpoints_are_lossless) simp_all

end
