(* ===== verification/Worker_Wait.thy ===== *)
theory Worker_Wait
  imports Turn_Exec
begin

text \<open>
  How a session waits for its workers: \<open>await_workers(suspend=True)\<close> and the revival of a worker in
  \<open>core/extensions/orchestration\<close>, and the callbacks of \<open>sessions/manager.py\<close> that take a finished worker
  out of the watch set, resume the parent, release a cancelled one, and mend what was lost (the pass of
  the reaper and the sweep at boot).

  Everything here runs on the event loop, so a definition is what happens between two awaits.  The
  resume awaits the lock of the session and two reads of the database, so it is four definitions; the
  parent may be changed by others in between.  \<open>ws\<close> are the workers in memory.
\<close>

section \<open>Finished or not\<close>

type_synonym workers = "string \<Rightarrow> agent_session option"

definition failed :: "agent_session \<Rightarrow> bool" where
  "failed w \<longleftrightarrow> (error w \<noteq> None \<and> error w \<noteq> Some []) \<or> (termination_reason w \<noteq> None \<and> termination_reason w \<noteq> Some [])"

text \<open>What the callback, the reaper and the boot sweep take for finished: a task that exists counts as a start.\<close>

definition counts_as_finished :: "agent_session \<Rightarrow> bool" where
  "counts_as_finished w \<longleftrightarrow> current_state w = IDLE_READY \<and> (task w \<noteq> No_Task \<or> 0 < turn_id w \<or> failed w)"

definition stale_workers :: "workers \<Rightarrow> string set \<Rightarrow> string set" where
  "stale_workers ws watched = {i \<in> watched. case ws i of None \<Rightarrow> True | Some w \<Rightarrow> counts_as_finished w}"

section \<open>The start of the wait\<close>

datatype suspend_reply =
    Already_Suspended nat
  | No_Targets
  | All_Completed nat
  | Session_Suspended nat nat

definition still_running :: "workers \<Rightarrow> string set \<Rightarrow> string set" where
  "still_running ws targets = {i \<in> targets. case ws i of None \<Rightarrow> False
     | Some w \<Rightarrow> \<not> (current_state w = IDLE_READY \<and> 0 < turn_id w)}"

definition begin_wait :: "env \<Rightarrow> agent_session \<times> world \<Rightarrow> agent_session \<times> world" where
  "begin_wait env = (\<lambda>(p, w).
     if current_state p = PROCESSING then quiet (transition env AWAITING_WORKERS ''workers-dispatched'' None (p, w)) else (p, w))"

definition suspend_on_loop ::
    "env \<Rightarrow> workers \<Rightarrow> string list \<Rightarrow> agent_session \<times> world \<Rightarrow> suspend_reply \<times> agent_session \<times> world" where
  "suspend_on_loop env ws ids = (\<lambda>(p, w).
     let targets = set (if ids \<noteq> [] then ids else worker_ids p); open_ones = still_running ws targets in
     if current_state p = AWAITING_WORKERS then (Already_Suspended (card (watched_worker_ids p)), p, w)
     else if targets = {} then (No_Targets, p, w)
     else if open_ones = {} then (All_Completed (card targets), p, w)
     else
       (Session_Suspended (card open_ones) (card targets - card open_ones),
        begin_wait env (p\<lparr>watched_worker_ids := watched_worker_ids p \<union> open_ones\<rparr>, w)))"

text \<open>\<open>_revive_on_loop\<close>: a worker is reset and watched again; its prompt is sent afterwards.  A worker with a
  live turn is left alone.\<close>

definition revive_on_loop ::
    "env \<Rightarrow> bool \<Rightarrow> bool \<Rightarrow> agent_session \<Rightarrow> agent_session \<times> world \<Rightarrow> bool \<times> agent_session \<times> agent_session \<times> world" where
  "revive_on_loop env model_gone watch p = (\<lambda>(k, w).
     let home = current_state k = IDLE_READY; alive = (task k = Task_Running);
         (res, k0, w0) = (if home \<or> alive then (Returned True, k, w) else transition env IDLE_READY ''reaper-unstick'' None (k, w))
     in if \<not> home \<and> alive then (False, p, k, w)
        else if res = Raised then (False, p, k0, w0)
        else
          (True,
           p\<lparr>worker_ids := (if session_id k \<in> set (worker_ids p) then worker_ids p else worker_ids p @ [session_id k]),
             watched_worker_ids := (if watch then insert (session_id k) (watched_worker_ids p) else watched_worker_ids p)\<rparr>,
           k0\<lparr>cancel_requested := False, pause_set := True, error := None,
              model_override := (if model_gone then None else model_override k0), termination_reason := None\<rparr>,
           w0))"

section \<open>A worker is done\<close>

text \<open>\<open>_on_watched_worker_done\<close>: the parent afterwards, and whether it is resumed.\<close>

definition on_watched_worker_done :: "workers \<Rightarrow> agent_session \<Rightarrow> agent_session \<Rightarrow> agent_session \<times> bool" where
  "on_watched_worker_done ws k p =
     (let cancelled = (termination_reason k = Some ''cancelled''); watched = watched_worker_ids p in
      if session_id k \<notin> watched then
        (p, \<not> cancelled \<and> watched = {} \<and> current_state p = IDLE_READY)
      else
        let rest = watched - {session_id k}; left = rest - stale_workers ws rest; p1 = p\<lparr>watched_worker_ids := left\<rparr> in
        (p1, left = {} \<and> \<not> (cancelled \<and> current_state p1 \<noteq> AWAITING_WORKERS)))"

section \<open>A cancelled wait\<close>

text \<open>\<open>_settle_cancelled_awaiting_workers_locked\<close>; a transition that raises ends the two, and only them.\<close>

definition settle_cancelled :: "env \<Rightarrow> agent_session \<times> world \<Rightarrow> bool \<times> agent_session \<times> world" where
  "settle_cancelled env = (\<lambda>(p, w).
     if current_state p \<noteq> AWAITING_WORKERS then (False, p, w)
     else
       let (r, p1, w1) = transition env CANCELLING ''cancel-requested'' (Some CANCELLED) (p, w);
           (p2, w2) = (if r = Raised then (p1, w1) else quiet (transition env IDLE_READY ''cancel-complete'' None (p1, w1)));
           (p3, w3) = emit_event (e_wall env) (Other_Event ''turn.complete'' []) None (p2\<lparr>watched_worker_ids := {}\<rparr>, w2)
       in (True, p3, w3))"

section \<open>The resume\<close>

text \<open>Whether the turn already read every result: the calls of \<open>get_worker_result\<close> since the last user row
  that is no resume message.  A row is its role, its text and its accepted calls as name and argument text.\<close>

definition WORKER_RESUME_PREFIX :: string where
  "WORKER_RESUME_PREFIX = ''[Watched workers have completed''"

type_synonym transcript_row = "string \<times> string \<times> (string \<times> string) list"

definition since_last_request :: "transcript_row list \<Rightarrow> transcript_row list" where
  "since_last_request rows =
     (case dropWhile (\<lambda>(r, t, _). \<not> (r = ''user'' \<and> \<not> starts_with WORKER_RESUME_PREFIX t)) (rev rows) of
        [] \<Rightarrow> rows
      | u # before \<Rightarrow> drop (length before) rows)"

definition results_collected :: "string list \<Rightarrow> transcript_row list \<Rightarrow> bool" where
  "results_collected ids rows \<longleftrightarrow> ids \<noteq> [] \<and>
     list_all (\<lambda>i. list_ex (\<lambda>(r, t, cs). r = ''assistant'' \<and> list_ex (\<lambda>(n, a). n = ''get_worker_result'' \<and> has_sub i a) cs)
       (since_last_request rows)) ids"

text \<open>The status of a worker in the message, and whether it is one to inspect.  The first argument is the error.\<close>

datatype worker_status =
    St_Error string | St_Cancelled | St_Interrupted | St_Escalated | St_Retries_Exhausted | St_Stale_Grade
  | St_Incomplete string | St_Unverified_Pass string | St_Pass | St_Complete | St_Other string

definition HARD_CAPS :: "string list" where
  "HARD_CAPS = [''round_ceiling'', ''stuck_loop'', ''budget_exhausted'', ''compaction_failed'']"

definition status_of :: "string \<Rightarrow> string \<Rightarrow> string option \<Rightarrow> string \<Rightarrow> worker_status" where
  "status_of err tr verdict verification =
     (if err \<noteq> [] then St_Error (take 80 err)
      else if tr = ''cancelled'' then St_Cancelled
      else if tr = ''interrupted'' then St_Interrupted
      else if verdict = Some ''escalate'' then St_Escalated
      else if verdict = Some ''retry'' then St_Retries_Exhausted
      else if verdict = Some ''stale'' then St_Stale_Grade
      else if tr \<in> set HARD_CAPS then St_Incomplete tr
      else if verdict = Some ''pass'' \<and> verification \<noteq> [] \<and> verification \<noteq> ''verified'' then St_Unverified_Pass verification
      else if verdict = Some ''pass'' then St_Pass
      else if tr = ''complete'' then St_Complete
      else St_Other tr)"

definition needs_inspection :: "worker_status \<Rightarrow> bool" where
  "needs_inspection st = (case st of St_Pass \<Rightarrow> False | St_Complete \<Rightarrow> False | St_Other t \<Rightarrow> False | _ \<Rightarrow> True)"

text \<open>What is on record of a worker: the grade of this run, whether there is an older one, and how the last
  turn ended.  Memory comes first, the log behind it.\<close>

record worker_record =
  wr_verdict :: "string option"
  wr_verification :: string
  wr_older_grade :: bool
  wr_durable :: "string option"

definition first_given :: "string option list \<Rightarrow> string \<Rightarrow> string" where
  "first_given xs d = (case filter (\<lambda>x. x \<noteq> None \<and> x \<noteq> Some []) xs of Some t # _ \<Rightarrow> t | _ \<Rightarrow> d)"

definition worker_status_of :: "workers \<Rightarrow> (string \<Rightarrow> worker_record) \<Rightarrow> string \<Rightarrow> worker_status" where
  "worker_status_of ws rec i =
     (let r = rec i; v = (if wr_verdict r = None \<and> wr_older_grade r then Some ''stale'' else wr_verdict r);
          tr = first_given [(case ws i of Some k \<Rightarrow> termination_reason k | None \<Rightarrow> None), wr_durable r] ''unknown'';
          err = (case ws i of Some k \<Rightarrow> (case error k of Some e \<Rightarrow> e | None \<Rightarrow> []) | None \<Rightarrow> [])
      in status_of err tr v (wr_verification r))"

text \<open>The workers in memory, then those of the database that memory lacks.\<close>

definition worker_inventory :: "string list \<Rightarrow> agent_session \<Rightarrow> string list" where
  "worker_inventory rows p = foldl (\<lambda>ids i. if i \<in> set ids then ids else ids @ [i]) (worker_ids p) rows"

record resume_message =
  rm_lines :: "(string \<times> worker_status) list"
  rm_inspect :: "string list"

definition build_resume_message ::
    "workers \<Rightarrow> (string \<Rightarrow> worker_record) \<Rightarrow> string list \<Rightarrow> agent_session \<Rightarrow> resume_message" where
  "build_resume_message ws rec rows p =
     (let ls = map (\<lambda>i. (i, worker_status_of ws rec i)) (worker_inventory rows p) in
      \<lparr>rm_lines = ls, rm_inspect = map fst (filter (needs_inspection \<circ> snd) ls)\<rparr>)"

datatype resume_end =
    Admission_Closed | Wait_Cancelled | Skipped_Collected | Abandoned
  | Queued_Behind_Turn | Turn_Started | Queued_And_Drained | Nowhere

text \<open>Before the lock.  The extension of the budget is \<open>extend_session_budget\<close> of the scheduler.\<close>

definition resume_enter :: "bool \<Rightarrow> env \<Rightarrow> agent_session \<times> world \<Rightarrow> resume_end option \<times> agent_session \<times> world" where
  "resume_enter down env = (\<lambda>(p, w).
     if down then (Some Admission_Closed, p, w)
     else if cancel_requested p then (Some Wait_Cancelled, snd (settle_cancelled env (p, w)))
     else (None, p, w))"

text \<open>Under the lock: \<open>seen\<close> is the state read there, \<open>collected\<close> what the first read of the database says.\<close>

definition resume_collected :: "env \<Rightarrow> sstate \<Rightarrow> bool \<Rightarrow> agent_session \<times> world \<Rightarrow> resume_end option \<times> agent_session \<times> world" where
  "resume_collected env seen collected = (\<lambda>(p, w).
     if seen = IDLE_READY \<and> collected then
       (Some Skipped_Collected, emit_event (e_wall env) (Other_Event ''workers.resume_skipped'' [(''reason'', ''results-already-collected'')]) None (p\<lparr>watched_worker_ids := {}\<rparr>, w))
     else (None, p, w))"

text \<open>After the message is built.  The text is the rendered message; a start resets the turn and takes no handle.\<close>

definition synthetic_entry :: "string \<Rightarrow> pending_message" where
  "synthetic_entry t = \<lparr>message = t, system_prompt = None, pre_saved = False, queued_at = 0, msg_id = None,
     is_goal_continuation = False, continuation_id = None\<rparr>"

definition resume_dispatch ::
    "env \<Rightarrow> adm_env \<Rightarrow> bool \<Rightarrow> sstate \<Rightarrow> string \<Rightarrow> adm_state \<Rightarrow> resume_end \<times> adm_state" where
  "resume_dispatch env aenv down seen txt = (\<lambda>(p, w, m).
     if cancel_requested p \<or> current_state p \<noteq> seen then
       (let (_, p1, w1) = settle_cancelled env (p, w) in (Abandoned, p1, w1, m))
     else if turn_in_flight (a_own_task aenv) p then (Queued_Behind_Turn, enqueue (synthetic_entry txt) p, w, m)
     else if seen = AWAITING_WORKERS then
       if down then (Admission_Closed, p, w, m)
       else
         (let (p1, m1) = start_turn_task None (p\<lparr>cancel_requested := False, turn := new_turn, error := None, termination_reason := None\<rparr>, m)
          in (Turn_Started, p1, w, m1))
     else if seen = IDLE_READY then
       (let (p1, m1) = process_pending aenv {IDLE_READY} (enqueue (synthetic_entry txt) p, m) in (Queued_And_Drained, p1, w, m1))
     else (Nowhere, p, w, m))"

section \<open>What mends a lost callback\<close>

datatype reaper_action = Left_Waiting | Resume_Spawned | Forced_Idle | Timed_Out string

text \<open>The branch of \<open>reap_idle_sessions\<close> for a waiting session.  A timeout queues a message for the next turn.\<close>

definition reap_waiting ::
    "env \<Rightarrow> workers \<Rightarrow> rat \<Rightarrow> rat \<Rightarrow> (rat \<Rightarrow> nat \<Rightarrow> string) \<Rightarrow> agent_session \<times> world \<Rightarrow> reaper_action \<times> agent_session \<times> world" where
  "reap_waiting env ws idle max_idle timeout_text = (\<lambda>(p, w).
     let watched = watched_worker_ids p; left = watched - stale_workers ws watched; p1 = p\<lparr>watched_worker_ids := left\<rparr> in
     if watched \<noteq> {} \<and> left = {} then (Resume_Spawned, touch (e_wall env) p1, w)
     else if left = {} \<and> max_idle \<le> idle then
       (let (p2, w2) = quiet (transition env IDLE_READY ''reaper-unstick'' None (p1, w)) in (Forced_Idle, touch (e_wall env) p2, w2))
     else if left \<noteq> {} \<and> max_idle * 2 \<le> idle then
       (let (p2, w2) = quiet (transition env IDLE_READY ''worker-timeout'' None (p1, w)); t = timeout_text idle (card left) in
        (Timed_Out t, touch (e_wall env) ((enqueue (synthetic_entry t) p2)\<lparr>watched_worker_ids := {}\<rparr>), w2))
     else (Left_Waiting, p1, w))"

text \<open>The sweep at boot, for one parent: each watched worker that is gone or done is released, and one that
  died in its turn is reset and released with it.  The workers are taken one after the other.\<close>

definition boot_worker :: "env \<Rightarrow> string \<Rightarrow> workers \<times> world \<Rightarrow> bool \<times> workers \<times> world" where
  "boot_worker env i = (\<lambda>(ws, w). case ws i of
       None \<Rightarrow> (True, ws, w)
     | Some k \<Rightarrow>
         if current_state k = IDLE_READY then (counts_as_finished k, ws, w)
         else if task k \<noteq> Task_Running then
           (let (k1, w1) = quiet (transition env IDLE_READY ''reaper-unstick'' (Some INTERRUPTED) (k, w)) in
            (True, ws(i \<mapsto> k1\<lparr>termination_reason := Some (term_value INTERRUPTED)\<rparr>), w1))
         else (False, ws, w))"

fun boot_workers :: "env \<Rightarrow> string list \<Rightarrow> workers \<times> world \<Rightarrow> string set \<times> workers \<times> world" where
  "boot_workers env [] sw = ({}, sw)"
| "boot_workers env (i # is) sw =
     (let (gone, sw1) = boot_worker env i sw; (stale, sw2) = boot_workers env is sw1 in
      (if gone then insert i stale else stale, sw2))"

text \<open>\<open>order\<close> is the order in which the loop meets the watched workers.  The result says whether the parent is
  resumed.\<close>

definition reconcile_parent ::
    "env \<Rightarrow> string list \<Rightarrow> agent_session \<Rightarrow> workers \<times> world \<Rightarrow> bool \<times> agent_session \<times> workers \<times> world" where
  "reconcile_parent env order p = (\<lambda>(ws, w).
     if watched_worker_ids p = {} then
       (let (p1, w1) = quiet (transition env IDLE_READY ''reaper-unstick'' None (p, w)) in (False, p1, ws, w1))
     else
       let (stale, ws1, w1) = boot_workers env order (ws, w); left = watched_worker_ids p - stale in
       (left = {}, p\<lparr>watched_worker_ids := left\<rparr>, ws1, w1))"

end
