(* ===== verification/Worker_Wait_Proofs.thy ===== *)
theory Worker_Wait_Proofs
  imports Worker_Wait State_Proofs
begin

text \<open>
  What the wait for workers promises: while a parent waits, something is on its way that wakes it, for
  every interleaving of its workers; the reaper frees one whose callback was lost; a resume that finds
  the parent as it left it reaches it.  And three ways in which it does not.
\<close>

section \<open>Fields that transitions and events leave alone\<close>

lemma prepared_watch [simp]:
  "watched_worker_ids (prepared b tr s) = watched_worker_ids s" "pending_messages (prepared b tr s) = pending_messages s"
  "worker_ids (prepared b tr s) = worker_ids s"
  by (simp_all add: prepared_def Let_def split: option.splits)

lemma committed_watch [simp]:
  "watched_worker_ids (committed env b r tr s) = watched_worker_ids s"
  "pending_messages (committed env b r tr s) = pending_messages s" "worker_ids (committed env b r tr s) = worker_ids s"
  by (auto simp: committed_def touch_def Let_def split: prod.splits option.splits)

lemma transition_watch:
  assumes "transition env b r tr (s, w) = (res, s', w')"
  shows "watched_worker_ids s' = watched_worker_ids s \<and> pending_messages s' = pending_messages s"
proof (cases "edge (current_state s) r = Some b \<and> e_log_ok env")
  case True
  then show ?thesis using transition_done [of s r b env tr w] assms by auto
next
  case False
  then have "res \<noteq> Returned True" using transition_fields [OF assms] by auto
  then show ?thesis using transition_fields [OF assms] by simp
qed

lemma quiet_watch:
  "quiet (transition env b r tr (s, w)) = (s', w') \<Longrightarrow>
   watched_worker_ids s' = watched_worker_ids s \<and> pending_messages s' = pending_messages s"
  by (cases "transition env b r tr (s, w)") (auto simp: quiet_def dest: transition_watch)

lemma current_watch [simp]: "current_state (s\<lparr>watched_worker_ids := x\<rparr>) = current_state s"
  by (simp add: current_state_def)

lemma current_queue [simp]: "current_state (s\<lparr>pending_messages := x\<rparr>) = current_state s"
  by (simp add: current_state_def)

lemma wait_edges:
  "edge PROCESSING ''workers-dispatched'' = Some AWAITING_WORKERS"
  "edge AWAITING_WORKERS ''cancel-requested'' = Some CANCELLING"
  "edge CANCELLING ''cancel-complete'' = Some IDLE_READY"
  "edge AWAITING_WORKERS ''reaper-unstick'' = Some IDLE_READY"
  "edge AWAITING_WORKERS ''worker-timeout'' = Some IDLE_READY"
  by code_simp+

section \<open>The parent and its workers as a system\<close>

text \<open>\<open>wn_due\<close> are the workers that have settled and whose callback has not run, \<open>wn_resuming\<close> says that a
  callback asked for the resume.\<close>

record wait_net =
  wn_parent :: agent_session
  wn_workers :: workers
  wn_due :: "string set"
  wn_resuming :: bool
  wn_world :: world

text \<open>A worker that will settle some day: in a turn, with a task, or waiting for its first one.\<close>

definition under_way :: "agent_session \<Rightarrow> bool" where
  "under_way k \<longleftrightarrow> current_state k \<noteq> IDLE_READY \<or> task k = Task_Running \<or> (turn_id k \<le> 0 \<and> \<not> failed k)"

definition failed_start :: "agent_session \<Rightarrow> bool" where
  "failed_start k \<longleftrightarrow> current_state k = IDLE_READY \<and> turn_id k \<le> 0 \<and> task k \<noteq> Task_Running \<and> failed k"

text \<open>Outside the wait the parent may do anything but enter it, which only the suspension does, and may give
  up watching; it starts to watch a worker that is under way.  A worker that leaves memory has settled and
  called back.  When the wait begins, no worker that failed to start is among those in memory.\<close>

inductive wait_step :: "wait_net \<Rightarrow> wait_net \<Rightarrow> bool" where
  suspends: "\<forall>i k. wn_workers n i = Some k \<longrightarrow> \<not> failed_start k \<Longrightarrow>
     suspend_on_loop env (wn_workers n) ids (wn_parent n, wn_world n) = (reply, p, w) \<Longrightarrow>
     wait_step n (n\<lparr>wn_parent := p, wn_world := w\<rparr>)"
| parent_acts: "current_state p \<noteq> AWAITING_WORKERS \<Longrightarrow> watched_worker_ids p \<subseteq> watched_worker_ids (wn_parent n) \<Longrightarrow>
     wn_resuming n \<or> current_state (wn_parent n) \<noteq> AWAITING_WORKERS \<Longrightarrow>
     wait_step n (n\<lparr>wn_parent := p, wn_resuming := False\<rparr>)"
| watches: "wn_workers n i = Some k \<Longrightarrow> under_way k \<Longrightarrow>
     wait_step n (n\<lparr>wn_parent := (wn_parent n)\<lparr>watched_worker_ids := insert i (watched_worker_ids (wn_parent n))\<rparr>\<rparr>)"
| spawns: "wn_workers n i = None \<Longrightarrow> under_way k \<Longrightarrow>
     wait_step n (n\<lparr>wn_workers := (wn_workers n)(i \<mapsto> k)\<rparr>)"
| worker_moves: "wn_workers n i = Some k \<Longrightarrow> under_way k' \<Longrightarrow>
     wait_step n (n\<lparr>wn_workers := (wn_workers n)(i \<mapsto> k')\<rparr>)"
| worker_settles: "wn_workers n i = Some k \<Longrightarrow> current_state k \<noteq> IDLE_READY \<Longrightarrow> current_state k' = IDLE_READY \<Longrightarrow>
     wait_step n (n\<lparr>wn_workers := (wn_workers n)(i \<mapsto> k'), wn_due := insert i (wn_due n)\<rparr>)"
| start_fails: "wn_workers n i = Some k \<Longrightarrow> failed_start k' \<Longrightarrow>
     wait_step n (n\<lparr>wn_workers := (wn_workers n)(i \<mapsto> k'),
       wn_parent := (wn_parent n)\<lparr>watched_worker_ids := watched_worker_ids (wn_parent n) - {i}\<rparr>,
       wn_resuming := (wn_resuming n \<or> watched_worker_ids (wn_parent n) = {i})\<rparr>)"
| calls_back: "session_id k \<in> wn_due n \<Longrightarrow> on_watched_worker_done (wn_workers n) k (wn_parent n) = (p, resume) \<Longrightarrow>
     wait_step n (n\<lparr>wn_parent := p, wn_due := wn_due n - {session_id k}, wn_resuming := (wn_resuming n \<or> resume)\<rparr>)"
| reaped: "wn_workers n i = Some k \<Longrightarrow> i \<notin> wn_due n \<Longrightarrow> \<not> under_way k \<Longrightarrow>
     wait_step n (n\<lparr>wn_workers := (wn_workers n)(i := None)\<rparr>)"

definition will_call :: "wait_net \<Rightarrow> string \<Rightarrow> bool" where
  "will_call n i \<longleftrightarrow> i \<in> wn_due n \<or> (\<exists>k. wn_workers n i = Some k \<and> under_way k)"

definition wakes :: "wait_net \<Rightarrow> bool" where
  "wakes n \<longleftrightarrow> (\<forall>i \<in> watched_worker_ids (wn_parent n). will_call n i)
     \<and> (current_state (wn_parent n) = AWAITING_WORKERS \<longrightarrow> watched_worker_ids (wn_parent n) \<noteq> {} \<or> wn_resuming n)"

lemma open_under_way:
  assumes "i \<in> still_running ws targets" "\<forall>i k. ws i = Some k \<longrightarrow> \<not> failed_start k"
  shows "\<exists>k. ws i = Some k \<and> under_way k"
proof -
  obtain k where k: "ws i = Some k" "\<not> (current_state k = IDLE_READY \<and> 0 < turn_id k)"
    using assms(1) by (auto simp: still_running_def split: option.splits)
  have "\<not> failed_start k" using assms(2) k(1) by blast
  then show ?thesis using k by (auto simp: under_way_def failed_start_def)
qed

lemma suspend_parent:
  assumes "suspend_on_loop env ws ids (p, w) = (reply, p', w')"
  defines "open_ones \<equiv> still_running ws (set (if ids \<noteq> [] then ids else worker_ids p))"
  shows "p' = p \<or> watched_worker_ids p' = watched_worker_ids p \<union> open_ones \<and> open_ones \<noteq> {}"
proof -
  let ?p1 = "p\<lparr>watched_worker_ids := watched_worker_ids p \<union> open_ones\<rparr>"
  have "p' = p \<or> open_ones \<noteq> {} \<and> begin_wait env (?p1, w) = (p', w')"
    using assms(1) unfolding open_ones_def by (simp add: suspend_on_loop_def Let_def split: if_splits)
  moreover have "begin_wait env (?p1, w) = (p', w') \<Longrightarrow> watched_worker_ids p' = watched_worker_ids ?p1"
    using quiet_watch [of env AWAITING_WORKERS "''workers-dispatched''" None ?p1 w p' w']
    by (cases "current_state p = PROCESSING") (auto simp: begin_wait_def)
  ultimately show ?thesis by auto
qed

lemma stale_unless: "i \<in> watched \<Longrightarrow> i \<notin> stale_workers ws watched \<Longrightarrow> \<exists>k. ws i = Some k \<and> under_way k"
  by (auto simp: stale_workers_def counts_as_finished_def under_way_def split: option.splits)

lemma callback_parent:
  assumes "on_watched_worker_done ws k p = (p', resume)"
  shows "current_state p' = current_state p"
    "session_id k \<notin> watched_worker_ids p \<Longrightarrow> p' = p"
    "session_id k \<in> watched_worker_ids p \<Longrightarrow> watched_worker_ids p' =
       watched_worker_ids p - {session_id k} - stale_workers ws (watched_worker_ids p - {session_id k})"
    "session_id k \<in> watched_worker_ids p \<Longrightarrow> watched_worker_ids p' = {} \<Longrightarrow> current_state p = AWAITING_WORKERS \<Longrightarrow> resume"
  using assms by (auto simp: on_watched_worker_done_def Let_def split: if_splits)

lemma wait_step_keeps: "wait_step n n' \<Longrightarrow> wakes n \<Longrightarrow> wakes n'"
proof (induction rule: wait_step.induct)
  case (suspends n env ids reply p w)
  have "i \<in> still_running (wn_workers n) T \<Longrightarrow> \<exists>k. wn_workers n i = Some k \<and> under_way k" for i T
    using open_under_way suspends(1) by blast
  then show ?case using suspend_parent [OF suspends(2)] suspends(3) by (auto simp: wakes_def will_call_def)
next
  case (calls_back k n p resume)
  show ?case
  proof (cases "session_id k \<in> watched_worker_ids (wn_parent n)")
    case True
    let ?rest = "watched_worker_ids (wn_parent n) - {session_id k}"
    have "i \<in> ?rest - stale_workers (wn_workers n) ?rest \<Longrightarrow> \<exists>k. wn_workers n i = Some k \<and> under_way k" for i
      using stale_unless [of i ?rest "wn_workers n"] by blast
    then show ?thesis
      using callback_parent [OF calls_back(2)] True calls_back(3) by (auto simp: wakes_def will_call_def)
  next
    case False
    then show ?thesis using callback_parent [OF calls_back(2)] calls_back(3) by (auto simp: wakes_def will_call_def)
  qed
qed (auto simp: wakes_def will_call_def)


section \<open>The reaper\<close>

text \<open>The wait is bounded. When all workers a session watches have finished or are gone, whatever became of
  their callbacks, the next pass of the reaper that finds it idle long enough resumes it or brings it home;
  and no session waits longer than twice the idle limit, whatever its workers do.\<close>

theorem reaper_releases_waiting_parent:
  assumes "reap_waiting env ws idle max_idle text (p, w) = (action, p', w')" "current_state p = AWAITING_WORKERS"
    "e_log_ok env" "0 \<le> max_idle"
    "max_idle \<le> idle \<and> stale_workers ws (watched_worker_ids p) = watched_worker_ids p \<or> 2 * max_idle \<le> idle"
  shows "action = Resume_Spawned \<and> watched_worker_ids p' = {} \<or> current_state p' = IDLE_READY
    \<and> (\<forall>t. action = Timed_Out t \<longrightarrow> synthetic_entry t \<in> set (pending_messages p') \<and> watched_worker_ids p' = {})"
proof -
  let ?left = "watched_worker_ids p - stale_workers ws (watched_worker_ids p)"
  let ?p1 = "p\<lparr>watched_worker_ids := ?left\<rparr>"
  have home: "current_state (fst (quiet (transition env IDLE_READY r None (?p1, w)))) = IDLE_READY"
    if "edge AWAITING_WORKERS r = Some IDLE_READY" for r
    using quiet_ok(1) [of ?p1 r IDLE_READY env None w] that assms(2,3) by (metis current_watch prod.collapse)
  consider (spawned) "watched_worker_ids p \<noteq> {}" "?left = {}"
    | (forced) "\<not> (watched_worker_ids p \<noteq> {} \<and> ?left = {})" "?left = {}" "max_idle \<le> idle"
    | (timed) "?left \<noteq> {}" "max_idle * 2 \<le> idle"
    using assms(4,5) by fastforce
  then show ?thesis
  proof cases
    case spawned
    then show ?thesis using assms(1) by (auto simp: reap_waiting_def Let_def touch_def)
  next
    case forced
    then show ?thesis using assms(1) home [OF wait_edges(4)]
      by (auto simp: reap_waiting_def Let_def split: prod.splits if_splits)
  next
    case timed
    then show ?thesis using assms(1) home [OF wait_edges(5)]
      by (auto simp: reap_waiting_def Let_def enqueue_def touch_def current_state_def split: prod.splits if_splits)
  qed
qed

section \<open>The resume\<close>

lemma synthetic_admitted: "admit_continuation env s q (synthetic_entry t)"
  by (simp add: admit_continuation_def synthetic_entry_def)

lemma pop_admitted_synthetic:
  "synthetic_entry t \<in> set q \<Longrightarrow> pop_admitted env s q m = (e, rest, m') \<Longrightarrow>
   e = Some (synthetic_entry t) \<or> e \<noteq> None \<and> synthetic_entry t \<in> set rest"
  by (induction env s q m arbitrary: e rest m' rule: pop_admitted.induct) (auto simp: synthetic_admitted split: if_splits)

lemma process_pending_synthetic:
  assumes "process_pending env ready (s, m) = (s', m')" "synthetic_entry t \<in> set (pending_messages s)"
  shows "synthetic_entry t \<in> set (pending_messages s') \<or> task s' = Task_Running"
proof -
  let ?m = "reap_pending_execs s EXEC_DROPPED None None m"
  show ?thesis
  proof (cases "a_down env 0 \<or> a_down env 1 \<or> pending_messages s = [] \<or> current_state s \<notin> ready \<or> \<not> a_registered env
      \<or> turn_in_flight (a_own_task env) s")
    case True
    then have "s' = s" using assms(1) by (cases "a_down env 0 \<or> a_down env 1") (simp_all add: process_pending_def)
    then show ?thesis using assms(2) by simp
  next
    case False
    obtain e rest m1 where pop: "pop_admitted env s (pending_messages s) ?m = (e, rest, m1)" by (rule prod_cases3)
    have "e = None \<Longrightarrow> s' = s\<lparr>pending_messages := rest\<rparr>"
      using assms(1) False pop by (simp add: process_pending_def)
    moreover have "e = Some x \<Longrightarrow> task s' = Task_Running" for x
      using assms(1) False pop by (auto simp: process_pending_def start_turn_task_def Let_def split_beta)
    ultimately show ?thesis using pop_admitted_synthetic [OF assms(2) pop] by (cases e) auto
  qed
qed

text \<open>A resume that finds its parent as it left it reaches it. Unless admission closes or the wait is
  cancelled, the message for a parent that waits, is idle, or has a turn in flight is queued for it or a turn
  is started.\<close>

theorem resume_reaches_parent:
  assumes "resume_dispatch env aenv False seen txt (p, w, m) = (how, p', w', m')"
    "current_state p = seen" "\<not> cancel_requested p"
    "seen \<in> {AWAITING_WORKERS, IDLE_READY} \<or> turn_in_flight (a_own_task aenv) p"
  shows "how \<in> {Queued_Behind_Turn, Turn_Started, Queued_And_Drained}
    \<and> (synthetic_entry txt \<in> set (pending_messages p') \<or> task p' = Task_Running)"
proof (cases "turn_in_flight (a_own_task aenv) p")
  case True
  then show ?thesis using assms by (auto simp: resume_dispatch_def enqueue_def)
next
  case False
  then consider "seen = AWAITING_WORKERS" | "seen = IDLE_READY" using assms(4) by auto
  then show ?thesis
  proof cases
    case 1
    then show ?thesis using assms False by (auto simp: resume_dispatch_def start_turn_task_def split: prod.splits)
  next
    case 2
    have "synthetic_entry txt \<in> set (pending_messages (enqueue (synthetic_entry txt) p))" by (simp add: enqueue_def)
    from process_pending_synthetic [OF _ this] show ?thesis
      using assms False 2 by (auto simp: resume_dispatch_def split: prod.splits)
  qed
qed


text \<open>A worker that has not begun passes for finished. The callback of another worker takes a worker whose
  task was just created out of the watch set, and resumes the parent before that worker has done anything.\<close>

theorem unstarted_worker_passes_for_finished:
  assumes "session_id k \<in> watched_worker_ids p" "termination_reason k \<noteq> Some ''cancelled''"
    "\<And>i. i \<in> watched_worker_ids p - {session_id k} \<Longrightarrow>
       \<exists>b. ws i = Some b \<and> current_state b = IDLE_READY \<and> task b = Task_Running \<and> turn_id b = 0"
  shows "on_watched_worker_done ws k p = (p\<lparr>watched_worker_ids := {}\<rparr>, True)"
proof -
  let ?rest = "watched_worker_ids p - {session_id k}"
  have "stale_workers ws ?rest = ?rest"
  proof (intro equalityI subsetI)
    fix i assume i: "i \<in> ?rest"
    then obtain b where "ws i = Some b" "current_state b = IDLE_READY" "task b = Task_Running" using assms(3) by blast
    then show "i \<in> stale_workers ws ?rest" using i by (simp add: stale_workers_def counts_as_finished_def)
  qed (simp add: stale_workers_def)
  then show ?thesis using assms(1,2) by (simp add: on_watched_worker_done_def Let_def)
qed

section \<open>A cancelled wait\<close>

text \<open>The release brings the parent home and leaves the mark of the cancellation on it, so every later resume of
  the idle parent is skipped until a prompt takes the mark off.\<close>

lemma cancelled_wait_leaves_mark:
  assumes "settle_cancelled env (p, w) = (done_it, p', w')" "current_state p = AWAITING_WORKERS" "e_log_ok env" "cancel_requested p"
  shows "current_state p' = IDLE_READY \<and> cancel_requested p' \<and> watched_worker_ids p' = {}
    \<and> fst (resume_enter False env2 (p', w')) = Some Wait_Cancelled"
proof -
  obtain r p1 w1 where t: "transition env CANCELLING ''cancel-requested'' (Some CANCELLED) (p, w) = (r, p1, w1)"
    by (cases "transition env CANCELLING ''cancel-requested'' (Some CANCELLED) (p, w)") auto
  have c: "r = Returned True" "current_state p1 = CANCELLING" "cancel_requested p1 = cancel_requested p"
    using transition_ok [OF _ assms(3) t] wait_edges(2) assms(2) by simp_all
  obtain r2 p2 w2 where t2: "transition env IDLE_READY ''cancel-complete'' None (p1, w1) = (r2, p2, w2)"
    by (cases "transition env IDLE_READY ''cancel-complete'' None (p1, w1)") auto
  have d: "current_state p2 = IDLE_READY" "cancel_requested p2 = cancel_requested p1"
    using transition_ok [OF _ assms(3) t2] wait_edges(3) c(2) by simp_all
  obtain p3 w3 where e: "emit_event (e_wall env) (Other_Event ''turn.complete'' []) None (p2\<lparr>watched_worker_ids := {}\<rparr>, w2) = (p3, w3)"
    by fastforce
  have "watched_worker_ids p3 = {}"
    using e emit_event_frame [of "e_wall env" "Other_Event ''turn.complete'' []" None "p2\<lparr>watched_worker_ids := {}\<rparr>" w2] by auto
  moreover have "p' = p3" using assms(1,2) t t2 c(1) e by (simp add: settle_cancelled_def quiet_def)
  ultimately show ?thesis using emit_keeps_session [OF e] d c assms(4) by (simp add: resume_enter_def)
qed

text \<open>A suspension while a pause is pending says that the session is suspended and leaves its state.\<close>

lemma suspension_under_pause:
  assumes "current_state p = PAUSE_REQUESTED" "ids \<noteq> []" "still_running ws (set ids) \<noteq> {}"
  shows "suspend_on_loop env ws ids (p, w) =
    (Session_Suspended (card (still_running ws (set ids))) (card (set ids) - card (still_running ws (set ids))),
     p\<lparr>watched_worker_ids := watched_worker_ids p \<union> still_running ws (set ids)\<rparr>, w)"
  using assms by (auto simp: suspend_on_loop_def begin_wait_def Let_def)

section \<open>The message\<close>

text \<open>The workers named for inspection are those listed whose run did not end well.\<close>

lemma inspected_workers:
  "set (rm_inspect (build_resume_message ws rec rows p)) =
     {i \<in> set (worker_inventory rows p). needs_inspection (worker_status_of ws rec i)}"
  by (auto simp: build_resume_message_def Let_def image_iff)

lemma inventory_complete: "set (worker_inventory rows p) = set (worker_ids p) \<union> set rows"
proof -
  have "set (foldl (\<lambda>ids i. if i \<in> set ids then ids else ids @ [i]) xs rows) = set xs \<union> set rows" for xs
    by (induction rows arbitrary: xs) auto
  then show ?thesis by (simp add: worker_inventory_def)
qed

section \<open>Examples\<close>

definition demo_kid :: "string \<Rightarrow> sstate \<Rightarrow> int \<Rightarrow> agent_session" where
  "demo_kid i a n = (new_session i 0)\<lparr>state_v2 := Some a, task := Task_Running, turn_id := n\<rparr>"

definition demo_waiting :: "string set \<Rightarrow> agent_session" where
  "demo_waiting watched = (demo_at AWAITING_WORKERS)\<lparr>task := Task_Done, watched_worker_ids := watched\<rparr>"

lemma demo_kids [simp]:
  "session_id (demo_kid i a n) = i" "current_state (demo_kid i a n) = a" "turn_id (demo_kid i a n) = n"
  "task (demo_kid i a n) = Task_Running" "termination_reason (demo_kid i a n) = None"
  by (simp_all add: demo_kid_def new_session_def current_state_def)

lemma demo_waits [simp]:
  "current_state (demo_waiting x) = AWAITING_WORKERS" "watched_worker_ids (demo_waiting x) = x"
  "\<not> cancel_requested (demo_waiting x)" "task (demo_waiting x) = Task_Done"
  by (simp_all add: demo_waiting_def demo_at_def new_session_def current_state_def)

definition demo_net :: wait_net where
  "demo_net = \<lparr>wn_parent = demo_at PROCESSING, wn_workers = [''k'' \<mapsto> demo_kid ''k'' PROCESSING 1], wn_due = {},
     wn_resuming = False, wn_world = empty_world\<rparr>"

lemma demo_suspend:
  "\<exists>r p w. suspend_on_loop demo_env (wn_workers demo_net) [''k''] (wn_parent demo_net, wn_world demo_net) = (r, p, w)
     \<and> current_state p = AWAITING_WORKERS"
proof -
  let ?p1 = "(demo_at PROCESSING)\<lparr>watched_worker_ids := watched_worker_ids (demo_at PROCESSING) \<union> {''k''}\<rparr>"
  obtain p w where t: "quiet (transition demo_env AWAITING_WORKERS ''workers-dispatched'' None (?p1, empty_world)) = (p, w)"
    by fastforce
  have "still_running [''k'' \<mapsto> demo_kid ''k'' PROCESSING 1] {''k''} = {''k''}" by (auto simp: still_running_def)
  then show ?thesis using t quiet_ok(1) [OF _ _ t] wait_edges(1)
    by (simp add: suspend_on_loop_def demo_net_def begin_wait_def Let_def)
qed


lemma reaper_releases_waiting_parent_witness:
  "current_state (fst (snd (reap_waiting demo_env (\<lambda>_. None) 600 300 (\<lambda>_ _. ''late'') (demo_waiting {}, empty_world)))) = IDLE_READY
   \<or> fst (reap_waiting demo_env (\<lambda>_. None) 600 300 (\<lambda>_ _. ''late'') (demo_waiting {}, empty_world)) = Resume_Spawned"
proof -
  obtain a p w where r: "reap_waiting demo_env (\<lambda>_. None) 600 300 (\<lambda>_ _. ''late'') (demo_waiting {}, empty_world) = (a, p, w)"
    by (rule prod_cases3)
  show ?thesis using reaper_releases_waiting_parent [OF r] by (simp add: r) blast
qed

definition demo_adm :: adm_env where
  "demo_adm = \<lparr>a_down = (\<lambda>_. False), a_own_task = False, a_max_pending = 10, a_now = 0, a_wall = 0, a_runner = True, a_answered = None, a_orphans = [],
     a_registered = True, a_goal_status = (\<lambda>_. None), a_claim = (\<lambda>_. False)\<rparr>"

lemma resume_reaches_parent_witness:
  "fst (resume_dispatch demo_env demo_adm False AWAITING_WORKERS ''done'' (demo_waiting {}, empty_world, new_manager))
     \<in> {Queued_Behind_Turn, Turn_Started, Queued_And_Drained}"
proof -
  obtain how p w m where r: "resume_dispatch demo_env demo_adm False AWAITING_WORKERS ''done'' (demo_waiting {}, empty_world, new_manager)
     = (how, p, w, m)" by (rule prod_cases4)
  show ?thesis using resume_reaches_parent [OF r] by (simp add: r)
qed


lemma unstarted_worker_passes_for_finished_witness:
  "on_watched_worker_done [''b'' \<mapsto> demo_kid ''b'' IDLE_READY 0] (demo_kid ''a'' IDLE_READY 1) (demo_waiting {''a'', ''b''})
     = ((demo_waiting {''a'', ''b''})\<lparr>watched_worker_ids := {}\<rparr>, True)"
  by (rule unstarted_worker_passes_for_finished) auto

end
