(* ===== verification/Goals.thy ===== *)
theory Goals
  imports Worker_Wait Gates
begin

text \<open>
  Goals that outlive a turn and the continuations they pay for: the tables \<open>session_goals\<close> and
  \<open>goal_continuations\<close> with the functions of \<open>db/models.py\<close> over them, the tools of
  \<open>core/tools/builtin/goal_tools.py\<close>, and what \<open>sessions/manager.py\<close> does at the end of a turn, at the
  dispatch of a queued continuation and at boot.

  A function of the database is one transaction, so it is one definition.  A table is the list of its
  rows in the order of their ids.  Times are left out but for the time a goal has run.
\<close>

section \<open>The tables\<close>

datatype goal_status = G_Active | G_Paused | G_Budget_Limited | G_Complete | G_Error

record goal =
  go_id :: nat
  go_session :: string
  go_objective :: string
  go_status :: goal_status
  go_token_budget :: "int option"
  go_time_budget :: "int option"
  go_continuation_budget :: int
  go_used :: int

datatype outbox_status = O_Pending | O_Claimed | O_Dispatched | O_Abandoned

record outbox_row =
  ob_id :: nat
  ob_goal :: nat
  ob_session :: string
  ob_ordinal :: int
  ob_status :: outbox_status
  ob_prompt :: string
  ob_checkpoint :: "string option"
  ob_attempts :: nat
  ob_recovered :: bool

record goal_db =
  db_goals :: "goal list"
  db_outbox :: "outbox_row list"
  db_next_goal :: nat
  db_next_row :: nat

definition empty_db :: goal_db where
  "empty_db = \<lparr>db_goals = [], db_outbox = [], db_next_goal = 1, db_next_row = 1\<rparr>"

definition LIVE :: "goal_status list" where
  "LIVE = [G_Active, G_Paused, G_Budget_Limited]"

definition live_goals :: "string \<Rightarrow> goal_db \<Rightarrow> goal list" where
  "live_goals sid d = filter (\<lambda>g. go_session g = sid \<and> go_status g \<in> set LIVE) (db_goals d)"

definition get_active_goal :: "string \<Rightarrow> goal_db \<Rightarrow> goal option" where
  "get_active_goal sid d = (case rev (live_goals sid d) of [] \<Rightarrow> None | g # _ \<Rightarrow> Some g)"

definition get_goal :: "nat \<Rightarrow> goal_db \<Rightarrow> goal option" where
  "get_goal i d = find (\<lambda>g. go_id g = i) (db_goals d)"

definition get_row :: "nat \<Rightarrow> goal_db \<Rightarrow> outbox_row option" where
  "get_row i d = find (\<lambda>r. ob_id r = i) (db_outbox d)"

definition map_goal :: "nat \<Rightarrow> (goal \<Rightarrow> goal) \<Rightarrow> goal_db \<Rightarrow> goal_db" where
  "map_goal i f d = d\<lparr>db_goals := map (\<lambda>g. if go_id g = i then f g else g) (db_goals d)\<rparr>"

definition map_row :: "nat \<Rightarrow> (outbox_row \<Rightarrow> outbox_row) \<Rightarrow> goal_db \<Rightarrow> goal_db" where
  "map_row i f d = d\<lparr>db_outbox := map (\<lambda>r. if ob_id r = i then f r else r) (db_outbox d)\<rparr>"

text \<open>One live goal per session.\<close>

definition create_goal ::
    "string \<Rightarrow> string \<Rightarrow> int option \<Rightarrow> int option \<Rightarrow> int \<Rightarrow> goal_db \<Rightarrow> nat option \<times> goal_db" where
  "create_goal sid objective tokens time' continuations d =
     (if live_goals sid d \<noteq> [] then (None, d)
      else (Some (db_next_goal d),
        d\<lparr>db_goals := db_goals d @ [\<lparr>go_id = db_next_goal d, go_session = sid, go_objective = take 4000 objective,
            go_status = G_Active, go_token_budget = tokens, go_time_budget = time',
            go_continuation_budget = continuations, go_used = 0\<rparr>],
          db_next_goal := db_next_goal d + 1\<rparr>))"

text \<open>The columns that a caller sets; a field that is \<^const>\<open>None\<close> is not mentioned.\<close>

record goal_change =
  gc_objective :: "string option"
  gc_status :: "goal_status option"
  gc_tokens :: "int option option"
  gc_time :: "int option option"
  gc_continuations :: "int option"

definition no_change :: goal_change where
  "no_change = \<lparr>gc_objective = None, gc_status = None, gc_tokens = None, gc_time = None, gc_continuations = None\<rparr>"

definition given :: "'a option \<Rightarrow> 'a \<Rightarrow> 'a" where
  "given x old = (case x of Some v \<Rightarrow> v | None \<Rightarrow> old)"

definition change_goal :: "goal_change \<Rightarrow> goal \<Rightarrow> goal" where
  "change_goal c g = g\<lparr>go_objective := given (gc_objective c) (go_objective g), go_status := given (gc_status c) (go_status g),
     go_token_budget := given (gc_tokens c) (go_token_budget g), go_time_budget := given (gc_time c) (go_time_budget g),
     go_continuation_budget := given (gc_continuations c) (go_continuation_budget g)\<rparr>"

definition update_goal :: "nat \<Rightarrow> goal_change \<Rightarrow> goal_db \<Rightarrow> goal_db" where
  "update_goal i c d = map_goal i (change_goal c) d"

text \<open>At startup, goals whose session is gone.\<close>

definition reconcile_orphan_goals :: "string set \<Rightarrow> goal_db \<Rightarrow> nat \<times> goal_db" where
  "reconcile_orphan_goals sessions d =
     (let orphan = (\<lambda>g. go_status g \<in> set LIVE \<and> go_session g \<notin> sessions) in
      (length (filter orphan (db_goals d)),
       d\<lparr>db_goals := map (\<lambda>g. if orphan g then g\<lparr>go_status := G_Error\<rparr> else g) (db_goals d)\<rparr>))"

section \<open>The outbox\<close>

definition CONTINUATION_RECOVERY_LIMIT :: nat where "CONTINUATION_RECOVERY_LIMIT = 3"

text \<open>The debit and the row are one transaction; an ordinal that is taken ends it without either.\<close>

definition enqueue_goal_continuation ::
    "string \<Rightarrow> nat \<Rightarrow> int \<Rightarrow> (int \<Rightarrow> int \<Rightarrow> string) \<Rightarrow> string option \<Rightarrow> goal_db \<Rightarrow> outbox_row option \<times> goal_db" where
  "enqueue_goal_continuation sid gid budget prompt_for checkpoint d =
     (case find (\<lambda>g. go_id g = gid \<and> go_session g = sid) (db_goals d) of
        None \<Rightarrow> (None, d)
      | Some g \<Rightarrow>
          let n = go_used g + 1 in
          if go_status g \<noteq> G_Active \<or> budget \<le> 0 \<or> budget \<le> go_used g then (None, d)
          else if list_ex (\<lambda>r. ob_goal r = gid \<and> ob_ordinal r = n) (db_outbox d) then (None, d)
          else
            let row = \<lparr>ob_id = db_next_row d, ob_goal = gid, ob_session = sid, ob_ordinal = n, ob_status = O_Pending,
                       ob_prompt = prompt_for n budget, ob_checkpoint = checkpoint, ob_attempts = 0, ob_recovered = False\<rparr>
            in (Some row, (map_goal gid (\<lambda>g. g\<lparr>go_used := n\<rparr>) d)\<lparr>db_outbox := db_outbox d @ [row], db_next_row := db_next_row d + 1\<rparr>))"

definition claim_goal_continuation :: "nat \<Rightarrow> goal_db \<Rightarrow> bool \<times> goal_db" where
  "claim_goal_continuation i d =
     (if list_ex (\<lambda>r. ob_id r = i \<and> ob_status r = O_Pending) (db_outbox d)
      then (True, map_row i (\<lambda>r. if ob_status r = O_Pending
                     then r\<lparr>ob_status := O_Claimed, ob_attempts := ob_attempts r + 1\<rparr> else r) d)
      else (False, d))"

definition open_row :: "outbox_row \<Rightarrow> bool" where
  "open_row r \<longleftrightarrow> ob_status r = O_Pending \<or> ob_status r = O_Claimed"

text \<open>\<open>dispatched\<close> says which of the two settlements it is.\<close>

definition settle_goal_continuation :: "nat \<Rightarrow> bool \<Rightarrow> goal_db \<Rightarrow> goal_db" where
  "settle_goal_continuation i dispatched d =
     map_row i (\<lambda>r. if open_row r then r\<lparr>ob_status := (if dispatched then O_Dispatched else O_Abandoned)\<rparr> else r) d"

text \<open>At startup: an open row is given up after too many attempts, a claimed one comes back marked.\<close>

definition recover_row :: "outbox_row \<Rightarrow> outbox_row" where
  "recover_row r =
     (if \<not> open_row r then r
      else if CONTINUATION_RECOVERY_LIMIT \<le> ob_attempts r then r\<lparr>ob_status := O_Abandoned\<rparr>
      else if ob_status r = O_Claimed then r\<lparr>ob_status := O_Pending, ob_recovered := True\<rparr>
      else r)"

definition recover_abandoned_continuations :: "goal_db \<Rightarrow> outbox_row list \<times> goal_db" where
  "recover_abandoned_continuations d =
     (map recover_row (filter (\<lambda>r. open_row r \<and> ob_attempts r < CONTINUATION_RECOVERY_LIMIT) (db_outbox d)),
      d\<lparr>db_outbox := map recover_row (db_outbox d)\<rparr>)"

section \<open>The tools\<close>

datatype goal_reply =
    No_Session | Objective_Too_Short | Already_Live | Created nat
  | No_Live_Goal | Bad_Status | Nothing_To_Update | Updated nat
  | Gates_Failing "string list" | Completed nat

definition nonzero :: "int \<Rightarrow> int option" where
  "nonzero n = (if n = 0 then None else Some n)"

text \<open>A tool returns the reply, the database, and what becomes of the session's note of its goal.\<close>

definition goal_create ::
    "string \<Rightarrow> string \<Rightarrow> int \<Rightarrow> int \<Rightarrow> int \<Rightarrow> int option \<times> goal_db \<Rightarrow> goal_reply \<times> int option \<times> goal_db" where
  "goal_create sid objective tokens time' continuations = (\<lambda>(note, d).
     if sid = [] then (No_Session, note, d)
     else if length (py_strip objective) < 10 then (Objective_Too_Short, note, d)
     else (case create_goal sid (py_strip objective) (nonzero tokens) (nonzero time') continuations d of
         (None, d') \<Rightarrow> (Already_Live, note, d')
       | (Some i, d') \<Rightarrow> (Created i, Some (int i), d')))"

definition status_of_text :: "string \<Rightarrow> goal_status option" where
  "status_of_text t = (if t = ''active'' then Some G_Active else if t = ''paused'' then Some G_Paused else None)"

definition goal_update ::
    "string \<Rightarrow> string \<Rightarrow> string \<Rightarrow> int \<Rightarrow> int \<Rightarrow> int \<Rightarrow> goal_db \<Rightarrow> goal_reply \<times> goal_db" where
  "goal_update sid objective status tokens time' continuations d =
     (case (if sid = [] then None else get_active_goal sid d) of
        None \<Rightarrow> (No_Live_Goal, d)
      | Some g \<Rightarrow>
          if status \<noteq> [] \<and> status_of_text status = None then (Bad_Status, d)
          else
            let c = \<lparr>gc_objective = (if py_strip objective = [] then None else Some (py_strip objective)),
                     gc_status = (if status = [] then None else status_of_text status),
                     gc_tokens = (if tokens < 0 then None else Some (nonzero tokens)),
                     gc_time = (if time' < 0 then None else Some (nonzero time')),
                     gc_continuations = (if continuations < 0 then None else Some continuations)\<rparr>
            in if c = no_change then (Nothing_To_Update, d) else (Updated (go_id g), update_goal (go_id g) c d))"

text \<open>\<open>results\<close> are the runs of the gates of the goal, nothing when the feature is off.\<close>

definition goal_complete :: "string \<Rightarrow> gate_result list \<Rightarrow> int option \<times> goal_db \<Rightarrow> goal_reply \<times> int option \<times> goal_db" where
  "goal_complete sid results = (\<lambda>(note, d).
     case (if sid = [] then None else get_active_goal sid d) of
       None \<Rightarrow> (No_Live_Goal, note, d)
     | Some g \<Rightarrow>
         if failing results \<noteq> [] then (Gates_Failing (map g_name (failing results)), note, d)
         else (Completed (go_id g), None, update_goal (go_id g) (no_change\<lparr>gc_status := Some G_Complete\<rparr>) d))"

section \<open>The end of a turn\<close>

definition CONTINUABLE :: "string list" where
  "CONTINUABLE = [''complete'', ''round_ceiling'', ''budget_exhausted'']"

datatype limit_reason = Tokens_Spent int int | Time_Spent int int | Continuations_Spent int int

text \<open>The budget that is spent first, of those a goal has.  \<open>tokens\<close> and \<open>elapsed\<close> are what it used; a goal with a
  time budget has a start.\<close>

definition spent_budget :: "int \<Rightarrow> rat \<Rightarrow> goal \<Rightarrow> limit_reason option" where
  "spent_budget tokens elapsed g =
     (if (case go_token_budget g of Some b \<Rightarrow> b \<noteq> 0 \<and> b \<le> tokens | None \<Rightarrow> False)
      then Some (Tokens_Spent tokens (the (go_token_budget g)))
      else if (case go_time_budget g of Some b \<Rightarrow> b \<noteq> 0 \<and> of_int b \<le> elapsed | None \<Rightarrow> False)
      then Some (Time_Spent \<lfloor>elapsed\<rfloor> (the (go_time_budget g)))
      else if 0 < go_continuation_budget g \<and> go_continuation_budget g \<le> go_used g
      then Some (Continuations_Spent (go_used g) (go_continuation_budget g))
      else None)"

definition limit_goal :: "goal \<Rightarrow> goal_db \<Rightarrow> goal_db" where
  "limit_goal g d = update_goal (go_id g) (no_change\<lparr>gc_status := Some G_Budget_Limited\<rparr>) d"

definition continuation_entry :: "string \<Rightarrow> nat \<Rightarrow> pending_message" where
  "continuation_entry t i = \<lparr>message = t, system_prompt = None, pre_saved = False, queued_at = 0, msg_id = None,
     is_goal_continuation = True, continuation_id = Some (int i)\<rparr>"

datatype continuation_end = Not_Due | No_Active_Goal | Limited limit_reason | User_Drives | Refused_At_Outbox | Continued nat int

text \<open>What the end of a turn reads: the goal when it is looked up, and, after the awaits in between, the database
  that the transaction meets.  \<open>between\<close> is what others do to it meanwhile.\<close>

definition maybe_enqueue_goal_continuation ::
    "int \<Rightarrow> rat \<Rightarrow> (goal_db \<Rightarrow> goal_db) \<Rightarrow> (goal \<Rightarrow> int \<Rightarrow> int \<Rightarrow> string) \<Rightarrow> string option
     \<Rightarrow> agent_session \<times> goal_db \<Rightarrow> continuation_end \<times> agent_session \<times> goal_db" where
  "maybe_enqueue_goal_continuation tokens elapsed between prompt_for checkpoint = (\<lambda>(s, d0).
     if current_state s \<noteq> FINALIZING \<or> (case termination_reason s of Some r \<Rightarrow> r \<notin> set CONTINUABLE | None \<Rightarrow> True)
        \<or> pending_messages s \<noteq> [] then (Not_Due, s, d0)
     else (case get_active_goal (session_id s) d0 of
         None \<Rightarrow> (No_Active_Goal, s, d0)
       | Some g \<Rightarrow>
           if go_status g \<noteq> G_Active then (No_Active_Goal, s, d0)
           else (case spent_budget tokens elapsed g of
               Some why \<Rightarrow> (Limited why, s, limit_goal g (between d0))
             | None \<Rightarrow>
                 if go_continuation_budget g \<le> 0 then (User_Drives, s, d0)
                 else (case enqueue_goal_continuation (session_id s) (go_id g) (go_continuation_budget g) (prompt_for g) checkpoint (between d0) of
                     (None, d) \<Rightarrow> (Refused_At_Outbox, s, d)
                   | (Some row, d) \<Rightarrow> (Continued (ob_id row) (ob_ordinal row), enqueue (continuation_entry (ob_prompt row) (ob_id row)) s, d)))))"

section \<open>Dispatch and recovery\<close>

text \<open>\<open>_admit_continuation\<close> with the table it reads: the entry is claimed, or its row is settled as abandoned.\<close>

definition admit_from_outbox :: "pending_message list \<Rightarrow> pending_message \<Rightarrow> agent_session \<times> goal_db \<Rightarrow> bool \<times> goal_db" where
  "admit_from_outbox queue entry = (\<lambda>(s, d).
     case continuation_id entry of
       None \<Rightarrow> (True, d)
     | Some c \<Rightarrow>
         let i = nat c;
             active = (case get_row i d of None \<Rightarrow> False
               | Some r \<Rightarrow> (case get_goal (ob_goal r) d of Some g \<Rightarrow> go_status g = G_Active | None \<Rightarrow> False)) in
         if cancel_requested s \<or> \<not> pause_set s \<or> \<not> active \<or> list_ex (\<lambda>e. msg_id e \<noteq> None) queue
         then (False, settle_goal_continuation i False d)
         else claim_goal_continuation i d)"

text \<open>The boot sweep for one row.  The session is \<^const>\<open>None\<close> when it is gone; \<open>waiting\<close> says that user rows have no
  answer.\<close>

definition offer_again ::
    "(string option \<Rightarrow> string) \<Rightarrow> bool \<Rightarrow> agent_session option \<Rightarrow> outbox_row \<Rightarrow> goal_db \<Rightarrow> bool \<times> agent_session option \<times> goal_db" where
  "offer_again preamble waiting so r d =
     (let give_up = (False, so, settle_goal_continuation (ob_id r) False d) in
      case get_goal (ob_goal r) d of
        None \<Rightarrow> give_up
      | Some g \<Rightarrow>
          if go_status g \<noteq> G_Active then give_up
          else (case so of
              None \<Rightarrow> give_up
            | Some s \<Rightarrow>
                if cancel_requested s \<or> \<not> pause_set s then give_up
                else if list_ex (\<lambda>e. continuation_id e = Some (int (ob_id r))) (pending_messages s) then (False, so, d)
                else if waiting then give_up
                else (True, Some (enqueue (continuation_entry
                        ((if ob_recovered r then preamble (ob_checkpoint r) else []) @ ob_prompt r) (ob_id r)) s), d)))"

end
