(* ===== verification/Goals_Proofs.thy ===== *)
theory Goals_Proofs
  imports Goals
begin

text \<open>
  The ledger of the continuations under every order of its transactions, what a dispatch needs, and
  what becomes of the rows that a dead process left.
\<close>

section \<open>The transactions as steps\<close>

datatype db_op =
    Op_Create string string int int int
  | Op_Update string string string int int int
  | Op_Complete string "gate_result list"
  | Op_Limit string
  | Op_Orphans "string set"
  | Op_Enqueue string nat int "int \<Rightarrow> int \<Rightarrow> string" "string option"
  | Op_Claim nat
  | Op_Settle nat bool
  | Op_Recover

fun db_step :: "goal_db \<Rightarrow> db_op \<Rightarrow> goal_db" where
  "db_step d (Op_Create sid t a b c) = snd (snd (goal_create sid t a b c (None, d)))"
| "db_step d (Op_Update sid t st a b c) = snd (goal_update sid t st a b c d)"
| "db_step d (Op_Complete sid rs) = snd (snd (goal_complete sid rs (None, d)))"
| "db_step d (Op_Limit sid) = (case get_active_goal sid d of Some g \<Rightarrow> limit_goal g d | None \<Rightarrow> d)"
| "db_step d (Op_Orphans ss) = snd (reconcile_orphan_goals ss d)"
| "db_step d (Op_Enqueue sid g b f c) = snd (enqueue_goal_continuation sid g b f c d)"
| "db_step d (Op_Claim i) = snd (claim_goal_continuation i d)"
| "db_step d (Op_Settle i b) = settle_goal_continuation i b d"
| "db_step d Op_Recover = snd (recover_abandoned_continuations d)"

section \<open>The goals\<close>

text \<open>A change of the rows that keeps ids, sessions and what is used.\<close>

definition same_goal :: "goal \<Rightarrow> goal \<Rightarrow> bool" where
  "same_goal g g' \<longleftrightarrow> go_id g' = go_id g \<and> go_session g' = go_session g \<and> go_used g' = go_used g"

definition goals_ok :: "goal_db \<Rightarrow> bool" where
  "goals_ok d \<longleftrightarrow> distinct (map go_id (db_goals d)) \<and> (\<forall>g \<in> set (db_goals d). go_id g < db_next_goal d)
     \<and> (\<forall>sid. length (live_goals sid d) \<le> 1)"

lemma live_filter_map:
  assumes "\<And>g. same_goal g (f g)" "\<And>g. g \<in> set gs \<Longrightarrow> go_status (f g) \<in> set LIVE \<Longrightarrow> go_status g \<in> set LIVE"
  shows "length (filter (\<lambda>g. go_session g = sid \<and> go_status g \<in> set LIVE) (map f gs))
    \<le> length (filter (\<lambda>g. go_session g = sid \<and> go_status g \<in> set LIVE) gs)"
  using assms(2)
proof (induction gs)
  case (Cons g gs)
  then show ?case using assms(1) [of g] by (auto simp: same_goal_def)
qed simp

lemma goals_ok_map:
  assumes "goals_ok d" "\<And>g. same_goal g (f g)" "\<And>g. g \<in> set (db_goals d) \<Longrightarrow> go_status (f g) \<in> set LIVE \<Longrightarrow> go_status g \<in> set LIVE"
  shows "goals_ok (d\<lparr>db_goals := map f (db_goals d)\<rparr>)"
proof -
  have ids: "map go_id (map f (db_goals d)) = map go_id (db_goals d)" using assms(2) by (simp add: same_goal_def)
  have "length (live_goals sid (d\<lparr>db_goals := map f (db_goals d)\<rparr>)) \<le> length (live_goals sid d)" for sid
    using live_filter_map [of f "db_goals d" sid] assms(2,3) by (simp add: live_goals_def)
  then have "length (live_goals sid (d\<lparr>db_goals := map f (db_goals d)\<rparr>)) \<le> 1" for sid
    using assms(1) le_trans unfolding goals_ok_def by blast
  moreover have "\<forall>g \<in> set (map f (db_goals d)). go_id g < db_next_goal d"
    using assms(1,2) by (auto simp: goals_ok_def same_goal_def)
  ultimately show ?thesis using assms(1) ids by (simp add: goals_ok_def del: map_map)
qed

lemma goals_ok_rows [simp]: "goals_ok (d\<lparr>db_outbox := x\<rparr>) = goals_ok d" "goals_ok (d\<lparr>db_outbox := x, db_next_row := n\<rparr>) = goals_ok d"
  by (simp_all add: goals_ok_def live_goals_def)

lemma get_active_live: "get_active_goal sid d = Some g \<Longrightarrow> g \<in> set (db_goals d) \<and> go_session g = sid \<and> go_status g \<in> set LIVE"
proof -
  assume "get_active_goal sid d = Some g"
  then have "g \<in> set (rev (live_goals sid d))" by (auto simp: get_active_goal_def split: list.splits)
  then show ?thesis by (simp add: live_goals_def)
qed

text \<open>Changing the live goal of a session cannot make a second one.\<close>

lemma goals_ok_update:
  assumes "goals_ok d" "get_active_goal sid d = Some g"
  shows "goals_ok (update_goal (go_id g) c d)"
  unfolding update_goal_def map_goal_def
proof (rule goals_ok_map [OF assms(1)])
  fix x
  show "same_goal x (if go_id x = go_id g then change_goal c x else x)" by (simp add: same_goal_def change_goal_def)
  assume x: "x \<in> set (db_goals d)" "go_status (if go_id x = go_id g then change_goal c x else x) \<in> set LIVE"
  have "go_id x = go_id g \<Longrightarrow> x = g"
    using x(1) get_active_live [OF assms(2)] assms(1) by (auto simp: goals_ok_def distinct_map dest: inj_onD)
  then show "go_status x \<in> set LIVE" using x(2) get_active_live [OF assms(2)] by (cases "go_id x = go_id g") auto
qed

lemma goals_ok_create:
  assumes "goals_ok d" "create_goal sid t a b c d = (i, d')"
  shows "goals_ok d'"
proof (cases "live_goals sid d = []")
  case True
  let ?g = "\<lparr>go_id = db_next_goal d, go_session = sid, go_objective = take 4000 t, go_status = G_Active, go_token_budget = a,
    go_time_budget = b, go_continuation_budget = c, go_used = 0\<rparr>"
  have d': "d' = d\<lparr>db_goals := db_goals d @ [?g], db_next_goal := db_next_goal d + 1\<rparr>" using assms(2) True by (simp add: create_goal_def)
  have "length (live_goals s d') \<le> 1" for s
    using assms(1) True by (cases "s = sid") (auto simp: d' goals_ok_def live_goals_def)
  then show ?thesis using assms(1) by (auto simp: goals_ok_def d')
qed (use assms in \<open>simp add: create_goal_def\<close>)

section \<open>The ledger\<close>

definition rows_of_goal :: "goal_db \<Rightarrow> nat \<Rightarrow> int list" where
  "rows_of_goal d i = map ob_ordinal (filter (\<lambda>r. ob_goal r = i) (db_outbox d))"

definition row_ok :: "outbox_row \<Rightarrow> bool" where
  "row_ok r \<longleftrightarrow> ob_attempts r \<le> CONTINUATION_RECOVERY_LIMIT
     \<and> (ob_status r = O_Pending \<longrightarrow> ob_attempts r < CONTINUATION_RECOVERY_LIMIT \<and> (0 < ob_attempts r \<longrightarrow> ob_recovered r))"

definition ledger_ok :: "goal_db \<Rightarrow> bool" where
  "ledger_ok d \<longleftrightarrow> distinct (map ob_id (db_outbox d)) \<and> (\<forall>r \<in> set (db_outbox d). ob_id r < db_next_row d \<and> row_ok r)
     \<and> (\<forall>r \<in> set (db_outbox d). ob_goal r \<in> set (map go_id (db_goals d)))
     \<and> (\<forall>g \<in> set (db_goals d). 0 \<le> go_used g \<and> rows_of_goal d (go_id g) = [1..go_used g])"

lemma ledger_ok_goals:
  assumes "ledger_ok d" "\<And>g. same_goal g (f g)"
  shows "ledger_ok (d\<lparr>db_goals := map f (db_goals d)\<rparr>)"
proof -
  have "rows_of_goal (d\<lparr>db_goals := x\<rparr>) i = rows_of_goal d i" for x i by (simp add: rows_of_goal_def)
  moreover have "map go_id (map f (db_goals d)) = map go_id (db_goals d)" using assms(2) by (simp add: same_goal_def)
  ultimately show ?thesis using assms by (auto simp: ledger_ok_def same_goal_def simp del: map_map)
qed

lemma ledger_ok_rows:
  assumes "ledger_ok d" "\<And>r. ob_id (f r) = ob_id r \<and> ob_goal (f r) = ob_goal r \<and> ob_ordinal (f r) = ob_ordinal r"
    "\<And>r. row_ok r \<Longrightarrow> row_ok (f r)"
  shows "ledger_ok (d\<lparr>db_outbox := map f (db_outbox d)\<rparr>)"
proof -
  have "rows_of_goal (d\<lparr>db_outbox := map f (db_outbox d)\<rparr>) i = rows_of_goal d i" for i
    using assms(2) by (simp add: rows_of_goal_def filter_map comp_def)
  moreover have "map ob_id (map f (db_outbox d)) = map ob_id (db_outbox d)" using assms(2) by simp
  ultimately show ?thesis using assms by (auto simp: ledger_ok_def simp del: map_map)
qed

lemma same_change [simp]: "same_goal g (change_goal c g)" "same_goal g g"
  by (simp_all add: same_goal_def change_goal_def)

lemma ledger_ok_update: "ledger_ok d \<Longrightarrow> ledger_ok (update_goal i c d)"
  unfolding update_goal_def map_goal_def by (rule ledger_ok_goals) simp_all

lemma map_row_eq: "map_row i f d = d\<lparr>db_outbox := map (\<lambda>r. if ob_id r = i then f r else r) (db_outbox d)\<rparr>"
  by (rule map_row_def)

lemma ledger_ok_claim: "ledger_ok d \<Longrightarrow> ledger_ok (snd (claim_goal_continuation i d))"
  unfolding claim_goal_continuation_def map_row_eq
  by (auto intro!: ledger_ok_rows simp: row_ok_def)

lemma upto_next: "0 \<le> n \<Longrightarrow> [1..n + 1] = [1..n] @ [n + 1 :: int]"
  using upto_rec2 [of 1 "n + 1"] by simp

lemma rows_added:
  "rows_of_goal (d\<lparr>db_goals := gs, db_outbox := db_outbox d @ [r], db_next_row := n\<rparr>) i =
     rows_of_goal d i @ (if ob_goal r = i then [ob_ordinal r] else [])"
  by (simp add: rows_of_goal_def)

lemma enqueue_ok:
  assumes "goals_ok d" "ledger_ok d" "enqueue_goal_continuation sid gid b f c d = (res, d')"
  shows "goals_ok d' \<and> ledger_ok d'"
proof (cases res)
  case None
  then show ?thesis using assms by (auto simp: enqueue_goal_continuation_def Let_def split: option.splits if_splits)
next
  case (Some row)
  then obtain g where f: "find (\<lambda>g. go_id g = gid \<and> go_session g = sid) (db_goals d) = Some g"
    using assms(3) by (auto simp: enqueue_goal_continuation_def split: option.splits)
  have g: "g \<in> set (db_goals d)" "go_id g = gid"
    "row = \<lparr>ob_id = db_next_row d, ob_goal = gid, ob_session = sid, ob_ordinal = go_used g + 1, ob_status = O_Pending,
       ob_prompt = f (go_used g + 1) b, ob_checkpoint = c, ob_attempts = 0, ob_recovered = False\<rparr>"
    "d' = (map_goal gid (\<lambda>g'. g'\<lparr>go_used := go_used g + 1\<rparr>) d)\<lparr>db_outbox := db_outbox d @ [row], db_next_row := db_next_row d + 1\<rparr>"
    using assms(3) Some f find_SomeD [OF f] by (auto simp: enqueue_goal_continuation_def Let_def split: if_splits)
  let ?u = "\<lambda>x. if go_id x = gid then x\<lparr>go_used := go_used g + 1\<rparr> else x"
  have d': "d' = d\<lparr>db_goals := map ?u (db_goals d), db_outbox := db_outbox d @ [row], db_next_row := db_next_row d + 1\<rparr>"
    using g(4) by (simp add: map_goal_def)
  have uniq: "x = g" if "x \<in> set (db_goals d)" "go_id x = gid" for x
    using that g(1,2) assms(1) by (auto simp: goals_ok_def distinct_map dest: inj_onD)
  have live: "length (live_goals s d') = length (live_goals s d)" for s
    by (auto simp: d' live_goals_def filter_map comp_def intro!: arg_cong [where f = length] filter_cong)
  have ids: "map go_id (map ?u (db_goals d)) = map go_id (db_goals d)" by simp
  have "goals_ok d'"
    using assms(1) live unfolding goals_ok_def by (auto simp: d' ids simp del: map_map)
  moreover have "ledger_ok d'"
    unfolding ledger_ok_def
  proof (intro conjI ballI)
    show "distinct (map ob_id (db_outbox d'))" using assms(2) g(3) by (auto simp: d' ledger_ok_def)
    fix r assume "r \<in> set (db_outbox d')"
    then have "r \<in> set (db_outbox d) \<or> r = row" by (auto simp: d')
    then show "ob_id r < db_next_row d'" "row_ok r"
      using assms(2) g(3) by (auto simp: d' ledger_ok_def row_ok_def CONTINUATION_RECOVERY_LIMIT_def)
    have "ob_goal r \<in> set (map go_id (db_goals d))"
      using \<open>r \<in> set (db_outbox d) \<or> r = row\<close> assms(2) g(1-3) by (auto simp: ledger_ok_def)
    moreover have "map go_id (db_goals d') = map go_id (db_goals d)" by (simp add: d')
    ultimately show "ob_goal r \<in> set (map go_id (db_goals d'))" by (simp only:)
  next
    fix x assume "x \<in> set (db_goals d')"
    then obtain y where y: "y \<in> set (db_goals d)" "x = ?u y" by (auto simp: d')
    have "0 \<le> go_used y" "rows_of_goal d (go_id y) = [1..go_used y]" using y(1) assms(2) by (auto simp: ledger_ok_def)
    then show "0 \<le> go_used x" "rows_of_goal d' (go_id x) = [1..go_used x]"
      using y(2) uniq [OF y(1)] g(2,3) upto_next [of "go_used y"] by (auto simp: d' rows_added)
  qed
  ultimately show ?thesis by blast
qed

lemma db_step_ok:
  assumes "goals_ok d" "ledger_ok d"
  shows "goals_ok (db_step d p) \<and> ledger_ok (db_step d p)"
proof (cases p)
  case (Op_Create sid t a b c)
  obtain i d' where e: "create_goal sid (py_strip t) (nonzero a) (nonzero b) c d = (i, d')" by fastforce
  have l: "ledger_ok d'"
  proof (cases "live_goals sid d = []")
    case True
    then have d': "db_goals d' = db_goals d @ [\<lparr>go_id = db_next_goal d, go_session = sid, go_objective = take 4000 (py_strip t),
        go_status = G_Active, go_token_budget = nonzero a, go_time_budget = nonzero b, go_continuation_budget = c, go_used = 0\<rparr>]"
      "db_outbox d' = db_outbox d" "db_next_row d' = db_next_row d" using e by (auto simp: create_goal_def)
    have "ob_goal r \<noteq> db_next_goal d" if "r \<in> set (db_outbox d)" for r
      using that assms by (fastforce simp: ledger_ok_def goals_ok_def)
    then have "rows_of_goal d' (db_next_goal d) = []" by (auto simp: rows_of_goal_def d' filter_empty_conv)
    moreover have "rows_of_goal d' j = rows_of_goal d j" for j by (simp add: rows_of_goal_def d')
    ultimately show ?thesis using assms(2) by (auto simp: ledger_ok_def d')
  qed (use e assms in \<open>simp add: create_goal_def\<close>)
  show ?thesis using goals_ok_create [OF assms(1) e] l assms e Op_Create
    by (cases i) (simp_all add: goal_create_def create_goal_def split: if_splits)
next
  case (Op_Update sid t st a b c)
  then show ?thesis using assms goals_ok_update ledger_ok_update
    by (auto simp: goal_update_def Let_def split: option.splits if_splits)
next
  case (Op_Complete sid rs)
  then show ?thesis using assms goals_ok_update ledger_ok_update
    by (auto simp: goal_complete_def split: option.splits if_splits)
next
  case (Op_Limit sid)
  then show ?thesis using assms goals_ok_update ledger_ok_update by (auto simp: limit_goal_def split: option.splits)
next
  case (Op_Orphans ss)
  have s: "same_goal g (if go_status g \<in> set LIVE \<and> go_session g \<notin> ss then g\<lparr>go_status := G_Error\<rparr> else g)" for g
    by (simp add: same_goal_def)
  show ?thesis unfolding Op_Orphans db_step.simps reconcile_orphan_goals_def Let_def snd_conv
    by (intro conjI goals_ok_map [OF assms(1) s] ledger_ok_goals [OF assms(2) s]) (auto split: if_splits)
next
  case (Op_Enqueue sid g b f c)
  then show ?thesis using enqueue_ok [OF assms, of sid g b f c] by (metis db_step.simps(6) prod.collapse)
next
  case (Op_Claim i)
  then show ?thesis using assms ledger_ok_claim by (auto simp: claim_goal_continuation_def map_row_eq)
next
  case (Op_Settle i b)
  show ?thesis unfolding Op_Settle db_step.simps settle_goal_continuation_def map_row_eq
    by (intro conjI ledger_ok_rows [OF assms(2)]) (use assms in \<open>auto simp: row_ok_def\<close>)
next
  case Op_Recover
  show ?thesis unfolding Op_Recover db_step.simps recover_abandoned_continuations_def snd_conv
    by (intro conjI ledger_ok_rows [OF assms(2)]) (use assms in \<open>auto simp: row_ok_def recover_row_def open_row_def\<close>)
qed

text \<open>C8: every continuation is paid for once. Over every order of creations, updates, completions, limits,
  enqueues, claims, settlements and recoveries, the rows of a goal carry exactly the ordinals that its
  counter has debited, one row each in order; no row is claimed more often than the limit; and a session
  has at most one live goal.\<close>

theorem continuations_are_paid_once:
  fixes ops :: "db_op list"
  defines "d \<equiv> foldl db_step empty_db ops"
  shows "(\<forall>g \<in> set (db_goals d). rows_of_goal d (go_id g) = [1..go_used g])
    \<and> (\<forall>r \<in> set (db_outbox d). ob_attempts r \<le> CONTINUATION_RECOVERY_LIMIT)
    \<and> (\<forall>sid. length (live_goals sid d) \<le> 1)"
proof -
  have "goals_ok e \<and> ledger_ok e \<Longrightarrow> goals_ok (foldl db_step e ops) \<and> ledger_ok (foldl db_step e ops)" for e
    by (induction ops arbitrary: e) (auto simp: db_step_ok)
  moreover have "goals_ok empty_db \<and> ledger_ok empty_db"
    by (simp add: goals_ok_def ledger_ok_def live_goals_def empty_db_def)
  ultimately have "goals_ok d \<and> ledger_ok d" unfolding d_def by blast
  then show ?thesis by (simp add: goals_ok_def ledger_ok_def row_ok_def)
qed

section \<open>Single rows\<close>

lemma find_map:
  assumes "\<And>r. ob_id (f r) = ob_id r"
  shows "find (\<lambda>r. ob_id r = i) (map f rs) = map_option f (find (\<lambda>r. ob_id r = i) rs)"
  using assms by (induction rs) auto

lemma get_row_mapped:
  "(\<And>r. ob_id (f r) = ob_id r) \<Longrightarrow> get_row i (d\<lparr>db_outbox := map f (db_outbox d)\<rparr>) = map_option f (get_row i d)"
  by (simp add: get_row_def find_map)

lemma find_append_Some: "find P xs = Some x \<Longrightarrow> find P (xs @ ys) = Some x"
  by (induction xs) auto

lemma get_row_goals [simp]:
  "get_row i (d\<lparr>db_goals := x\<rparr>) = get_row i d" "get_row i (d\<lparr>db_goals := x, db_next_goal := n\<rparr>) = get_row i d"
  "get_row i (map_goal j h d) = get_row i d" "get_row i (update_goal j c d) = get_row i d"
  by (simp_all add: get_row_def map_goal_def update_goal_def)

text \<open>A settled continuation stays settled. No transaction changes a row that was dispatched or abandoned.\<close>

theorem settled_rows_are_final:
  assumes "get_row i d = Some r" "\<not> open_row r"
  shows "get_row i (db_step d p) = Some r"
proof (cases p)
  case (Op_Create sid t a b c)
  then show ?thesis using assms by (auto simp: goal_create_def create_goal_def split: if_splits option.splits prod.splits)
next
  case (Op_Update sid t st a b c)
  then show ?thesis using assms by (auto simp: goal_update_def Let_def split: option.splits if_splits)
next
  case (Op_Complete sid rs)
  then show ?thesis using assms by (auto simp: goal_complete_def split: option.splits if_splits)
next
  case (Op_Limit sid)
  then show ?thesis using assms by (auto simp: limit_goal_def split: option.splits)
next
  case (Op_Orphans ss)
  then show ?thesis using assms by (simp add: reconcile_orphan_goals_def Let_def)
next
  case (Op_Enqueue sid g b f c)
  then show ?thesis using assms
    by (auto simp: enqueue_goal_continuation_def Let_def get_row_def map_goal_def find_append_Some split: option.splits if_splits)
next
  case (Op_Claim j)
  then show ?thesis using assms
    by (auto simp: claim_goal_continuation_def map_row_eq get_row_mapped open_row_def)
next
  case (Op_Settle j b)
  then show ?thesis using assms by (auto simp: settle_goal_continuation_def map_row_eq get_row_mapped)
next
  case Op_Recover
  have "ob_id (recover_row x) = ob_id x" for x by (simp add: recover_row_def)
  then show ?thesis using assms Op_Recover
    by (simp add: recover_abandoned_continuations_def get_row_mapped recover_row_def)
qed


section \<open>The end of a turn\<close>


section \<open>After a crash\<close>

text \<open>C11: no debit is forgotten. After a crash every continuation that was paid for and not settled is offered
  again, with the warning when it had been claimed, or given up: it is queued, it was queued already, or its
  row is settled.\<close>

theorem no_debit_is_forgotten:
  assumes "get_row i d = Some r0" "open_row r0" "recover_abandoned_continuations d = (rows, d1)"
  shows "(\<exists>r. get_row i d1 = Some r \<and> \<not> open_row r)
    \<or> (\<exists>r \<in> set rows. ob_id r = i \<and> (ob_status r0 = O_Claimed \<longrightarrow> ob_recovered r) \<and>
        (\<forall>pre waiting so queued so' d2. get_row i e = Some r \<and> offer_again pre waiting so r e = (queued, so', d2) \<longrightarrow>
          (\<exists>s'. so' = Some s' \<and> (\<exists>q \<in> set (pending_messages s'). continuation_id q = Some (int i)))
          \<or> (\<exists>r2. get_row i d2 = Some r2 \<and> \<not> open_row r2)))"
proof (cases "CONTINUATION_RECOVERY_LIMIT \<le> ob_attempts r0")
  case True
  have "ob_id (recover_row x) = ob_id x" for x by (simp add: recover_row_def)
  then have "get_row i d1 = Some (recover_row r0)"
    using assms(1,3) by (auto simp: recover_abandoned_continuations_def get_row_mapped)
  then show ?thesis using True assms(2) by (auto simp: recover_row_def open_row_def)
next
  case False
  let ?r = "recover_row r0"
  have r0: "r0 \<in> set (db_outbox d)" "ob_id r0 = i" using find_SomeD assms(1) unfolding get_row_def by fastforce+
  have i: "?r \<in> set rows" "ob_id ?r = i" "ob_status r0 = O_Claimed \<longrightarrow> ob_recovered ?r"
    using False assms(2,3) r0 by (auto simp: recover_abandoned_continuations_def recover_row_def)
  have "(\<exists>s'. so' = Some s' \<and> (\<exists>q \<in> set (pending_messages s'). continuation_id q = Some (int i)))
      \<or> (\<exists>r2. get_row i d2 = Some r2 \<and> \<not> open_row r2)"
    if "get_row i e = Some ?r" "offer_again pre waiting so ?r e = (queued, so', d2)" for pre waiting so queued so' d2
  proof -
    have gone: "get_row i (settle_goal_continuation i False e) = Some r2 \<Longrightarrow> \<not> open_row r2" for r2
      using that(1) i(2) by (auto simp: settle_goal_continuation_def map_row_eq get_row_mapped open_row_def split: if_splits)
    have there: "\<exists>r2. get_row i (settle_goal_continuation i False e) = Some r2"
      using that(1) by (auto simp: settle_goal_continuation_def map_row_eq get_row_mapped)
    show ?thesis using that(2) i(2) gone there
      by (auto simp: offer_again_def Let_def enqueue_def continuation_entry_def list_ex_iff split: option.splits if_splits)
  qed
  then show ?thesis using i by blast
qed

section \<open>Completion\<close>

text \<open>A goal completes on gates that never ran. When every completion gate of a goal is broken, so that none
  of them looked at the work, the completion is not refused.\<close>

theorem broken_gates_complete_goal:
  assumes "get_active_goal sid d = Some g" "sid \<noteq> []" "list_all (\<lambda>r. gate_state r = Unavailable) results"
  shows "fst (goal_complete sid results (note', d)) = Completed (go_id g)"
proof -
  have "failing results = []" using assms(3)
    by (auto simp: failing_def filter_empty_conv list_all_iff gate_state_def split: if_splits)
  then show ?thesis using assms by (simp add: goal_complete_def)
qed

section \<open>Examples\<close>

definition example_ops :: "db_op list" where
  "example_ops = [Op_Create ''s'' ''ship the report'' 0 0 3, Op_Enqueue ''s'' 1 3 (\<lambda>_ _. ''go on'') None, Op_Claim 1,
     Op_Recover, Op_Claim 1, Op_Settle 1 True, Op_Enqueue ''s'' 1 3 (\<lambda>_ _. ''go on'') None]"

definition example_goal_db :: goal_db where
  "example_goal_db = \<lparr>db_goals = [\<lparr>go_id = 1, go_session = ''s'', go_objective = ''ship the report'', go_status = G_Active,
      go_token_budget = None, go_time_budget = None, go_continuation_budget = 3, go_used = 2\<rparr>],
    db_outbox = [\<lparr>ob_id = 1, ob_goal = 1, ob_session = ''s'', ob_ordinal = 1, ob_status = O_Dispatched, ob_prompt = ''go on'',
        ob_checkpoint = None, ob_attempts = 2, ob_recovered = True\<rparr>,
      \<lparr>ob_id = 2, ob_goal = 1, ob_session = ''s'', ob_ordinal = 2, ob_status = O_Pending, ob_prompt = ''go on'',
        ob_checkpoint = None, ob_attempts = 0, ob_recovered = False\<rparr>],
    db_next_goal = 2, db_next_row = 3\<rparr>"

lemma example_run: "foldl db_step empty_db example_ops = example_goal_db"
  by code_simp

lemma example_used: "map go_used (db_goals example_goal_db) = [2]"
  by code_simp

theorem continuations_are_paid_once_witness:
  "rows_of_goal (foldl db_step empty_db example_ops) 1 = [1..2]"
  using continuations_are_paid_once [of example_ops] by (simp add: example_run) (simp add: example_goal_db_def)

theorem settled_rows_are_final_witness:
  "map_option ob_status (get_row 1 (db_step example_goal_db (Op_Claim 1))) = Some O_Dispatched"
proof -
  have g: "get_row 1 example_goal_db = Some (hd (db_outbox example_goal_db))" "\<not> open_row (hd (db_outbox example_goal_db))"
    "ob_status (hd (db_outbox example_goal_db)) = O_Dispatched" by code_simp+
  from settled_rows_are_final [OF g(1,2), of "Op_Claim 1"] g(3) show ?thesis by simp
qed

definition finished_turn :: agent_session where
  "finished_turn = (new_session ''s'' 0)\<lparr>state_v2 := Some FINALIZING, termination_reason := Some ''complete''\<rparr>"

definition queued_start :: pending_message where
  "queued_start = continuation_entry ''go on'' 2"


definition end_of_turn :: "continuation_end \<times> agent_session \<times> goal_db" where
  "end_of_turn = maybe_enqueue_goal_continuation 0 0 (\<lambda>d. d) (\<lambda>_ _ _. ''go on'') None (finished_turn, example_goal_db)"

lemma example_goal_found:
  "get_active_goal ''s'' example_goal_db = Some (hd (db_goals example_goal_db))"
  "fst (enqueue_goal_continuation ''s'' 1 3 (\<lambda>_ _. ''go on'') None example_goal_db)
     = Some \<lparr>ob_id = 3, ob_goal = 1, ob_session = ''s'', ob_ordinal = 3, ob_status = O_Pending, ob_prompt = ''go on'',
        ob_checkpoint = None, ob_attempts = 0, ob_recovered = False\<rparr>"
  by code_simp+

lemma end_of_turn_continues: "fst end_of_turn = Continued 3 3"
proof -
  have t: "current_state finished_turn = FINALIZING" "termination_reason finished_turn = Some ''complete''"
    "pending_messages finished_turn = []" "session_id finished_turn = ''s''"
    by (simp_all add: finished_turn_def current_state_def new_session_def)
  have g: "go_status (hd (db_goals example_goal_db)) = G_Active" "go_id (hd (db_goals example_goal_db)) = 1"
    "go_continuation_budget (hd (db_goals example_goal_db)) = 3" "spent_budget 0 0 (hd (db_goals example_goal_db)) = None"
    by (simp_all add: example_goal_db_def spent_budget_def)
  obtain row d' where e: "enqueue_goal_continuation ''s'' 1 3 (\<lambda>_ _. ''go on'') None example_goal_db = (Some row, d')"
    "ob_id row = 3" "ob_ordinal row = 3"
    using example_goal_found(2) by (cases "enqueue_goal_continuation ''s'' 1 3 (\<lambda>_ _. ''go on'') None example_goal_db") simp
  show ?thesis
    using e by (simp add: end_of_turn_def maybe_enqueue_goal_continuation_def t g example_goal_found(1) CONTINUABLE_def)
qed


definition claimed_row_db :: goal_db where
  "claimed_row_db = snd (claim_goal_continuation 2 example_goal_db)"

theorem no_debit_is_forgotten_witness:
  "\<exists>r \<in> set (fst (recover_abandoned_continuations claimed_row_db)). ob_id r = 2 \<and> ob_recovered r"
proof -
  let ?r = "db_outbox claimed_row_db ! 1"
  have g: "get_row 2 claimed_row_db = Some ?r" "open_row ?r" "ob_status ?r = O_Claimed" by code_simp+
  have n: "map_option open_row (get_row 2 (snd (recover_abandoned_continuations claimed_row_db))) = Some True" by code_simp
  have "\<nexists>r. get_row 2 (snd (recover_abandoned_continuations claimed_row_db)) = Some r \<and> \<not> open_row r" using n by auto
  then show ?thesis
    using no_debit_is_forgotten [OF g(1,2) prod.collapse [symmetric], where e = claimed_row_db] g(3) by blast
qed

definition broken_gate :: gate_result where
  "broken_gate = (gate_result_of ''tests'' ''pytest'' False)\<lparr>g_error := ''command not found'', g_broken := True\<rparr>"

theorem broken_gates_complete_goal_witness:
  "fst (goal_complete ''s'' [broken_gate] (None, example_goal_db)) = Completed 1"
proof -
  have "gate_state broken_gate = Unavailable" by (simp add: gate_state_def broken_gate_def gate_result_of_def)
  then show ?thesis
    using broken_gates_complete_goal [OF example_goal_found(1), of "[broken_gate]" None] by (simp add: example_goal_db_def)
qed

end
