(* ===== verification/Reflect.thy ===== *)
theory Reflect
  imports Tool_Base Gates Session_State
begin

text \<open>
  The grading of a finished turn, \<open>core/reflect.py\<close>: the reply of the grader as JSON, what becomes
  of it as a result, the guards over the result and the loop around the request.

  A grade is what a model wrote, so a field may hold any JSON value; text fields keep the value, and
  where the code treats one as a text and it is none, an exception ends the grading: such operations
  return an option.  The numbers of a grade are finite.  The clock, the events and the row of the
  post-mortem, which repeats the result, are left out.
\<close>

section \<open>Patterns\<close>

text \<open>The word characters of \<open>re\<close> on the first 256 code points.\<close>

definition re_word :: "char \<Rightarrow> bool" where
  "re_word c \<longleftrightarrow> (let n = (of_char c :: nat) in
     (48 \<le> n \<and> n \<le> 57) \<or> (65 \<le> n \<and> n \<le> 90) \<or> n = 95 \<or> (97 \<le> n \<and> n \<le> 122)
     \<or> n \<in> {170, 178, 179, 181, 185, 186, 188, 189, 190} \<or> (192 \<le> n \<and> n \<noteq> 215 \<and> n \<noteq> 247))"

definition ascii_letter :: "char \<Rightarrow> bool" where
  "ascii_letter c \<longleftrightarrow> (let n = (of_char c :: nat) in (65 \<le> n \<and> n \<le> 90) \<or> (97 \<le> n \<and> n \<le> 122))"

definition ascii_digit :: "char \<Rightarrow> bool" where
  "ascii_digit c \<longleftrightarrow> (let n = (of_char c :: nat) in 48 \<le> n \<and> n \<le> 57)"

definition ascii_upper :: "char \<Rightarrow> bool" where
  "ascii_upper c \<longleftrightarrow> (let n = (of_char c :: nat) in 65 \<le> n \<and> n \<le> 90)"

text \<open>\<open>findall\<close>: the matches from left to right that do not overlap.  A matcher sees the character
  before the place and the text from it, and says how long the match is; it does not match nothing.\<close>

type_synonym matcher = "char option \<Rightarrow> string \<Rightarrow> nat option"

function find_all :: "matcher \<Rightarrow> char option \<Rightarrow> string \<Rightarrow> string list" where
  "find_all f prev [] = []"
| "find_all f prev (c # s) =
     (case f prev (c # s) of
        Some (Suc n) \<Rightarrow> take (Suc n) (c # s) # find_all f (Some (last (take (Suc n) (c # s)))) (drop n s)
      | _ \<Rightarrow> find_all f (Some c) s)"
  by pat_completeness auto
termination
  by (relation "measure (\<lambda>(f, prev, s). length s)") auto

text \<open>The phrases that a regular expression without repetition stands for, in lower case.\<close>

definition NO_OUTPUT_PHRASES :: "string list" where
  "NO_OUTPUT_PHRASES =
     [''could not produce '' @ a @ b @ ''response''. a \<leftarrow> ['''', ''any ''], b \<leftarrow> ['''', ''a '']]
     @ [''no agent output'', ''transcript has no agent output'']
     @ [''produced no '' @ a @ b. a \<leftarrow> ['''', ''final ''], b \<leftarrow> [''response'', ''output'']]
     @ [''did not '' @ a @ b @ c @ d. a \<leftarrow> [''produce '', ''emit ''], b \<leftarrow> [''a '', ''any ''], c \<leftarrow> ['''', ''final ''],
         d \<leftarrow> [''response'', ''answer'']]"

definition NEXT_MESSAGE_PHRASES :: "string list" where
  "NEXT_MESSAGE_PHRASES =
     [''user'' @ a @ b @ c @ '' '' @ d @ '' '' @ e. a \<leftarrow> ['''', [CHR 0x27]], b \<leftarrow> ['''', ''s''], c \<leftarrow> ['''', '' own''],
        d \<leftarrow> [''next'', ''follow-up'', ''subsequent''], e \<leftarrow> [''message'', ''reply'']]
     @ [''user now says'', ''user now reports'', ''the user reports'']"

definition mentions :: "string list \<Rightarrow> string \<Rightarrow> bool" where
  "mentions phrases t = list_ex (\<lambda>p. has_sub p (py_lower t)) phrases"

text \<open>A wrong fact named in words: the fixed phrases, or on one line \<open>contradict\<close> with a source behind it.\<close>

definition FACTUAL_PHRASES :: "string list" where
  "FACTUAL_PHRASES =
     [''wrong '' @ a. a \<leftarrow> [''fund'', ''etf'', ''product'', ''data'', ''source'']]
     @ [''mislabeled'', ''mislabelled'', ''factually false'', ''factually wrong'']"

definition contradicts_on :: "string \<Rightarrow> bool" where
  "contradicts_on line =
     (case find_sub ''contradict'' line of
        None \<Rightarrow> False
      | Some i \<Rightarrow> list_ex (\<lambda>w. has_sub w (drop (i + 10) line)) [''data'', ''source'', ''fact''])"

definition reads_as_factual :: "string \<Rightarrow> bool" where
  "reads_as_factual t \<longleftrightarrow> mentions FACTUAL_PHRASES t \<or> list_ex contradicts_on (split_on nl (py_lower t))"

text \<open>The name-like tokens of a verdict: a letter, then word characters and \<open>./-\<close>, ended by a word
  character, five characters at least.\<close>

definition token_char :: "char \<Rightarrow> bool" where
  "token_char c \<longleftrightarrow> re_word c \<or> c \<in> {CHR ''.'', CHR ''/'', CHR ''-''}"

definition blind_token :: matcher where
  "blind_token prev s =
     (case s of
        [] \<Rightarrow> None
      | c # rest \<Rightarrow>
          let run = rev (dropWhile (\<lambda>d. \<not> re_word d) (rev (takeWhile token_char rest))) in
          if ascii_letter c \<and> 4 \<le> length run then Some (Suc (length run)) else None)"

definition distinctive :: "string \<Rightarrow> bool" where
  "distinctive t \<longleftrightarrow> list_ex (\<lambda>c. ascii_upper c \<or> ascii_digit c \<or> c \<in> set ''._/-'') (tl t)
     \<or> (t \<noteq> [] \<and> ascii_upper (hd t)) \<or> 10 \<le> length t"

section \<open>The result of a grade\<close>

datatype verdict = V_Pass | V_Retry | V_Escalate

datatype verification = Unstated | Verified | Partial | Unknown

text \<open>\<open>verification_reason\<close>, by the line that wrote it.\<close>

datatype phantom = Phantom_Next_Message | Phantom_Environment "string list" | Phantom_No_Output | Phantom_Blind "string list"

datatype rejection = Unattributed | Earlier_Request | Superseded

datatype reason =
    No_Reason
  | Self_Contradiction
  | Below_Floor verdict rat rat
  | Stated_Reason string
  | Stated_By_Grader
  | Malformed_Grade
  | Not_Established verdict
  | Names_Missing json
  | Open_Deliverables "string list"
  | Phantom_Evidence phantom
  | Correction_Rejected rejection
  | Gates_Failing "string list"
  | Gates_Unavailable "string list" "string list"
  | Gates_Passed "string list"

record deliverable =
  dv_description :: string
  dv_status :: string
  dv_evidence :: string

record digest_call =
  dc_tool :: string
  dc_args :: string
  dc_outcome :: string
  dc_excerpt :: string

record turn_digest =
  dg_plan :: string
  dg_final :: string
  dg_tried :: string
  dg_findings :: "string list"
  dg_calls :: "digest_call list"

record experience =
  ex_sentiment :: string
  ex_loop :: "bool option"
  ex_first :: "bool option"
  ex_friction :: "string list"
  ex_observations :: "string list"
  ex_note :: string

record reflect_result =
  rf_verdict :: verdict
  rf_reasoning :: json
  rf_diagnostic :: json
  rf_what_worked :: json
  rf_what_failed :: json
  rf_strategy :: json
  rf_missing :: json
  rf_kind :: string
  rf_evidence :: "json list"
  rf_rejected :: "rejection option"
  rf_cause :: string
  rf_confidence :: rat
  rf_verification :: verification
  rf_reason :: reason
  rf_deliverables :: "deliverable list"
  rf_digest :: "turn_digest option"
  rf_without_tools :: "string list"
  rf_experience :: "experience option"

definition new_result :: "string \<Rightarrow> reflect_result" where
  "new_result why = \<lparr>rf_verdict = V_Pass, rf_reasoning = JStr why, rf_diagnostic = JStr [], rf_what_worked = JStr [],
     rf_what_failed = JStr [], rf_strategy = JStr [], rf_missing = JStr [], rf_kind = [], rf_evidence = [], rf_rejected = None,
     rf_cause = ''none'', rf_confidence = 0, rf_verification = Unstated, rf_reason = No_Reason, rf_deliverables = [],
     rf_digest = None, rf_without_tools = [], rf_experience = None\<rparr>"

definition FAILURE_CAUSES :: "string list" where
  "FAILURE_CAUSES = [''none'', ''scout'', ''agent'', ''skill'', ''task'', ''env'']"

text \<open>The settings, the JSON codec and the two-digit form of a number.\<close>

record reflect_env =
  re_lib :: json_lib
  re_fmt2 :: "rat \<Rightarrow> string"
  re_floor :: rat
  re_digest_on_pass :: bool
  re_digest_cap :: int
  re_experience :: bool

section \<open>Values\<close>

definition dget :: "string \<Rightarrow> (string \<times> json) list \<Rightarrow> json \<Rightarrow> json" where
  "dget k d v0 = (case map_of d k of Some v \<Rightarrow> v | None \<Rightarrow> v0)"

text \<open>\<open>x or ""\<close> where a text is needed; \<open>str(x)\<close>; \<open>float(x)\<close>, where \<open>jl_float\<close> reads a text.\<close>

definition text_or :: "json \<Rightarrow> string option" where
  "text_or j = (if \<not> truthy j then Some [] else case j of JStr s \<Rightarrow> Some s | _ \<Rightarrow> None)"

definition py_str :: "json_lib \<Rightarrow> json \<Rightarrow> string" where
  "py_str jl j = (case j of JStr s \<Rightarrow> s | _ \<Rightarrow> jl_str jl j)"

definition py_float :: "json_lib \<Rightarrow> json \<Rightarrow> rat option" where
  "py_float jl j =
     (case j of
        JInt i \<Rightarrow> Some (of_int i)
      | JFloat r \<Rightarrow> Some r
      | JBool b \<Rightarrow> Some (if b then 1 else 0)
      | JStr s \<Rightarrow> (case jl_float jl s of Some (JFloat r) \<Rightarrow> Some r | _ \<Rightarrow> None)
      | _ \<Rightarrow> None)"

text \<open>\<open>str(x or "")\<close>.\<close>

definition str_or :: "json_lib \<Rightarrow> json \<Rightarrow> string" where
  "str_or jl j = (if truthy j then py_str jl j else [])"

definition list_of :: "json \<Rightarrow> json list" where
  "list_of j = (case j of JArr xs \<Rightarrow> xs | _ \<Rightarrow> [])"

section \<open>Reading a grade\<close>

definition SENTIMENTS :: "string list" where
  "SENTIMENTS = [''satisfied'', ''neutral'', ''frustrated'', ''unknown'']"

text \<open>\<open>[^a-z0-9_]+\<close> becomes one underscore; those at the ends go.\<close>

definition label_char :: "char \<Rightarrow> bool" where
  "label_char c \<longleftrightarrow> (let n = (of_char c :: nat) in (97 \<le> n \<and> n \<le> 122) \<or> (48 \<le> n \<and> n \<le> 57) \<or> n = 95)"

fun snake :: "string \<Rightarrow> string" where
  "snake [] = []"
| "snake (c # s) =
     (if label_char c then c # snake s
      else (case s of
          [] \<Rightarrow> [CHR ''_'']
        | d # _ \<Rightarrow> if label_char d then CHR ''_'' # snake s else snake s))"

definition strip_char :: "char \<Rightarrow> string \<Rightarrow> string" where
  "strip_char c s = rev (dropWhile (\<lambda>d. d = c) (rev (dropWhile (\<lambda>d. d = c) s)))"

definition friction_label :: "json_lib \<Rightarrow> json \<Rightarrow> string" where
  "friction_label jl f = take 40 (strip_char (CHR ''_'') (snake (py_lower (py_strip (py_str jl f)))))"

definition add_label :: "string list \<Rightarrow> string \<Rightarrow> string list" where
  "add_label ls l = (if l \<noteq> [] \<and> l \<notin> set ls then ls @ [l] else ls)"

definition bool_of :: "json option \<Rightarrow> bool option" where
  "bool_of v = (case v of Some (JBool b) \<Rightarrow> Some b | _ \<Rightarrow> None)"

definition sanitize_experience :: "json_lib \<Rightarrow> (string \<times> json) list \<Rightarrow> experience" where
  "sanitize_experience jl raw =
     (let sentiment = py_lower (py_strip (str_or jl (dget ''user_sentiment'' raw (JStr [])))) in
      \<lparr>ex_sentiment = (if sentiment \<in> set SENTIMENTS then sentiment else ''unknown''),
       ex_loop = bool_of (map_of raw ''clarification_loop''),
       ex_first = bool_of (map_of raw ''first_response_sufficient''),
       ex_friction = take 6 (foldl add_label [] (map (friction_label jl) (list_of (dget ''friction'' raw JNull)))),
       ex_observations = take 3 (map (\<lambda>o'. take 400 (py_strip (py_str jl o')))
           (filter (\<lambda>o'. py_strip (py_str jl o') \<noteq> []) (list_of (dget ''user_observations'' raw JNull)))),
       ex_note = take 500 (py_strip (str_or jl (dget ''note'' raw (JStr []))))\<rparr>)"

definition digest_call_of :: "json_lib \<Rightarrow> int \<Rightarrow> json \<Rightarrow> digest_call option" where
  "digest_call_of jl cap c =
     (case c of
        JObj tc \<Rightarrow>
          Some \<lparr>dc_tool = take 120 (py_str jl (dget ''tool'' tc (JStr []))), dc_args = take 500 (py_str jl (dget ''args'' tc (JStr []))),
            dc_outcome = (case map_of tc ''outcome'' of
                Some (JStr u) \<Rightarrow> if u \<in> set [''success'', ''error'', ''partial''] then u else ''unknown''
              | _ \<Rightarrow> ''unknown''),
            dc_excerpt = take (nat cap) (py_str jl (dget ''result_excerpt'' tc (JStr [])))\<rparr>
      | _ \<Rightarrow> None)"

text \<open>\<open>max(int(setting or 2000), 200)\<close> for the cap of an excerpt.\<close>

definition excerpt_cap :: "int \<Rightarrow> int" where
  "excerpt_cap n = max (if n = 0 then 2000 else n) 200"

definition sanitize_turn_digest :: "reflect_env \<Rightarrow> (string \<times> json) list \<Rightarrow> turn_digest" where
  "sanitize_turn_digest env d =
     (let jl = re_lib env in
      \<lparr>dg_plan = take 1000 (py_str jl (dget ''scout_plan_summary'' d (JStr []))),
       dg_final = take 2000 (py_str jl (dget ''agent_final_response'' d (JStr []))),
       dg_tried = take 1000 (py_str jl (dget ''what_was_tried'' d (JStr []))),
       dg_findings = take 10 (map (\<lambda>f. take 500 (py_str jl f)) (filter truthy (list_of (dget ''key_findings'' d JNull)))),
       dg_calls = List.map_filter (digest_call_of jl (excerpt_cap (re_digest_cap env)))
           (take 30 (list_of (dget ''tool_calls'' d JNull)))\<rparr>)"

definition DELIVERABLE_STATES :: "string list" where
  "DELIVERABLE_STATES = [''met'', ''partial'', ''unmet'', ''unknown'']"

definition deliverable_of :: "json_lib \<Rightarrow> json \<Rightarrow> deliverable option" where
  "deliverable_of jl j =
     (case j of
        JObj d \<Rightarrow>
          Some \<lparr>dv_description = take 500 (py_str jl (dget ''description'' d (JStr []))),
            dv_status = (case map_of d ''status'' of
                Some (JStr s) \<Rightarrow> if s \<in> set DELIVERABLE_STATES then s else ''unknown''
              | _ \<Rightarrow> ''unknown''),
            dv_evidence = take 500 (py_str jl (dget ''evidence_ref'' d (JStr [])))\<rparr>
      | _ \<Rightarrow> None)"

definition verdict_of :: "json \<Rightarrow> verdict option" where
  "verdict_of j = (if j = JStr ''pass'' then Some V_Pass else if j = JStr ''retry'' then Some V_Retry
     else if j = JStr ''escalate'' then Some V_Escalate else None)"

text \<open>A verdict that is missing or none of the three counts as \<open>retry\<close>; the flag says so.\<close>

definition read_verdict :: "(string \<times> json) list \<Rightarrow> verdict \<times> bool" where
  "read_verdict d = (case verdict_of (dget ''verdict'' d JNull) of Some v \<Rightarrow> (v, False) | None \<Rightarrow> (V_Retry, True))"

text \<open>A list or an object is not hashable, so asking whether it is a cause raises.\<close>

definition read_cause :: "(string \<times> json) list \<Rightarrow> string option" where
  "read_cause d =
     (case dget ''failure_cause'' d (JStr ''none'') of
        JArr _ \<Rightarrow> None
      | JObj _ \<Rightarrow> None
      | JStr s \<Rightarrow> Some (if s \<in> set FAILURE_CAUSES then s else ''none'')
      | _ \<Rightarrow> Some ''none'')"

definition non_pass :: "verdict \<Rightarrow> bool" where
  "non_pass v \<longleftrightarrow> v \<noteq> V_Pass"

definition append_reasoning :: "string \<Rightarrow> reflect_result \<Rightarrow> reflect_result option" where
  "append_reasoning t r = map_option (\<lambda>x. r\<lparr>rf_reasoning := JStr (x @ t)\<rparr>) (text_or (rf_reasoning r))"

text \<open>A grade that fails the turn and denies a failure.\<close>

definition settle_contradiction :: "(string \<times> json) list \<Rightarrow> reflect_result \<Rightarrow> reflect_result option" where
  "settle_contradiction d r =
     (if non_pass (rf_verdict r) \<and> map_of d ''failure_cause'' = Some (JStr ''none'') then
        map_option (\<lambda>r. r\<lparr>rf_verification := Unknown, rf_reason := Self_Contradiction\<rparr>)
          (append_reasoning '' [verdict coerced to pass: non-pass verdict carried failure_cause=none]'' (r\<lparr>rf_verdict := V_Pass\<rparr>))
      else Some r)"

definition verdict_name :: "verdict \<Rightarrow> string" where
  "verdict_name v = (case v of V_Pass \<Rightarrow> ''pass'' | V_Retry \<Rightarrow> ''retry'' | V_Escalate \<Rightarrow> ''escalate'')"

text \<open>The confidence, and whether the grade stated a number.\<close>

definition read_confidence :: "reflect_env \<Rightarrow> (string \<times> json) list \<Rightarrow> rat \<times> bool" where
  "read_confidence env d =
     (case py_float (re_lib env) (dget ''confidence'' d (JFloat 0)) of
        Some c \<Rightarrow> (max 0 (min 1 c), map_of d ''confidence'' \<noteq> None)
      | None \<Rightarrow> (0, False))"

definition apply_floor :: "reflect_env \<Rightarrow> bool \<Rightarrow> bool \<Rightarrow> reflect_result \<Rightarrow> reflect_result option" where
  "apply_floor env stated coerced r =
     (if stated \<and> \<not> coerced \<and> 0 < re_floor env \<and> non_pass (rf_verdict r) \<and> rf_confidence r < re_floor env then
        map_option (\<lambda>x. x\<lparr>rf_verdict := V_Pass, rf_cause := ''none'', rf_verification := Unknown,
            rf_reason := Below_Floor (rf_verdict r) (rf_confidence r) (re_floor env)\<rparr>)
          (append_reasoning ('' [downgraded from '' @ verdict_name (rf_verdict r) @ '': confidence '' @ re_fmt2 env (rf_confidence r)
              @ '' is below the '' @ re_fmt2 env (re_floor env)
              @ '' materiality floor - ambiguous evidence grades pass; findings kept as lessons]'') r)
      else Some r)"

definition read_exclusions :: "verdict \<Rightarrow> (string \<times> json) list \<Rightarrow> string list" where
  "read_exclusions v d =
     (if v = V_Retry then take 5 (List.map_filter (\<lambda>j. case j of JStr t \<Rightarrow> if py_strip t \<noteq> [] then Some (take 80 t) else None | _ \<Rightarrow> None)
          (list_of (dget ''retry_without_tools'' d JNull)))
      else [])"

text \<open>What the grader states outranks what the conversions recorded.\<close>

definition verification_of :: "string \<Rightarrow> verification option" where
  "verification_of t = (if t = ''verified'' then Some Verified else if t = ''partial'' then Some Partial
     else if t = ''unknown'' then Some Unknown else None)"

definition open_deliverables :: "deliverable list \<Rightarrow> string list" where
  "open_deliverables ds = map (\<lambda>d. if dv_description d = [] then ''(unnamed)'' else dv_description d)
     (filter (\<lambda>d. dv_status d \<in> set [''unmet'', ''partial'', ''unknown'']) ds)"

definition settle_verification :: "json_lib \<Rightarrow> (string \<times> json) list \<Rightarrow> bool \<Rightarrow> reflect_result \<Rightarrow> reflect_result option" where
  "settle_verification jl d coerced r =
     (case verification_of (py_lower (py_strip (str_or jl (dget ''verification'' d JNull)))) of
        Some v \<Rightarrow>
          Some (r\<lparr>rf_verification := v,
            rf_reason := (if rf_reason r \<noteq> No_Reason then rf_reason r
              else let t = take 500 (str_or jl (dget ''verification_reason'' d JNull)) in
                   if t = [] then Stated_By_Grader else Stated_Reason t)\<rparr>)
      | None \<Rightarrow>
          if rf_verification r \<noteq> Unstated then Some r
          else if coerced then Some (r\<lparr>rf_verification := Unknown, rf_reason := Malformed_Grade\<rparr>)
          else if non_pass (rf_verdict r) then Some (r\<lparr>rf_verification := Unknown, rf_reason := Not_Established (rf_verdict r)\<rparr>)
          else if truthy (rf_missing r) then
            (case rf_missing r of
               JStr _ \<Rightarrow> Some (r\<lparr>rf_verification := Partial, rf_reason := Names_Missing (rf_missing r)\<rparr>)
             | JArr _ \<Rightarrow> Some (r\<lparr>rf_verification := Partial, rf_reason := Names_Missing (rf_missing r)\<rparr>)
             | _ \<Rightarrow> None)
          else (let gaps = open_deliverables (rf_deliverables r) in
            if gaps \<noteq> [] then Some (r\<lparr>rf_verification := Partial, rf_reason := Open_Deliverables (take 3 gaps)\<rparr>)
            else Some (r\<lparr>rf_verification := Verified, rf_reason := No_Reason\<rparr>)))"

text \<open>The whole conversion of a parsed object.\<close>

definition first_result :: "json_lib \<Rightarrow> (string \<times> json) list \<Rightarrow> verdict \<Rightarrow> bool \<Rightarrow> reflect_result" where
  "first_result jl d v missing_verdict =
     (new_result [])\<lparr>rf_verdict := v,
       rf_reasoning := dget ''reasoning'' d (if missing_verdict then JStr ''(malformed grade: no verdict field - coerced to retry)'' else JStr []),
       rf_diagnostic := dget ''diagnostic'' d (JStr []), rf_what_worked := dget ''what_worked'' d (JStr []),
       rf_what_failed := dget ''what_failed'' d (JStr []), rf_strategy := dget ''strategy'' d (JStr []),
       rf_missing := dget ''missing'' d (JStr []), rf_kind := str_or jl (dget ''failure_kind'' d JNull),
       rf_evidence := list_of (dget ''failure_evidence'' d JNull)\<rparr>"

definition fill_lists :: "reflect_env \<Rightarrow> (string \<times> json) list \<Rightarrow> reflect_result \<Rightarrow> reflect_result" where
  "fill_lists env d r =
     r\<lparr>rf_deliverables := List.map_filter (deliverable_of (re_lib env)) (list_of (dget ''deliverables'' d JNull)),
       rf_digest := (case dget ''turn_digest'' d JNull of
           JObj g \<Rightarrow> if g \<noteq> [] \<and> (non_pass (rf_verdict r) \<or> re_digest_on_pass env) then Some (sanitize_turn_digest env g) else None
         | _ \<Rightarrow> None),
       rf_without_tools := read_exclusions (rf_verdict r) d,
       rf_experience := (case dget ''experience'' d JNull of
           JObj e \<Rightarrow> if re_experience env \<and> e \<noteq> [] then Some (sanitize_experience (re_lib env) e) else None
         | _ \<Rightarrow> None)\<rparr>"

definition result_from_data :: "reflect_env \<Rightarrow> (string \<times> json) list \<Rightarrow> reflect_result option" where
  "result_from_data env d =
     (let (v, coerced) = read_verdict d;
          (conf, stated) = read_confidence env d in
      Option.bind (read_cause d) (\<lambda>cause.
      Option.bind (settle_contradiction d ((first_result (re_lib env) d v (\<not> truthy (dget ''verdict'' d JNull)))\<lparr>rf_cause := cause\<rparr>)) (\<lambda>r.
      Option.bind (apply_floor env stated coerced (r\<lparr>rf_confidence := conf\<rparr>)) (\<lambda>r.
      settle_verification (re_lib env) d coerced (fill_lists env d r)))))"

section \<open>The text of a reply\<close>

text \<open>\<open>text.split("\n", 1)[-1].rsplit("```", 1)[0].strip()\<close>, when the text starts with a fence.\<close>

definition after_first_line :: "string \<Rightarrow> string" where
  "after_first_line t = (case find_sub [nl] t of Some i \<Rightarrow> drop (Suc i) t | None \<Rightarrow> t)"

definition before_last :: "string \<Rightarrow> string \<Rightarrow> string" where
  "before_last p t = (case find_sub (rev p) (rev t) of Some i \<Rightarrow> take (length t - i - length p) t | None \<Rightarrow> t)"

definition strip_fence :: "string \<Rightarrow> string" where
  "strip_fence t = (if starts_with ''```'' t then py_strip (before_last ''```'' (after_first_line t)) else t)"

text \<open>The blocks \<open><think> ... </think>\<close>, each up to its nearest end.\<close>

function drop_think :: "string \<Rightarrow> string" where
  "drop_think t =
     (case find_sub ''<think>'' t of
        None \<Rightarrow> t
      | Some i \<Rightarrow>
          (case find_sub ''</think>'' (drop (i + 7) t) of
             None \<Rightarrow> t
           | Some j \<Rightarrow> take i t @ drop_think (drop (i + 7 + j + 8) t)))"
  by pat_completeness auto
termination
proof (relation "measure length")
  fix t i j assume "find_sub ''<think>'' t = Some i"
  then have "t \<noteq> []" by auto
  then show "(drop (i + 7 + j + 8) t, t) \<in> measure length" by simp
qed simp

declare drop_think.simps [simp del]

text \<open>The braces that a truncated text leaves open, those in strings left out.  The state is the depth,
  whether a string is open, and whether the next character is escaped.\<close>

definition brace_step :: "int \<times> bool \<times> bool \<Rightarrow> char \<Rightarrow> int \<times> bool \<times> bool" where
  "brace_step = (\<lambda>(depth, inside, escaped) c.
     if escaped then (depth, inside, False)
     else if c = CHR 0x5C \<and> inside then (depth, inside, True)
     else if c = CHR 0x22 then (depth, \<not> inside, False)
     else if \<not> inside \<and> c = CHR ''{'' then (depth + 1, inside, False)
     else if \<not> inside \<and> c = CHR ''}'' then (depth - 1, inside, False)
     else (depth, inside, False))"

definition count_unmatched_braces :: "string \<Rightarrow> nat" where
  "count_unmatched_braces s = nat (fst (foldl brace_step (0, False, False) s))"

text \<open>A candidate is a prefix without trailing blanks and commas, its string and its braces closed.\<close>

definition close_candidate :: "string \<Rightarrow> string" where
  "close_candidate t =
     (let c = rev (dropWhile (\<lambda>x. x = CHR '','') (rev (py_rstrip t)));
          c = (if odd (length (filter (\<lambda>x. x = CHR 0x22) c)) then c @ [CHR 0x22] else c)
      in c @ replicate (count_unmatched_braces c) (CHR ''}''))"

primrec repair_prefix :: "json_lib \<Rightarrow> string \<Rightarrow> nat \<Rightarrow> json option" where
  "repair_prefix jl t 0 = None"
| "repair_prefix jl t (Suc n) =
     (case jl_loads jl (close_candidate (take (Suc n) t)) of
        Some (JObj d) \<Rightarrow> if map_of d ''verdict'' \<noteq> None then Some (JObj d) else repair_prefix jl t n
      | _ \<Rightarrow> repair_prefix jl t n)"

definition try_repair_json :: "json_lib \<Rightarrow> string \<Rightarrow> json option" where
  "try_repair_json jl raw =
     (let text = py_strip (drop_think (strip_fence (py_strip raw))) in
      case find_sub ''{'' text of
        None \<Rightarrow> None
      | Some i \<Rightarrow>
          (let t = drop i text in
           case jl_loads jl t of Some v \<Rightarrow> Some v | None \<Rightarrow> repair_prefix jl t (length t - 1)))"

text \<open>A repair that is an empty object counts as none.\<close>

definition parse_grade :: "json_lib \<Rightarrow> string \<Rightarrow> json option" where
  "parse_grade jl content =
     (let raw = strip_fence (py_strip content) in
      case jl_loads jl raw of
        Some v \<Rightarrow> Some v
      | None \<Rightarrow> (case try_repair_json jl raw of Some v \<Rightarrow> if truthy v then Some v else None | None \<Rightarrow> None))"

section \<open>The guards\<close>

definition forced_cause :: "string \<Rightarrow> string \<Rightarrow> string" where
  "forced_cause current fallback = (if current = [] \<or> current = ''none'' then fallback else current)"

text \<open>\<open>any(... .strip() for ...)\<close>: the first field that is no text raises, unless one before it decided.\<close>

fun any_text :: "json list \<Rightarrow> bool option" where
  "any_text [] = Some False"
| "any_text (j # js) = (case text_or j of None \<Rightarrow> None | Some t \<Rightarrow> if py_strip t \<noteq> [] then Some True else any_text js)"

definition has_pass_with_lessons :: "reflect_result \<Rightarrow> bool option" where
  "has_pass_with_lessons r =
     (if non_pass (rf_verdict r) then Some False else any_text [rf_strategy r, rf_diagnostic r, rf_what_failed r])"

text \<open>Evidence the grader was not shown.  The view is what it saw of the results of the tools, what was
  cut, and the answer of the agent.\<close>

record tool_view =
  tv_shown :: string
  tv_elided :: string
  tv_final :: string

definition PHANTOM_ENV_TOKENS :: "string list" where
  "PHANTOM_ENV_TOKENS = [''compaction'', ''payment_required'', ''402'', ''quota'', ''rate limit'', ''rate_limit'']"

definition NO_FINAL_MARKER :: string where "NO_FINAL_MARKER = ''(no final assistant message)''"

definition NEXT_MSG_SECTION :: string where "NEXT_MSG_SECTION = ''USER'' @ [CHR 0x27] @ ''S NEXT MESSAGE''"

definition BLIND_MIN_TOKENS :: nat where "BLIND_MIN_TOKENS = 2"

definition blind_dispute_tokens :: "string \<Rightarrow> tool_view \<Rightarrow> string list" where
  "blind_dispute_tokens t tv =
     (if tv_elided tv = [] then []
      else filter (\<lambda>w. 5 \<le> length w \<and> distinctive w \<and> has_sub w (tv_final tv) \<and> has_sub w (tv_elided tv) \<and> \<not> has_sub w (tv_shown tv))
        (rev (remdups (rev (find_all blind_token None t)))))"

definition verdict_text :: "reflect_result \<Rightarrow> string option" where
  "verdict_text r =
     (case (text_or (rf_reasoning r), text_or (rf_diagnostic r), text_or (rf_what_failed r), text_or (rf_missing r)) of
        (Some a, Some b, Some c, Some e) \<Rightarrow> Some (join_with '' '' [a, b, c, e])
      | _ \<Rightarrow> None)"

definition phantom_of_text :: "reflect_result \<Rightarrow> string \<Rightarrow> string option \<Rightarrow> tool_view \<Rightarrow> string \<Rightarrow> phantom option" where
  "phantom_of_text r evidence termination tv t =
     (let low = py_lower evidence;
          answered = termination = Some ''complete'' \<and> evidence \<noteq> [] \<and> \<not> has_sub NO_FINAL_MARKER evidence;
          hits = filter (\<lambda>w. has_sub w (py_lower t)) PHANTOM_ENV_TOKENS;
          blind = blind_dispute_tokens t tv in
      if py_strip t = [] then None
      else if mentions NEXT_MESSAGE_PHRASES t \<and> \<not> has_sub NEXT_MSG_SECTION evidence then Some Phantom_Next_Message
      else if answered \<and> hits \<noteq> [] \<and> \<not> list_ex (\<lambda>w. has_sub w low) hits then Some (Phantom_Environment hits)
      else if answered \<and> mentions NO_OUTPUT_PHRASES t \<and> rf_cause r = ''env'' then Some Phantom_No_Output
      else if BLIND_MIN_TOKENS \<le> length blind then Some (Phantom_Blind (take 6 blind))
      else None)"

definition phantom_evidence_reason :: "reflect_result \<Rightarrow> string \<Rightarrow> string option \<Rightarrow> tool_view \<Rightarrow> phantom option option" where
  "phantom_evidence_reason r evidence termination tv =
     (if non_pass (rf_verdict r) then map_option (phantom_of_text r evidence termination tv) (verdict_text r) else Some None)"

text \<open>\<open>why\<close> is the text of the reason.\<close>

definition phantom_guard :: "(phantom \<Rightarrow> string) \<Rightarrow> string \<Rightarrow> string option \<Rightarrow> tool_view \<Rightarrow> reflect_result \<Rightarrow> reflect_result option" where
  "phantom_guard why evidence termination tv r =
     Option.bind (phantom_evidence_reason r evidence termination tv) (\<lambda>p.
       case p of
         None \<Rightarrow> Some r
       | Some q \<Rightarrow> map_option (\<lambda>x. x\<lparr>rf_verdict := V_Pass, rf_cause := ''none'', rf_verification := Unknown, rf_reason := Phantom_Evidence q\<rparr>)
           (append_reasoning ('' [downgraded from '' @ verdict_name (rf_verdict r) @ '' by the phantom-evidence guard: '' @ why q @ '']'') r))"

text \<open>The ledger of the calls of the attempt and their results.\<close>

record prov_row =
  pr_call :: string
  pr_request :: string
  pr_result :: string

text \<open>A later row of a call replaces an earlier one; the number is the place in the ledger.\<close>

definition find_record :: "prov_row list \<Rightarrow> string \<Rightarrow> (nat \<times> prov_row) option" where
  "find_record rows i = find (\<lambda>(n, r). pr_call r = i) (rev (enumerate 0 rows))"

definition quote_fits :: "string \<Rightarrow> prov_row \<Rightarrow> json option \<Rightarrow> bool" where
  "quote_fits subject row q \<longleftrightarrow>
     (case q of Some (JStr t) \<Rightarrow> 8 \<le> length (py_strip t) \<and> has_sub t (pr_result row) | _ \<Rightarrow> False)
     \<and> (has_sub subject (pr_request row) \<or> has_sub subject (pr_result row))"

text \<open>What a claim cites: its subject and the two rows, when it names them.\<close>

definition cited_rows :: "prov_row list \<Rightarrow> json \<Rightarrow> ((string \<times> json) list \<times> string \<times> (nat \<times> prov_row) \<times> (nat \<times> prov_row)) option" where
  "cited_rows rows c =
     (case c of
        JObj d \<Rightarrow>
          (case (map_of d ''tool_call_id'', map_of d ''expected_tool_call_id'', map_of d ''subject'') of
             (Some (JStr a), Some (JStr b), Some (JStr s)) \<Rightarrow>
               (case (find_record rows a, find_record rows b) of
                  (Some observed, Some expected) \<Rightarrow> if s = [] then None else Some (d, s, observed, expected)
                | _ \<Rightarrow> None)
           | _ \<Rightarrow> None)
      | _ \<Rightarrow> None)"

text \<open>The claims in order; one that cites nothing, or an earlier call against a later one, ends the look.\<close>

fun judge_claims :: "prov_row list \<Rightarrow> json list \<Rightarrow> bool \<times> rejection \<Rightarrow> bool \<times> rejection" where
  "judge_claims rows [] acc = acc"
| "judge_claims rows (c # cs) (ok, why) =
     (case cited_rows rows c of
        None \<Rightarrow> (False, why)
      | Some (d, s, (i, observed), (j, expected)) \<Rightarrow>
          if j \<le> i then (False, Earlier_Request)
          else
            let fits = quote_fits s observed (map_of d ''quote'') \<and> quote_fits s expected (map_of d ''expected_quote'')
                  \<and> map_of d ''quote'' \<noteq> map_of d ''expected_quote'';
                later = list_ex (\<lambda>r. has_sub s (pr_request r)) (drop (Suc j) rows)
            in judge_claims rows cs (ok \<and> fits \<and> \<not> later, if later then Superseded else why))"

definition reject_correction :: "rejection \<Rightarrow> reflect_result \<Rightarrow> reflect_result" where
  "reject_correction why r = r\<lparr>rf_rejected := Some why, rf_verdict := V_Pass, rf_cause := ''none'', rf_verification := Unknown,
     rf_reason := Correction_Rejected why, rf_confidence := 0,
     rf_reasoning := JStr ''The grader proposed a factual correction that its cited evidence could not establish. No corrective action is warranted from this grade.'',
     rf_diagnostic := JStr [], rf_what_failed := JStr [], rf_strategy := JStr [], rf_missing := JStr [], rf_digest := None,
     rf_without_tools := [], rf_deliverables := [], rf_experience := None\<rparr>"

definition is_factual :: "json_lib \<Rightarrow> reflect_result \<Rightarrow> bool" where
  "is_factual jl r \<longleftrightarrow> rf_kind r = ''factual''
     \<or> reads_as_factual (join_with '' '' [str_or jl (rf_reasoning r), str_or jl (rf_what_failed r), str_or jl (rf_strategy r)])"

definition guard_factual_correction :: "json_lib \<Rightarrow> prov_row list \<Rightarrow> reflect_result \<Rightarrow> reflect_result option" where
  "guard_factual_correction jl rows r =
     Option.bind (if non_pass (rf_verdict r) then Some True else has_pass_with_lessons r) (\<lambda>corrects.
       if \<not> corrects \<or> \<not> is_factual jl r then Some r
       else
         let n = length (rf_evidence r); (ok, why) = judge_claims rows (take 10 (rf_evidence r)) (0 < n \<and> n \<le> 10, Unattributed)
         in Some (if ok then r else reject_correction why r))"

text \<open>The same wall as in a turn before: a retry runs against it again.\<close>

definition LOOP_WALLS :: "string list" where "LOOP_WALLS = [''round_ceiling'', ''stuck_loop'']"

definition wall_advice :: "string \<Rightarrow> string" where
  "wall_advice w =
     (if w = ''round_ceiling'' then ''Agent hit round_ceiling on consecutive attempts. Either split the task into smaller pieces or raise max_tool_rounds in settings.''
      else ''Agent was force-broken out of a repetition loop on consecutive attempts. The round budget is not the constraint - the approach is. Change tool or source, or narrow the step.'')"

definition wall_guard :: "string option \<Rightarrow> string list \<Rightarrow> reflect_result \<Rightarrow> reflect_result" where
  "wall_guard termination prior r =
     (case termination of
        None \<Rightarrow> r
      | Some w \<Rightarrow>
          if w \<in> set LOOP_WALLS \<and> w \<in> set prior \<and> rf_verdict r = V_Retry then
            r\<lparr>rf_verdict := V_Escalate, rf_cause := forced_cause (rf_cause r) ''task'',
              rf_missing := (if truthy (rf_missing r) then rf_missing r else JStr (wall_advice w))\<rparr>
          else r)"

definition gate_clamp :: "gate_result list \<Rightarrow> reflect_result \<Rightarrow> reflect_result option" where
  "gate_clamp gates r =
     (let names = join_with '', '' (map g_name (failing gates)) in
      if failing gates \<noteq> [] \<and> rf_verdict r = V_Pass then
        map_option (\<lambda>t. r\<lparr>rf_verdict := V_Retry, rf_cause := forced_cause (rf_cause r) ''task'',
            rf_reasoning := JStr (''[gate clamp] Deterministic gate(s) failing: '' @ names @ ''. A pass verdict is unreachable while a gate fails. '' @ t),
            rf_missing := (if truthy (rf_missing r) then rf_missing r else JStr (''Make the failing gate(s) pass: '' @ names))\<rparr>)
          (text_or (rf_reasoning r))
      else Some r)"

definition apply_verification_receipts :: "gate_result list \<Rightarrow> reflect_result \<Rightarrow> reflect_result" where
  "apply_verification_receipts gates r =
     (let passed = filter g_passed (filter (\<lambda>g. \<not> g_broken g) gates) in
      if gates = [] then r
      else if failing gates \<noteq> [] then r\<lparr>rf_verification := Unknown, rf_reason := Gates_Failing (map g_name (failing gates))\<rparr>
      else if broken gates \<noteq> [] then
        r\<lparr>rf_verification := (if rf_verification r = Verified then Partial else rf_verification r),
          rf_reason := Gates_Unavailable (map g_name (broken gates)) (map g_name passed)\<rparr>
      else if passed \<noteq> [] \<and> rf_verification r = Unknown then
        r\<lparr>rf_verification := Partial, rf_reason := Gates_Passed (map g_name passed)\<rparr>
      else if passed \<noteq> [] \<and> rf_verification r = Verified \<and> rf_reason r = No_Reason then
        r\<lparr>rf_reason := Gates_Passed (map g_name passed)\<rparr>
      else r)"

section \<open>Grading\<close>

record grade_input =
  gi_request :: string
  gi_evidence :: string
  gi_ledger :: "prov_row list"
  gi_view :: tool_view
  gi_termination :: "string option"
  gi_prior :: "string list"
  gi_gates :: "gate_result list"
  gi_work :: int

text \<open>The guards in the order of the code.\<close>

definition finish_grade :: "reflect_env \<Rightarrow> (phantom \<Rightarrow> string) \<Rightarrow> grade_input \<Rightarrow> reflect_result \<Rightarrow> reflect_result option" where
  "finish_grade env why inp r =
     Option.bind (phantom_guard why (gi_evidence inp) (gi_termination inp) (gi_view inp) (wall_guard (gi_termination inp) (gi_prior inp) r)) (\<lambda>r.
     Option.bind (guard_factual_correction (re_lib env) (gi_ledger inp) r) (\<lambda>r.
     Option.bind (gate_clamp (gi_gates inp) r) (\<lambda>r.
     let r = apply_verification_receipts (gi_gates inp) r in
     Option.bind (has_pass_with_lessons r) (\<lambda>_. Some r))))"

definition INNER_REPROMPT_LIMIT :: nat where "INNER_REPROMPT_LIMIT = 2"

text \<open>What the request came to, and the end of the grading.\<close>

datatype reply = Reply_Raises | Reply_Text string

datatype grade_end = No_Request | Graded nat | Parse_Exhausted | Grading_Failed

definition no_analysis :: string where
  "no_analysis = ''(grader returned no analysis after re-ask - treat this pass as low-confidence)''"

text \<open>A pass without a word on a turn with real work is asked for again.\<close>

definition contentless :: "grade_input \<Rightarrow> reflect_result \<Rightarrow> bool option" where
  "contentless inp r =
     (if rf_verdict r = V_Pass then map_option (\<lambda>t. py_strip t = [] \<and> 5 \<le> gi_work inp) (text_or (rf_reasoning r)) else Some False)"

fun grade_loop :: "reflect_env \<Rightarrow> (phantom \<Rightarrow> string) \<Rightarrow> grade_input \<Rightarrow> (nat \<Rightarrow> reply) \<Rightarrow> nat \<Rightarrow> nat \<Rightarrow> grade_end \<times> reflect_result" where
  "grade_loop env why inp replies 0 n = (Grading_Failed, new_result ''Reflect error'')"
| "grade_loop env why inp replies (Suc left) n =
     (case replies n of
        Reply_Raises \<Rightarrow> (Grading_Failed, new_result ''Reflect error'')
      | Reply_Text content \<Rightarrow>
          (case parse_grade (re_lib env) content of
             None \<Rightarrow> if 0 < left then grade_loop env why inp replies left (Suc n)
                     else (Parse_Exhausted, new_result ''Reflect parse failed (soft-pass)'')
           | Some (JObj d) \<Rightarrow>
               (case result_from_data env d of
                  None \<Rightarrow> (Grading_Failed, new_result ''Reflect error'')
                | Some r \<Rightarrow>
                    (case contentless inp r of
                       None \<Rightarrow> (Grading_Failed, new_result ''Reflect error'')
                     | Some again \<Rightarrow>
                         if again \<and> 0 < left then grade_loop env why inp replies left (Suc n)
                         else (case finish_grade env why inp (if again then r\<lparr>rf_reasoning := JStr no_analysis\<rparr> else r) of
                             None \<Rightarrow> (Grading_Failed, new_result ''Reflect error'')
                           | Some r' \<Rightarrow> (Graded n, r'))))
           | Some _ \<Rightarrow> (Grading_Failed, new_result ''Reflect error'')))"

definition reflect_on_session :: "reflect_env \<Rightarrow> (phantom \<Rightarrow> string) \<Rightarrow> grade_input \<Rightarrow> (nat \<Rightarrow> reply) \<Rightarrow> grade_end \<times> reflect_result" where
  "reflect_on_session env why inp replies =
     (if gi_request inp = [] \<or> gi_evidence inp = [] then (No_Request, new_result ''No user request found to verify'')
      else grade_loop env why inp replies (INNER_REPROMPT_LIMIT + 1) 0)"

section \<open>What a retry is told\<close>

definition SIDE_EFFECT_TOOLS :: "string list" where
  "SIDE_EFFECT_TOOLS = [''notify_user'', ''schedule_job'', ''update_scheduled_job'', ''remove_scheduled_job'',
     ''spawn_worker'', ''notify_parent'', ''message_worker'']"

text \<open>The tools that a retry is told not to run again: they succeeded, as the summary of the turn counts.\<close>

definition already_executed :: "(string \<rightharpoonup> tool_entry) \<Rightarrow> string list" where
  "already_executed summary = filter (\<lambda>t. case summary t of Some e \<Rightarrow> failures e < calls e | None \<Rightarrow> False) SIDE_EFFECT_TOOLS"

end
