(* ===== verification/Hooks.thy ===== *)
theory Hooks
  imports Reflect Worker_Wait
begin

text \<open>
  The end of a turn: the gates, the grade and the retries, \<open>sessions/hooks.py\<close>, the loop of
  \<open>sessions/manager.py\<close> around them, and the background grade of an interactive turn.

  An operation takes what the turn remembers (\<^typ>\<open>turn_state\<close>) and returns it with the events that it
  emits or broadcasts.  What it reads of its surroundings, the grade among them, is a record.
\<close>

section \<open>What the user and the next attempt are told\<close>

datatype hook_event =
    Ev_Gates nat nat "string list"
  | Ev_Retry int int
  | Ev_Exhausted int int
  | Ev_Exhausted_Notice int
  | Ev_Skipped nat nat
  | Ev_Budget_Exhausted
  | Ev_Budget_Notice
  | Ev_Breaker int
  | Ev_Breaker_Notice int
  | Ev_Escalate
  | Ev_Attention_Notice
  | Ev_Deferred_Scheduled
  | Ev_Reflect_Row verdict verification
  | Ev_Reflect_Crashed
  | Ev_Retry_Dropped

definition py_int :: "int \<Rightarrow> string" where
  "py_int i = (if i < 0 then CHR ''-'' # dec (nat (- i)) else dec (nat i))"

definition gate_detail :: "string \<Rightarrow> gate_result \<Rightarrow> string" where
  "gate_detail otherwise r =
     (case g_exit_code r of Some i \<Rightarrow> ''exit '' @ py_int i | None \<Rightarrow> if g_error r = [] then otherwise else g_error r)"

definition gate_lines :: "(gate_result \<Rightarrow> string) \<Rightarrow> nat \<Rightarrow> gate_result \<Rightarrow> string list" where
  "gate_lines detail n r =
     (''- `'' @ g_name r @ ''` ('' @ detail r @ ''): '' @ g_command r)
     # (if g_output_tail r = [] then [] else [''  '' @ last_chars n (g_output_tail r)])"

definition format_retry_guidance :: "gate_result list \<Rightarrow> string" where
  "format_retry_guidance gates =
     (if failing gates = [] then []
      else join_with [nl] (''Deterministic gates failed - the retry must make these pass:''
             # concat (map (gate_lines (gate_detail ''failed'') 400) (failing gates))))"

text \<open>Here the error comes first, and the exit code only without one.\<close>

definition broken_detail :: "gate_result \<Rightarrow> string" where
  "broken_detail r =
     (if g_error r \<noteq> [] then g_error r else case g_exit_code r of Some i \<Rightarrow> ''exit '' @ py_int i | None \<Rightarrow> ''did not start'')"

definition format_broken_notice :: "gate_result list \<Rightarrow> string" where
  "format_broken_notice gates =
     (if broken gates = [] then []
      else join_with [nl] (''A deterministic gate you registered could NOT RUN - it has verified nothing. Fix the command or re-register it with remove_gate + add_gate:''
             # concat (map (gate_lines broken_detail 300) (broken gates))))"

text \<open>\<open>((lessons or "") + "\n\n" + text).strip()\<close>\<close>

definition add_lesson :: "string \<Rightarrow> turn_state \<Rightarrow> turn_state" where
  "add_lesson t tn = tn\<lparr>reflect_lessons := py_strip (reflect_lessons tn @ [nl, nl] @ t)\<rparr>"

section \<open>The gates of the attempt\<close>

definition carry_broken_notice :: "gate_result list \<Rightarrow> turn_state \<Rightarrow> turn_state" where
  "carry_broken_notice gates tn =
     (let notice = format_broken_notice gates in
      if notice \<noteq> [] \<and> \<not> has_sub notice (reflect_lessons tn) then add_lesson notice tn else tn)"

text \<open>\<open>outcome\<close> is what the runner returned, \<^const>\<open>None\<close> when it raised.\<close>

definition run_turn_gates :: "gate_result list option \<Rightarrow> turn_state \<Rightarrow> gate_result list \<times> turn_state \<times> hook_event list" where
  "run_turn_gates outcome tn =
     (case outcome of
        None \<Rightarrow> ([], tn, [])
      | Some gates \<Rightarrow>
          if gates = [] then ([], tn, [])
          else (gates, carry_broken_notice gates tn,
            [Ev_Gates (length gates) (length (filter (\<lambda>g. \<not> g_passed g) gates)) (map g_name (filter g_broken gates))]))"

text \<open>A failing gate asks for the retry where no verdict can.\<close>

definition apply_gate_retry_fallback :: "int \<Rightarrow> gate_result list \<Rightarrow> turn_state \<Rightarrow> turn_state \<times> hook_event list" where
  "apply_gate_retry_fallback cap gates tn =
     (if failing gates = [] \<or> cap \<le> reflect_count tn then (tn, [])
      else let n = reflect_count tn + 1 in
        ((add_lesson (format_retry_guidance gates) (tn\<lparr>reflect_count := n\<rparr>))\<lparr>reflect_retry_requested := True\<rparr>, [Ev_Retry n cap]))"

section \<open>The circuit breaker\<close>

record post_mortem =
  pm_created :: string
  pm_verdict :: string
  pm_cause :: string
  pm_reasoning :: string
  pm_diagnostic :: string

definition pm_text :: "post_mortem \<Rightarrow> string" where
  "pm_text p = py_lower (py_strip (pm_reasoning p @ '' '' @ pm_diagnostic p))"

text \<open>The order of Python's texts, by code points.\<close>

fun text_less :: "string \<Rightarrow> string \<Rightarrow> bool" where
  "text_less a [] = False"
| "text_less [] (d # b) = True"
| "text_less (c # a) (d # b) =
     ((of_char c :: nat) < of_char d \<or> ((of_char c :: nat) = of_char d \<and> text_less a b))"

text \<open>The two newest rows; \<open>ratio\<close> is the similarity of \<open>difflib\<close>.  The signature is cause and text.\<close>

definition same_failure_repeating ::
    "(string \<Rightarrow> string \<Rightarrow> rat) \<Rightarrow> post_mortem list \<Rightarrow> string option \<Rightarrow> (string \<times> string) option" where
  "same_failure_repeating ratio pms started =
     (case pms of
        a # b # _ \<Rightarrow>
          if (case started of Some s \<Rightarrow> s \<noteq> [] \<and> (text_less (pm_created a) s \<or> text_less (pm_created b) s) | None \<Rightarrow> False) then None
          else if pm_verdict a \<noteq> ''retry'' \<or> pm_verdict b \<noteq> ''retry'' \<or> pm_cause a \<noteq> pm_cause b then None
          else if pm_text a = [] \<or> pm_text b = [] \<or> ratio (pm_text a) (pm_text b) < 7 / 10 then None
          else Some (pm_cause a, take 160 (pm_text a))
      | _ \<Rightarrow> None)"

section \<open>The grade of an attempt\<close>

text \<open>What the hooks read.  \<open>hw_grade\<close> is what \<open>reflect_on_session\<close> returns for the attempt, \<^const>\<open>None\<close> when
  something in the block around it raises; \<open>hw_wording\<close> is the text for the next attempt; \<open>hw_exists\<close> asks the
  registry.\<close>

record hook_world =
  hw_gates_enabled :: bool
  hw_reflect_enabled :: bool
  hw_deferred :: bool
  hw_cap :: int
  hw_min_messages :: nat
  hw_gate_run :: "gate_result list option"
  hw_awaiting_user :: bool
  hw_error :: bool
  hw_substantive :: nat
  hw_synthetic :: bool
  hw_grade :: "int \<Rightarrow> gate_result list \<Rightarrow> reflect_result option"
  hw_remaining :: span
  hw_needed :: rat
  hw_ratio :: "string \<Rightarrow> string \<Rightarrow> rat"
  hw_post_mortems :: "post_mortem list"
  hw_turn_started :: "string option"
  hw_exists :: "string \<Rightarrow> bool"
  hw_wording :: "reflect_result \<Rightarrow> int \<Rightarrow> string"

text \<open>The least time a retry needs: three tries of the scout and an agent's first slot, up to a cap.\<close>

definition retry_seconds_needed :: "rat \<Rightarrow> rat \<Rightarrow> rat" where
  "retry_seconds_needed scout_timeout budget_cap = min (scout_timeout * 3 + 30) budget_cap"

definition record_retry :: "hook_world \<Rightarrow> gate_result list \<Rightarrow> reflect_result \<Rightarrow> turn_state \<Rightarrow> turn_state" where
  "record_retry w gates r tn =
     (let n = reflect_count tn + 1; tn1 = tn\<lparr>reflect_count := n, reflect_lessons := hw_wording w r n\<rparr> in
      if list_ex (\<lambda>g. \<not> g_passed g) gates then add_lesson (format_retry_guidance gates) tn1 else tn1)"

text \<open>The tools the next attempt must do without: those the verdict names and the registry knows.\<close>

definition exclude_tools :: "hook_world \<Rightarrow> reflect_result \<Rightarrow> turn_state \<Rightarrow> turn_state" where
  "exclude_tools w r tn = tn\<lparr>retry_excluded_tools := set (filter (hw_exists w) (rf_without_tools r))\<rparr>"

definition request_retry :: "hook_world \<Rightarrow> reflect_result \<Rightarrow> turn_state \<Rightarrow> turn_state \<times> hook_event list" where
  "request_retry w r tn =
     (let tn1 = exclude_tools w r tn; n = reflect_count tn in
      if n < hw_cap w then (tn1\<lparr>reflect_retry_requested := True\<rparr>, [Ev_Retry n (hw_cap w)])
      else (tn1, [Ev_Exhausted n (hw_cap w), Ev_Exhausted_Notice n]))"

definition act_on_retry :: "hook_world \<Rightarrow> gate_result list \<Rightarrow> reflect_result \<Rightarrow> turn_state \<Rightarrow> turn_state \<times> hook_event list" where
  "act_on_retry w gates r tn =
     (let tn1 = record_retry w gates r tn; n = reflect_count tn1 in
      if hw_remaining w < Fin (hw_needed w) then (tn1, [Ev_Budget_Exhausted, Ev_Budget_Notice])
      else if 2 \<le> n \<and> same_failure_repeating (hw_ratio w) (hw_post_mortems w) (hw_turn_started w) \<noteq> None
      then (tn1, [Ev_Breaker n, Ev_Breaker_Notice n])
      else request_retry w r tn1)"

definition act_on_grade :: "hook_world \<Rightarrow> gate_result list \<Rightarrow> reflect_result \<Rightarrow> turn_state \<Rightarrow> turn_state \<times> hook_event list" where
  "act_on_grade w gates r tn =
     (let row = Ev_Reflect_Row (rf_verdict r) (rf_verification r) in
      case rf_verdict r of
        V_Retry \<Rightarrow> (case act_on_retry w gates r tn of (tn', es) \<Rightarrow> (tn', row # es))
      | V_Escalate \<Rightarrow> (tn, [row, Ev_Escalate, Ev_Attention_Notice])
      | V_Pass \<Rightarrow> (tn, [row]))"

definition maybe_reflect :: "hook_world \<Rightarrow> gate_result list \<Rightarrow> turn_state \<Rightarrow> turn_state \<times> hook_event list" where
  "maybe_reflect w gates tn =
     (if hw_awaiting_user w \<or> hw_error w then (tn, [])
      else if hw_cap w \<le> reflect_count tn then (tn, [Ev_Exhausted (reflect_count tn) (hw_cap w), Ev_Exhausted_Notice (reflect_count tn)])
      else if hw_substantive w < hw_min_messages w then
        (case apply_gate_retry_fallback (hw_cap w) gates tn of (tn', es) \<Rightarrow> (tn', Ev_Skipped (hw_substantive w) (hw_min_messages w) # es))
      else if hw_deferred w then
        (case apply_gate_retry_fallback (hw_cap w) gates tn of (tn', es) \<Rightarrow>
           (tn', es @ (if hw_synthetic w then [] else [Ev_Deferred_Scheduled])))
      else (case hw_grade w (reflect_count tn + 1) gates of
          None \<Rightarrow> (tn, [Ev_Reflect_Crashed])
        | Some r \<Rightarrow> act_on_grade w gates r tn))"

text \<open>\<open>run_post_task_hooks\<close>: what decides about a retry.\<close>

definition post_task_hooks :: "hook_world \<Rightarrow> turn_state \<Rightarrow> turn_state \<times> hook_event list" where
  "post_task_hooks w tn =
     (case (if hw_gates_enabled w then run_turn_gates (hw_gate_run w) tn else ([], tn, [])) of (gates, tn1, es1) \<Rightarrow>
      case (if hw_reflect_enabled w then maybe_reflect w gates tn1
            else if gates \<noteq> [] then apply_gate_retry_fallback (hw_cap w) gates tn1 else (tn1, [])) of (tn2, es2) \<Rightarrow>
        (tn2, es1 @ es2))"

section \<open>The retry loop\<close>

definition EVAL_MAX_RETRIES :: int where "EVAL_MAX_RETRIES = 2"

text \<open>What a pass of the loop finds: the world of its hooks, whether messages wait before and after the hooks,
  and whether the session is finalizing before and after.  The k-th pass is the k-th attempt.\<close>

record pass_world =
  pw_hooks :: hook_world
  pw_pending :: bool
  pw_pending_after :: bool
  pw_finalizing :: bool
  pw_finalizing_after :: bool

datatype after_pass = Run_Retry | Run_Eval | Turn_Over

text \<open>One pass: the hooks, the drop of a retry that a message pre-empts, and the choice.\<close>

definition loop_pass :: "int \<Rightarrow> pass_world \<Rightarrow> turn_state \<Rightarrow> after_pass \<times> turn_state \<times> hook_event list" where
  "loop_pass cap p tn =
     (let (tn1, es) = (if pw_finalizing p \<and> \<not> pw_pending p then post_task_hooks (pw_hooks p) tn else (tn, []));
          dropped = (reflect_retry_requested tn1 \<or> eval_retry_requested tn1) \<and> pw_pending_after p;
          tn2 = (if dropped then tn1\<lparr>reflect_retry_requested := False, eval_retry_requested := False\<rparr> else tn1);
          es2 = es @ (if dropped then [Ev_Retry_Dropped] else []);
          free = \<not> pw_pending_after p \<and> pw_finalizing_after p in
      if reflect_retry_requested tn2 \<and> reflect_count tn2 < cap \<and> free then (Run_Retry, tn2\<lparr>reflect_retry_requested := False\<rparr>, es2)
      else if eval_retry_requested tn2 \<and> eval_count tn2 < EVAL_MAX_RETRIES \<and> free then (Run_Eval, tn2\<lparr>eval_retry_requested := False\<rparr>, es2)
      else (Turn_Over, tn2, es2))"

text \<open>The retries that a state of the turn leaves room for.\<close>

definition room :: "int \<Rightarrow> turn_state \<Rightarrow> nat" where
  "room cap tn = 2 * nat (cap - reflect_count tn) + (if reflect_retry_requested tn then 1 else 0) + (if eval_retry_requested tn then 2 else 0)"

lemma add_lesson_keeps [simp]:
  "reflect_count (add_lesson t tn) = reflect_count tn" "reflect_retry_requested (add_lesson t tn) = reflect_retry_requested tn"
  "eval_count (add_lesson t tn) = eval_count tn" "eval_retry_requested (add_lesson t tn) = eval_retry_requested tn"
  "retry_excluded_tools (add_lesson t tn) = retry_excluded_tools tn"
  by (simp_all add: add_lesson_def)

text \<open>What a pass of the hooks can do to the counters: nothing, or one more attempt on the count.\<close>

definition hooks_effect :: "turn_state \<Rightarrow> turn_state \<Rightarrow> bool" where
  "hooks_effect tn tn' \<longleftrightarrow> eval_count tn' = eval_count tn \<and> eval_retry_requested tn' = eval_retry_requested tn
     \<and> (reflect_count tn' = reflect_count tn \<and> reflect_retry_requested tn' = reflect_retry_requested tn
        \<or> reflect_count tn' = reflect_count tn + 1)"

lemma effect_refl [simp]: "hooks_effect tn tn"
  by (simp add: hooks_effect_def)

lemma carry_effect: "hooks_effect tn tn' \<Longrightarrow> hooks_effect tn (carry_broken_notice gates tn')" "reflect_count (carry_broken_notice gates tn) = reflect_count tn"
    "reflect_retry_requested (carry_broken_notice gates tn) = reflect_retry_requested tn"
    "hooks_effect (carry_broken_notice gates tn) tn' = hooks_effect tn tn'"
  by (simp_all add: hooks_effect_def carry_broken_notice_def Let_def)

lemma fallback_effect: "hooks_effect tn (fst (apply_gate_retry_fallback cap gates tn))"
  by (simp add: hooks_effect_def apply_gate_retry_fallback_def Let_def)

lemma record_retry_effect:
  "reflect_count (record_retry w gates r tn) = reflect_count tn + 1" "eval_count (record_retry w gates r tn) = eval_count tn"
  "eval_retry_requested (record_retry w gates r tn) = eval_retry_requested tn"
  "reflect_retry_requested (record_retry w gates r tn) = reflect_retry_requested tn"
  by (simp_all add: record_retry_def Let_def)

lemma request_retry_keeps:
  "reflect_count (fst (request_retry w r tn)) = reflect_count tn" "eval_count (fst (request_retry w r tn)) = eval_count tn"
  "eval_retry_requested (fst (request_retry w r tn)) = eval_retry_requested tn"
  by (simp_all add: request_retry_def exclude_tools_def Let_def)

lemma act_on_retry_effect: "hooks_effect tn (fst (act_on_retry w gates r tn))"
  by (simp add: hooks_effect_def act_on_retry_def Let_def record_retry_effect request_retry_keeps)

lemma grade_effect: "hooks_effect tn (fst (act_on_grade w gates r tn))"
  using act_on_retry_effect [of tn w gates r] by (cases "rf_verdict r") (simp_all add: act_on_grade_def Let_def case_prod_beta)

lemma maybe_reflect_effect: "hooks_effect tn (fst (maybe_reflect w gates tn))"
  using fallback_effect [of tn "hw_cap w" gates] grade_effect
  by (cases "hw_grade w (reflect_count tn + 1) gates") (simp_all add: maybe_reflect_def case_prod_beta)

lemma hooks_effect_all: "hooks_effect tn (fst (post_task_hooks w tn))"
proof -
  obtain gates tn1 es1 where g: "(if hw_gates_enabled w then run_turn_gates (hw_gate_run w) tn else ([], tn, [])) = (gates, tn1, es1)"
    by (rule prod_cases3)
  have "tn1 = tn \<or> tn1 = carry_broken_notice gates tn"
    using g by (auto simp: run_turn_gates_def split: if_splits option.splits)
  moreover have "hooks_effect tn1 (fst (post_task_hooks w tn))"
    using maybe_reflect_effect [of tn1 w gates] fallback_effect [of tn1 "hw_cap w" gates]
    by (simp add: post_task_hooks_def g case_prod_beta)
  ultimately show ?thesis using carry_effect(4) by auto
qed

lemma pass_uses_room:
  assumes "loop_pass cap p tn = (a, tn', es)" "a \<noteq> Turn_Over"
  shows "room cap tn' < room cap tn"
proof -
  obtain tn1 es1 where h: "(if pw_finalizing p \<and> \<not> pw_pending p then post_task_hooks (pw_hooks p) tn else (tn, [])) = (tn1, es1)" by fastforce
  have e: "hooks_effect tn tn1" using h hooks_effect_all [of tn "pw_hooks p"] by (auto split: if_splits)
  show ?thesis
  proof (cases "(reflect_retry_requested tn1 \<or> eval_retry_requested tn1) \<and> pw_pending_after p")
    case True
    then show ?thesis using assms h by (simp add: loop_pass_def)
  next
    case False
    then consider "reflect_retry_requested tn1" "reflect_count tn1 < cap" "tn' = tn1\<lparr>reflect_retry_requested := False\<rparr>"
      | "eval_retry_requested tn1" "tn' = tn1\<lparr>eval_retry_requested := False\<rparr>" "\<not> (reflect_retry_requested tn1 \<and> reflect_count tn1 < cap)"
      using assms h by (auto simp: loop_pass_def Let_def split: if_splits)
    then show ?thesis
    proof cases
      case 1
      then show ?thesis using e by (auto simp: room_def hooks_effect_def)
    next
      case 2
      then show ?thesis using e by (cases "reflect_count tn1 = reflect_count tn") (auto simp: room_def hooks_effect_def)
    qed
  qed
qed

text \<open>The loop, from the pass \<open>k\<close> on: the state the turn ends in, what was told, and the retries that ran.\<close>

function retry_loop :: "int \<Rightarrow> (nat \<Rightarrow> pass_world) \<Rightarrow> nat \<Rightarrow> turn_state \<Rightarrow> turn_state \<times> hook_event list \<times> after_pass list" where
  "retry_loop cap ps k tn =
     (case loop_pass cap (ps k) tn of (a, tn1, es1) \<Rightarrow>
        if a = Turn_Over then (tn1, es1, [])
        else (case retry_loop cap ps (Suc k) tn1 of (tn2, es2, rs) \<Rightarrow> (tn2, es1 @ es2, a # rs)))"
  by pat_completeness auto
termination
  by (relation "measure (\<lambda>(cap, ps, k, tn). room cap tn)") (auto dest: pass_uses_room [OF sym])

declare retry_loop.simps [simp del]

section \<open>The background grade\<close>

text \<open>The snapshot at the end of an interactive turn.\<close>

record deferred_grade =
  df_ticket :: int
  df_turn_id :: int
  df_user_msg :: "int option"
  df_last_msg :: "int option"
  df_attempt :: int

definition schedule_deferred_reflect :: "int option \<Rightarrow> agent_session \<Rightarrow> agent_session \<times> deferred_grade" where
  "schedule_deferred_reflect last_msg s =
     (let n = deferred_reflect_seq s + 1 in
      (s\<lparr>deferred_reflect_seq := n\<rparr>,
       \<lparr>df_ticket = n, df_turn_id = turn_id s, df_user_msg = current_turn_user_msg_id s, df_last_msg = last_msg,
        df_attempt = reflect_count (turn s) + 1\<rparr>))"

definition real_turn_started :: "agent_session \<Rightarrow> deferred_grade \<Rightarrow> bool" where
  "real_turn_started s g \<longleftrightarrow> turn_id s \<noteq> df_turn_id g \<and> list_ex (\<lambda>t. t \<notin> synthetic_turn_ids s) [df_turn_id g + 1..turn_id s]"

datatype stale = Session_Replaced | Later_Grade | Turn_Advanced | Turn_In_Flight | Not_Idle sstate

text \<open>\<open>live\<close> says what the manager holds under the id: nothing, this session or another object.\<close>

datatype live = Live_None | Live_Same | Live_Other

definition deferred_grade_superseded :: "live \<Rightarrow> agent_session \<Rightarrow> deferred_grade \<Rightarrow> stale option" where
  "deferred_grade_superseded l s g =
     (if l = Live_Other then Some Session_Replaced
      else if deferred_reflect_seq s \<noteq> df_ticket g then Some Later_Grade
      else if real_turn_started s g then Some Turn_Advanced
      else if current_turn_user_msg_id s \<noteq> None then Some Turn_In_Flight
      else if current_state s \<noteq> IDLE_READY then Some (Not_Idle (current_state s))
      else None)"

definition grade_despite :: "bool \<Rightarrow> stale \<Rightarrow> bool" where
  "grade_despite next_turn_grading st \<longleftrightarrow> next_turn_grading \<and> st \<noteq> Session_Replaced"

text \<open>The user rows behind the turn, the first four, those the harness wrote left out.\<close>

definition next_user_message :: "(int \<times> string) list \<Rightarrow> deferred_grade \<Rightarrow> string" where
  "next_user_message user_rows g =
     (case (case df_user_msg g of Some i \<Rightarrow> Some i | None \<Rightarrow> df_last_msg g) of
        None \<Rightarrow> []
      | Some anchor \<Rightarrow>
          (case find (\<lambda>t. t \<noteq> [] \<and> \<not> starts_with WORKER_RESUME_PREFIX t)
              (map (\<lambda>(_, t). py_strip t) (take 4 (filter (\<lambda>(i, _). anchor < i) user_rows))) of
             Some t \<Rightarrow> t
           | None \<Rightarrow> []))"

datatype deferred_end = Ungraded stale | Graded_Late "stale option" string

definition deferred_reflect_task ::
    "bool \<Rightarrow> live \<Rightarrow> (int \<times> string) list \<Rightarrow> agent_session \<Rightarrow> deferred_grade \<Rightarrow> deferred_end" where
  "deferred_reflect_task next_turn_grading l user_rows s g =
     (let reply = (if next_turn_grading then next_user_message user_rows g else []) in
      case deferred_grade_superseded l s g of
        Some st \<Rightarrow> if grade_despite next_turn_grading st then Graded_Late (Some st) reply else Ungraded st
      | None \<Rightarrow> Graded_Late None reply)"

text \<open>The user hears of a verdict that is no pass only when nobody has answered yet.\<close>

definition deferred_notice :: "string \<Rightarrow> reflect_result \<Rightarrow> bool" where
  "deferred_notice reply r \<longleftrightarrow> reply = [] \<and> non_pass (rf_verdict r)"

end
