(* ===== verification/Reflect_Proofs.thy ===== *)
theory Reflect_Proofs
  imports Reflect Tool_Account
begin

text \<open>
  What a grade can come to: the guards one by one, then the grading of a turn as a whole.
\<close>

section \<open>The shape of a result\<close>

definition experience_ok :: "experience \<Rightarrow> bool" where
  "experience_ok e \<longleftrightarrow> ex_sentiment e \<in> set SENTIMENTS \<and> length (ex_friction e) \<le> 6 \<and> distinct (ex_friction e)
     \<and> (\<forall>l \<in> set (ex_friction e). length l \<le> 40 \<and> l \<noteq> [] \<and> list_all label_char l)
     \<and> length (ex_observations e) \<le> 3 \<and> (\<forall>u \<in> set (ex_observations e). length u \<le> 400) \<and> length (ex_note e) \<le> 500"

definition digest_ok :: "int \<Rightarrow> turn_digest \<Rightarrow> bool" where
  "digest_ok cap g \<longleftrightarrow> length (dg_plan g) \<le> 1000 \<and> length (dg_final g) \<le> 2000 \<and> length (dg_tried g) \<le> 1000
     \<and> length (dg_findings g) \<le> 10 \<and> (\<forall>f \<in> set (dg_findings g). length f \<le> 500) \<and> length (dg_calls g) \<le> 30
     \<and> (\<forall>c \<in> set (dg_calls g). length (dc_tool c) \<le> 120 \<and> length (dc_args c) \<le> 500 \<and> int (length (dc_excerpt c)) \<le> cap)"

definition lists_ok :: "reflect_env \<Rightarrow> reflect_result \<Rightarrow> bool" where
  "lists_ok env r \<longleftrightarrow> (\<forall>x \<in> set (rf_deliverables r). dv_status x \<in> set DELIVERABLE_STATES) \<and> length (rf_without_tools r) \<le> 5
     \<and> (\<forall>g. rf_digest r = Some g \<longrightarrow> digest_ok (excerpt_cap (re_digest_cap env)) g)
     \<and> (\<forall>e. rf_experience r = Some e \<longrightarrow> experience_ok e)"

definition grade_ok :: "reflect_env \<Rightarrow> reflect_result \<Rightarrow> bool" where
  "grade_ok env r \<longleftrightarrow> 0 \<le> rf_confidence r \<and> rf_confidence r \<le> 1 \<and> rf_cause r \<in> set FAILURE_CAUSES \<and> lists_ok env r"

lemma label_char_underscore: "label_char (CHR ''_'')"
  by (simp add: label_char_def)

lemma snake_labels: "list_all label_char (snake s)"
  by (induction s rule: snake.induct) (auto simp: label_char_underscore split: list.splits)

lemma list_all_take: "list_all P xs \<Longrightarrow> list_all P (take n xs)"
  by (auto simp: list_all_iff dest: in_set_takeD)

lemma list_all_dropWhile: "list_all P xs \<Longrightarrow> list_all P (dropWhile Q xs)"
  by (auto simp: list_all_iff dest: set_dropWhileD)

lemma strip_char_all: "list_all P s \<Longrightarrow> list_all P (strip_char c s)"
  unfolding strip_char_def by (metis list_all_dropWhile list_all_rev)

lemma friction_label_chars: "list_all label_char (friction_label jl f)" "length (friction_label jl f) \<le> 40"
  by (simp_all add: friction_label_def list_all_take strip_char_all snake_labels)

lemma cut_le: "length (take n xs) \<le> n"
  by simp

lemma all_take: "\<forall>x \<in> set xs. P x \<Longrightarrow> \<forall>x \<in> set (take n xs). P x"
  by (meson in_set_takeD)

lemma all_cut: "\<forall>x \<in> set (map (\<lambda>y. take n (f y)) ys). length x \<le> n"
  by auto

definition labels_ok :: "string list \<Rightarrow> bool" where
  "labels_ok ls \<longleftrightarrow> distinct ls \<and> list_all (\<lambda>l. length l \<le> 40 \<and> l \<noteq> [] \<and> list_all label_char l) ls"

lemma label_added: "labels_ok acc \<Longrightarrow> labels_ok (add_label acc (friction_label jl f))"
  using friction_label_chars [of jl f] by (simp add: labels_ok_def add_label_def)

lemma labels_added: "labels_ok acc \<Longrightarrow> labels_ok (foldl add_label acc (map (friction_label jl) fs))"
proof (induction fs arbitrary: acc)
  case (Cons f fs)
  from Cons.IH [OF label_added [OF Cons.prems]] show ?case by simp
qed simp

lemma labels_taken: "labels_ok ls \<Longrightarrow> labels_ok (take n ls)"
  by (simp add: labels_ok_def list_all_take)

lemma sanitized_experience: "experience_ok (sanitize_experience jl raw)"
proof -
  let ?e = "sanitize_experience jl raw"
  have "labels_ok []" by (simp add: labels_ok_def)
  then have "labels_ok (ex_friction ?e)"
    unfolding sanitize_experience_def Let_def by (simp add: labels_added labels_taken)
  moreover have "ex_sentiment ?e \<in> set SENTIMENTS" by (simp add: sanitize_experience_def Let_def SENTIMENTS_def)
  moreover have "\<forall>u \<in> set (ex_observations ?e). length u \<le> 400"
    unfolding sanitize_experience_def Let_def experience.simps by (rule all_take [OF all_cut])
  moreover have "length (ex_friction ?e) \<le> 6" "length (ex_observations ?e) \<le> 3" "length (ex_note ?e) \<le> 500"
    unfolding sanitize_experience_def Let_def experience.simps by (rule cut_le)+
  ultimately show ?thesis
    unfolding experience_ok_def labels_ok_def list_all_iff by blast
qed

lemma length_map_filter: "length (List.map_filter f xs) \<le> length xs"
  by (induction xs) (auto split: option.splits)

lemma map_filterD: "y \<in> set (List.map_filter f xs) \<Longrightarrow> \<exists>x \<in> set xs. f x = Some y"
  by (auto simp: List.map_filter_def)

lemma digest_call_ok:
  assumes "digest_call_of jl cap c = Some d" "0 \<le> cap"
  shows "length (dc_tool d) \<le> 120 \<and> length (dc_args d) \<le> 500 \<and> int (length (dc_excerpt d)) \<le> cap"
  using assms by (auto simp: digest_call_of_def min_def split: json.splits)

lemma sanitized_digest: "digest_ok (excerpt_cap (re_digest_cap env)) (sanitize_turn_digest env g)"
proof -
  let ?cap = "excerpt_cap (re_digest_cap env)" and ?g = "sanitize_turn_digest env g"
  have cap: "0 \<le> ?cap" by (simp add: excerpt_cap_def)
  have "length (dg_plan ?g) \<le> 1000" "length (dg_final ?g) \<le> 2000" "length (dg_tried ?g) \<le> 1000" "length (dg_findings ?g) \<le> 10"
    unfolding sanitize_turn_digest_def Let_def turn_digest.simps by (rule cut_le)+
  moreover have "\<forall>f \<in> set (dg_findings ?g). length f \<le> 500"
    unfolding sanitize_turn_digest_def Let_def turn_digest.simps by (rule all_take [OF all_cut])
  moreover have "length (dg_calls ?g) \<le> 30"
    unfolding sanitize_turn_digest_def Let_def turn_digest.simps by (rule order_trans [OF length_map_filter cut_le])
  moreover have "\<forall>c \<in> set (dg_calls ?g). length (dc_tool c) \<le> 120 \<and> length (dc_args c) \<le> 500 \<and> int (length (dc_excerpt c)) \<le> ?cap"
    unfolding sanitize_turn_digest_def Let_def turn_digest.simps using digest_call_ok [OF _ cap] by (blast dest: map_filterD)
  ultimately show ?thesis unfolding digest_ok_def by blast
qed

lemma deliverable_ok: "deliverable_of jl j = Some x \<Longrightarrow> dv_status x \<in> set DELIVERABLE_STATES"
  by (auto simp: deliverable_of_def DELIVERABLE_STATES_def split: json.splits option.splits if_splits)

lemma filled_lists: "lists_ok env (fill_lists env d r)"
proof -
  have "\<forall>x \<in> set (List.map_filter (deliverable_of (re_lib env)) ds). dv_status x \<in> set DELIVERABLE_STATES" for ds
    using deliverable_ok by (blast dest: map_filterD)
  moreover have "length (read_exclusions v d) \<le> 5" for v
    by (simp add: read_exclusions_def)
  ultimately show ?thesis
    by (auto simp: lists_ok_def fill_lists_def sanitized_digest sanitized_experience split: json.splits if_splits)
qed

lemma read_cause_known: "read_cause d = Some c \<Longrightarrow> c \<in> set FAILURE_CAUSES"
  by (auto simp: read_cause_def FAILURE_CAUSES_def split: json.splits if_splits)

lemma read_confidence_range: "read_confidence env d = (c, b) \<Longrightarrow> 0 \<le> c \<and> c \<le> 1"
  by (auto simp: read_confidence_def split: option.splits)

section \<open>The conversion\<close>

lemmas option_steps = Option.bind_eq_Some_conv append_reasoning_def

lemma contradiction_keeps:
  "settle_contradiction d r = Some r' \<Longrightarrow> rf_cause r' = rf_cause r \<and> rf_confidence r' = rf_confidence r
     \<and> (non_pass (rf_verdict r') \<longrightarrow> rf_verdict r' = rf_verdict r \<and> map_of d ''failure_cause'' \<noteq> Some (JStr ''none'') \<and> r' = r)"
  by (auto simp: settle_contradiction_def option_steps non_pass_def split: if_splits)

lemma floor_keeps:
  "apply_floor env stated coerced r = Some r' \<Longrightarrow> rf_confidence r' = rf_confidence r
     \<and> (rf_cause r' = rf_cause r \<or> rf_cause r' = ''none'')
     \<and> (non_pass (rf_verdict r') \<longrightarrow> r' = r \<and> (coerced \<or> \<not> stated \<or> re_floor env \<le> 0 \<or> re_floor env \<le> rf_confidence r))"
  by (auto simp: apply_floor_def option_steps non_pass_def split: if_splits)

lemma settle_keeps:
  assumes "settle_verification jl d coerced r = Some r'"
  shows "rf_cause r' = rf_cause r" "rf_confidence r' = rf_confidence r" "rf_verdict r' = rf_verdict r" "rf_verification r' \<noteq> Unstated"
    "rf_deliverables r' = rf_deliverables r" "rf_without_tools r' = rf_without_tools r" "rf_digest r' = rf_digest r"
    "rf_experience r' = rf_experience r" "rf_evidence r' = rf_evidence r" "rf_kind r' = rf_kind r" "rf_rejected r' = rf_rejected r"
  using assms
  by (auto simp: settle_verification_def verification_of_def Let_def split: option.splits if_splits json.splits)

lemma fill_keeps [simp]:
  "rf_cause (fill_lists env d r) = rf_cause r" "rf_confidence (fill_lists env d r) = rf_confidence r"
  "rf_verdict (fill_lists env d r) = rf_verdict r" "rf_verification (fill_lists env d r) = rf_verification r"
  "rf_reason (fill_lists env d r) = rf_reason r" "rf_evidence (fill_lists env d r) = rf_evidence r"
  "rf_reasoning (fill_lists env d r) = rf_reasoning r" "rf_kind (fill_lists env d r) = rf_kind r"
  by (simp_all add: fill_lists_def)

text \<open>The steps of the conversion, and what each of them left.\<close>

lemma conversion_steps:
  assumes "result_from_data env d = Some r'"
  obtains v coerced conf stated cause r1 r2 where
    "read_verdict d = (v, coerced)" "read_confidence env d = (conf, stated)" "read_cause d = Some cause"
    "settle_contradiction d ((first_result (re_lib env) d v (\<not> truthy (dget ''verdict'' d JNull)))\<lparr>rf_cause := cause\<rparr>) = Some r1"
    "apply_floor env stated coerced (r1\<lparr>rf_confidence := conf\<rparr>) = Some r2"
    "settle_verification (re_lib env) d coerced (fill_lists env d r2) = Some r'"
  using assms by (auto simp: result_from_data_def Let_def Option.bind_eq_Some_conv split: prod.splits)

lemma lists_ok_settled:
  assumes "settle_verification jl d coerced r = Some r'" "lists_ok env r"
  shows "lists_ok env r'"
  using assms settle_keeps [OF assms(1)] by (simp add: lists_ok_def)

lemma converted_ok:
  assumes "result_from_data env d = Some r"
  shows "grade_ok env r \<and> rf_verification r \<noteq> Unstated"
proof -
  from conversion_steps [OF assms] obtain v coerced conf stated cause r1 r2 where
    s: "read_confidence env d = (conf, stated)" "read_cause d = Some cause"
      "settle_contradiction d ((first_result (re_lib env) d v (\<not> truthy (dget ''verdict'' d JNull)))\<lparr>rf_cause := cause\<rparr>) = Some r1"
      "apply_floor env stated coerced (r1\<lparr>rf_confidence := conf\<rparr>) = Some r2"
      "settle_verification (re_lib env) d coerced (fill_lists env d r2) = Some r" by metis
  have c: "rf_cause r1 \<in> set FAILURE_CAUSES" using contradiction_keeps [OF s(3)] read_cause_known [OF s(2)] by simp
  have "''none'' \<in> set FAILURE_CAUSES" by (simp add: FAILURE_CAUSES_def)
  then have "rf_cause r2 \<in> set FAILURE_CAUSES" "rf_confidence r2 = conf" using floor_keeps [OF s(4)] c by auto
  then show ?thesis
    using read_confidence_range [OF s(1)] settle_keeps [OF s(5)] lists_ok_settled [OF s(5) filled_lists]
    by (simp add: grade_ok_def)
qed

text \<open>A grade that asks for more work was readable and sure of it, or was malformed; and it names no \<open>none\<close>.\<close>

definition sure_or_malformed :: "reflect_env \<Rightarrow> (string \<times> json) list \<Rightarrow> bool" where
  "sure_or_malformed env d \<longleftrightarrow>
     map_of d ''failure_cause'' \<noteq> Some (JStr ''none'')
     \<and> (case (read_verdict d, read_confidence env d) of ((v, coerced), (conf, stated)) \<Rightarrow>
          v \<noteq> V_Pass \<and> (coerced \<or> \<not> stated \<or> re_floor env \<le> 0 \<or> re_floor env \<le> conf))"

lemma converted_non_pass:
  assumes "result_from_data env d = Some r" "non_pass (rf_verdict r)"
  shows "sure_or_malformed env d"
proof -
  from conversion_steps [OF assms(1)] obtain v coerced conf stated cause r1 r2 where
    s: "read_verdict d = (v, coerced)" "read_confidence env d = (conf, stated)"
      "settle_contradiction d ((first_result (re_lib env) d v (\<not> truthy (dget ''verdict'' d JNull)))\<lparr>rf_cause := cause\<rparr>) = Some r1"
      "apply_floor env stated coerced (r1\<lparr>rf_confidence := conf\<rparr>) = Some r2"
      "settle_verification (re_lib env) d coerced (fill_lists env d r2) = Some r" by metis
  have n: "non_pass (rf_verdict r2)" using settle_keeps(3) [OF s(5)] assms(2) by simp
  have f: "r2 = r1\<lparr>rf_confidence := conf\<rparr>" "coerced \<or> \<not> stated \<or> re_floor env \<le> 0 \<or> re_floor env \<le> conf"
    using floor_keeps [OF s(4)] n by auto
  then have "non_pass (rf_verdict r1)" using n by simp
  then have "map_of d ''failure_cause'' \<noteq> Some (JStr ''none'')" "v \<noteq> V_Pass"
    using contradiction_keeps [OF s(3)] by (auto simp: non_pass_def first_result_def)
  then show ?thesis using f(2) s(1,2) by (simp add: sure_or_malformed_def)
qed

section \<open>The guards\<close>

lemma none_known: "''none'' \<in> set FAILURE_CAUSES" "''task'' \<in> set FAILURE_CAUSES"
  by (simp_all add: FAILURE_CAUSES_def)

lemma wall_guard_ok: "grade_ok env r \<Longrightarrow> grade_ok env (wall_guard t p r)"
  using none_known by (auto simp: wall_guard_def grade_ok_def lists_ok_def forced_cause_def split: option.splits)

lemma phantom_guard_cases:
  assumes "phantom_guard why ev t tv r = Some r'"
  obtains "r' = r" "phantom_evidence_reason r ev t tv = Some None"
  | q x where "phantom_evidence_reason r ev t tv = Some (Some q)"
      "r' = r\<lparr>rf_reasoning := x, rf_verdict := V_Pass, rf_cause := ''none'', rf_verification := Unknown, rf_reason := Phantom_Evidence q\<rparr>"
proof -
  from assms obtain p where p: "phantom_evidence_reason r ev t tv = Some p"
    "(case p of None \<Rightarrow> Some r
       | Some q \<Rightarrow> map_option (\<lambda>x. x\<lparr>rf_verdict := V_Pass, rf_cause := ''none'', rf_verification := Unknown, rf_reason := Phantom_Evidence q\<rparr>)
           (append_reasoning ('' [downgraded from '' @ verdict_name (rf_verdict r) @ '' by the phantom-evidence guard: '' @ why q @ '']'') r)) = Some r'"
    unfolding phantom_guard_def Option.bind_eq_Some_conv by blast
  show thesis
  proof (cases p)
    case None
    then show ?thesis using p that(1) by simp
  next
    case (Some q)
    then show ?thesis using p that(2) [of q] by (auto simp: append_reasoning_def)
  qed
qed

lemma phantom_guard_ok:
  assumes "phantom_guard why ev t tv r = Some r'"
  shows "grade_ok env r \<Longrightarrow> grade_ok env r'" "rf_verification r \<noteq> Unstated \<Longrightarrow> rf_verification r' \<noteq> Unstated"
    "non_pass (rf_verdict r') \<Longrightarrow> r' = r \<and> phantom_evidence_reason r ev t tv = Some None"
  using assms none_known
  by (auto elim!: phantom_guard_cases simp: grade_ok_def lists_ok_def non_pass_def)

lemma factual_guard_ok:
  assumes "guard_factual_correction jl rows r = Some r'"
  shows "grade_ok env r \<Longrightarrow> grade_ok env r'" "rf_verification r \<noteq> Unstated \<Longrightarrow> rf_verification r' \<noteq> Unstated"
    "non_pass (rf_verdict r') \<Longrightarrow> r' = r"
  using assms none_known
  by (auto simp: guard_factual_correction_def option_steps grade_ok_def lists_ok_def non_pass_def reject_correction_def Let_def
      split: if_splits prod.splits)

lemma gate_clamp_ok:
  assumes "gate_clamp gates r = Some r'"
  shows "grade_ok env r \<Longrightarrow> grade_ok env r'" "rf_verification r' = rf_verification r"
    "failing gates \<noteq> [] \<Longrightarrow> rf_verdict r' \<noteq> V_Pass" "failing gates = [] \<Longrightarrow> r' = r"
  using assms none_known
  by (auto simp: gate_clamp_def grade_ok_def lists_ok_def forced_cause_def Let_def split: if_splits)

lemma receipts_ok:
  shows "grade_ok env r \<Longrightarrow> grade_ok env (apply_verification_receipts gates r)"
    "rf_verification r \<noteq> Unstated \<Longrightarrow> rf_verification (apply_verification_receipts gates r) \<noteq> Unstated"
    "rf_verdict (apply_verification_receipts gates r) = rf_verdict r"
    "failing gates \<noteq> [] \<Longrightarrow> rf_verification (apply_verification_receipts gates r) = Unknown"
  by (auto simp: apply_verification_receipts_def grade_ok_def lists_ok_def Let_def failing_def)

section \<open>The grading as a whole\<close>

lemma finish_steps:
  assumes "finish_grade env why inp r = Some r'"
  obtains r1 r2 r3 where
    "phantom_guard why (gi_evidence inp) (gi_termination inp) (gi_view inp) (wall_guard (gi_termination inp) (gi_prior inp) r) = Some r1"
    "guard_factual_correction (re_lib env) (gi_ledger inp) r1 = Some r2" "gate_clamp (gi_gates inp) r2 = Some r3"
    "r' = apply_verification_receipts (gi_gates inp) r3"
  using assms unfolding finish_grade_def Option.bind_eq_Some_conv Let_def by blast

text \<open>Where the result of a graded turn comes from.\<close>

definition graded_reply :: "reflect_env \<Rightarrow> (phantom \<Rightarrow> string) \<Rightarrow> grade_input \<Rightarrow> reply \<Rightarrow> reflect_result \<Rightarrow> bool" where
  "graded_reply env why inp p r \<longleftrightarrow> (\<exists>content d r0 r1. p = Reply_Text content \<and> parse_grade (re_lib env) content = Some (JObj d)
     \<and> result_from_data env d = Some r0 \<and> finish_grade env why inp r1 = Some r
     \<and> (r1 = r0 \<or> (rf_verdict r0 = V_Pass \<and> r1 = r0\<lparr>rf_reasoning := JStr no_analysis\<rparr>)))"

lemma graded_comes_from_reply:
  "grade_loop env why inp replies left n = (Graded k, r) \<Longrightarrow> graded_reply env why inp (replies k) r \<and> n \<le> k \<and> k < n + left"
proof (induction env why inp replies left n rule: grade_loop.induct)
  case (2 env why inp replies left n)
  obtain content where c: "replies n = Reply_Text content" using "2.prems" by (auto split: reply.splits)
  show ?case
  proof (cases "parse_grade (re_lib env) content")
    case None
    then have "grade_loop env why inp replies left (Suc n) = (Graded k, r)" "0 < left"
      using "2.prems" c by (auto split: if_splits)
    then show ?thesis using "2.IH"(1) [OF c None] by auto
  next
    case (Some j)
    then obtain d where d: "j = JObj d" using "2.prems" c by (auto split: json.splits)
    note p = Some [unfolded d]
    obtain r0 again where r0: "result_from_data env d = Some r0" "contentless inp r0 = Some again"
      using "2.prems" c p by (auto split: option.splits)
    show ?thesis
    proof (cases "again \<and> 0 < left")
      case True
      then have "grade_loop env why inp replies left (Suc n) = (Graded k, r)" using "2.prems" c p r0 by simp
      then show ?thesis using "2.IH"(2) [OF c p refl r0] True by auto
    next
      case False
      let ?r1 = "if again then r0\<lparr>rf_reasoning := JStr no_analysis\<rparr> else r0"
      have f: "finish_grade env why inp ?r1 = Some r" "k = n" using "2.prems" c p r0 False by (auto split: option.splits)
      have "again \<Longrightarrow> rf_verdict r0 = V_Pass" using r0(2) by (auto simp: contentless_def split: if_splits)
      then have "?r1 = r0 \<or> (rf_verdict r0 = V_Pass \<and> ?r1 = r0\<lparr>rf_reasoning := JStr no_analysis\<rparr>)" by (cases again) simp_all
      with c p r0(1) f(1) have "graded_reply env why inp (replies n) r" unfolding graded_reply_def by blast
      then show ?thesis using f(2) by simp
    qed
  qed
qed simp

definition soft_pass :: "grade_end \<times> reflect_result \<Rightarrow> bool" where
  "soft_pass = (\<lambda>(e, r). rf_verdict r = V_Pass \<and> rf_cause r = ''none'' \<and> rf_verification r = Unstated \<and> e \<in> {Parse_Exhausted, Grading_Failed})"

lemma soft_pass_new: "soft_pass (Parse_Exhausted, new_result w)" "soft_pass (Grading_Failed, new_result w)"
  by (simp_all add: soft_pass_def new_result_def)

lemma ungraded_passes: "soft_pass (grade_loop env why inp replies left n) \<or> (\<exists>k. fst (grade_loop env why inp replies left n) = Graded k)"
proof (induction env why inp replies left n rule: grade_loop.induct)
  case (2 env why inp replies left n)
  show ?case
  proof (cases "replies n")
    case (Reply_Text content)
    show ?thesis
    proof (cases "parse_grade (re_lib env) content")
      case None
      then show ?thesis using "2.IH"(1) [OF Reply_Text None] Reply_Text soft_pass_new by (cases "0 < left") simp_all
    next
      case (Some j)
      show ?thesis
      proof (cases "\<exists>d r0 again. j = JObj d \<and> result_from_data env d = Some r0 \<and> contentless inp r0 = Some again")
        case True
        then obtain d r0 again where d: "j = JObj d" "result_from_data env d = Some r0" "contentless inp r0 = Some again" by blast
        note IH = "2.IH"(2) [OF Reply_Text Some d]
        show ?thesis
        proof (cases "again \<and> 0 < left")
          case True
          then show ?thesis using IH Reply_Text Some d by simp
        next
          case False
          then show ?thesis using Reply_Text Some d soft_pass_new by (simp split: option.splits)
        qed
      next
        case False
        then show ?thesis using Reply_Text Some soft_pass_new by (simp split: json.splits option.splits)
      qed
    qed
  qed (simp add: soft_pass_new)
qed (simp add: soft_pass_new)

lemma session_graded:
  assumes "reflect_on_session env why inp replies = (Graded k, r)"
  shows "graded_reply env why inp (replies k) r" "k \<le> INNER_REPROMPT_LIMIT"
  using assms graded_comes_from_reply [of env why inp replies "INNER_REPROMPT_LIMIT + 1" 0 k r]
  by (auto simp: reflect_on_session_def split: if_splits)

lemma reasoning_keeps_ok: "grade_ok env (r\<lparr>rf_reasoning := x\<rparr>) = grade_ok env r"
  by (simp add: grade_ok_def lists_ok_def)

lemma graded_ok:
  assumes "graded_reply env why inp p r"
  shows "grade_ok env r \<and> rf_verification r \<noteq> Unstated"
proof -
  from assms obtain content d r0 r1 where g: "result_from_data env d = Some r0" "finish_grade env why inp r1 = Some r"
    "r1 = r0 \<or> (rf_verdict r0 = V_Pass \<and> r1 = r0\<lparr>rf_reasoning := JStr no_analysis\<rparr>)" unfolding graded_reply_def by blast
  have "grade_ok env r1" "rf_verification r1 \<noteq> Unstated" using converted_ok [OF g(1)] g(3) reasoning_keeps_ok by auto
  moreover from finish_steps [OF g(2)] obtain a b c where
    s: "phantom_guard why (gi_evidence inp) (gi_termination inp) (gi_view inp) (wall_guard (gi_termination inp) (gi_prior inp) r1) = Some a"
    "guard_factual_correction (re_lib env) (gi_ledger inp) a = Some b" "gate_clamp (gi_gates inp) b = Some c"
    "r = apply_verification_receipts (gi_gates inp) c" by metis
  have "rf_verification (wall_guard t p' x) = rf_verification x" for t p' x
    by (simp add: wall_guard_def split: option.splits)
  ultimately show ?thesis
    using phantom_guard_ok(1,2) [OF s(1)] factual_guard_ok(1,2) [OF s(2)] gate_clamp_ok(1,2) [OF s(3)] receipts_ok(1,2) s(4)
      wall_guard_ok by metis
qed

text \<open>C14: a grade that was read is well formed, whatever the model wrote. Its confidence lies between 0 and 1, its
  cause is one of the six, the verification is stated, the deliverables have known states, and the lists and
  texts that go on to the next attempt are within their caps.\<close>

theorem grade_is_well_formed:
  assumes "reflect_on_session env why inp replies = (Graded k, r)"
  shows "0 \<le> rf_confidence r \<and> rf_confidence r \<le> 1 \<and> rf_cause r \<in> set FAILURE_CAUSES \<and> rf_verification r \<noteq> Unstated
    \<and> (\<forall>x \<in> set (rf_deliverables r). dv_status x \<in> set DELIVERABLE_STATES) \<and> length (rf_without_tools r) \<le> 5
    \<and> (\<forall>g. rf_digest r = Some g \<longrightarrow> digest_ok (excerpt_cap (re_digest_cap env)) g)
    \<and> (\<forall>e. rf_experience r = Some e \<longrightarrow> experience_ok e)"
  using graded_ok [OF session_graded(1) [OF assms]] by (simp add: grade_ok_def lists_ok_def)

text \<open>C12: a grade cannot overrule a gate. When a gate of the turn fails and the grade was read, the verdict is not
  a pass and the deliverable counts as unverified, whatever the grader wrote and whatever the guards made of it.\<close>

theorem failing_gate_blocks_pass:
  assumes "reflect_on_session env why inp replies = (Graded k, r)" "failing (gi_gates inp) \<noteq> []"
  shows "rf_verdict r \<noteq> V_Pass \<and> rf_verification r = Unknown"
proof -
  from session_graded(1) [OF assms(1)] obtain r1 where "finish_grade env why inp r1 = Some r" unfolding graded_reply_def by blast
  from finish_steps [OF this] obtain b c where
    s: "gate_clamp (gi_gates inp) b = Some c" "r = apply_verification_receipts (gi_gates inp) c" by metis
  show ?thesis using gate_clamp_ok(3) [OF s(1) assms(2)] receipts_ok(3,4) assms(2) s(2) by simp
qed


section \<open>Corrections of facts\<close>

definition claim_holds :: "prov_row list \<Rightarrow> json \<Rightarrow> bool" where
  "claim_holds rows c \<longleftrightarrow> (\<exists>d s i observed j expected q e. c = JObj d \<and> s \<noteq> [] \<and> i < j \<and> (i, observed) \<in> set (enumerate 0 rows)
     \<and> (j, expected) \<in> set (enumerate 0 rows) \<and> map_of d ''subject'' = Some (JStr s)
     \<and> map_of d ''quote'' = Some (JStr q) \<and> has_sub q (pr_result observed)
     \<and> map_of d ''expected_quote'' = Some (JStr e) \<and> has_sub e (pr_result expected) \<and> q \<noteq> e
     \<and> (\<forall>r \<in> set (drop (Suc j) rows). \<not> has_sub s (pr_request r)))"

lemma find_record_in: "find_record rows a = Some (i, r) \<Longrightarrow> (i, r) \<in> set (enumerate 0 rows)"
  unfolding find_record_def by (auto simp: find_Some_iff) (metis nth_mem set_rev length_rev length_enumerate)

lemma quote_fitsD: "quote_fits s row v \<Longrightarrow> \<exists>q. v = Some (JStr q) \<and> has_sub q (pr_result row)"
  by (auto simp: quote_fits_def split: option.splits json.splits)

lemma cited_rowsD:
  assumes "cited_rows rows c = Some (d, s, (i, observed), (j, expected))"
  shows "c = JObj d" "s \<noteq> []" "map_of d ''subject'' = Some (JStr s)" "(i, observed) \<in> set (enumerate 0 rows)"
    "(j, expected) \<in> set (enumerate 0 rows)"
  using assms by (auto simp: cited_rows_def dest: find_record_in split: json.splits option.splits if_splits)

lemma judged_true:
  "judge_claims rows cs (ok, why) = (True, why') \<Longrightarrow> ok \<and> (\<forall>c \<in> set cs. claim_holds rows c)"
proof (induction rows cs "(ok, why)" arbitrary: ok why rule: judge_claims.induct)
  case (2 rows c cs ok why)
  obtain d s i observed j expected where r: "cited_rows rows c = Some (d, s, (i, observed), (j, expected))"
    using "2.prems" by (cases "cited_rows rows c") auto
  let ?fits = "quote_fits s observed (map_of d ''quote'') \<and> quote_fits s expected (map_of d ''expected_quote'')
      \<and> map_of d ''quote'' \<noteq> map_of d ''expected_quote''"
  let ?later = "list_ex (\<lambda>r. has_sub s (pr_request r)) (drop (Suc j) rows)"
  have lt: "i < j" and rest: "judge_claims rows cs (ok \<and> ?fits \<and> \<not> ?later, if ?later then Superseded else why) = (True, why')"
    using "2.prems" r by (auto simp: Let_def split: if_splits)
  have ih: "(ok \<and> ?fits \<and> \<not> ?later) \<and> (\<forall>c \<in> set cs. claim_holds rows c)"
    using "2.hyps" [OF r refl refl refl refl refl _ refl refl] rest lt by auto
  then have "claim_holds rows c"
    using cited_rowsD [OF r] lt unfolding claim_holds_def by (fastforce simp: list_ex_iff dest!: quote_fitsD)
  then show ?case using ih by simp
qed simp


section \<open>Where the grading lets go\<close>

text \<open>A grader that cannot be read passes a failing gate. When none of the three replies is an object that can be
  read or repaired, the grading ends as a pass without a verification, also when a gate of the turn fails.\<close>

theorem unreadable_grade_skips_gates:
  assumes "gi_request inp \<noteq> []" "gi_evidence inp \<noteq> []" "failing (gi_gates inp) \<noteq> []"
    "\<forall>i \<le> INNER_REPROMPT_LIMIT. \<exists>t. replies i = Reply_Text t \<and> parse_grade (re_lib env) t = None"
  shows "fst (reflect_on_session env why inp replies) = Parse_Exhausted
    \<and> rf_verdict (snd (reflect_on_session env why inp replies)) = V_Pass
    \<and> rf_verification (snd (reflect_on_session env why inp replies)) = Unstated"
proof -
  obtain a b c where "replies 0 = Reply_Text a" "parse_grade (re_lib env) a = None" "replies (Suc 0) = Reply_Text b"
    "parse_grade (re_lib env) b = None" "replies (Suc (Suc 0)) = Reply_Text c" "parse_grade (re_lib env) c = None"
    using assms(4) unfolding INNER_REPROMPT_LIMIT_def by (metis le0 numeral_2_eq_2 le_SucI order_refl)
  then show ?thesis using assms(1,2) by (simp add: reflect_on_session_def INNER_REPROMPT_LIMIT_def numeral_2_eq_2 new_result_def)
qed

text \<open>A reply that asks for a retry and names its cause in a list, or leaves a text field as a list, raises in
  the conversion or in a guard; the handler turns that into a pass.\<close>

theorem unhashable_cause_passes:
  assumes "gi_request inp \<noteq> []" "gi_evidence inp \<noteq> []" "replies 0 = Reply_Text t" "parse_grade (re_lib env) t = Some (JObj d)"
    "map_of d ''failure_cause'' = Some (JArr xs)"
  shows "fst (reflect_on_session env why inp replies) = Grading_Failed
    \<and> rf_verdict (snd (reflect_on_session env why inp replies)) = V_Pass"
proof -
  have "read_cause d = None" using assms(5) by (simp add: read_cause_def dget_def)
  then have "result_from_data env d = None" by (simp add: result_from_data_def split: prod.splits)
  then show ?thesis using assms by (simp add: reflect_on_session_def INNER_REPROMPT_LIMIT_def numeral_2_eq_2 new_result_def)
qed

text \<open>A verdict outside the schema counts as a retry so that garbage is no pass; with the cause \<open>none\<close> it is one.\<close>

theorem garbage_verdict_with_cause_none_passes:
  assumes "verdict_of (dget ''verdict'' d JNull) = None" "map_of d ''failure_cause'' = Some (JStr ''none'')"
    "map_of d ''reasoning'' = Some (JStr t)" "map_of d ''missing'' = None" "result_from_data env d = Some r"
  shows "rf_verdict r = V_Pass"
proof (rule ccontr)
  assume "rf_verdict r \<noteq> V_Pass"
  then have "sure_or_malformed env d" using converted_non_pass [OF assms(5)] by (simp add: non_pass_def)
  then show False using assms(2) by (simp add: sure_or_malformed_def)
qed

text \<open>C37: a doubt can be filed as a verification. When the grader is unsure of a non-pass verdict but states
  \<open>verified\<close>, the result passes as verified, with a reason that says that it verifies nothing.\<close>

theorem downgraded_grade_stays_verified:
  assumes "result_from_data env d = Some r" "read_verdict d = (v, False)" "v \<noteq> V_Pass" "map_of d ''failure_cause'' \<noteq> Some (JStr ''none'')"
    "read_confidence env d = (conf, True)" "0 < re_floor env" "conf < re_floor env" "map_of d ''verification'' = Some (JStr ''verified'')"
  shows "rf_verdict r = V_Pass \<and> rf_verification r = Verified \<and> rf_reason r = Below_Floor v conf (re_floor env)"
proof -
  from conversion_steps [OF assms(1)] obtain v' coerced conf' stated cause r1 r2 where
    s0: "read_verdict d = (v', coerced)" "read_confidence env d = (conf', stated)"
      "settle_contradiction d ((first_result (re_lib env) d v' (\<not> truthy (dget ''verdict'' d JNull)))\<lparr>rf_cause := cause\<rparr>) = Some r1"
      "apply_floor env stated coerced (r1\<lparr>rf_confidence := conf'\<rparr>) = Some r2"
      "settle_verification (re_lib env) d coerced (fill_lists env d r2) = Some r" by metis
  have e: "v' = v" "coerced = False" "conf' = conf" "stated = True" using s0(1,2) assms(2,5) by simp_all
  note s = s0(3-5) [unfolded e]
  have r1: "rf_verdict r1 = v" using s(1) assms(4) by (auto simp: settle_contradiction_def first_result_def)
  then have r2: "rf_verdict r2 = V_Pass" "rf_reason r2 = Below_Floor v conf (re_floor env)"
    using s(2) assms(3,6,7) unfolding apply_floor_def non_pass_def append_reasoning_def by (auto simp del: append_assoc)
  have "verification_of (py_lower (py_strip (str_or (re_lib env) (dget ''verification'' d JNull)))) = Some Verified"
    using assms(8) by (simp add: dget_def str_or_def py_str_def) code_simp
  then show ?thesis using s(3) r2 by (auto simp: settle_verification_def Let_def)
qed

text \<open>C36: a refused action is called done. A call with effects outside that the executor refused, and that had not
  failed more often than it was called, stands in the list of what a retry must not repeat.\<close>

theorem refused_action_is_called_done:
  assumes "er_tool x \<in> set SIDE_EFFECT_TOOLS" "classify x = Refused"
    "\<And>e. tool_summary tn (er_tool x) = Some e \<Longrightarrow> failures e \<le> calls e"
  shows "er_tool x \<in> set (already_executed (tool_summary (record_tool_outcome tn x)))"
proof -
  have "tool_summary (record_tool_outcome tn x) (er_tool x) = Some (count_outcome x (get_or new_entry (tool_summary tn (er_tool x))))"
    by (simp add: record_tool_outcome_def Let_def)
  moreover have "failures (count_outcome x e) = failures e" "calls (count_outcome x e) = calls e + 1" for e
    using assms(2) by (simp_all add: count_outcome_def Let_def)
  moreover have "failures (get_or new_entry (tool_summary tn (er_tool x))) \<le> calls (get_or new_entry (tool_summary tn (er_tool x)))"
    using assms(3) by (cases "tool_summary tn (er_tool x)") (auto simp: get_or_def new_entry_def)
  ultimately show ?thesis using assms(1) by (auto simp: already_executed_def)
qed

section \<open>Examples\<close>

definition demo_retry :: "(string \<times> json) list" where
  "demo_retry = [(''verdict'', JStr ''retry''), (''reasoning'', JStr ''no file''), (''failure_cause'', JStr ''agent''), (''confidence'', JInt 1)]"

definition demo_doubt :: "(string \<times> json) list" where
  "demo_doubt = [(''verdict'', JStr ''retry''), (''reasoning'', JStr ''unsure''), (''failure_cause'', JStr ''agent''), (''confidence'', JInt 0),
     (''verification'', JStr ''verified'')]"

definition demo_pass :: "(string \<times> json) list" where
  "demo_pass = [(''verdict'', JStr ''pass''), (''reasoning'', JStr ''all there'')]"

definition grader_lib :: json_lib where
  "grader_lib = plain_lib\<lparr>jl_loads := (\<lambda>s. if s = ''r'' then Some (JObj demo_retry) else if s = ''p'' then Some (JObj demo_pass) else None)\<rparr>"

definition demo_grader :: reflect_env where
  "demo_grader = \<lparr>re_lib = grader_lib, re_fmt2 = (\<lambda>_. []), re_floor = 1 / 2, re_digest_on_pass = False, re_digest_cap = 2000, re_experience = True\<rparr>"

definition failing_gate :: gate_result where
  "failing_gate = gate_result_of ''tests'' ''pytest'' False"

definition demo_turn :: "gate_result list \<Rightarrow> grade_input" where
  "demo_turn gates = \<lparr>gi_request = ''write it'', gi_evidence = ''done'', gi_ledger = [], gi_view = \<lparr>tv_shown = [], tv_elided = [], tv_final = ''done''\<rparr>,
     gi_termination = Some ''complete'', gi_prior = [], gi_gates = gates, gi_work = 1\<rparr>"

abbreviation graded_as :: "string \<Rightarrow> gate_result list \<Rightarrow> grade_end \<times> reflect_result" where
  "graded_as t gates \<equiv> reflect_on_session demo_grader (\<lambda>_. []) (demo_turn gates) (\<lambda>_. Reply_Text t)"

lemma demo_grades:
  "fst (graded_as ''r'' []) = Graded 0" "rf_verdict (snd (graded_as ''r'' [])) = V_Retry" "fst (graded_as ''p'' [failing_gate]) = Graded 0"
  by code_simp+

lemma pairs_up: "fst p = a \<Longrightarrow> p = (a, snd p)"
  by auto

theorem grade_is_well_formed_witness: "rf_cause (snd (graded_as ''r'' [])) \<in> set FAILURE_CAUSES"
  using grade_is_well_formed [OF pairs_up [OF demo_grades(1)]] by blast

theorem failing_gate_blocks_pass_witness: "rf_verdict (snd (graded_as ''p'' [failing_gate])) \<noteq> V_Pass"
proof -
  have "failing (gi_gates (demo_turn [failing_gate])) \<noteq> []"
    by (simp add: demo_turn_def failing_gate_def failing_def gate_result_of_def)
  then show ?thesis using failing_gate_blocks_pass [OF pairs_up [OF demo_grades(3)]] by blast
qed


definition demo_ledger :: "prov_row list" where
  "demo_ledger = [\<lparr>pr_call = ''c1'', pr_request = ''price of ABC'', pr_result = ''ABC costs 10 today''\<rparr>,
     \<lparr>pr_call = ''c2'', pr_request = ''price of ABC'', pr_result = ''ABC costs 12 today''\<rparr>]"

definition demo_claim :: json where
  "demo_claim = JObj [(''subject'', JStr ''ABC''), (''tool_call_id'', JStr ''c1''), (''quote'', JStr ''ABC costs 10''),
     (''expected_tool_call_id'', JStr ''c2''), (''expected_quote'', JStr ''ABC costs 12'')]"

definition demo_correction :: reflect_result where
  "demo_correction = (new_result ''wrong price'')\<lparr>rf_verdict := V_Retry, rf_kind := ''factual'', rf_evidence := [demo_claim]\<rparr>"


theorem unreadable_grade_skips_gates_witness: "rf_verdict (snd (graded_as ''?'' [failing_gate])) = V_Pass"
proof -
  have u: "parse_grade (re_lib demo_grader) ''?'' = None" by code_simp
  have g: "gi_request (demo_turn [failing_gate]) \<noteq> []" "gi_evidence (demo_turn [failing_gate]) \<noteq> []" "failing (gi_gates (demo_turn [failing_gate])) \<noteq> []"
    by (simp_all add: demo_turn_def failing_gate_def failing_def gate_result_of_def)
  show ?thesis using unreadable_grade_skips_gates [OF g, of "\<lambda>_. Reply_Text ''?''" demo_grader] u by blast
qed

theorem downgraded_grade_stays_verified_witness: "\<exists>r. result_from_data demo_grader demo_doubt = Some r \<and> rf_verification r = Verified"
proof -
  have d: "read_verdict demo_doubt = (V_Retry, False)" "map_of demo_doubt ''failure_cause'' \<noteq> Some (JStr ''none'')"
    "read_confidence demo_grader demo_doubt = (0, True)" "0 < re_floor demo_grader" "0 < re_floor demo_grader"
    "map_of demo_doubt ''verification'' = Some (JStr ''verified'')" "result_from_data demo_grader demo_doubt \<noteq> None"
    by code_simp+
  then obtain r where "result_from_data demo_grader demo_doubt = Some r" by blast
  from downgraded_grade_stays_verified [OF this d(1) _ d(2-6)] this show ?thesis by simp
qed

definition refused_result :: exec_result where
  "refused_result = \<lparr>er_tool = ''notify_user'', er_content = ''Error: not allowed'', er_error = True, er_latency = 0,
     er_meta = [(''refused'', JBool True)]\<rparr>"

theorem refused_action_is_called_done_witness:
  "''notify_user'' \<in> set (already_executed (tool_summary (record_tool_outcome new_turn refused_result)))"
proof -
  have r: "er_tool refused_result = ''notify_user''" "classify refused_result = Refused" "''notify_user'' \<in> set SIDE_EFFECT_TOOLS"
    by code_simp+
  have "tool_summary new_turn = Map.empty" by (simp add: new_turn_def)
  then show ?thesis using refused_action_is_called_done [of refused_result new_turn] r by simp
qed

end
