(* ===== verification/Hooks_Proofs.thy ===== *)
theory Hooks_Proofs
  imports Hooks Reflect_Proofs
begin

text \<open>
  How often a turn is tried, what becomes of a gate that fails, and which turns are graded late.
\<close>

section \<open>The number of attempts\<close>

lemma fresh_pass:
  assumes "loop_pass cap p tn = (a, tn', es)" "\<not> reflect_retry_requested tn" "\<not> eval_retry_requested tn"
  shows "a \<noteq> Run_Eval" "a = Run_Retry \<Longrightarrow> reflect_count tn' = reflect_count tn + 1 \<and> reflect_count tn' < cap
      \<and> \<not> reflect_retry_requested tn' \<and> \<not> eval_retry_requested tn'"
proof -
  obtain tn1 es1 where h: "(if pw_finalizing p \<and> \<not> pw_pending p then post_task_hooks (pw_hooks p) tn else (tn, [])) = (tn1, es1)" by fastforce
  have e: "hooks_effect tn tn1" using h hooks_effect_all [of tn "pw_hooks p"] by (auto split: if_splits)
  then have "\<not> eval_retry_requested tn1" "reflect_retry_requested tn1 \<Longrightarrow> reflect_count tn1 = reflect_count tn + 1"
    using assms(2,3) by (auto simp: hooks_effect_def)
  then show "a \<noteq> Run_Eval" "a = Run_Retry \<Longrightarrow> reflect_count tn' = reflect_count tn + 1 \<and> reflect_count tn' < cap
      \<and> \<not> reflect_retry_requested tn' \<and> \<not> eval_retry_requested tn'"
    using assms(1) h by (auto simp: loop_pass_def Let_def split: if_splits)
qed

lemma retries_bounded:
  "retry_loop cap ps k tn = (tn', es, rs) \<Longrightarrow> \<not> reflect_retry_requested tn \<Longrightarrow> \<not> eval_retry_requested tn \<Longrightarrow>
     set rs \<subseteq> {Run_Retry} \<and> reflect_count tn + int (length rs) \<le> max (reflect_count tn) (cap - 1)"
proof (induction cap ps k tn arbitrary: tn' es rs rule: retry_loop.induct)
  case (1 cap ps k tn)
  obtain a tn1 es1 where p: "loop_pass cap (ps k) tn = (a, tn1, es1)" by (rule prod_cases3)
  show ?case
  proof (cases "a = Turn_Over")
    case True
    then show ?thesis using "1.prems"(1) p by (simp add: retry_loop.simps [of cap ps k tn])
  next
    case False
    obtain tn2 es2 rs2 where q: "retry_loop cap ps (Suc k) tn1 = (tn2, es2, rs2)" by (rule prod_cases3)
    have a: "a = Run_Retry" using False fresh_pass(1) [OF p "1.prems"(2,3)] by (cases a) auto
    note f = fresh_pass(2) [OF p "1.prems"(2,3) a]
    have "rs = a # rs2" using "1.prems"(1) p q False by (simp add: retry_loop.simps [of cap ps k tn])
    moreover have "set rs2 \<subseteq> {Run_Retry} \<and> reflect_count tn1 + int (length rs2) \<le> max (reflect_count tn1) (cap - 1)"
      using "1.IH" [OF p [symmetric] refl False q] f by blast
    ultimately show ?thesis using a f by auto
  qed
qed

text \<open>C16: a turn is retried less often than its cap. Whatever the gates, the grader and the user do, the loop at the
  end of a turn comes back, and the retries it ran are fewer than the cap; with a cap of one there is none.\<close>

theorem retries_stay_below_cap:
  "case retry_loop cap ps 0 new_turn of (tn', es, rs) \<Rightarrow> set rs \<subseteq> {Run_Retry} \<and> int (length rs) \<le> max 0 (cap - 1)"
proof -
  obtain tn' es rs where r: "retry_loop cap ps 0 new_turn = (tn', es, rs)" by (rule prod_cases3)
  have n: "\<not> reflect_retry_requested new_turn" "\<not> eval_retry_requested new_turn" "reflect_count new_turn = 0"
    by (simp_all add: new_turn_def)
  show ?thesis using retries_bounded [OF r n(1,2)] n(3) by (simp add: r)
qed

section \<open>A gate that fails\<close>

text \<open>The grade that the hooks ask for, with the gates of the attempt.\<close>

definition grade_with :: "reflect_env \<Rightarrow> (phantom \<Rightarrow> string) \<Rightarrow> (int \<Rightarrow> grade_input) \<Rightarrow> (int \<Rightarrow> nat \<Rightarrow> reply)
    \<Rightarrow> int \<Rightarrow> gate_result list \<Rightarrow> grade_end \<times> reflect_result" where
  "grade_with env why inp replies n gates = reflect_on_session env why ((inp n)\<lparr>gi_gates := gates\<rparr>) (replies n)"

definition grade_of :: "reflect_env \<Rightarrow> (phantom \<Rightarrow> string) \<Rightarrow> (int \<Rightarrow> grade_input) \<Rightarrow> (int \<Rightarrow> nat \<Rightarrow> reply)
    \<Rightarrow> int \<Rightarrow> gate_result list \<Rightarrow> reflect_result option" where
  "grade_of env why inp replies n gates = Some (snd (grade_with env why inp replies n gates))"

text \<open>What tells the user or the next attempt of the failure.\<close>

definition answers :: "hook_event \<Rightarrow> bool" where
  "answers e \<longleftrightarrow> (case e of Ev_Retry _ _ \<Rightarrow> True | Ev_Exhausted_Notice _ \<Rightarrow> True | Ev_Budget_Notice \<Rightarrow> True | Ev_Breaker_Notice _ \<Rightarrow> True
     | Ev_Attention_Notice \<Rightarrow> True | _ \<Rightarrow> False)"

lemma hooks_with_gates:
  assumes "hw_gates_enabled w" "hw_gate_run w = Some gates" "gates \<noteq> []" "hw_reflect_enabled w"
  shows "post_task_hooks w tn = (case maybe_reflect w gates (carry_broken_notice gates tn) of (tn', es) \<Rightarrow>
     (tn', Ev_Gates (length gates) (length (filter (\<lambda>g. \<not> g_passed g) gates)) (map g_name (filter g_broken gates)) # es))"
  using assms by (simp add: post_task_hooks_def run_turn_gates_def split: prod.splits)

lemma fallback_answers:
  assumes "failing gates \<noteq> []" "reflect_count tn < cap"
  shows "\<exists>e \<in> set (snd (apply_gate_retry_fallback cap gates tn)). answers e"
    "reflect_retry_requested (fst (apply_gate_retry_fallback cap gates tn))"
  using assms by (simp_all add: apply_gate_retry_fallback_def Let_def answers_def)

lemma grade_answers:
  assumes "rf_verdict r \<noteq> V_Pass"
  shows "\<exists>e \<in> set (snd (act_on_grade w gates r tn)). answers e"
  using assms
  by (cases "rf_verdict r") (auto simp: act_on_grade_def act_on_retry_def request_retry_def Let_def answers_def split: prod.splits)

lemma failing_not_empty: "failing gates \<noteq> [] \<Longrightarrow> gates \<noteq> []"
  by (auto simp: failing_def)


text \<open>C38: an outage of the grader lets a failing gate pass in silence. When the grading of an unattended attempt does
  not come to a grade, the attempt ends as passed: no retry is asked for, and nothing tells anybody.\<close>

theorem outage_silences_gate:
  assumes "hw_gates_enabled w" "hw_gate_run w = Some gates" "failing gates \<noteq> []" "hw_reflect_enabled w" "\<not> hw_awaiting_user w"
    "\<not> hw_error w" "reflect_count tn < hw_cap w" "hw_min_messages w \<le> hw_substantive w" "\<not> hw_deferred w"
    "hw_grade w = grade_of env why inp replies" "gi_request (inp (reflect_count tn + 1)) \<noteq> []" "gi_evidence (inp (reflect_count tn + 1)) \<noteq> []"
    "\<forall>k. fst (grade_with env why inp replies (reflect_count tn + 1) gates) \<noteq> Graded k" "\<not> reflect_retry_requested tn"
  shows "\<not> reflect_retry_requested (fst (post_task_hooks w tn)) \<and> \<not> list_ex answers (snd (post_task_hooks w tn))
    \<and> Ev_Reflect_Row V_Pass Unstated \<in> set (snd (post_task_hooks w tn))"
proof -
  let ?tn = "carry_broken_notice gates tn" and ?g = "grade_with env why inp replies (reflect_count tn + 1) gates"
  have "soft_pass ?g"
    using ungraded_passes [of env why "(inp (reflect_count tn + 1))\<lparr>gi_gates := gates\<rparr>" "replies (reflect_count tn + 1)" "INNER_REPROMPT_LIMIT + 1" 0]
      assms(11-13) by (auto simp: grade_with_def reflect_on_session_def)
  then have v: "rf_verdict (snd ?g) = V_Pass" "rf_verification (snd ?g) = Unstated" by (auto simp: soft_pass_def split: prod.splits)
  have "maybe_reflect w gates ?tn = (?tn, [Ev_Reflect_Row V_Pass Unstated])"
    using assms(5-10) v by (simp add: maybe_reflect_def grade_of_def carry_effect(2) act_on_grade_def)
  then show ?thesis
    using assms(14) by (simp add: hooks_with_gates [OF assms(1,2) failing_not_empty [OF assms(3)] assms(4)] carry_effect(3) answers_def)
qed

text \<open>C39: the last retry is announced and not run. When a gate fails where the grade is deferred and the count stands
  one below the cap, the hooks announce one more retry and record its request; the loop, which compares the
  count after the step with the same cap, ends the turn.\<close>

theorem announced_retry_is_not_run:
  assumes "hw_gates_enabled (pw_hooks p)" "hw_gate_run (pw_hooks p) = Some gates" "failing gates \<noteq> []" "hw_reflect_enabled (pw_hooks p)"
    "\<not> hw_awaiting_user (pw_hooks p)" "\<not> hw_error (pw_hooks p)" "hw_deferred (pw_hooks p)" "hw_cap (pw_hooks p) = cap"
    "hw_min_messages (pw_hooks p) \<le> hw_substantive (pw_hooks p)"
    "reflect_count tn = cap - 1" "\<not> eval_retry_requested tn" "pw_finalizing p" "\<not> pw_pending p" "\<not> pw_pending_after p"
  shows "case loop_pass cap p tn of (a, tn', es) \<Rightarrow> a = Turn_Over \<and> Ev_Retry cap cap \<in> set es \<and> reflect_retry_requested tn'
    \<and> list_all (\<lambda>e. \<not> (case e of Ev_Exhausted _ _ \<Rightarrow> True | Ev_Exhausted_Notice _ \<Rightarrow> True | _ \<Rightarrow> False)) es"
proof -
  let ?w = "pw_hooks p" and ?tn = "carry_broken_notice gates tn"
  have ev: "eval_retry_requested (carry_broken_notice gates tn) = eval_retry_requested tn"
    by (simp add: carry_broken_notice_def Let_def)
  obtain tn' es where f: "apply_gate_retry_fallback cap gates ?tn = (tn', es)" by fastforce
  have t: "reflect_count tn' = cap" "reflect_retry_requested tn'" "\<not> eval_retry_requested tn'" "es = [Ev_Retry cap cap]"
    using f assms(3,10,11) ev by (auto simp: apply_gate_retry_fallback_def Let_def carry_effect(2))
  have "maybe_reflect ?w gates ?tn = (tn', es @ (if hw_synthetic ?w then [] else [Ev_Deferred_Scheduled]))"
    using assms(5-10) f by (simp add: maybe_reflect_def carry_effect(2))
  then show ?thesis
    using t assms(11-14)
    by (simp add: loop_pass_def hooks_with_gates [OF assms(1,2) failing_not_empty [OF assms(3)] assms(4)])
qed

section \<open>Late grades\<close>


text \<open>Without that setting, only a turn that nobody has moved past is graded.\<close>

lemma legacy_grades_latest_only:
  "deferred_reflect_task False l rows s g = Graded_Late why reply \<longleftrightarrow> why = None \<and> reply = [] \<and> l \<noteq> Live_Other \<and> deferred_reflect_seq s = df_ticket g
     \<and> \<not> real_turn_started s g \<and> current_turn_user_msg_id s = None \<and> current_state s = IDLE_READY"
  by (auto simp: deferred_reflect_task_def grade_despite_def deferred_grade_superseded_def Let_def split: option.splits if_splits)

text \<open>A turn that the harness started does not count as a move of the user.\<close>

lemma synthetic_turns_do_not_count:
  "\<forall>t. df_turn_id g < t \<and> t \<le> turn_id s \<longrightarrow> t \<in> synthetic_turn_ids s \<Longrightarrow> \<not> real_turn_started s g"
  by (auto simp: real_turn_started_def list_ex_iff)

text \<open>An attempt that a failing gate sends back is graded all the same, as the attempt after it.\<close>

theorem retried_attempt_is_graded:
  assumes "failing gates \<noteq> []" "reflect_count tn < hw_cap w" "hw_deferred w" "\<not> hw_synthetic w" "\<not> hw_awaiting_user w" "\<not> hw_error w"
    "hw_min_messages w \<le> hw_substantive w" "turn s = fst (maybe_reflect w gates tn)"
  shows "reflect_retry_requested (turn s) \<and> Ev_Deferred_Scheduled \<in> set (snd (maybe_reflect w gates tn))
    \<and> df_attempt (snd (schedule_deferred_reflect last_msg s)) = reflect_count tn + 2"
proof -
  obtain tn' es where f: "apply_gate_retry_fallback (hw_cap w) gates tn = (tn', es)" by fastforce
  then have t: "reflect_count tn' = reflect_count tn + 1" "reflect_retry_requested tn'"
    using assms(1,2) by (auto simp: apply_gate_retry_fallback_def Let_def)
  have m: "maybe_reflect w gates tn = (tn', es @ [Ev_Deferred_Scheduled])"
    using assms(2-7) f by (simp add: maybe_reflect_def)
  show ?thesis using t assms(8) by (simp add: m schedule_deferred_reflect_def Let_def)
qed

section \<open>Examples\<close>

definition demo_hooks :: "bool \<Rightarrow> string \<Rightarrow> hook_world" where
  "demo_hooks deferred t = \<lparr>hw_gates_enabled = True, hw_reflect_enabled = True, hw_deferred = deferred, hw_cap = 2, hw_min_messages = 3,
     hw_gate_run = Some [failing_gate], hw_awaiting_user = False, hw_error = False, hw_substantive = 5, hw_synthetic = False,
     hw_grade = grade_of demo_grader (\<lambda>_. []) (\<lambda>_. demo_turn []) (\<lambda>_ _. Reply_Text t), hw_remaining = Inf, hw_needed = 570,
     hw_ratio = (\<lambda>_ _. 0), hw_post_mortems = [], hw_turn_started = None, hw_exists = (\<lambda>_. True), hw_wording = (\<lambda>_ _. ''try again'')\<rparr>"

lemma demo_hooks_simps [simp]:
  "hw_gates_enabled (demo_hooks b t)" "hw_reflect_enabled (demo_hooks b t)" "hw_deferred (demo_hooks b t) = b" "hw_cap (demo_hooks b t) = 2"
  "hw_gate_run (demo_hooks b t) = Some [failing_gate]" "\<not> hw_awaiting_user (demo_hooks b t)" "\<not> hw_error (demo_hooks b t)"
  "hw_min_messages (demo_hooks b t) \<le> hw_substantive (demo_hooks b t)"
  "hw_grade (demo_hooks b t) = grade_of demo_grader (\<lambda>_. []) (\<lambda>_. demo_turn []) (\<lambda>_ _. Reply_Text t)"
  by (simp_all add: demo_hooks_def)

lemma demo_failing: "failing [failing_gate] \<noteq> []"
  by (simp add: failing_gate_def failing_def gate_result_of_def)

lemma demo_grade_with: "grade_with demo_grader (\<lambda>_. []) (\<lambda>_. demo_turn []) (\<lambda>_ _. Reply_Text t) n [failing_gate] = graded_as t [failing_gate]"
  by (simp add: grade_with_def demo_turn_def)


theorem outage_silences_gate_witness: "\<not> list_ex answers (snd (post_task_hooks (demo_hooks False ''?'') new_turn))"
proof -
  have "fst (graded_as ''?'' [failing_gate]) = Parse_Exhausted" by code_simp
  then have "\<forall>k. fst (grade_with demo_grader (\<lambda>_. []) (\<lambda>_. demo_turn []) (\<lambda>_ _. Reply_Text ''?'') (reflect_count new_turn + 1) [failing_gate]) \<noteq> Graded k"
    by (simp add: demo_grade_with)
  moreover have "reflect_count new_turn < hw_cap (demo_hooks False ''?'')" "\<not> reflect_retry_requested new_turn"
    "gi_request (demo_turn []) \<noteq> []" "gi_evidence (demo_turn []) \<noteq> []" by (simp_all add: new_turn_def demo_turn_def)
  ultimately have "\<not> reflect_retry_requested (fst (post_task_hooks (demo_hooks False ''?'') new_turn))
    \<and> \<not> list_ex answers (snd (post_task_hooks (demo_hooks False ''?'') new_turn))
    \<and> Ev_Reflect_Row V_Pass Unstated \<in> set (snd (post_task_hooks (demo_hooks False ''?'') new_turn))"
    by (intro outage_silences_gate [where gates = "[failing_gate]" and inp = "\<lambda>_. demo_turn []" and env = demo_grader
          and why = "\<lambda>_. []" and replies = "\<lambda>_ _. Reply_Text ''?''"]) (simp_all add: demo_failing)
  then show ?thesis by blast
qed

definition demo_pass_world :: pass_world where
  "demo_pass_world = \<lparr>pw_hooks = demo_hooks True ''p'', pw_pending = False, pw_pending_after = False, pw_finalizing = True, pw_finalizing_after = True\<rparr>"

theorem announced_retry_is_not_run_witness:
  "fst (loop_pass 2 demo_pass_world (new_turn\<lparr>reflect_count := 1\<rparr>)) = Turn_Over"
proof -
  have "case loop_pass 2 demo_pass_world (new_turn\<lparr>reflect_count := 1\<rparr>) of (a, tn', es) \<Rightarrow> a = Turn_Over \<and> Ev_Retry 2 2 \<in> set es \<and> reflect_retry_requested tn'
    \<and> list_all (\<lambda>e. \<not> (case e of Ev_Exhausted _ _ \<Rightarrow> True | Ev_Exhausted_Notice _ \<Rightarrow> True | _ \<Rightarrow> False)) es"
    by (rule announced_retry_is_not_run [where gates = "[failing_gate]"]) (simp_all add: demo_pass_world_def demo_failing new_turn_def)
  then show ?thesis by (simp split: prod.splits)
qed

definition demo_snapshot :: deferred_grade where
  "demo_snapshot = \<lparr>df_ticket = 1, df_turn_id = 1, df_user_msg = Some 5, df_last_msg = Some 9, df_attempt = 1\<rparr>"


end
